(* ===== verification/Prelude.thy ===== *)
theory Prelude
  imports Complex_Main "HOL-Library.Signed_Division"
begin

unbundle bit_operations_syntax

text \<open>
  Shared vocabulary of the development.

  \<^item> JavaScript \<open>bigint\<close> values, and \<open>number\<close> values the source uses as safe integers, are \<open>int\<close>.
    \<open>bigint\<close> division truncates towards zero and throws a \<open>RangeError\<close> on a zero divisor:
    \<open>bigDiv\<close>. Shifts are \<open>push_bit\<close> and \<open>drop_bit\<close> (the right shift of a \<open>bigint\<close> is
    arithmetic, that is it rounds towards minus infinity).
  \<^item> A function that can throw returns \<open>'a result\<close>: \<open>Inl\<close> the exception, \<open>Inr\<close> the value;
    \<open>bindR\<close> sequences two of them, so that the first exception wins, as in the source.
  \<^item> Decimal text (\<open>toString\<close>, \<open>padStart\<close>, \<open>BigInt(text)\<close>) is \<open>string\<close>.

  The collection \<open>result_simps\<close> unfolds the sequencing, \<open>model_defs\<close> the constants of the protocol.
\<close>

named_theorems result_simps \<open>sequencing of throwing computations\<close>
named_theorems model_defs \<open>protocol constants\<close>

section \<open>Exceptions\<close>

datatype exn =
    JsError string
  | RangeError
  | SyntaxError
  | DomainException int string
  | NotFoundException string
  | ConflictException string
  | PrismaError string
  | HttpException int string

type_synonym 'a result = "exn + 'a"

definition bindR :: "'a result \<Rightarrow> ('a \<Rightarrow> 'b result) \<Rightarrow> 'b result" where
  "bindR m f = (case m of Inl e \<Rightarrow> Inl e | Inr x \<Rightarrow> f x)"

lemma bindR_Inr [simp, result_simps]: "bindR (Inr x) f = f x"
  by (simp add: bindR_def)

lemma bindR_Inl [simp, result_simps]: "bindR (Inl e) f = Inl e"
  by (simp add: bindR_def)

lemma bindR_eq_Inr_iff [result_simps]:
  "bindR m f = Inr y \<longleftrightarrow> (\<exists>x. m = Inr x \<and> f x = Inr y)"
  by (simp add: bindR_def split: sum.split)

lemma bindR_cong [fundef_cong]:
  assumes "m = n" and "\<And>x. n = Inr x \<Longrightarrow> f x = g x"
  shows "bindR m f = bindR n g"
  using assms by (cases n) simp_all

lemma bindR_eq_Inl_iff:
  "bindR m f = Inl e \<longleftrightarrow> m = Inl e \<or> (\<exists>x. m = Inr x \<and> f x = Inl e)"
  by (cases m) simp_all

lemma bindR_assoc: "bindR (bindR m f) g = bindR m (\<lambda>x. bindR (f x) g)"
  by (cases m) simp_all

lemma bindR_InrE:
  assumes "bindR m f = Inr y"
  obtains x where "m = Inr x" and "f x = Inr y"
  using assms by (auto simp: bindR_eq_Inr_iff)

text \<open>Does a computation return a value?\<close>

definition returns :: "'a result \<Rightarrow> bool" where
  "returns m = (case m of Inl _ \<Rightarrow> False | Inr _ \<Rightarrow> True)"

lemma returns_iff: "returns m \<longleftrightarrow> (\<exists>x. m = Inr x)"
  by (cases m) (simp_all add: returns_def)

lemma returns_simps [simp]: "returns (Inr x)" "\<not> returns (Inl e)"
  by (simp_all add: returns_def)

section \<open>Arithmetic of \<open>bigint\<close>\<close>

definition bigDiv :: "int \<Rightarrow> int \<Rightarrow> int result" where
  "bigDiv a b = (if b = 0 then Inl RangeError else Inr (a sdiv b))"

definition bigMod :: "int \<Rightarrow> int \<Rightarrow> int result" where
  "bigMod a b = (if b = 0 then Inl RangeError else Inr (a smod b))"

lemma sdiv_nonneg: "0 \<le> a \<Longrightarrow> 0 \<le> b \<Longrightarrow> a sdiv b = a div (b::int)"
  by (cases "a = 0"; cases "b = 0") (simp_all add: signed_divide_int_def)

lemma smod_nonneg: "0 \<le> a \<Longrightarrow> 0 \<le> b \<Longrightarrow> a smod b = a mod (b::int)"
  by (cases "a = 0") (simp_all add: signed_modulo_int_def)

lemma bigDiv_pos: "0 \<le> a \<Longrightarrow> 0 < b \<Longrightarrow> bigDiv a b = Inr (a div b)"
  by (simp add: bigDiv_def sdiv_nonneg)

lemma bigMod_pos: "0 \<le> a \<Longrightarrow> 0 < b \<Longrightarrow> bigMod a b = Inr (a mod b)"
  by (simp add: bigMod_def smod_nonneg)

lemma bigDiv_Inr_iff: "bigDiv a b = Inr q \<longleftrightarrow> b \<noteq> 0 \<and> q = a sdiv b"
  by (auto simp: bigDiv_def)

text \<open>Floor and ceiling of a quotient by a positive divisor, as inequalities.\<close>

lemma floor_div_bounds:
  assumes "0 < (d::int)"
  shows "(a div d) * d \<le> a" and "a < (a div d + 1) * d"
proof -
  have eq: "a = (a div d) * d + a mod d" by simp
  have r: "0 \<le> a mod d" "a mod d < d" using assms by simp_all
  have "(a div d + 1) * d = (a div d) * d + d" by (simp add: distrib_right)
  with eq r show "(a div d) * d \<le> a" and "a < (a div d + 1) * d"
    by linarith+
qed

lemma le_div_iff:
  assumes "0 < (d::int)"
  shows "q \<le> a div d \<longleftrightarrow> q * d \<le> a"
proof
  assume "q \<le> a div d"
  then have "q * d \<le> (a div d) * d" using assms by simp
  then show "q * d \<le> a" using floor_div_bounds(1) [OF assms, of a] by linarith
next
  assume "q * d \<le> a"
  then have "q * d < (a div d + 1) * d" using floor_div_bounds(2) [OF assms, of a] by linarith
  then show "q \<le> a div d" using assms by (simp add: mult_less_cancel_right)
qed

section \<open>Bounded values\<close>

definition clampTo :: "int \<Rightarrow> int \<Rightarrow> int \<Rightarrow> int" where
  "clampTo lo hi x = min (max x lo) hi"

lemma clampTo_bounds: "lo \<le> hi \<Longrightarrow> lo \<le> clampTo lo hi x \<and> clampTo lo hi x \<le> hi"
  by (auto simp: clampTo_def)

lemma clampTo_id: "lo \<le> x \<Longrightarrow> x \<le> hi \<Longrightarrow> clampTo lo hi x = x"
  by (simp add: clampTo_def)

end
