(* ===== verification/Decimal.thy ===== *)
theory Decimal
  imports Prelude
begin

text \<open>
  Decimal text as the source prints and reads it: \<open>x.toString()\<close> of a \<open>bigint\<close> or safe integer,
  \<open>s.padStart(width, '0')\<close> and \<open>BigInt(s)\<close> of a digit string. The lemmas are the round trip of
  printing and reading, the length of the printed text, and the comparison of two digit strings
  by length and then by character, which is the comparison of their values.
\<close>

definition digitChar :: "nat \<Rightarrow> char" where
  "digitChar d = char_of (48 + d)"

definition digitVal :: "char \<Rightarrow> nat" where
  "digitVal c = of_char c - 48"

definition isDigit :: "char \<Rightarrow> bool" where
  "isDigit c \<longleftrightarrow> 48 \<le> (of_char c :: nat) \<and> (of_char c :: nat) \<le> 57"

fun decDigits :: "nat \<Rightarrow> string" where
  "decDigits n = (if n < 10 then [digitChar n] else decDigits (n div 10) @ [digitChar (n mod 10)])"

declare decDigits.simps [simp del]

definition toString :: "int \<Rightarrow> string" where
  "toString i = (if i < 0 then CHR ''-'' # decDigits (nat (- i)) else decDigits (nat i))"

definition parseDec :: "string \<Rightarrow> nat" where
  "parseDec = foldl (\<lambda>a c. 10 * a + digitVal c) 0"

definition padStart :: "nat \<Rightarrow> string \<Rightarrow> string" where
  "padStart w s = replicate (w - length s) (CHR ''0'') @ s"

section \<open>Digits\<close>

lemma of_char_digitChar: "d < 10 \<Longrightarrow> (of_char (digitChar d) :: nat) = 48 + d"
  by (simp add: digitChar_def)

lemma digitVal_digitChar [simp]: "d < 10 \<Longrightarrow> digitVal (digitChar d) = d"
  by (simp add: digitVal_def of_char_digitChar)

lemma isDigit_digitChar [simp]: "d < 10 \<Longrightarrow> isDigit (digitChar d)"
  by (simp add: isDigit_def of_char_digitChar)

lemma digitVal_less: "isDigit c \<Longrightarrow> digitVal c < 10"
  by (simp add: isDigit_def digitVal_def) arith

lemma digitChar_0: "digitChar 0 = CHR ''0''"
  by code_simp

lemma digitVal_0 [simp]: "digitVal (CHR ''0'') = 0"
  by (simp add: digitVal_def)

lemma isDigit_0 [simp]: "isDigit (CHR ''0'')"
  by (simp add: isDigit_def)

lemma digitVal_inject: "isDigit c \<Longrightarrow> isDigit d \<Longrightarrow> digitVal c = digitVal d \<Longrightarrow> c = d"
proof -
  assume "isDigit c" "isDigit d" "digitVal c = digitVal d"
  then have "(of_char c :: nat) = of_char d" unfolding isDigit_def digitVal_def by linarith
  then show "c = d" by simp
qed

section \<open>Printing and reading\<close>

lemma parseDec_Nil [simp]: "parseDec [] = 0"
  by (simp add: parseDec_def)

lemma parseDec_snoc [simp]: "parseDec (s @ [c]) = 10 * parseDec s + digitVal c"
  by (simp add: parseDec_def)

lemma parseDec_append: "parseDec (s @ t) = parseDec s * 10 ^ length t + parseDec t"
  by (induction t rule: rev_induct)
    (simp_all flip: append_assoc add: algebra_simps)

lemma parseDec_zeros [simp]: "parseDec (replicate k (CHR ''0'')) = 0"
proof (induction k)
  case (Suc k)
  have "replicate (Suc k) (CHR ''0'') = replicate k (CHR ''0'') @ [CHR ''0'']"
    by (simp add: replicate_append_same)
  with Suc show ?case by (simp del: replicate.simps)
qed simp

lemma parseDec_less: "\<forall>c\<in>set s. isDigit c \<Longrightarrow> parseDec s < 10 ^ length s"
proof (induction s rule: rev_induct)
  case (snoc c s)
  then have "parseDec s < 10 ^ length s" "digitVal c < 10" by (simp_all add: digitVal_less)
  then show ?case by simp
qed simp

lemma parseDec_decDigits [simp]: "parseDec (decDigits n) = n"
proof (induction n rule: decDigits.induct)
  case (1 n)
  show ?case
  proof (cases "n < 10")
    case True
    then show ?thesis by (simp add: decDigits.simps [of n] parseDec_def)
  next
    case False
    then show ?thesis using 1 by (subst decDigits.simps) simp
  qed
qed

lemma isDigit_decDigits: "\<forall>c\<in>set (decDigits n). isDigit c"
proof (induction n rule: decDigits.induct)
  case (1 n)
  then show ?case by (subst decDigits.simps) (cases "n < 10"; simp)
qed

lemma decDigits_nonempty [simp]: "decDigits n \<noteq> []"
  by (subst decDigits.simps) simp

lemma decDigits_inject [simp]: "decDigits m = decDigits n \<longleftrightarrow> m = n"
  by (metis parseDec_decDigits)

lemma decDigits_length_le: "n < 10 ^ k \<Longrightarrow> 0 < k \<Longrightarrow> length (decDigits n) \<le> k"
proof (induction n arbitrary: k rule: decDigits.induct)
  case (1 n)
  show ?case
  proof (cases "n < 10")
    case True
    then show ?thesis using 1(3) by (simp add: decDigits.simps [of n])
  next
    case False
    obtain j where k: "k = Suc j" using 1(3) by (cases k) auto
    with False 1(2) have j: "0 < j" by (cases j) auto
    have "n div 10 < 10 ^ j" using 1(2) k by simp
    from 1(1) [OF False this j] show ?thesis
      using False k by (simp add: decDigits.simps [of n])
  qed
qed

lemma decDigits_length_ge: "10 ^ k \<le> n \<Longrightarrow> Suc k \<le> length (decDigits n)"
proof (rule ccontr)
  assume le: "10 ^ k \<le> n" and "\<not> Suc k \<le> length (decDigits n)"
  then have "length (decDigits n) \<le> k" by simp
  then have "(10::nat) ^ length (decDigits n) \<le> 10 ^ k" by (simp add: power_increasing)
  moreover have "n < 10 ^ length (decDigits n)"
    using parseDec_less [OF isDigit_decDigits, of n] by simp
  ultimately show False using le by linarith
qed

lemma length_padStart [simp]: "length (padStart w s) = max w (length s)"
  by (simp add: padStart_def)

lemma parseDec_padStart [simp]: "parseDec (padStart w s) = parseDec s"
  by (simp add: padStart_def parseDec_append)

lemma isDigit_padStart: "\<forall>c\<in>set s. isDigit c \<Longrightarrow> \<forall>c\<in>set (padStart w s). isDigit c"
  by (auto simp: padStart_def)

lemma toString_chars: "list_all (\<lambda>c. isDigit c \<or> c = CHR ''-'') (toString i)"
  using isDigit_decDigits by (auto simp: toString_def list_all_iff)

lemma toString_inject [simp]: "toString i = toString j \<longleftrightarrow> i = j"
proof
  assume e: "toString i = toString j"
  have m: "CHR ''-'' \<notin> set (decDigits n)" for n using isDigit_decDigits [of n] by (auto simp: isDigit_def)
  then show "i = j" using e m [of "nat i"] m [of "nat j"]
    by (auto simp: toString_def split: if_splits) (metis list.set_intros(1))+
qed simp

lemma toString_nonneg: "0 \<le> i \<Longrightarrow> toString i = decDigits (nat i)"
  by (simp add: toString_def)

section \<open>Digit strings compare by length, then by character\<close>

lemma parseDec_Cons: "parseDec (c # s) = digitVal c * 10 ^ length s + parseDec s"
  using parseDec_append [of "[c]" s] by (simp add: parseDec_def)

lemma parseDec_inject_length:
  assumes "length s = length t" "\<forall>c\<in>set s. isDigit c" "\<forall>c\<in>set t. isDigit c"
    and "parseDec s = parseDec t"
  shows "s = t"
  using assms
proof (induction s arbitrary: t rule: rev_induct)
  case (snoc c s)
  then obtain d u where t: "t = u @ [d]" by (metis length_0_conv rev_exhaust snoc_eq_iff_butlast)
  have c: "digitVal c < 10" and d: "digitVal d < 10" using snoc.prems t by (simp_all add: digitVal_less)
  have eq: "10 * parseDec s + digitVal c = 10 * parseDec u + digitVal d" using snoc.prems(4) t by simp
  have v: "digitVal c = digitVal d" using arg_cong [OF eq, of "\<lambda>x. x mod 10"] c d by simp
  with eq have p: "parseDec s = parseDec u" by simp
  have "s = u" using snoc t p by simp
  moreover have "c = d" using digitVal_inject [OF _ _ v] snoc.prems t by simp
  ultimately show ?case using t by simp
qed simp

end
