(* ===== verification/TickMath.thy ===== *)
theory TickMath
  imports Decimal
begin

text \<open>
  Model of \<open>src/src/protocol/tick-math.ts\<close> and of the tick constants of
  \<open>src/src/protocol/protocol-constants.ts\<close>.
\<close>

definition MIN_TICK :: int where [model_defs]: "MIN_TICK = - 887272"
definition MAX_TICK :: int where [model_defs]: "MAX_TICK = 887272"
definition MIN_SQRT_PRICE :: int where [model_defs]: "MIN_SQRT_PRICE = 4295128739"
definition MAX_SQRT_PRICE :: int where [model_defs]:
  "MAX_SQRT_PRICE = 1461446703485210103287273052203988822378723970342"

definition UINT32_MAX :: int where [model_defs]: "UINT32_MAX = 0xffffffff"
definition MAX_UINT256 :: int where [model_defs]: "MAX_UINT256 = push_bit 256 1 - 1"

text \<open>One conditional halving step of \<open>mostSignificantBit\<close>.\<close>

definition msbStep :: "nat \<Rightarrow> int \<times> int \<Rightarrow> int \<times> int" where
  "msbStep k = (\<lambda>(msb, x). if push_bit k 1 \<le> x then (msb + int k, drop_bit k x) else (msb, x))"

definition mostSignificantBit :: "int \<Rightarrow> int result" where
  "mostSignificantBit x =
     (if x = 0 then Inl (JsError ''msb of zero'')
      else Inr (fst (foldl (\<lambda>s k. msbStep k s) (0, x) [128, 64, 32, 16, 8, 4, 2, 1])))"

definition ratioTable :: "(int \<times> int) list" where
  "ratioTable =
    [(0x2, 0xfff97272373d413259a46990580e213a),
     (0x4, 0xfff2e50f5f656932ef12357cf3c7fdcc),
     (0x8, 0xffe5caca7e10e4e61c3624eaa0941cd0),
     (0x10, 0xffcb9843d60f6159c9db58835c926644),
     (0x20, 0xff973b41fa98c081472e6896dfb254c0),
     (0x40, 0xff2ea16466c96a3843ec78b326b52861),
     (0x80, 0xfe5dee046a99a2a811c461f1969c3053),
     (0x100, 0xfcbe86c7900a88aedcffc83b479aa3a4),
     (0x200, 0xf987a7253ac413176f2b074cf7815e54),
     (0x400, 0xf3392b0822b70005940c7a398e4b70f3),
     (0x800, 0xe7159475a2c29b7443b29c7fa6e889d9),
     (0x1000, 0xd097f3bdfd2022b8845ad8f792aa5825),
     (0x2000, 0xa9f746462d870fdf8a65dc1f90e061e5),
     (0x4000, 0x70d869a156d2a1b890bb3df62baf32f7),
     (0x8000, 0x31be135f97d08fd981231505542fcfa6),
     (0x10000, 0x9aa508b5b7a84e1c677de54f3e99bc9),
     (0x20000, 0x5d6af8dedb81196699c329225ee604),
     (0x40000, 0x2216e584f5fa1ea926041bedfe98),
     (0x80000, 0x48a170391f7dc42444e8fa2)]"

definition ratioAtAbsTick :: "int \<Rightarrow> int" where
  "ratioAtAbsTick absTick =
     foldl (\<lambda>price (mask, ratio). if absTick AND mask \<noteq> 0 then drop_bit 128 (price * ratio) else price)
       (if absTick AND 0x1 \<noteq> 0 then 0xfffcb933bd6fad37aa2d162d1a594001 else push_bit 128 1)
       ratioTable"

definition getSqrtPriceAtTick :: "int \<Rightarrow> int result" where
  "getSqrtPriceAtTick tick =
     (let absTick = \<bar>tick\<bar> in
      if absTick > MAX_TICK then Inl (JsError (''Tick '' @ toString tick @ '' out of range''))
      else
        let price = ratioAtAbsTick absTick in
        bindR (if tick > 0 then bigDiv MAX_UINT256 price else Inr price)
          (\<lambda>price. Inr (drop_bit 32 (price + UINT32_MAX))))"

text \<open>The loop \<open>for (let shift = 63n; shift >= 0n; shift--)\<close>; \<open>n\<close> counts the iterations left.\<close>

fun logLoop :: "nat \<Rightarrow> int \<Rightarrow> int \<Rightarrow> int" where
  "logLoop 0 r log2 = log2"
| "logLoop (Suc shift) r log2 =
     (let r = drop_bit 127 (r * r);
          f = drop_bit 128 r;
          log2 = log2 OR push_bit shift f;
          r = drop_bit (nat f) r
      in logLoop shift r log2)"

definition getTickAtSqrtPrice :: "int \<Rightarrow> int result" where
  "getTickAtSqrtPrice sqrtPriceX96 =
     (if sqrtPriceX96 < MIN_SQRT_PRICE \<or> sqrtPriceX96 \<ge> MAX_SQRT_PRICE
      then Inl (JsError ''SqrtPrice out of range'')
      else
        let price = push_bit 32 sqrtPriceX96 in
        bindR (mostSignificantBit price) (\<lambda>msb.
        let r = (if msb \<ge> 128 then drop_bit (nat (msb - 127)) price
                 else push_bit (nat (127 - msb)) price);
            log2 = logLoop 64 r (push_bit 64 (msb - 128));
            logSqrt10001 = log2 * 255738958999603826347141;
            tickLow = drop_bit 128 (logSqrt10001 - 3402992956809132418596140100660247210);
            tickHi = drop_bit 128 (logSqrt10001 + 291339464771989622907027621153398088495)
        in if tickLow = tickHi then Inr tickLow
           else bindR (getSqrtPriceAtTick tickHi)
                  (\<lambda>p. Inr (if p \<le> sqrtPriceX96 then tickHi else tickLow))))"

section \<open>The most significant bit\<close>

definition msbInv :: "int \<Rightarrow> nat \<Rightarrow> int \<times> int \<Rightarrow> bool" where
  "msbInv x w = (\<lambda>(m, y). 0 \<le> m \<and> y = drop_bit (nat m) x \<and> 0 < y \<and> y < 2 ^ w)"

lemma msbStep_inv:
  assumes "msbInv x (2 * k) s"
  shows "msbInv x k (msbStep k s)"
proof -
  obtain m y where s: "s = (m, y)" by force
  from assms s have inv: "0 \<le> m" "y = drop_bit (nat m) x" "0 < y" "y < 2 ^ (2 * k)"
    by (simp_all add: msbInv_def)
  show ?thesis
  proof (cases "push_bit k 1 \<le> y")
    case True
    then have ge: "2 ^ k \<le> y" by (simp add: push_bit_eq_mult)
    have "y div 2 ^ k < 2 ^ k"
      using inv(4) le_div_iff [of "2 ^ k" "2 ^ k" y] by (simp add: mult_2 power_add)
    moreover have "0 < y div 2 ^ k" using ge by (simp add: pos_imp_zdiv_pos_iff)
    moreover have "drop_bit k y = drop_bit (nat (m + int k)) x"
      using inv(1,2) by (simp add: nat_add_distrib drop_bit_drop_bit add.commute)
    ultimately show ?thesis using True inv(1) by (simp add: s msbStep_def msbInv_def drop_bit_eq_div)
  next
    case False
    then show ?thesis using inv by (simp add: s msbStep_def msbInv_def push_bit_eq_mult)
  qed
qed

lemma msbInv_one: "msbInv x 1 (m, y) \<Longrightarrow> 0 \<le> m \<and> 2 ^ nat m \<le> x \<and> x < 2 ^ (nat m + 1)"
proof -
  assume "msbInv x 1 (m, y)"
  then have m: "0 \<le> m" and y: "x div 2 ^ nat m = 1" by (auto simp: msbInv_def drop_bit_eq_div)
  have "(x div 2 ^ nat m) * 2 ^ nat m \<le> x" "x < (x div 2 ^ nat m + 1) * 2 ^ nat m"
    by (simp_all only: floor_div_bounds zero_less_power zero_less_numeral)
  with m y show ?thesis by simp
qed

lemma msbFold_inv:
  "msbInv x (2 ^ n) s \<Longrightarrow> msbInv x 1 (foldl (\<lambda>s k. msbStep k s) s (map ((^) 2) (rev [0..<n])))"
proof (induction n arbitrary: s)
  case (Suc n)
  from Suc.prems have "msbInv x (2 ^ n) (msbStep (2 ^ n) s)" by (intro msbStep_inv) simp
  from Suc.IH [OF this] show ?case by simp
qed simp

lemma mostSignificantBit_spec:
  assumes "0 < x" and "x < 2 ^ 256"
  obtains m where "mostSignificantBit x = Inr m" and "0 \<le> m" and "m < 256"
    and "2 ^ nat m \<le> x" and "x < 2 ^ (nat m + 1)"
proof -
  define s where "s = foldl (\<lambda>s k. msbStep k s) (0, x) [128, 64, 32, 16, 8, 4, 2, 1]"
  have ks: "[128, 64, 32, 16, 8, 4, 2, 1] = map ((^) (2::nat)) (rev [0..<8])" by code_simp
  have "msbInv x (2 ^ 8) (0, x)" using assms by (simp add: msbInv_def)
  then have "msbInv x 1 s" unfolding s_def ks by (rule msbFold_inv)
  then have b: "0 \<le> fst s \<and> 2 ^ nat (fst s) \<le> x \<and> x < 2 ^ (nat (fst s) + 1)"
    using msbInv_one [of x "fst s" "snd s"] by simp
  then have "(2::int) ^ nat (fst s) < 2 ^ 256" using assms(2) by linarith
  then have "nat (fst s) < 256" by (rule power_less_imp_less_exp [rotated]) simp
  then have "fst s < 256" by simp
  with b assms show thesis
    by (intro that [of "fst s"]) (simp_all add: mostSignificantBit_def s_def)
qed

section \<open>The ratio table\<close>

definition ratioConsts :: "int list" where
  "ratioConsts = 0xfffcb933bd6fad37aa2d162d1a594001 # map snd ratioTable"

fun floorRatio :: "int list \<Rightarrow> nat \<Rightarrow> int \<Rightarrow> int" where
  "floorRatio [] n p = p"
| "floorRatio (c # cs) n p = floorRatio cs (n div 2) (if odd n then p * c div 2 ^ 128 else p)"

fun exactRatio :: "int list \<Rightarrow> nat \<Rightarrow> real" where
  "exactRatio [] n = 1"
| "exactRatio (c # cs) n = (if odd n then of_int c / 2 ^ 128 else 1) * exactRatio cs (n div 2)"

lemma ratioTable_masks: "map fst ratioTable = map (\<lambda>i. 2 ^ i) [1..<20]"
  by code_simp

lemma foldl_maskRatio:
  assumes "map fst tbl = map (\<lambda>i. 2 ^ i) [k..<k + length tbl]"
  shows "foldl (\<lambda>price (mask, ratio). if int n AND mask \<noteq> 0 then drop_bit 128 (price * ratio) else price) p tbl
         = floorRatio (map snd tbl) (n div 2 ^ k) p"
  using assms
proof (induction tbl arbitrary: k p)
  case (Cons e tbl)
  obtain mask ratio where e: "e = (mask, ratio)" by force
  have upt: "[k..<k + length (e # tbl)] = k # [Suc k..<Suc k + length tbl]"
    by (simp add: upt_rec)
  have mask: "mask = 2 ^ k" and tl: "map fst tbl = map (\<lambda>i. 2 ^ i) [Suc k..<Suc k + length tbl]"
    using Cons.prems unfolding upt by (simp_all add: e)
  have "(int n AND mask \<noteq> 0) = odd (n div 2 ^ k)"
    unfolding mask and_exp_eq_0_iff_not_bit bit_iff_odd
    by (metis even_of_nat of_nat_numeral of_nat_power zdiv_int)
  moreover have "n div 2 ^ k div 2 = n div 2 ^ Suc k" by (simp flip: div_mult2_eq add: mult.commute)
  ultimately show ?case using Cons.IH [OF tl] by (simp add: e drop_bit_eq_div)
qed simp

lemma ratioAtAbsTick_floorRatio: "ratioAtAbsTick (int n) = floorRatio ratioConsts n (2 ^ 128)"
proof -
  have len: "length ratioTable = 19" by (simp add: ratioTable_def)
  have "int n AND 1 \<noteq> 0 \<longleftrightarrow> odd n" by (simp add: and_one_eq mod_2_eq_odd)
  with foldl_maskRatio [of ratioTable 1 n] ratioTable_masks show ?thesis
    by (simp add: ratioAtAbsTick_def ratioConsts_def len push_bit_eq_mult)
qed


definition validRatio :: "int \<Rightarrow> bool" where
  "validRatio c \<longleftrightarrow> 0 < c \<and> c \<le> 2 ^ 128"

lemma validRatioD: "validRatio c \<Longrightarrow> 0 < c" "validRatio c \<Longrightarrow> c \<le> 2 ^ 128"
  by (simp_all add: validRatio_def)

lemma ratioConsts_valid: "list_all validRatio ratioConsts"
  by code_simp

lemma exactRatio_bounds:
  assumes "list_all validRatio cs"
  shows "0 < exactRatio cs n \<and> exactRatio cs n \<le> 1"
  using assms
proof (induction cs arbitrary: n)
  case (Cons c cs)
  define f where "f = (if odd n then of_int c / 2 ^ 128 else (1::real))"
  have c: "0 < c" "real_of_int c \<le> 2 ^ 128"
    using Cons.prems of_int_le_iff [where 'a = real, of c "2 ^ 128"] by (simp_all add: validRatio_def)
  then have "0 < f" "f \<le> 1" by (simp_all add: f_def)
  moreover have "0 < exactRatio cs (n div 2)" "exactRatio cs (n div 2) \<le> 1"
    using Cons by simp_all
  ultimately have "0 < f * exactRatio cs (n div 2)" "f * exactRatio cs (n div 2) \<le> 1"
    by (simp_all add: mult_le_one)
  then show ?case by (simp add: f_def)
qed simp

lemma floorRatio_nonneg: "list_all validRatio cs \<Longrightarrow> 0 \<le> p \<Longrightarrow> 0 \<le> floorRatio cs n p"
proof (induction cs n p rule: floorRatio.induct)
  case (2 c cs n p)
  have "0 \<le> (if odd n then p * c div 2 ^ 128 else p)" using 2(2,3) validRatioD(1) [of c] by (simp add: pos_imp_zdiv_nonneg_iff)
  with 2(1,2) show ?case by simp
qed simp

lemma floor_real_bounds:
  assumes "0 < (d::int)"
  shows "of_int (a div d) \<le> real_of_int a / of_int d" and "real_of_int a / of_int d - 1 \<le> of_int (a div d)"
proof -
  have "real_of_int (a div d * d) \<le> of_int a" "real_of_int a < of_int ((a div d + 1) * d)"
    using floor_div_bounds [OF assms, of a] by (simp_all only: of_int_le_iff of_int_less_iff)
  with assms show "of_int (a div d) \<le> real_of_int a / of_int d" "real_of_int a / of_int d - 1 \<le> of_int (a div d)"
    by (simp_all add: field_simps)
qed

lemma floorRatio_bounds:
  assumes "list_all validRatio cs" and "0 \<le> p"
  shows "of_int (floorRatio cs n p) \<le> of_int p * exactRatio cs n
    \<and> of_int p * exactRatio cs n - length cs \<le> of_int (floorRatio cs n p)"
  using assms
proof (induction cs arbitrary: n p)
  case (Cons c cs)
  define p' where "p' = (if odd n then p * c div 2 ^ 128 else p)"
  define f where "f = (if odd n then of_int c / 2 ^ 128 else (1::real))"
  define S where "S = exactRatio cs (n div 2)"
  have v: "list_all validRatio cs" "0 < c" using Cons.prems(1) by (simp_all add: validRatioD)
  have S: "0 < S" "S \<le> 1" using exactRatio_bounds [OF v(1)] by (simp_all add: S_def)
  have p': "0 \<le> p'" using Cons.prems v by (simp add: p'_def pos_imp_zdiv_nonneg_iff)
  have le: "of_int p' \<le> of_int p * f" and ge: "of_int p * f - 1 \<le> of_int p'"
    using floor_real_bounds [of "2 ^ 128" "p * c"] by (simp_all add: p'_def f_def)
  from Cons.IH [OF v(1) p', of "n div 2"]
  have ih: "of_int (floorRatio cs (n div 2) p') \<le> of_int p' * S"
    "of_int p' * S - length cs \<le> of_int (floorRatio cs (n div 2) p')" by (simp_all add: S_def)
  have "of_int p' * S \<le> (of_int p * f) * S" using le S by simp
  moreover have "(of_int p * f - 1) * S \<le> of_int p' * S" using ge S by (simp add: mult_right_mono)
  moreover have "(of_int p * f) * S - 1 \<le> (of_int p * f - 1) * S" using S by (simp add: left_diff_distrib)
  ultimately have "of_int (floorRatio cs (n div 2) p') \<le> of_int p * (f * S)"
    "of_int p * (f * S) - (length cs + 1) \<le> of_int (floorRatio cs (n div 2) p')"
    using ih by (simp_all add: mult.assoc)
  then show ?case by (simp add: p'_def f_def S_def)
qed simp

section \<open>One tick is a factor below 1\<close>

fun stepChain :: "int list \<Rightarrow> int list \<Rightarrow> bool" where
  "stepChain [] [] = True"
| "stepChain (q # qs) (c # cs) =
     (c \<le> q \<and> (case qs of [] \<Rightarrow> True | q' # _ \<Rightarrow> q' * 2 ^ 128 \<le> q * c) \<and> stepChain qs cs)"
| "stepChain _ _ = False"

lemma exactRatio_step:
  assumes "stepChain qs cs" "list_all validRatio cs" "n + 1 < 2 ^ length cs"
  shows "exactRatio cs (n + 1) \<le> of_int (hd qs) / 2 ^ 128 * exactRatio cs n"
  using assms
proof (induction qs cs arbitrary: n rule: stepChain.induct)
  case (2 q qs c cs)
  have c: "0 < c" "list_all validRatio cs" using 2(3) by (simp_all add: validRatioD)
  show ?case
  proof (cases "odd n")
    case False
    have "0 < exactRatio cs (n div 2)" using exactRatio_bounds [OF c(2)] by simp
    with False 2(2) show ?thesis by (simp add: divide_right_mono mult_right_mono)
  next
    case True
    define n' where "n' = n div 2"
    have n: "n = 2 * n' + 1" using True by (simp add: n'_def)
    have lt: "n' + 1 < 2 ^ length cs" using 2(4) n by simp
    then obtain q' qs' where qs: "qs = q' # qs'" using 2(2) by (cases qs; cases cs) auto
    have S: "0 < exactRatio cs n'" using exactRatio_bounds [OF c(2)] by simp
    have "exactRatio cs (n' + 1) \<le> of_int q' / 2 ^ 128 * exactRatio cs n'"
      using 2(1) [OF _ c(2) lt] 2(2) qs by simp
    also have "\<dots> \<le> (of_int q / 2 ^ 128 * (of_int c / 2 ^ 128)) * exactRatio cs n'"
    proof (rule mult_right_mono)
      have "q' * 2 ^ 128 \<le> q * c" using 2(2) qs by simp
      then have "real_of_int (q' * 2 ^ 128) \<le> of_int (q * c)" by (simp only: of_int_le_iff)
      then show "real_of_int q' / 2 ^ 128 \<le> of_int q / 2 ^ 128 * (of_int c / 2 ^ 128)"
        by (simp add: field_simps)
    qed (use S in simp)
    finally show ?thesis by (simp add: n)
  qed
qed simp_all

definition ratioSteps :: "int list" where
  "ratioSteps = map2 (+) ratioConsts
     [185869116290, 185859823529, 185841239405, 185804076732, 185729773677, 185581256698,
      185284578927, 184692645470, 183514445708, 181180546316, 176601416214, 167787427765,
      151457186396, 123410133383, 81935610820, 36117397056, 7017847708, 264959156, 377684, 1]"

lemma ratioSteps_chain: "stepChain ratioSteps ratioConsts"
  by code_simp

lemma ratioSteps_hd: "hd ratioSteps * 25000 \<le> 24999 * 2 ^ 128"
  by code_simp


abbreviation ratioAt :: "nat \<Rightarrow> int" where
  "ratioAt n \<equiv> ratioAtAbsTick (int n)"

lemma ratioAt_bounds:
  "of_int (ratioAt n) \<le> 2 ^ 128 * exactRatio ratioConsts n"
  "2 ^ 128 * exactRatio ratioConsts n - 20 \<le> of_int (ratioAt n)"
proof -
  have "length ratioConsts = 20" by (simp add: ratioConsts_def ratioTable_def)
  with floorRatio_bounds [OF ratioConsts_valid, of "2 ^ 128" n]
  show "of_int (ratioAt n) \<le> 2 ^ 128 * exactRatio ratioConsts n"
    "2 ^ 128 * exactRatio ratioConsts n - 20 \<le> of_int (ratioAt n)"
    by (simp_all add: ratioAtAbsTick_floorRatio)
qed

lemma ratioAt_step:
  assumes "n + 1 < 2 ^ 20"
  shows "25000 * ratioAt (n + 1) \<le> 24999 * (ratioAt n + 20)"
proof -
  let ?S = "exactRatio ratioConsts"
  have len: "length ratioConsts = 20" by (simp add: ratioConsts_def ratioTable_def)
  have S: "0 < ?S n" using exactRatio_bounds [OF ratioConsts_valid] by simp
  have "?S (n + 1) \<le> of_int (hd ratioSteps) / 2 ^ 128 * ?S n"
    using exactRatio_step [OF ratioSteps_chain ratioConsts_valid, of n] assms by (simp add: len)
  also have "\<dots> \<le> 24999 / 25000 * ?S n"
  proof (rule mult_right_mono)
    have "real_of_int (hd ratioSteps * 25000) \<le> of_int (24999 * 2 ^ 128)"
      using ratioSteps_hd by (simp only: of_int_le_iff)
    then show "real_of_int (hd ratioSteps) / 2 ^ 128 \<le> 24999 / 25000" by simp
  qed (use S in simp)
  finally have "2 ^ 128 * ?S (n + 1) * 25000 \<le> 2 ^ 128 * ?S n * 24999" by simp
  moreover define a b where "a = 2 ^ 128 * ?S (n + 1)" and "b = 2 ^ 128 * ?S n"
  moreover define P Q where "P = real_of_int (ratioAt n)" and "Q = real_of_int (ratioAt (n + 1))"
  ultimately have "25000 * Q \<le> 24999 * (P + 20)"
    using ratioAt_bounds(1) [of "n + 1"] ratioAt_bounds(2) [of n] by simp
  then have "25000 * real_of_int (ratioAt (n + 1)) \<le> 24999 * (real_of_int (ratioAt n) + 20)"
    by (simp only: P_def Q_def)
  then have "real_of_int (25000 * ratioAt (n + 1)) \<le> of_int (24999 * (ratioAt n + 20))" by simp
  then show ?thesis by (simp only: of_int_le_iff)
qed

lemma ratioAt_le: "ratioAt n \<le> 2 ^ 128"
proof -
  have "real_of_int (ratioAt n) \<le> of_int (2 ^ 128)"
    using ratioAt_bounds(1) [of n] exactRatio_bounds [OF ratioConsts_valid, of n] by simp
  then show ?thesis by (simp only: of_int_le_iff)
qed

lemma ratioAt_ge: "n \<le> 887272 \<Longrightarrow> 2 ^ 63 \<le> ratioAt n"
proof (induction rule: inc_induct)
  case base
  have "2 ^ 63 \<le> ratioAtAbsTick 887272" by code_simp
  then show ?case by simp
next
  case (step n)
  then have "25000 * ratioAt (n + 1) \<le> 24999 * (ratioAt n + 20)" by (intro ratioAt_step) simp
  with step.IH show ?case by simp
qed

section \<open>Prices grow strictly with the tick\<close>

definition rawPriceAt :: "int \<Rightarrow> int" where
  "rawPriceAt t = (if t > 0 then MAX_UINT256 div ratioAtAbsTick \<bar>t\<bar> else ratioAtAbsTick \<bar>t\<bar>)"

definition tickPrice :: "int \<Rightarrow> int" where
  "tickPrice t = (rawPriceAt t + UINT32_MAX) div 2 ^ 32"

lemma ratioAtAbsTick_ge: "\<bar>t\<bar> \<le> MAX_TICK \<Longrightarrow> 2 ^ 63 \<le> ratioAtAbsTick \<bar>t\<bar>"
  using ratioAt_ge [of "nat \<bar>t\<bar>"] by (simp add: MAX_TICK_def nat_le_iff)

lemma getSqrtPriceAtTick_eq:
  "getSqrtPriceAtTick t =
     (if \<bar>t\<bar> > MAX_TICK then Inl (JsError (''Tick '' @ toString t @ '' out of range''))
      else Inr (tickPrice t))"
proof (cases "\<bar>t\<bar> > MAX_TICK")
  case False
  then have "2 ^ 63 \<le> ratioAtAbsTick \<bar>t\<bar>" by (intro ratioAtAbsTick_ge) simp
  then have "bigDiv MAX_UINT256 (ratioAtAbsTick \<bar>t\<bar>) = Inr (MAX_UINT256 div ratioAtAbsTick \<bar>t\<bar>)"
    by (intro bigDiv_pos) (simp_all add: MAX_UINT256_def)
  with False show ?thesis
    by (cases "0 < t")
      (simp_all add: getSqrtPriceAtTick_def tickPrice_def rawPriceAt_def drop_bit_eq_div Let_def)
qed (simp add: getSqrtPriceAtTick_def Let_def)

lemma ratioAt_gap: "n + 1 \<le> 887272 \<Longrightarrow> ratioAt (n + 1) + 2 ^ 32 \<le> ratioAt n"
  using ratioAt_step [of n] ratioAt_ge [of n] by simp

lemma inverseRatio_gap:
  assumes "n + 1 \<le> 887272"
  shows "MAX_UINT256 div ratioAt n + 2 ^ 32 \<le> MAX_UINT256 div ratioAt (n + 1)"
proof -
  define P Q A where "P = ratioAt n" and "Q = ratioAt (n + 1)" and "A = MAX_UINT256 div P"
  have P: "2 ^ 63 \<le> P" "P \<le> 2 ^ 128" and Q: "2 ^ 63 \<le> Q" "25000 * Q \<le> 24999 * (P + 20)"
    using ratioAt_ge [of n] ratioAt_le [of n] ratioAt_ge [of "n + 1"] ratioAt_step [of n] assms
    by (simp_all add: P_def Q_def)
  have "2 ^ 63 * P \<le> MAX_UINT256" using P by (simp add: MAX_UINT256_def)
  then have A: "2 ^ 63 \<le> A" "A * P \<le> MAX_UINT256"
    using P le_div_iff [of P "2 ^ 63" MAX_UINT256] floor_div_bounds(1) [of P MAX_UINT256]
    by (simp_all add: A_def)
  define AP X where "AP = A * P" and "X = (A + 2 ^ 32) * Q"
  have "2 ^ 63 * A \<le> AP" "2 ^ 63 * P \<le> AP"
    using A P mult_left_mono [of "2 ^ 63" P A] mult_right_mono [of "2 ^ 63" A P]
    by (simp_all add: mult.commute AP_def)
  moreover have "(A + 2 ^ 32) * (25000 * Q) \<le> (A + 2 ^ 32) * (24999 * (P + 20))"
    using A Q by (intro mult_left_mono) simp_all
  then have "25000 * X \<le> 24999 * AP + 24999 * 20 * A + 24999 * 2 ^ 32 * P + 24999 * 20 * 2 ^ 32"
    by (simp add: algebra_simps X_def AP_def)
  ultimately have "X \<le> MAX_UINT256" using A P unfolding AP_def [symmetric] by simp
  then show ?thesis using Q le_div_iff [of Q "A + 2 ^ 32" MAX_UINT256] by (simp add: A_def P_def Q_def X_def)
qed

lemma rawPriceAt_gap:
  assumes "MIN_TICK \<le> t" and "t < MAX_TICK"
  shows "rawPriceAt t + 2 ^ 32 \<le> rawPriceAt (t + 1)"
proof -
  consider "t < 0" | "t = 0" | "0 < t" by linarith
  then show ?thesis
  proof cases
    case 1
    then show ?thesis using assms ratioAt_gap [of "nat (- t - 1)"]
      by (simp add: rawPriceAt_def MIN_TICK_def MAX_TICK_def)
  next
    case 2
    have "rawPriceAt 0 + 2 ^ 32 \<le> rawPriceAt 1" by code_simp
    with 2 show ?thesis by simp
  next
    case 3
    then show ?thesis using assms inverseRatio_gap [of "nat t"]
      by (simp add: rawPriceAt_def MAX_TICK_def nat_le_iff add.commute)
  qed
qed

lemma tickPrice_step: "MIN_TICK \<le> t \<Longrightarrow> t < MAX_TICK \<Longrightarrow> tickPrice t < tickPrice (t + 1)"
proof -
  assume "MIN_TICK \<le> t" "t < MAX_TICK"
  then have "rawPriceAt t + 2 ^ 32 \<le> rawPriceAt (t + 1)" by (rule rawPriceAt_gap)
  then have "(rawPriceAt t + UINT32_MAX + 1 * 2 ^ 32) div 2 ^ 32 \<le> (rawPriceAt (t + 1) + UINT32_MAX) div 2 ^ 32"
    by (intro zdiv_mono1) simp_all
  then show ?thesis by (simp add: tickPrice_def)
qed

lemma tickPrice_strict_mono:
  assumes "MIN_TICK \<le> s" and "s < t" and "t \<le> MAX_TICK"
  shows "tickPrice s < tickPrice t"
  using assms(2,3)
proof (induction t rule: int_gr_induct)
  case base
  then show ?case using assms(1) tickPrice_step [of s] by simp
next
  case (step i)
  then show ?case using assms(1) tickPrice_step [of i] by simp
qed

lemma tickPrice_less_iff:
  assumes "MIN_TICK \<le> s" "s \<le> MAX_TICK" "MIN_TICK \<le> t" "t \<le> MAX_TICK"
  shows "tickPrice s < tickPrice t \<longleftrightarrow> s < t"
  using tickPrice_strict_mono [of s t] tickPrice_strict_mono [of t s] assms
  by (cases s t rule: linorder_cases) auto

lemma tickPrice_ends: "tickPrice MIN_TICK = MIN_SQRT_PRICE" "tickPrice MAX_TICK = MAX_SQRT_PRICE"
  by code_simp+

end
