(* ===== verification/TickLog.thy ===== *)
theory TickLog
  imports TickMath
begin

text \<open>
  Proof that \<open>getTickAtSqrtPrice\<close> of \<open>src/src/protocol/tick-math.ts\<close> inverts
  \<open>getSqrtPriceAtTick\<close>: the refinement loop computes a binary logarithm to 64 fractional bits
  (\<open>logLoop_spec\<close>), the twenty constants of the ratio table are powers of one base up to a
  relative error of \<open>2^-92\<close> (\<open>ratioConsts_squares\<close>), the logarithm of a tick's price is the tick
  times \<open>logUnit\<close> up to \<open>22 / 2^29\<close> (\<open>tickPrice_log\<close>), and so the candidates \<open>tickLow\<close> and
  \<open>tickHi\<close> of the code enclose the wanted tick (\<open>tickFromLog_spec\<close>).
\<close>

section \<open>Binary logarithms\<close>

lemma ln2_ge_half: "1 / 2 \<le> ln (2::real)"
  using ln_le_minus_one [of "1 / 2 :: real"] by (simp add: ln_div)

lemma log2_near_one:
  assumes "\<bar>y - 1\<bar> \<le> d" and "d \<le> 1 / 2"
  shows "\<bar>log 2 y\<bar> \<le> 4 * (d::real)"
proof -
  have y: "1 / 2 \<le> y" "y - 1 \<le> d" "1 - y \<le> d" using assms by linarith+
  have "ln y \<le> d" using ln_le_minus_one [of y] y by simp
  moreover have "- ln y \<le> 1 / y - 1" using ln_le_minus_one [of "1 / y"] y by (simp add: ln_div)
  moreover have "1 / y - 1 \<le> 2 * d"
  proof -
    have "1 - y \<le> d * (2 * y)" using y mult_left_mono [of 1 "2 * y" d] by linarith
    then show ?thesis using y by (simp add: field_simps)
  qed
  moreover have d: "0 \<le> d" using assms(1) by linarith
  ultimately have "\<bar>ln y\<bar> \<le> 2 * d" by linarith
  also have "\<dots> \<le> 4 * d * ln 2" using ln2_ge_half d mult_left_mono [of "1 / 2" "ln 2" "4 * d"] by simp
  finally show ?thesis by (simp add: log_def field_simps)
qed

lemma log2_quotient:
  assumes "0 < a" "0 < b" "\<bar>a / b - 1\<bar> \<le> d" "d \<le> 1 / 2"
  shows "\<bar>log 2 a - log 2 b\<bar> \<le> 4 * (d::real)"
  using log2_near_one [OF assms(3,4)] assms(1,2) by (simp add: log_divide)

lemma excess_relative: "x \<le> z + d \<Longrightarrow> 1 \<le> z \<Longrightarrow> 0 \<le> d \<Longrightarrow> x - z \<le> d * (z::real)"
  using mult_left_mono [of 1 z d] by simp

lemma abs_diff_leD: "\<bar>a - b\<bar> \<le> d \<Longrightarrow> a \<le> b + (d::real)" and abs_diff_geD: "\<bar>a - b\<bar> \<le> d \<Longrightarrow> b \<le> a + (d::real)"
  by linarith+

lemma halved_bounds:
  assumes "f + y \<le> 2 * x" "2 * x \<le> f + y + d" "a \<le> y" "y \<le> b + (d::real)"
  shows "(f + a) / 2 \<le> x" "x \<le> (f + b) / 2 + d"
  using assms by (simp_all add: field_simps)

section \<open>The refinement loop computes a binary logarithm\<close>

lemma logStep:
  fixes r :: int
  assumes "2 ^ 127 \<le> r" and "r < 2 ^ 128"
  defines "q \<equiv> r * r div 2 ^ 127" and "f \<equiv> r * r div 2 ^ 127 div 2 ^ 128"
  shows "f = 0 \<or> f = 1"
    and "2 ^ 127 \<le> q div 2 ^ nat f" and "q div 2 ^ nat f < 2 ^ 128"
    and "of_int f + log 2 (of_int (q div 2 ^ nat f) / 2 ^ 127) \<le> 2 * log 2 (of_int r / 2 ^ 127)"
    and "2 * log 2 (of_int r / 2 ^ 127) \<le> of_int f + log 2 (of_int (q div 2 ^ nat f) / 2 ^ 127) + 1 / 2 ^ 124"
proof -
  have sq: "2 ^ 127 * 2 ^ 127 \<le> r * r" "r * r < 2 ^ 128 * 2 ^ 128"
    using mult_mono [of "2 ^ 127" r "2 ^ 127" r] mult_strict_mono [of r "2 ^ 128" r "2 ^ 128"] assms(1,2)
    by simp_all
  have q: "2 ^ 127 \<le> q" "q < 2 ^ 129" "q * 2 ^ 127 \<le> r * r" "r * r < (q + 1) * 2 ^ 127"
    using sq floor_div_bounds [of "2 ^ 127" "r * r"] by (simp_all add: q_def)
  have fq: "f * 2 ^ 128 \<le> q" "q < (f + 1) * 2 ^ 128"
    using floor_div_bounds [of "2 ^ 128" q] by (simp_all add: q_def f_def)
  with q have f01: "0 \<le> f" "f < 2" by simp_all
  then show f: "f = 0 \<or> f = 1" by linarith
  define r' where "r' = q div 2 ^ nat f"
  have r'b: "2 ^ 127 \<le> r' \<and> r' < 2 ^ 128" using f q fq by (auto simp: r'_def)
  then show "2 ^ 127 \<le> q div 2 ^ nat f" "q div 2 ^ nat f < 2 ^ 128" by (simp_all add: r'_def)
  have r'f: "r' * 2 ^ nat f \<le> q" "q < r' * 2 ^ nat f + 2" using f by (auto simp: r'_def)
  then have lo: "r' * 2 ^ nat f * 2 ^ 127 \<le> r * r" and hi: "r * r \<le> (r' * 2 ^ nat f + 2) * 2 ^ 127"
    using q by simp_all
  define x y where "x = (of_int r / 2 ^ 127 :: real)" and "y = (of_int r' / 2 ^ 127 :: real)"
  have xy: "1 \<le> x" "1 \<le> y"
    using assms(1) r'b of_int_le_iff [where 'a = real, of "2 ^ 127" r] of_int_le_iff [where 'a = real, of "2 ^ 127" r']
    by (simp_all add: x_def y_def)
  have "real_of_int (r' * 2 ^ nat f * 2 ^ 127) \<le> of_int (r * r)"
    "real_of_int (r * r) \<le> of_int ((r' * 2 ^ nat f + 2) * 2 ^ 127)"
    using lo hi by (simp_all only: of_int_le_iff)
  then have ub: "2 ^ nat f * y \<le> x * x" and lb: "x * x \<le> 2 ^ nat f * y + 1 / 2 ^ 126"
    by (simp_all add: x_def y_def field_simps)
  have fy: "1 \<le> 2 ^ nat f * y" using xy f by auto
  have lf: "log 2 (2 ^ nat f * y) = of_int f + log 2 y"
    using xy f01 by (simp add: log_mult log_nat_power)
  have lx: "log 2 (x * x) = 2 * log 2 x" using xy by (simp add: log_mult)
  show "of_int f + log 2 (of_int (q div 2 ^ nat f) / 2 ^ 127) \<le> 2 * log 2 (of_int r / 2 ^ 127)"
  proof -
    have "log 2 (2 ^ nat f * y) \<le> log 2 (x * x)" using ub fy by (intro log_mono) simp_all
    then show ?thesis unfolding r'_def [symmetric] x_def [symmetric] y_def [symmetric] lf lx .
  qed
  have "\<bar>(x * x) / (2 ^ nat f * y) - 1\<bar> \<le> 1 / 2 ^ 126"
  proof -
    have "x * x - 2 ^ nat f * y \<le> 1 / 2 ^ 126 * (2 ^ nat f * y)"
      by (rule excess_relative [OF lb fy]) simp
    then show ?thesis using ub fy by (simp add: field_simps abs_le_iff)
  qed
  then have "\<bar>log 2 (x * x) - log 2 (2 ^ nat f * y)\<bar> \<le> 4 * (1 / 2 ^ 126)"
    using xy fy by (intro log2_quotient) auto
  then show "2 * log 2 (of_int r / 2 ^ 127) \<le> of_int f + log 2 (of_int (q div 2 ^ nat f) / 2 ^ 127) + 1 / 2 ^ 124"
    unfolding r'_def [symmetric] x_def [symmetric] y_def [symmetric] lf lx
    by (intro abs_diff_leD) simp
qed

lemma or_low_bit: "2 ^ Suc n dvd (l::int) \<Longrightarrow> f = 0 \<or> f = 1 \<Longrightarrow> l OR push_bit n f = l + f * 2 ^ n"
proof -
  assume l: "2 ^ Suc n dvd l" and f: "f = 0 \<or> f = 1"
  have "l AND push_bit n 1 = 0"
  proof -
    obtain k where "l = 2 ^ Suc n * k" using l by (auto elim: dvdE)
    then have "\<not> bit l n" by (simp add: bit_iff_odd)
    then show ?thesis by (simp add: push_bit_eq_mult and_exp_eq_0_iff_not_bit)
  qed
  then have "l + push_bit n 1 = l OR push_bit n 1"
    using plus_and_or [of l "push_bit n 1"] by simp
  with f show ?thesis by (auto simp: push_bit_eq_mult)
qed

lemma logLoop_spec:
  assumes "2 ^ 127 \<le> r" "r < 2 ^ 128" "2 ^ n dvd l"
  shows "\<exists>v. logLoop n r l = l + v \<and> 0 \<le> v \<and> v < 2 ^ n
    \<and> of_int v / 2 ^ n \<le> log 2 (of_int r / 2 ^ 127)
    \<and> log 2 (of_int r / 2 ^ 127) \<le> (of_int v + 1) / 2 ^ n + 1 / 2 ^ 124"
  using assms
proof (induction n arbitrary: r l)
  case 0
  have "1 \<le> real_of_int r / 2 ^ 127" "real_of_int r / 2 ^ 127 \<le> 2"
    using 0 of_int_le_iff [where 'a = real, of "2 ^ 127" r] of_int_le_iff [where 'a = real, of r "2 ^ 128"]
    by simp_all
  then have "0 \<le> log 2 (real_of_int r / 2 ^ 127)" "log 2 (real_of_int r / 2 ^ 127) \<le> 1" by simp_all
  then show ?case by simp
next
  case (Suc n)
  define q f where "q = r * r div 2 ^ 127" and "f = q div 2 ^ 128"
  define r' where "r' = q div 2 ^ nat f"
  note step = logStep [OF Suc.prems(1,2), folded q_def, folded f_def, folded r'_def]
  have "2 ^ n dvd l" using Suc.prems(3) by (meson dvd_trans le_imp_power_dvd le_SucI order_refl)
  then have "2 ^ n dvd l + f * 2 ^ n" by simp
  from Suc.IH [OF step(2,3) this] obtain v where
    v: "logLoop n r' (l + f * 2 ^ n) = l + f * 2 ^ n + v" "0 \<le> v" "v < 2 ^ n"
      "of_int v / 2 ^ n \<le> log 2 (of_int r' / 2 ^ 127)"
      "log 2 (of_int r' / 2 ^ 127) \<le> (of_int v + 1) / 2 ^ n + 1 / 2 ^ 124" by blast
  have "logLoop (Suc n) r l = l + (f * 2 ^ n + v)"
    using v(1) or_low_bit [OF Suc.prems(3) step(1)]
    by (simp add: Let_def drop_bit_eq_div q_def f_def r'_def)
  moreover have "0 \<le> f * 2 ^ n + v" "f * 2 ^ n + v < 2 ^ Suc n" using v(2,3) step(1) by auto
  moreover define x y where "x = log 2 (of_int r / 2 ^ 127)" and "y = log 2 (of_int r' / 2 ^ 127)"
  moreover have "of_int (f * 2 ^ n + v) / 2 ^ Suc n = (of_int f + of_int v / 2 ^ n :: real) / 2"
    "(of_int (f * 2 ^ n + v) + 1) / 2 ^ Suc n = (of_int f + (of_int v + 1) / 2 ^ n :: real) / 2"
    by (simp_all add: field_simps)
  moreover have "of_int f + y \<le> 2 * x" "2 * x \<le> of_int f + y + 1 / 2 ^ 124"
    "of_int v / 2 ^ n \<le> y" "y \<le> (of_int v + 1) / 2 ^ n + 1 / 2 ^ 124"
    using step(4,5) v(4,5) by (simp_all only: x_def y_def)
  then have "(of_int f + of_int v / 2 ^ n) / 2 \<le> x" "x \<le> (of_int f + (of_int v + 1) / 2 ^ n) / 2 + 1 / 2 ^ 124"
    by (rule halved_bounds)+
  ultimately show ?case by (intro exI [of _ "f * 2 ^ n + v"]) (simp only: x_def simp_thms)
qed

section \<open>The table holds the powers of one base\<close>

definition nearSquare :: "int \<Rightarrow> int \<Rightarrow> bool" where
  "nearSquare c c' \<longleftrightarrow> c * c * 2 ^ 92 \<le> c' * 2 ^ 128 * (2 ^ 92 + 1) \<and> c' * 2 ^ 128 * (2 ^ 92 - 1) \<le> c * c * 2 ^ 92"

fun squareChain :: "int list \<Rightarrow> bool" where
  "squareChain [] = True"
| "squareChain [c] = True"
| "squareChain (c # c' # cs) = (nearSquare c c' \<and> squareChain (c' # cs))"

lemma ratioConsts_squares: "squareChain ratioConsts"
  by code_simp

lemma nearSquare_log:
  assumes "nearSquare c c'" "0 < c" "0 < c'"
  shows "\<bar>2 * log 2 (of_int c / 2 ^ 128) - log 2 (of_int c' / 2 ^ 128)\<bar> \<le> 4 * (1 / 2 ^ 92)"
proof -
  define x y where "x = (of_int c / 2 ^ 128 :: real)" and "y = (of_int c' / 2 ^ 128 :: real)"
  have pos: "0 < x" "0 < y" using assms by (simp_all add: x_def y_def)
  have "real_of_int (c * c * 2 ^ 92) \<le> of_int (c' * 2 ^ 128 * (2 ^ 92 + 1))"
    "real_of_int (c' * 2 ^ 128 * (2 ^ 92 - 1)) \<le> of_int (c * c * 2 ^ 92)"
    using assms(1) unfolding nearSquare_def by (simp_all only: of_int_le_iff)
  then have "\<bar>x * x - y\<bar> * 2 ^ 92 \<le> y" by (simp add: x_def y_def abs_le_iff field_simps)
  moreover have "x * x / y - 1 = (x * x - y) / y" using pos by (simp add: field_simps)
  ultimately have "\<bar>x * x / y - 1\<bar> \<le> 1 / 2 ^ 92" using pos by (simp add: field_simps)
  then have "\<bar>log 2 (x * x) - log 2 y\<bar> \<le> 4 * (1 / 2 ^ 92)" using pos by (intro log2_quotient) simp_all
  then show ?thesis using pos unfolding x_def [symmetric] y_def [symmetric] by (simp add: log_mult)
qed

section \<open>The table holds the powers of one base: logarithms\<close>

definition logUnit :: real where
  "logUnit = 2 ^ 64 / 255738958999603826347141"

lemma logLoop_num:
  "logLoop (numeral k) r l =
     (let shift = pred_numeral k; r = drop_bit 127 (r * r); f = drop_bit 128 r;
          log2 = l OR push_bit shift f; r = drop_bit (nat f) r
      in logLoop shift r log2)"
  using logLoop.simps(2) [of "pred_numeral k" r l] unfolding numeral_eq_Suc [of k, symmetric]
  by (simp only: Let_def)

lemma lastRatio_loop: "logLoop 30 (0x48a170391f7dc42444e8fa2 * 2 ^ 37) 0 = 195964285"
  by (simp add: logLoop_num Let_def)

lemma abs_sum_le: "lo \<le> x \<Longrightarrow> x \<le> hi \<Longrightarrow> - lo - d \<le> k \<Longrightarrow> k \<le> - hi + d \<Longrightarrow> \<bar>x + k\<bar> \<le> (d::real)"
  by linarith

lemma lastRatio_log:
  "\<bar>log 2 (of_int 0x48a170391f7dc42444e8fa2 / 2 ^ 128) + 2 ^ 19 * logUnit\<bar> \<le> 1 / 2 ^ 29"
proof -
  define r :: int where "r = 0x48a170391f7dc42444e8fa2 * 2 ^ 37"
  define x where "x = log 2 (of_int r / 2 ^ 127)"
  have "2 ^ 127 \<le> r" "r < 2 ^ 128" by (simp_all add: r_def)
  from logLoop_spec [OF this, of 30 0] obtain v where
    v: "logLoop 30 r 0 = v" "of_int v / 2 ^ 30 \<le> x" "x \<le> (of_int v + 1) / 2 ^ 30 + 1 / 2 ^ 124"
    by (auto simp only: x_def dvd_0_right add_0)
  have "v = 195964285" using v(1) lastRatio_loop by (simp only: r_def)
  with v have x: "195964285 / 2 ^ 30 \<le> x" "x \<le> 195964286 / 2 ^ 30 + 1 / 2 ^ 124" by simp_all
  have "of_int 0x48a170391f7dc42444e8fa2 / 2 ^ 128 = (of_int r / 2 ^ 127) / (2 ^ 38 :: real)"
    by (simp add: r_def)
  then have "log 2 (of_int 0x48a170391f7dc42444e8fa2 / 2 ^ 128) = x - log 2 (2 ^ 38)"
    unfolding x_def by (simp only:) (subst log_divide, simp_all add: r_def)
  moreover have "log 2 (2 ^ 38 :: real) = 38" by (subst log_nat_power) simp_all
  ultimately have "log 2 (of_int 0x48a170391f7dc42444e8fa2 / 2 ^ 128) + 2 ^ 19 * logUnit = x + (2 ^ 19 * logUnit - 38)"
    by simp
  moreover have "- (195964285 / 2 ^ 30) - 1 / 2 ^ 29 \<le> 2 ^ 19 * logUnit - 38"
    "2 ^ 19 * logUnit - 38 \<le> - (195964286 / 2 ^ 30 + 1 / 2 ^ 124) + 1 / 2 ^ 29"
    by (simp_all add: logUnit_def)
  ultimately show ?thesis using abs_sum_le x by presburger
qed

lemma ratioConsts_last: "last ratioConsts = 0x48a170391f7dc42444e8fa2"
  by code_simp

lemma halve_error:
  assumes "\<bar>2 * a - b\<bar> \<le> d" "\<bar>b + 2 * w\<bar> \<le> e" "d \<le> e"
  shows "\<bar>a + w\<bar> \<le> (e::real)"
  using assms by linarith

lemma squareChain_logs:
  assumes "squareChain (c # cs)" "list_all validRatio (c # cs)" "4 * (1 / 2 ^ 92) \<le> e"
    and "\<bar>log 2 (of_int (last (c # cs)) / 2 ^ 128) + 2 ^ length cs * w\<bar> \<le> e"
  shows "\<bar>log 2 (of_int c / 2 ^ 128) + w\<bar> \<le> e"
  using assms
proof (induction cs arbitrary: c w)
  case (Cons c' cs)
  have pos: "0 < c" "0 < c'" using Cons.prems(2) by (simp_all add: validRatioD)
  have w: "2 ^ length (c' # cs) * w = 2 ^ length cs * (2 * w)" by simp
  have "\<bar>log 2 (of_int c' / 2 ^ 128) + 2 * w\<bar> \<le> e"
  proof (rule Cons.IH)
    show "\<bar>log 2 (of_int (last (c' # cs)) / 2 ^ 128) + 2 ^ length cs * (2 * w)\<bar> \<le> e"
      using Cons.prems(4) unfolding w by simp
  qed (use Cons.prems in simp_all)
  moreover have "\<bar>2 * log 2 (of_int c / 2 ^ 128) - log 2 (of_int c' / 2 ^ 128)\<bar> \<le> 4 * (1 / 2 ^ 92)"
    using Cons.prems(1) pos by (intro nearSquare_log) simp_all
  ultimately show ?case using halve_error Cons.prems(3) by blast
qed simp

lemma exactRatio_log:
  assumes "squareChain cs" "list_all validRatio cs" "4 * (1 / 2 ^ 92) \<le> e"
    and "cs \<noteq> [] \<Longrightarrow> \<bar>log 2 (of_int (last cs) / 2 ^ 128) + 2 ^ (length cs - 1) * w\<bar> \<le> e"
    and "n < 2 ^ length cs"
  shows "\<bar>log 2 (exactRatio cs n) + of_nat n * w\<bar> \<le> of_nat (length cs) * e"
  using assms
proof (induction cs arbitrary: n w)
  case (Cons c cs)
  have c: "0 < c" and v: "list_all validRatio cs" using Cons.prems(2) by (simp_all add: validRatioD)
  have S: "0 < exactRatio cs (n div 2)" using exactRatio_bounds [OF v] by simp
  have e: "0 \<le> e" by (rule order_trans [OF _ Cons.prems(3)]) simp
  define x where "x = log 2 (exactRatio cs (n div 2))"
  have hd: "\<bar>log 2 (of_int c / 2 ^ 128) + w\<bar> \<le> e"
    using Cons.prems squareChain_logs [of c cs e w] by simp
  have tl: "\<bar>x + of_nat (n div 2) * (2 * w)\<bar> \<le> of_nat (length cs) * e"
    unfolding x_def
  proof (rule Cons.IH)
    show "squareChain cs" using Cons.prems(1) by (cases cs) simp_all
    show "\<bar>log 2 (of_int (last cs) / 2 ^ 128) + 2 ^ (length cs - 1) * (2 * w)\<bar> \<le> e" if "cs \<noteq> []"
    proof -
      have "2 ^ (length (c # cs) - 1) * w = 2 ^ (length cs - 1) * (2 * w)" using that by (cases cs) simp_all
      then show ?thesis using Cons.prems(4) that by (simp only: last_ConsR list.distinct simp_thms)
    qed
  qed (use Cons.prems v in simp_all)
  have "log 2 (exactRatio (c # cs) n) = (if odd n then log 2 (of_int c / 2 ^ 128) else 0) + x"
    using S c by (simp add: log_mult x_def)
  moreover have "of_nat n * w = (if odd n then w else 0) + of_nat (n div 2) * (2 * w)"
  proof -
    have "real n = of_nat (2 * (n div 2) + n mod 2)" by simp
    also have "\<dots> = 2 * of_nat (n div 2) + of_nat (n mod 2)" by (simp only: of_nat_add of_nat_mult of_nat_numeral)
    finally have "real n * w = (2 * of_nat (n div 2) + of_nat (n mod 2)) * w" by (rule arg_cong)
    then show ?thesis by (simp add: algebra_simps mod_2_eq_odd)
  qed
  ultimately show ?case using hd tl e by (simp add: algebra_simps split: if_splits)
qed simp

section \<open>The price of a tick, in logarithms\<close>

lemma ratioAt_log:
  assumes "n < 2 ^ 20"
  shows "\<bar>log 2 (exactRatio ratioConsts n) + of_nat n * logUnit\<bar> \<le> 20 / 2 ^ 29"
proof -
  have len: "length ratioConsts = 20" by (simp add: ratioConsts_def ratioTable_def)
  have "\<bar>log 2 (exactRatio ratioConsts n) + of_nat n * logUnit\<bar> \<le> of_nat (length ratioConsts) * (1 / 2 ^ 29)"
  proof (rule exactRatio_log [OF ratioConsts_squares ratioConsts_valid])
    show "\<bar>log 2 (of_int (last ratioConsts) / 2 ^ 128) + 2 ^ (length ratioConsts - 1) * logUnit\<bar> \<le> 1 / 2 ^ 29"
      using lastRatio_log by (simp only: ratioConsts_last len) simp
  qed (use assms in \<open>simp_all add: len\<close>)
  then show ?thesis by (simp add: len)
qed

lemma quotient_near_one:
  assumes "0 < (s::real)" "s - a \<le> x" "x \<le> s + b" "0 \<le> a" "0 \<le> b" "a \<le> d * s" "b \<le> d * s"
  shows "\<bar>x / s - 1\<bar> \<le> d"
proof -
  have "x / s - 1 = (x - s) / s" using assms(1) by (simp add: field_simps)
  moreover have "\<bar>x - s\<bar> \<le> d * s" using assms by linarith
  ultimately show ?thesis using assms(1) by (simp add: pos_divide_le_eq)
qed

lemma tickPrice_real:
  "real_of_int (rawPriceAt t) \<le> 2 ^ 32 * of_int (tickPrice t)"
  "2 ^ 32 * of_int (tickPrice t) \<le> real_of_int (rawPriceAt t) + 2 ^ 32"
proof -
  have "rawPriceAt t \<le> 2 ^ 32 * tickPrice t" "2 ^ 32 * tickPrice t \<le> rawPriceAt t + 2 ^ 32"
    using floor_div_bounds [of "2 ^ 32" "rawPriceAt t + UINT32_MAX"] by (simp_all add: tickPrice_def UINT32_MAX_def)
  then have "real_of_int (rawPriceAt t) \<le> of_int (2 ^ 32 * tickPrice t)"
    "real_of_int (2 ^ 32 * tickPrice t) \<le> of_int (rawPriceAt t + 2 ^ 32)" by (simp_all only: of_int_le_iff)
  then show "real_of_int (rawPriceAt t) \<le> 2 ^ 32 * of_int (tickPrice t)"
    "2 ^ 32 * of_int (tickPrice t) \<le> real_of_int (rawPriceAt t) + 2 ^ 32" by simp_all
qed

lemma exactRatio_ge:
  assumes "n \<le> 887272"
  shows "2 ^ 63 \<le> 2 ^ 128 * exactRatio ratioConsts n"
proof -
  have "real_of_int (2 ^ 63) \<le> of_int (ratioAt n)" using ratioAt_ge [OF assms] by (simp only: of_int_le_iff)
  with ratioAt_bounds(1) [of n] show ?thesis by simp
qed

lemma tickPrice_neg_log:
  assumes "t \<le> 0" and "MIN_TICK \<le> t"
  shows "\<bar>log 2 (of_int (tickPrice t) / 2 ^ 96) - log 2 (exactRatio ratioConsts (nat (- t)))\<bar> \<le> 1 / 2 ^ 28"
proof -
  define S x where "S = exactRatio ratioConsts (nat (- t))" and "x = (2 ^ 32 * of_int (tickPrice t) :: real)"
  have n: "nat (- t) \<le> 887272" using assms by (simp add: MIN_TICK_def)
  have raw: "rawPriceAt t = ratioAt (nat (- t))" using assms by (simp add: rawPriceAt_def)
  have S: "2 ^ 63 \<le> 2 ^ 128 * S" "0 < S"
    using exactRatio_ge [OF n] exactRatio_bounds [OF ratioConsts_valid] by (simp_all only: S_def)
  have "2 ^ 128 * S - 20 \<le> x" "x \<le> 2 ^ 128 * S + 2 ^ 32"
    using tickPrice_real [of t] ratioAt_bounds [of "nat (- t)"] unfolding raw S_def x_def by linarith+
  moreover have "20 \<le> 1 / 2 ^ 30 * (2 ^ 128 * S)" "2 ^ 32 \<le> 1 / 2 ^ 30 * (2 ^ 128 * S)" using S by simp_all
  ultimately have "\<bar>x / (2 ^ 128 * S) - 1\<bar> \<le> 1 / 2 ^ 30" using S
    by (intro quotient_near_one [where a = 20 and b = "2 ^ 32"]) simp_all
  moreover have "x / (2 ^ 128 * S) = (of_int (tickPrice t) / 2 ^ 96) / S" by (simp add: x_def field_simps)
  moreover have "0 < x" using \<open>2 ^ 128 * S - 20 \<le> x\<close> S by simp
  ultimately have "\<bar>log 2 (of_int (tickPrice t) / 2 ^ 96) - log 2 S\<bar> \<le> 4 * (1 / 2 ^ 30)"
    using S by (intro log2_quotient) (simp_all add: x_def)
  then show ?thesis by (simp add: S_def)
qed


lemma inverse_bounds:
  fixes U P :: real
  assumes "2 ^ 63 \<le> U" "U \<le> 2 ^ 128" "2 ^ 63 \<le> P" "P \<le> U" "U - 20 \<le> P"
  shows "2 ^ 256 / U - 1 \<le> (2 ^ 256 - 1) / P" and "(2 ^ 256 - 1) / P \<le> 2 ^ 256 / U + 2 ^ 256 / U / 2 ^ 31"
proof -
  have "2 ^ 256 / U - 1 \<le> (2 ^ 256 - 1) / U" using assms(1) by (simp add: field_simps)
  also have "\<dots> \<le> (2 ^ 256 - 1) / P" using assms by (intro divide_left_mono) simp_all
  finally show "2 ^ 256 / U - 1 \<le> (2 ^ 256 - 1) / P" .
  have "U \<le> P * (1 + 1 / 2 ^ 31)" using assms(1,5) by simp
  then have "1 / P \<le> (1 + 1 / 2 ^ 31) / U" using assms(1,3) by (simp add: field_simps)
  then have "2 ^ 256 * (1 / P) \<le> 2 ^ 256 * ((1 + 1 / 2 ^ 31) / U)" by (intro mult_left_mono) simp_all
  moreover have "(2 ^ 256 - 1) / P \<le> 2 ^ 256 * (1 / P)" using assms(3) by (simp add: divide_right_mono)
  moreover have "2 ^ 256 * ((1 + 1 / 2 ^ 31) / U) = 2 ^ 256 / U + 2 ^ 256 / U / 2 ^ 31"
    using assms(1) by (simp add: field_simps)
  ultimately show "(2 ^ 256 - 1) / P \<le> 2 ^ 256 / U + 2 ^ 256 / U / 2 ^ 31" by linarith
qed

lemma tickPrice_pos_log:
  assumes "0 < t" and "t \<le> MAX_TICK"
  shows "\<bar>log 2 (of_int (tickPrice t) / 2 ^ 96) + log 2 (exactRatio ratioConsts (nat t))\<bar> \<le> 1 / 2 ^ 28"
proof -
  define S U x where "S = exactRatio ratioConsts (nat t)" and "U = 2 ^ 128 * S"
    and "x = (2 ^ 32 * of_int (tickPrice t) :: real)"
  define P T where "P = ratioAt (nat t)" and "T = 2 ^ 256 / U"
  have n: "nat t \<le> 887272" using assms by (simp add: MAX_TICK_def)
  have raw: "rawPriceAt t = MAX_UINT256 div P" using assms by (simp add: rawPriceAt_def P_def)
  have S: "2 ^ 63 \<le> U" "0 < S" "U \<le> 2 ^ 128"
    using exactRatio_ge [OF n] exactRatio_bounds [OF ratioConsts_valid, of "nat t"]
    by (simp_all only: S_def U_def) simp
  have P: "real_of_int P \<le> U" "U - 20 \<le> of_int P" "2 ^ 63 \<le> P"
    using ratioAt_bounds [of "nat t"] ratioAt_ge [OF n] by (simp_all only: S_def U_def P_def)
  then have "2 ^ 63 \<le> real_of_int P" using of_int_le_iff [where 'a = real, of "2 ^ 63" P] by simp
  note inv = inverse_bounds [OF S(1,3) this P(1,2), folded T_def]
  have M: "real_of_int MAX_UINT256 = 2 ^ 256 - 1" by (simp add: MAX_UINT256_def)
  have "of_int (MAX_UINT256 div P) \<le> (2 ^ 256 - 1) / real_of_int P"
    "(2 ^ 256 - 1) / real_of_int P - 1 \<le> of_int (MAX_UINT256 div P)"
    using floor_real_bounds [of P MAX_UINT256] P(3) unfolding M by simp_all
  with inv tickPrice_real [of t, folded x_def] have x: "T - 2 \<le> x" "x \<le> T + (T / 2 ^ 31 + 2 ^ 32)"
    unfolding raw by linarith+
  have T: "2 ^ 128 \<le> T" using S by (simp add: T_def field_simps)
  have "\<bar>x / T - 1\<bar> \<le> 1 / 2 ^ 30"
    by (rule quotient_near_one [OF _ x]) (use T in simp_all)
  moreover have "x / T = (of_int (tickPrice t) / 2 ^ 96) / (1 / S)" using S by (simp add: x_def T_def U_def field_simps)
  ultimately have "\<bar>(of_int (tickPrice t) / 2 ^ 96) / (1 / S) - 1\<bar> \<le> 1 / 2 ^ 30" by (simp only:)
  moreover have "0 < x" using x(1) T by simp
  ultimately have "\<bar>log 2 (of_int (tickPrice t) / 2 ^ 96) - log 2 (1 / S)\<bar> \<le> 4 * (1 / 2 ^ 30)"
    using S by (intro log2_quotient) (simp_all add: x_def)
  then show ?thesis using S by (simp add: S_def [symmetric] log_divide)
qed

lemma abs_triangle_plus: "\<bar>a + b\<bar> \<le> d \<Longrightarrow> \<bar>b + c\<bar> \<le> e \<Longrightarrow> \<bar>a - c\<bar> \<le> d + (e::real)"
  and abs_triangle_minus: "\<bar>a - b\<bar> \<le> d \<Longrightarrow> \<bar>b + c\<bar> \<le> e \<Longrightarrow> \<bar>a + c\<bar> \<le> d + (e::real)"
  by linarith+

lemma tickPrice_log:
  assumes "\<bar>t\<bar> \<le> MAX_TICK"
  shows "\<bar>log 2 (of_int (tickPrice t) / 2 ^ 96) - of_int t * logUnit\<bar> \<le> 22 / 2 ^ 29"
proof (cases "0 < t")
  case True
  have "nat t < 2 ^ 20" "nat t = t" using assms True by (simp_all add: MAX_TICK_def)
  with abs_triangle_plus [OF tickPrice_pos_log [of t] ratioAt_log [of "nat t"]] assms True
  show ?thesis by simp
next
  case False
  have "nat (- t) < 2 ^ 20" using assms False by (simp add: MAX_TICK_def)
  with abs_triangle_minus [OF tickPrice_neg_log [of t] ratioAt_log [of "nat (- t)"]] assms False
  show ?thesis by (simp add: MAX_TICK_def MIN_TICK_def)
qed

section \<open>The tick of a price\<close>

definition normalized :: "int \<Rightarrow> int \<Rightarrow> int" where
  "normalized msb price =
     (if msb \<ge> 128 then drop_bit (nat (msb - 127)) price else push_bit (nat (127 - msb)) price)"

lemma normalized_shift:
  assumes "0 \<le> msb"
  shows "normalized msb price = price * 2 ^ 127 div 2 ^ nat msb"
proof (cases "128 \<le> msb")
  case True
  define k where "k = nat (msb - 127)"
  have "(2::int) ^ nat msb = 2 ^ 127 * 2 ^ k" using True
    by (simp only: k_def power_add [symmetric]) (rule arg_cong [where f = "power 2"], simp)
  with True show ?thesis
    by (simp only: normalized_def drop_bit_eq_div k_def [symmetric] if_True mult.commute [of price] div_mult_mult1_if) simp
next
  case False
  define k where "k = nat (127 - msb)"
  have "(2::int) ^ 127 = 2 ^ k * 2 ^ nat msb" using False assms
    by (simp only: k_def power_add [symmetric]) (rule arg_cong [where f = "power 2"], simp)
  then have "price * 2 ^ 127 = price * 2 ^ k * 2 ^ nat msb" by (simp only: mult.assoc)
  then have "price * 2 ^ 127 div 2 ^ nat msb = price * 2 ^ k" by (simp only:) simp
  with False show ?thesis unfolding normalized_def push_bit_eq_mult k_def [symmetric] by simp
qed

lemma normalized_spec:
  assumes "0 \<le> msb" "2 ^ nat msb \<le> price" "price < 2 ^ (nat msb + 1)"
  defines "r \<equiv> normalized msb price"
  shows "2 ^ 127 \<le> r" "r < 2 ^ 128"
    and "log 2 (of_int r / 2 ^ 127) \<le> log 2 (of_int price) - of_int msb"
    and "log 2 (of_int price) - of_int msb \<le> log 2 (of_int r / 2 ^ 127) + 1 / 2 ^ 125"
proof -
  define d :: int where "d = 2 ^ nat msb"
  have d: "0 < d" "d \<le> price" "price < 2 * d" using assms(2,3) by (simp_all add: d_def)
  have r: "r = price * 2 ^ 127 div d" unfolding r_def d_def by (rule normalized_shift [OF assms(1)])
  show r1: "2 ^ 127 \<le> r" using d by (simp add: r le_div_iff)
  show "r < 2 ^ 128" using d le_div_iff [of d "2 ^ 128" "price * 2 ^ 127"] by (simp add: r)
  define s where "s = real_of_int (price * 2 ^ 127) / of_int d"
  have rs: "of_int r \<le> s" "s - 1 \<le> of_int r" using floor_real_bounds [OF d(1), of "price * 2 ^ 127"]
    by (simp_all only: r s_def)
  have "real_of_int (2 ^ 127) \<le> of_int r" using r1 by (simp only: of_int_le_iff)
  then have r2: "2 ^ 127 \<le> real_of_int r" "2 ^ 127 \<le> s" using rs by simp_all
  have "s / 2 ^ 127 = of_int price / of_int d" by (simp add: s_def)
  moreover have "log 2 (real_of_int d) = of_int msb" using assms(1) by (simp add: d_def log_nat_power)
  ultimately have ls: "log 2 (s / 2 ^ 127) = log 2 (of_int price) - of_int msb"
    using d by (simp add: log_divide)
  have "log 2 (of_int r / 2 ^ 127) \<le> log 2 (s / 2 ^ 127)"
    using rs r2 by (intro log_mono) (simp_all add: divide_right_mono)
  then show "log 2 (of_int r / 2 ^ 127) \<le> log 2 (of_int price) - of_int msb" by (simp only: ls)
  have "\<bar>of_int r / s - 1\<bar> \<le> 1 / 2 ^ 127"
    by (rule quotient_near_one [where a = 1 and b = 0]) (use rs r2 in simp_all)
  then have "\<bar>(of_int r / 2 ^ 127) / (s / 2 ^ 127) - 1\<bar> \<le> 1 / 2 ^ 127" by simp
  then have "\<bar>log 2 (of_int r / 2 ^ 127) - log 2 (s / 2 ^ 127)\<bar> \<le> 4 * (1 / 2 ^ 127)"
    using r2 by (intro log2_quotient) simp_all
  then show "log 2 (of_int price) - of_int msb \<le> log 2 (of_int r / 2 ^ 127) + 1 / 2 ^ 125"
    unfolding ls by (intro abs_diff_geD) simp
qed

definition tickFromLog :: "int \<Rightarrow> int \<Rightarrow> int result" where
  "tickFromLog sqrtPriceX96 log2 =
     (let logSqrt10001 = log2 * 255738958999603826347141;
          tickLow = (logSqrt10001 - 3402992956809132418596140100660247210) div 2 ^ 128;
          tickHi = (logSqrt10001 + 291339464771989622907027621153398088495) div 2 ^ 128
      in if tickLow = tickHi then Inr tickLow
         else bindR (getSqrtPriceAtTick tickHi)
                (\<lambda>p. Inr (if p \<le> sqrtPriceX96 then tickHi else tickLow)))"

lemma close_chain:
  assumes "v / 2 ^ 64 \<le> x" "x \<le> (v + 1) / 2 ^ 64 + 1 / 2 ^ 124" "x \<le> y" "y \<le> x + 1 / 2 ^ 125"
  shows "v / 2 ^ 64 \<le> y" and "(y::real) \<le> v / 2 ^ 64 + 1 / 2 ^ 63"
  using assms by (simp_all add: field_simps)

lemma shift_bounds:
  assumes "a \<le> y" "y \<le> a + (d::real)"
  shows "a + k \<le> y + k" and "y + k \<le> a + k + d"
  using assms by simp_all

lemma log2_pow: "log 2 (2 ^ n :: real) = of_nat n"
  by (subst log_nat_power) simp_all

lemma getTickAtSqrtPrice_log:
  assumes "MIN_SQRT_PRICE \<le> p" "p < MAX_SQRT_PRICE"
  obtains L where "getTickAtSqrtPrice p = tickFromLog p L"
    and "of_int L / 2 ^ 64 \<le> log 2 (of_int p / 2 ^ 96)"
    and "log 2 (of_int p / 2 ^ 96) \<le> of_int L / 2 ^ 64 + 1 / 2 ^ 63"
proof -
  define price where "price = push_bit 32 p"
  have price: "price = p * 2 ^ 32" by (simp add: price_def push_bit_eq_mult)
  have p: "0 < p" using assms by (simp add: MIN_SQRT_PRICE_def)
  have "0 < price" "price < 2 ^ 256" using assms by (simp_all add: price MIN_SQRT_PRICE_def MAX_SQRT_PRICE_def)
  then obtain m where m: "mostSignificantBit price = Inr m" "0 \<le> m" "2 ^ nat m \<le> price" "price < 2 ^ (nat m + 1)"
    by (rule mostSignificantBit_spec) blast
  note n = normalized_spec [OF m(2-4)]
  define l where "l = push_bit 64 (m - 128)"
  have l: "l = (m - 128) * 2 ^ 64" by (simp add: l_def push_bit_eq_mult)
  then have "2 ^ 64 dvd l" by simp
  from logLoop_spec [OF n(1,2) this] obtain v where v: "logLoop 64 (normalized m price) l = l + v"
    "of_int v / 2 ^ 64 \<le> log 2 (of_int (normalized m price) / 2 ^ 127)"
    "log 2 (of_int (normalized m price) / 2 ^ 127) \<le> (of_int v + 1) / 2 ^ 64 + 1 / 2 ^ 124" by blast
  have "getTickAtSqrtPrice p = tickFromLog p (logLoop 64 (normalized m price) l)"
    using assms m(1)
    by (simp add: getTickAtSqrtPrice_def tickFromLog_def Let_def drop_bit_eq_div l_def
        flip: price_def normalized_def)
  then have "getTickAtSqrtPrice p = tickFromLog p (l + v)" by (simp only: v(1))
  moreover have "log 2 (real_of_int price) = log 2 (of_int p) + 32"
    using p log2_pow [of 32] by (simp add: price log_mult)
  then have lp: "log 2 (of_int p / 2 ^ 96) = log 2 (of_int price) - of_int m + of_int (m - 128)"
    using p log2_pow [of 96] by (simp add: log_divide)
  moreover have lv: "real_of_int (l + v) / 2 ^ 64 = of_int v / 2 ^ 64 + of_int (m - 128)"
    by (simp add: l field_simps)
  note shift_bounds [OF close_chain [OF v(2,3) n(3,4)], of "of_int (m - 128)", folded lp lv]
  ultimately show thesis by (intro that [of "l + v"])
qed

lemma div_less_cancel: "0 < (d::int) \<Longrightarrow> a < q * d \<Longrightarrow> a div d < q"
  using le_div_iff [of d q a] by linarith

lemma tickFromLog_spec:
  assumes "MIN_TICK \<le> t" "t < MAX_TICK" "tickPrice t \<le> p" "p < tickPrice (t + 1)"
    and L: "(of_int t - 1 / 2) * 2 ^ 128 \<le> real_of_int (L * 255738958999603826347141)"
      "real_of_int (L * 255738958999603826347141) \<le> (of_int t + 1 + 1 / 128) * 2 ^ 128"
  shows "tickFromLog p L = Inr t"
proof -
  define Y where "Y = L * 255738958999603826347141"
  define lo hi where "lo = (Y - 3402992956809132418596140100660247210) div 2 ^ 128"
    and "hi = (Y + 291339464771989622907027621153398088495) div 2 ^ 128"
  have "real_of_int ((2 * t - 1) * 2 ^ 127) \<le> of_int Y" "real_of_int Y \<le> of_int ((128 * (t + 1) + 1) * 2 ^ 121)"
    using L by (simp_all add: Y_def field_simps)
  then have Y: "(2 * t - 1) * 2 ^ 127 \<le> Y" "Y \<le> (128 * (t + 1) + 1) * 2 ^ 121" by (simp_all only: of_int_le_iff)
  have "lo < t + 1" unfolding lo_def using Y by (intro div_less_cancel) simp_all
  moreover have "t \<le> hi" unfolding hi_def using Y by (subst le_div_iff) simp_all
  moreover have "lo \<le> hi" unfolding lo_def hi_def by (intro zdiv_mono1) simp_all
  moreover have "hi < lo + 2"
    unfolding hi_def
  proof (rule div_less_cancel)
    have "Y - 3402992956809132418596140100660247210 < (lo + 1) * 2 ^ 128"
      unfolding lo_def by (rule floor_div_bounds(2)) simp
    then show "Y + 291339464771989622907027621153398088495 < (lo + 2) * 2 ^ 128" by simp
  qed simp
  ultimately consider "lo = t" "hi = t" | "lo = t - 1" "hi = t" | "lo = t" "hi = t + 1" by linarith
  then have "(if lo = hi then Inr lo
         else bindR (getSqrtPriceAtTick hi) (\<lambda>q. Inr (if q \<le> p then hi else lo))) = Inr t"
  proof cases
    case 2
    then show ?thesis using assms(1-3) by (simp add: getSqrtPriceAtTick_eq MIN_TICK_def MAX_TICK_def)
  next
    case 3
    then show ?thesis using assms(1,2,4) by (simp add: getSqrtPriceAtTick_eq MIN_TICK_def MAX_TICK_def)
  qed simp
  then show ?thesis by (simp only: tickFromLog_def Let_def Y_def lo_def hi_def)
qed

lemma bracketing_tick:
  assumes "tickPrice MIN_TICK \<le> p" "p < tickPrice MAX_TICK"
  obtains t where "MIN_TICK \<le> t" "t < MAX_TICK" "tickPrice t \<le> p" "p < tickPrice (t + 1)"
proof -
  have "\<exists>t. MIN_TICK \<le> t \<and> t < T \<and> tickPrice t \<le> p \<and> p < tickPrice (t + 1)"
    if "MIN_TICK < T" "p < tickPrice T" for T
    using that
  proof (induction T rule: int_gr_induct)
    case base
    then show ?case using assms(1) by auto
  next
    case (step i)
    show ?case
    proof (cases "p < tickPrice i")
      case True
      then show ?thesis using step.IH by force
    next
      case False
      then show ?thesis using step by (intro exI [of _ i]) simp
    qed
  qed
  from this [of MAX_TICK] assms(2) show thesis using that by (auto simp: MIN_TICK_def MAX_TICK_def)
qed

lemma scaled_bounds:
  assumes "q \<le> (t + 1) * logUnit + 22 / 2 ^ 29" "t * logUnit - 22 / 2 ^ 29 \<le> q"
    and "l \<le> q" "q \<le> l + 1 / 2 ^ 63"
  shows "(t - 1 / 2) * 2 ^ 128 \<le> l * 2 ^ 64 * 255738958999603826347141"
    and "l * 2 ^ 64 * 255738958999603826347141 \<le> (t + 1 + 1 / 128) * 2 ^ 128"
proof -
  have "l \<le> (t + 1) * logUnit + 22 / 2 ^ 29" "t * logUnit - 22 / 2 ^ 29 - 1 / 2 ^ 63 \<le> l"
    using assms by simp_all
  then show "(t - 1 / 2) * 2 ^ 128 \<le> l * 2 ^ 64 * 255738958999603826347141"
    "l * 2 ^ 64 * 255738958999603826347141 \<le> (t + 1 + 1 / 128) * 2 ^ 128"
    by (simp_all add: logUnit_def field_simps)
qed

lemma tickPrice_pos: "\<bar>t\<bar> \<le> MAX_TICK \<Longrightarrow> 0 < tickPrice t"
  using tickPrice_strict_mono [of MIN_TICK t] tickPrice_ends(1)
  by (cases "t = MIN_TICK") (auto simp: MIN_SQRT_PRICE_def MAX_TICK_def MIN_TICK_def abs_le_iff)

lemma getTickAtSqrtPrice_bracket:
  assumes "MIN_TICK \<le> t" "t < MAX_TICK" "tickPrice t \<le> p" "p < tickPrice (t + 1)"
  shows "getTickAtSqrtPrice p = Inr t"
proof -
  have t: "\<bar>t\<bar> \<le> MAX_TICK" "\<bar>t + 1\<bar> \<le> MAX_TICK" using assms(1,2) by (simp_all add: MIN_TICK_def MAX_TICK_def)
  have "tickPrice MIN_TICK \<le> tickPrice t" "tickPrice (t + 1) \<le> tickPrice MAX_TICK"
    using tickPrice_strict_mono [of MIN_TICK t] tickPrice_strict_mono [of "t + 1" MAX_TICK] assms(1,2)
    by (cases "t = MIN_TICK"; cases "t + 1 = MAX_TICK"; auto)+
  then have "MIN_SQRT_PRICE \<le> p" "p < MAX_SQRT_PRICE" using assms(3,4) tickPrice_ends by simp_all
  then obtain L where L: "getTickAtSqrtPrice p = tickFromLog p L"
    "of_int L / 2 ^ 64 \<le> log 2 (of_int p / 2 ^ 96)"
    "log 2 (of_int p / 2 ^ 96) \<le> of_int L / 2 ^ 64 + 1 / 2 ^ 63"
    by (rule getTickAtSqrtPrice_log)
  define q where "q = log 2 (real_of_int p / 2 ^ 96)"
  have pos: "0 < tickPrice t" "0 < p" using tickPrice_pos [OF t(1)] assms(3) by simp_all
  have "real_of_int (tickPrice t) / 2 ^ 96 \<le> of_int p / 2 ^ 96" "real_of_int p / 2 ^ 96 \<le> of_int (tickPrice (t + 1)) / 2 ^ 96"
    using assms(3,4) by (simp_all add: divide_right_mono)
  then have "log 2 (of_int (tickPrice t) / 2 ^ 96) \<le> q" "q \<le> log 2 (of_int (tickPrice (t + 1)) / 2 ^ 96)"
    unfolding q_def using pos by (simp_all add: log_mono)
  then have "q \<le> (of_int t + 1) * logUnit + 22 / 2 ^ 29" "of_int t * logUnit - 22 / 2 ^ 29 \<le> q"
    using abs_diff_leD [OF tickPrice_log [OF t(2)]] abs_diff_geD [OF tickPrice_log [OF t(1)]] by simp_all
  note b = scaled_bounds [OF this L(2,3) [folded q_def]]
  have "real_of_int L / 2 ^ 64 * 2 ^ 64 * 255738958999603826347141 = of_int (L * 255738958999603826347141)" by simp
  then show ?thesis unfolding L(1) using b by (intro tickFromLog_spec assms) simp_all
qed

section \<open>The interface of a price axis\<close>

text \<open>What the clients of \<open>tick-math.ts\<close> rely on: on \<open>[lo, hi]\<close> prices exist and grow strictly, outside
  it \<open>priceAt\<close> throws, and \<open>tickAt\<close> brackets every price of the half-open range.\<close>

locale price_axis =
  fixes priceAt :: "int \<Rightarrow> int result" and tickAt :: "int \<Rightarrow> int result" and lo hi pmin pmax :: int
  assumes ends: "priceAt lo = Inr pmin" "priceAt hi = Inr pmax"
    and priceAt_defined: "lo \<le> t \<Longrightarrow> t \<le> hi \<Longrightarrow> \<exists>p. priceAt t = Inr p"
    and priceAt_undefined: "priceAt t = Inr p \<Longrightarrow> lo \<le> t \<and> t \<le> hi"
    and priceAt_mono: "priceAt s = Inr p \<Longrightarrow> priceAt t = Inr q \<Longrightarrow> s < t \<Longrightarrow> p < q"
    and tickAt_bracket: "priceAt t = Inr p \<Longrightarrow> priceAt (t + 1) = Inr q \<Longrightarrow> p \<le> x \<Longrightarrow> x < q \<Longrightarrow> tickAt x = Inr t"
    and tickAt_undefined: "tickAt x = Inr t \<Longrightarrow> pmin \<le> x \<and> x < pmax"
begin

lemma priceAt_less_iff: "priceAt s = Inr p \<Longrightarrow> priceAt t = Inr q \<Longrightarrow> p < q \<longleftrightarrow> s < t"
  using priceAt_mono [of s p t q] priceAt_mono [of t q s p] by (cases s t rule: linorder_cases) auto

lemma lo_less_hi: "pmin < pmax \<Longrightarrow> lo < hi"
  using priceAt_less_iff [OF ends] by simp

lemma bracket_exists:
  assumes "pmin \<le> x" and "x < pmax"
  obtains t p q where "lo \<le> t" "t < hi" "priceAt t = Inr p" "priceAt (t + 1) = Inr q" "p \<le> x" "x < q"
proof -
  have lh: "lo < hi" using lo_less_hi assms by simp
  have "\<exists>t p q. lo \<le> t \<and> t < T \<and> priceAt t = Inr p \<and> priceAt (t + 1) = Inr q \<and> p \<le> x \<and> x < q"
    if "lo < T" "T \<le> hi" "priceAt T = Inr y" "x < y" for T y
    using that
  proof (induction T arbitrary: y rule: int_gr_induct)
    case base
    then show ?case using ends assms by fastforce
  next
    case (step i)
    obtain z where z: "priceAt i = Inr z" using priceAt_defined [of i] step.hyps step.prems by auto
    show ?case
    proof (cases "x < z")
      case True
      then show ?thesis using step.IH [OF _ z] step.prems by force
    next
      case False
      then show ?thesis using step z
        by (intro exI [of _ i] exI [of _ z] exI [of _ y]) auto
    qed
  qed
  from this [OF lh order_refl ends(2) assms(2)] show thesis using that by blast
qed

lemma tickAt_defined: "pmin \<le> x \<Longrightarrow> x < pmax \<Longrightarrow> \<exists>t. tickAt x = Inr t \<and> lo \<le> t \<and> t < hi"
  by (meson bracket_exists tickAt_bracket)

lemma tickAt_spec:
  assumes "tickAt x = Inr t"
  obtains p q where "lo \<le> t" "t < hi" "priceAt t = Inr p" "priceAt (t + 1) = Inr q" "p \<le> x" "x < q"
proof -
  have "pmin \<le> x" "x < pmax" using tickAt_undefined [OF assms] by simp_all
  then obtain s p q where s: "lo \<le> s" "s < hi" "priceAt s = Inr p" "priceAt (s + 1) = Inr q" "p \<le> x" "x < q"
    by (rule bracket_exists)
  then have "s = t" using tickAt_bracket [OF s(3-6)] assms by simp
  with s show thesis using that by blast
qed

lemma tickAt_price: "priceAt t = Inr p \<Longrightarrow> t < hi \<Longrightarrow> tickAt p = Inr t"
proof -
  assume t: "priceAt t = Inr p" "t < hi"
  then have "lo \<le> t" using priceAt_undefined by blast
  then obtain q where q: "priceAt (t + 1) = Inr q" using priceAt_defined [of "t + 1"] t(2) by auto
  then show "tickAt p = Inr t" using tickAt_bracket [OF t(1) q] priceAt_mono [OF t(1) q] by simp
qed

lemma tickAt_ge_iff:
  assumes "tickAt x = Inr t" and "priceAt s = Inr p"
  shows "s \<le> t \<longleftrightarrow> p \<le> x"
proof -
  obtain a b where t: "priceAt t = Inr a" "priceAt (t + 1) = Inr b" "a \<le> x" "x < b"
    using tickAt_spec [OF assms(1)] by metis
  show ?thesis
    using priceAt_less_iff [OF t(1) assms(2)] priceAt_less_iff [OF assms(2) t(2)] t(3,4) by linarith
qed

lemma tickAt_mono: "tickAt x = Inr s \<Longrightarrow> tickAt y = Inr t \<Longrightarrow> x \<le> y \<Longrightarrow> s \<le> t"
proof -
  assume x: "tickAt x = Inr s" and y: "tickAt y = Inr t" and le: "x \<le> y"
  obtain p where "priceAt s = Inr p" "p \<le> x" using tickAt_spec [OF x] by blast
  then show "s \<le> t" using tickAt_ge_iff [OF y, of s p] le by simp
qed

end

lemma getTickAtSqrtPrice_defined_range:
  "getTickAtSqrtPrice x = Inr t \<Longrightarrow> MIN_SQRT_PRICE \<le> x \<and> x < MAX_SQRT_PRICE"
  by (auto simp: getTickAtSqrtPrice_def split: if_splits)

interpretation tick: price_axis getSqrtPriceAtTick getTickAtSqrtPrice MIN_TICK MAX_TICK MIN_SQRT_PRICE MAX_SQRT_PRICE
proof unfold_locales
  have [simp]: "MIN_TICK = - MAX_TICK" "0 \<le> MAX_TICK" by (simp_all add: MIN_TICK_def MAX_TICK_def)
  show "getSqrtPriceAtTick MIN_TICK = Inr MIN_SQRT_PRICE" "getSqrtPriceAtTick MAX_TICK = Inr MAX_SQRT_PRICE"
    using tickPrice_ends by (simp_all add: getSqrtPriceAtTick_eq)
  show "\<exists>p. getSqrtPriceAtTick t = Inr p" if "MIN_TICK \<le> t" "t \<le> MAX_TICK" for t
    using that by (simp add: getSqrtPriceAtTick_eq abs_le_iff not_less)
  show dom: "MIN_TICK \<le> t \<and> t \<le> MAX_TICK" if "getSqrtPriceAtTick t = Inr p" for t p
    using that by (auto simp: getSqrtPriceAtTick_eq split: if_splits)
  show "p < q" if "getSqrtPriceAtTick s = Inr p" "getSqrtPriceAtTick t = Inr q" "s < t" for s t p q
    using that dom [OF that(1)] dom [OF that(2)] tickPrice_strict_mono [of s t]
    by (simp add: getSqrtPriceAtTick_eq split: if_splits)
  show "getTickAtSqrtPrice x = Inr t"
    if "getSqrtPriceAtTick t = Inr p" "getSqrtPriceAtTick (t + 1) = Inr q" "p \<le> x" "x < q" for t p q x
    using that dom [OF that(1)] dom [OF that(2)] getTickAtSqrtPrice_bracket [of t x]
    by (simp add: getSqrtPriceAtTick_eq split: if_splits)
qed (rule getTickAtSqrtPrice_defined_range)

section \<open>Properties\<close>

text \<open>\<open>mostSignificantBit\<close> returns, for every positive input below \<open>2^256\<close>, the index of the
  highest set bit, and throws on zero.\<close>

lemma mostSignificantBit_correct:
  assumes "0 \<le> x" and "x < 2 ^ 256"
  shows "if x = 0 then mostSignificantBit x = Inl (JsError ''msb of zero'')
    else \<exists>m. mostSignificantBit x = Inr m \<and> 0 \<le> m \<and> m < 256 \<and> 2 ^ nat m \<le> x \<and> x < 2 ^ (nat m + 1)"
proof (cases "x = 0")
  case False
  with assms have "0 < x" by simp
  then show ?thesis using assms(2) by (rule mostSignificantBit_spec) (use False in auto)
qed (simp add: mostSignificantBit_def)

text \<open>\<open>getSqrtPriceAtTick\<close> throws exactly on ticks whose absolute value exceeds \<open>MAX_TICK\<close>; on
  the others it returns a price between \<open>MIN_SQRT_PRICE\<close> and \<open>MAX_SQRT_PRICE\<close>, which are reached
  at the two end ticks, and tick \<open>0\<close> has price \<open>2^96\<close>.\<close>

lemma getSqrtPriceAtTick_range:
  "(\<bar>t\<bar> > MAX_TICK \<longrightarrow> getSqrtPriceAtTick t = Inl (JsError (''Tick '' @ toString t @ '' out of range'')))
   \<and> (\<bar>t\<bar> \<le> MAX_TICK \<longrightarrow> (\<exists>p. getSqrtPriceAtTick t = Inr p \<and> MIN_SQRT_PRICE \<le> p \<and> p \<le> MAX_SQRT_PRICE))
   \<and> getSqrtPriceAtTick MIN_TICK = Inr MIN_SQRT_PRICE
   \<and> getSqrtPriceAtTick MAX_TICK = Inr MAX_SQRT_PRICE
   \<and> getSqrtPriceAtTick 0 = Inr (2 ^ 96)"
proof -
  have "MIN_SQRT_PRICE \<le> tickPrice t \<and> tickPrice t \<le> MAX_SQRT_PRICE" if "\<bar>t\<bar> \<le> MAX_TICK"
  proof -
    have t: "MIN_TICK \<le> t" "t \<le> MAX_TICK" using that by (simp_all add: MIN_TICK_def MAX_TICK_def abs_le_iff)
    then show ?thesis
      using tickPrice_strict_mono [of MIN_TICK t] tickPrice_strict_mono [of t MAX_TICK] tickPrice_ends
      by (cases "t = MIN_TICK"; cases "t = MAX_TICK") auto
  qed
  moreover have "getSqrtPriceAtTick 0 = Inr (2 ^ 96)" by code_simp
  ultimately show ?thesis
    by (auto simp: getSqrtPriceAtTick_eq tickPrice_ends) (simp_all add: MIN_TICK_def MAX_TICK_def)
qed

text \<open>\<open>getSqrtPriceAtTick\<close> is strictly increasing over the whole tick range, in spite of the
  truncation of every intermediate product and of the final division.\<close>

lemma getSqrtPriceAtTick_strict_mono:
  assumes "MIN_TICK \<le> s" and "s < t" and "t \<le> MAX_TICK"
  shows "\<exists>p q. getSqrtPriceAtTick s = Inr p \<and> getSqrtPriceAtTick t = Inr q \<and> p < q"
proof -
  have "\<not> \<bar>s\<bar> > MAX_TICK" "\<not> \<bar>t\<bar> > MAX_TICK" using assms by (simp_all add: MIN_TICK_def MAX_TICK_def)
  with tickPrice_strict_mono [OF assms] show ?thesis by (simp add: getSqrtPriceAtTick_eq)
qed

text \<open>C1. \<open>getTickAtSqrtPrice\<close> is total on prices from \<open>MIN_SQRT_PRICE\<close> up to but excluding
  \<open>MAX_SQRT_PRICE\<close>, and returns the greatest tick whose price does not exceed the argument, as its
  documentation says.\<close>

theorem getTickAtSqrtPrice_greatest:
  assumes "MIN_SQRT_PRICE \<le> p" and "p < MAX_SQRT_PRICE"
  shows "\<exists>t. getTickAtSqrtPrice p = Inr t \<and> MIN_TICK \<le> t \<and> t < MAX_TICK
    \<and> (\<exists>q. getSqrtPriceAtTick t = Inr q \<and> q \<le> p)
    \<and> (\<forall>s q. t < s \<longrightarrow> getSqrtPriceAtTick s = Inr q \<longrightarrow> p < q)"
proof -
  from assms obtain t where t: "MIN_TICK \<le> t" "t < MAX_TICK" "tickPrice t \<le> p" "p < tickPrice (t + 1)"
    using bracketing_tick [of p] tickPrice_ends by metis
  have abs: "\<not> \<bar>t\<bar> > MAX_TICK" using t(1,2) by (simp add: MIN_TICK_def MAX_TICK_def)
  have "p < q" if "t < s" "getSqrtPriceAtTick s = Inr q" for s q
  proof -
    have "s \<le> MAX_TICK" "q = tickPrice s"
      using that by (auto simp: getSqrtPriceAtTick_eq split: if_splits)
    then show ?thesis using t that(1) tickPrice_strict_mono [of "t + 1" s] by (cases "s = t + 1") auto
  qed
  with t abs show ?thesis
    by (intro exI [of _ t]) (auto simp: getSqrtPriceAtTick_eq getTickAtSqrtPrice_bracket)
qed

theorem getTickAtSqrtPrice_greatest_witness:
  "MIN_SQRT_PRICE \<le> 2 ^ 96 \<and> 2 ^ 96 < MAX_SQRT_PRICE \<and>
   (\<exists>t. getTickAtSqrtPrice (2 ^ 96) = Inr t \<and> MIN_TICK \<le> t \<and> t < MAX_TICK
    \<and> (\<exists>q. getSqrtPriceAtTick t = Inr q \<and> q \<le> 2 ^ 96))"
  using getTickAtSqrtPrice_greatest [of "2 ^ 96"] by (auto simp: MIN_SQRT_PRICE_def MAX_SQRT_PRICE_def)

text \<open>Converting a tick to its price and back returns the tick, for every tick below the last one
  (whose price is the excluded end of the range).\<close>

lemma tick_roundtrip:
  assumes "MIN_TICK \<le> t" and "t < MAX_TICK"
  shows "bindR (getSqrtPriceAtTick t) getTickAtSqrtPrice = Inr t"
proof -
  have "\<not> \<bar>t\<bar> > MAX_TICK" using assms by (simp add: MIN_TICK_def MAX_TICK_def)
  then show ?thesis
    using assms tickPrice_step [OF assms] by (simp add: getSqrtPriceAtTick_eq getTickAtSqrtPrice_bracket)
qed

end
