(* ===== verification/ProtocolMath.thy ===== *)
theory ProtocolMath
  imports TickLog
begin

text \<open>
  Model of the orientation, rounding, price and opening-level parts of
  \<open>src/src/protocol/protocol-math.ts\<close> (lines 29 to 197). A level is a negated tick; every
  fact on levels is drawn from the interpretation \<open>tick\<close> of the price-axis interface.
  The variables of the Newton loop of \<open>isqrt\<close> are non-negative, so the loop is over \<open>nat\<close>.
\<close>

section \<open>Orientation\<close>

definition Q96 :: int where [model_defs]: "Q96 = push_bit 96 1"
definition Q192 :: int where [model_defs]: "Q192 = push_bit 192 1"
definition UINT128_MAX :: int where [model_defs]: "UINT128_MAX = 0xffffffffffffffffffffffffffffffff"
definition UINT256_MAX :: int where [model_defs]: "UINT256_MAX = push_bit 256 1 - 1"
definition MIN_LEVEL :: int where [model_defs]: "MIN_LEVEL = - MAX_TICK"
definition MAX_LEVEL :: int where [model_defs]: "MAX_LEVEL = - MIN_TICK"

definition toLevel :: "int \<Rightarrow> int" where
  "toLevel tick = - tick"

definition toTick :: "int \<Rightarrow> int" where
  "toTick level = - level"

definition isValidLevel :: "int \<Rightarrow> bool" where
  "isValidLevel level \<longleftrightarrow> level \<ge> MIN_LEVEL \<and> level \<le> MAX_LEVEL"

definition isValidTick :: "int \<Rightarrow> bool" where
  "isValidTick tick \<longleftrightarrow> tick \<ge> MIN_TICK \<and> tick \<le> MAX_TICK"

definition levelRangeToTicks :: "int \<Rightarrow> int \<Rightarrow> (int \<times> int) result" where
  "levelRangeToTicks levelLower levelUpper =
     (if levelLower \<ge> levelUpper
      then Inl (JsError (''Level range not ascending: '' @ toString levelLower @ '' >= '' @ toString levelUpper))
      else Inr (toTick levelUpper, toTick levelLower))"

definition tickRangeToLevels :: "int \<Rightarrow> int \<Rightarrow> (int \<times> int) result" where
  "tickRangeToLevels tickLower tickUpper =
     (if tickLower \<ge> tickUpper
      then Inl (JsError (''Tick range not ascending: '' @ toString tickLower @ '' >= '' @ toString tickUpper))
      else Inr (toLevel tickUpper, toLevel tickLower))"

definition sqrtPriceAtLevel :: "int \<Rightarrow> int result" where
  "sqrtPriceAtLevel level = getSqrtPriceAtTick (toTick level)"

definition levelAtSqrtPrice :: "int \<Rightarrow> int result" where
  "levelAtSqrtPrice sqrtPriceX96 = bindR (getTickAtSqrtPrice sqrtPriceX96) (\<lambda>t. Inr (toLevel t))"

section \<open>Integer square root and rounding\<close>

text \<open>\<open>x.toString(2).length\<close>.\<close>

fun binLength :: "nat \<Rightarrow> nat" where
  "binLength x = (if x < 2 then 1 else Suc (binLength (x div 2)))"

declare binLength.simps [simp del]

function isqrtLoop :: "nat \<Rightarrow> nat \<Rightarrow> nat result" where
  "isqrtLoop x guess =
     (if guess = 0 then Inl RangeError
      else let nxt = (guess + x div guess) div 2 in
        if nxt \<ge> guess then Inr guess else isqrtLoop x nxt)"
  by pat_completeness auto
termination
  by (relation "measure snd") auto

declare isqrtLoop.simps [simp del]

definition isqrt :: "int \<Rightarrow> int result" where
  "isqrt x =
     (if x < 0 then Inl (JsError ''isqrt of negative'')
      else if x < 2 then Inr x
      else bindR (isqrtLoop (nat x) (push_bit ((binLength (nat x) + 1) div 2) 1)) (\<lambda>g. Inr (int g)))"

definition mulDiv :: "int \<Rightarrow> int \<Rightarrow> int \<Rightarrow> int result" where
  "mulDiv a b denominator = bigDiv (a * b) denominator"

definition mulDivRoundingUp :: "int \<Rightarrow> int \<Rightarrow> int \<Rightarrow> int result" where
  "mulDivRoundingUp a b denominator =
     (let product = a * b in
      bindR (bigDiv product denominator) (\<lambda>result.
      bindR (bigMod product denominator) (\<lambda>rem.
      if rem \<noteq> 0 then Inr (result + 1) else Inr result)))"

definition divRoundingUp :: "int \<Rightarrow> int \<Rightarrow> int result" where
  "divRoundingUp a denominator =
     bindR (bigDiv a denominator) (\<lambda>result.
     bindR (bigMod a denominator) (\<lambda>rem.
     if rem \<noteq> 0 then Inr (result + 1) else Inr result))"

section \<open>Prices and valuations\<close>

definition ethPerTokenRational :: "int \<Rightarrow> (int \<times> int) result" where
  "ethPerTokenRational level = bindR (sqrtPriceAtLevel level) (\<lambda>sqrtP. Inr (Q192, sqrtP * sqrtP))"

definition fdvEthWeiAtLevel :: "int \<Rightarrow> int \<Rightarrow> int result" where
  "fdvEthWeiAtLevel totalSupplyWei level =
     bindR (sqrtPriceAtLevel level) (\<lambda>sqrtP. bigDiv (totalSupplyWei * Q192) (sqrtP * sqrtP))"

definition fdvEthWeiAtSqrtPrice :: "int \<Rightarrow> int \<Rightarrow> int result" where
  "fdvEthWeiAtSqrtPrice totalSupplyWei sqrtPriceX96 =
     bigDiv (totalSupplyWei * Q192) (sqrtPriceX96 * sqrtPriceX96)"

definition rawPriceAtLevel :: "int \<Rightarrow> int result" where
  "rawPriceAtLevel level = bindR (sqrtPriceAtLevel level) (\<lambda>sqrtP. bigDiv (sqrtP * sqrtP) Q192)"

definition divToDecimalString :: "int \<Rightarrow> int \<Rightarrow> int \<Rightarrow> string result" where
  "divToDecimalString numerator denominator decimals =
     (if decimals < 0 then Inl (JsError ''negative decimals'')
      else
        let scale = 10 ^ nat decimals in
        bindR (bigDiv (numerator * scale) denominator) (\<lambda>scaled.
        bindR (bigDiv scaled scale) (\<lambda>whole.
        bindR (bigMod scaled scale) (\<lambda>fraction.
        Inr (toString whole @ ''.'' @ padStart (nat decimals) (toString fraction))))))"

text \<open>\<open>10n ** BigInt(decimals)\<close> throws a \<open>RangeError\<close> on a negative exponent.\<close>

definition tokenPriceEthString :: "int \<Rightarrow> int \<Rightarrow> string result" where
  "tokenPriceEthString level decimals =
     bindR (sqrtPriceAtLevel level) (\<lambda>sqrtP.
     if decimals < 0 then Inl RangeError
     else
       let numerator = 10 ^ nat decimals * Q192 * 10 ^ 18;
           denominator = sqrtP * sqrtP * 10 ^ 18
       in divToDecimalString numerator denominator 18)"

section \<open>Opening and far level\<close>

definition openingLevel :: "int \<Rightarrow> int \<Rightarrow> int result" where
  "openingLevel totalSupplyWei openingFdvWei =
     bindR (mulDiv totalSupplyWei Q192 openingFdvWei) (\<lambda>priceX192.
     bindR (isqrt priceX192) (\<lambda>sqrtPriceX96.
     if sqrtPriceX96 < 4295128739 \<or>
        sqrtPriceX96 \<ge> 1461446703485210103287273052203988822378723970342
     then Inl (JsError (''Opening level out of range for supply '' @ toString totalSupplyWei))
     else
       bindR (getTickAtSqrtPrice sqrtPriceX96) (\<lambda>t.
       let level = toLevel t in
       if \<not> isValidLevel level then Inl (JsError (''Opening level '' @ toString level @ '' invalid''))
       else Inr level)))"

definition farLevel :: "int \<Rightarrow> int \<Rightarrow> int result" where
  "farLevel opening spanLevels =
     (let far = opening + spanLevels in
      if far > MAX_LEVEL then Inl (JsError (''Far level '' @ toString far @ '' out of range''))
      else Inr far)"

section \<open>Lemmas on rounding\<close>

lemma mulDiv_floor: "0 \<le> a * b \<Longrightarrow> 0 < d \<Longrightarrow> mulDiv a b d = Inr (a * b div d)"
  by (simp add: mulDiv_def bigDiv_pos)

definition ceilDiv :: "int \<Rightarrow> int \<Rightarrow> int" where
  "ceilDiv a d = - ((- a) div d)"

lemma ceilDiv_bounds:
  assumes "0 < d"
  shows "a \<le> ceilDiv a d * d" and "(ceilDiv a d - 1) * d < a"
  using floor_div_bounds [OF assms, of "- a"] by (simp_all add: ceilDiv_def algebra_simps)

lemma ceilDiv_le_iff: "0 < d \<Longrightarrow> ceilDiv a d \<le> q \<longleftrightarrow> a \<le> q * d"
  using le_div_iff [of d "- q" "- a"] by (simp add: ceilDiv_def) arith

lemma ceilDiv_div: "0 < d \<Longrightarrow> ceilDiv a d = (if a mod d = 0 then a div d else a div d + 1)"
  by (simp add: ceilDiv_def zdiv_zminus1_eq_if)

lemma divRoundingUp_ceil: "0 \<le> a \<Longrightarrow> 0 < d \<Longrightarrow> divRoundingUp a d = Inr (ceilDiv a d)"
  by (simp add: divRoundingUp_def bigDiv_pos bigMod_pos ceilDiv_div)

lemma mulDivRoundingUp_ceil: "0 \<le> a * b \<Longrightarrow> 0 < d \<Longrightarrow> mulDivRoundingUp a b d = Inr (ceilDiv (a * b) d)"
  by (simp add: mulDivRoundingUp_def bigDiv_pos bigMod_pos ceilDiv_div)

lemma ceilDiv_nonneg: "0 \<le> a \<Longrightarrow> 0 < d \<Longrightarrow> 0 \<le> ceilDiv a d"
  using pos_imp_zdiv_nonneg_iff [of d a] by (simp add: ceilDiv_div)

section \<open>Lemmas on \<open>isqrt\<close>\<close>

lemma binLength_less: "x < 2 ^ binLength x"
proof (induction x rule: binLength.induct)
  case (1 x)
  then show ?case by (subst binLength.simps) (cases "x < 2"; auto)
qed

lemma newton_step:
  fixes g x :: nat
  assumes "0 < g"
  shows "x < ((g + x div g) div 2 + 1)\<^sup>2"
proof -
  define q n where "q = x div g" and "n = (g + q) div 2 + 1"
  have x: "x < g * (q + 1)" using assms dividend_less_times_div [of g x] by (simp add: q_def)
  have n: "g + (q + 1) \<le> 2 * n" by (simp add: n_def)
  have "4 * (int g * (int q + 1)) \<le> (int g + (int q + 1))\<^sup>2"
    using zero_le_power2 [of "int g - (int q + 1)"] by (simp add: power2_eq_square algebra_simps)
  then have "4 * (g * (q + 1)) \<le> (g + (q + 1))\<^sup>2"
    by (metis (mono_tags, lifting) of_nat_1 of_nat_add of_nat_le_iff of_nat_mult of_nat_numeral of_nat_power)
  also have "\<dots> \<le> (2 * n)\<^sup>2" using n by (rule power_mono) simp
  finally have "x < n\<^sup>2" using x by (simp add: power2_eq_square)
  then show ?thesis by (simp add: n_def q_def)
qed

lemma isqrtLoop_spec:
  assumes "0 < g" and "x < (g + 1)\<^sup>2" and "0 < x"
  shows "\<exists>s. isqrtLoop x g = Inr s \<and> s\<^sup>2 \<le> x \<and> x < (s + 1)\<^sup>2"
  using assms
proof (induction x g rule: isqrtLoop.induct)
  case (1 x g)
  define n where "n = (g + x div g) div 2"
  show ?case
  proof (cases "n \<ge> g")
    case True
    then have "g \<le> x div g" by (simp add: n_def)
    then have "g * g \<le> x div g * g" by (rule mult_le_mono1)
    then have "g * g \<le> x" using div_times_less_eq_dividend [of x g] by linarith
    with True 1(2,3) show ?thesis by (subst isqrtLoop.simps) (simp add: n_def Let_def power2_eq_square)
  next
    case False
    have "0 < n"
    proof (rule ccontr)
      assume "\<not> 0 < n"
      then have "x < 1" using newton_step [OF 1(2), of x] by (simp add: n_def)
      with 1(4) show False by simp
    qed
    with False 1 newton_step [OF 1(2), of x] show ?thesis
      by (subst isqrtLoop.simps) (simp add: n_def [symmetric] Let_def)
  qed
qed

lemma isqrt_spec:
  assumes "0 \<le> x"
  obtains s where "isqrt x = Inr s" and "0 \<le> s" and "s * s \<le> x" and "x < (s + 1) * (s + 1)"
proof (cases "x < 2")
  case True
  then have "x = 0 \<or> x = 1" using assms by linarith
  then show thesis using that [of x] by (auto simp: isqrt_def)
next
  case False
  define g :: nat where "g = push_bit ((binLength (nat x) + 1) div 2) 1"
  have g: "g = 2 ^ ((binLength (nat x) + 1) div 2)" by (simp add: g_def push_bit_eq_mult)
  have "nat x < 2 ^ binLength (nat x)" by (rule binLength_less)
  also have "\<dots> \<le> 2 ^ (2 * ((binLength (nat x) + 1) div 2))" by (intro power_increasing) simp_all
  also have "\<dots> = g\<^sup>2" by (simp add: g power_mult [symmetric] mult.commute)
  also have "\<dots> \<le> (g + 1)\<^sup>2" by (intro power_mono) simp_all
  finally have "\<exists>s. isqrtLoop (nat x) g = Inr s \<and> s\<^sup>2 \<le> nat x \<and> nat x < (s + 1)\<^sup>2"
    using False by (intro isqrtLoop_spec) (simp_all add: g)
  then obtain s where s: "isqrtLoop (nat x) g = Inr s" "s\<^sup>2 \<le> nat x" "nat x < (s + 1)\<^sup>2" by blast
  have "int (s\<^sup>2) \<le> x" "x < int ((s + 1)\<^sup>2)" using s(2,3) assms by linarith+
  then show thesis using False s(1) assms
    by (intro that [of "int s"]) (simp_all add: isqrt_def g_def power2_eq_square algebra_simps)
qed

section \<open>Lemmas on levels\<close>

lemma MIN_MAX_LEVEL: "MIN_LEVEL = MIN_TICK" "MAX_LEVEL = MAX_TICK" "MIN_TICK = - MAX_TICK"
  by (simp_all add: model_defs)

lemma sqrtPriceAtLevel_defined: "isValidLevel l \<Longrightarrow> \<exists>p. sqrtPriceAtLevel l = Inr p"
  using tick.priceAt_defined [of "- l"] by (simp add: isValidLevel_def sqrtPriceAtLevel_def toTick_def MIN_MAX_LEVEL)

lemma sqrtPriceAtLevel_valid: "sqrtPriceAtLevel l = Inr p \<Longrightarrow> isValidLevel l"
  using tick.priceAt_undefined [of "- l" p]
  by (simp add: isValidLevel_def sqrtPriceAtLevel_def toTick_def MIN_MAX_LEVEL)

lemma sqrtPriceAtLevel_less_iff:
  "sqrtPriceAtLevel l = Inr p \<Longrightarrow> sqrtPriceAtLevel m = Inr q \<Longrightarrow> q < p \<longleftrightarrow> l < m"
  using tick.priceAt_less_iff [of "- m" q "- l" p] by (simp add: sqrtPriceAtLevel_def toTick_def)

lemma sqrtPriceAtLevel_range: "sqrtPriceAtLevel l = Inr p \<Longrightarrow> MIN_SQRT_PRICE \<le> p \<and> p \<le> MAX_SQRT_PRICE"
proof -
  assume l: "sqrtPriceAtLevel l = Inr p"
  have "sqrtPriceAtLevel MAX_LEVEL = Inr MIN_SQRT_PRICE" "sqrtPriceAtLevel MIN_LEVEL = Inr MAX_SQRT_PRICE"
    using tick.ends by (simp_all add: sqrtPriceAtLevel_def toTick_def MIN_MAX_LEVEL)
  with sqrtPriceAtLevel_less_iff [OF l] sqrtPriceAtLevel_less_iff [OF _ l] sqrtPriceAtLevel_valid [OF l]
  show ?thesis unfolding isValidLevel_def by (metis linorder_not_less)
qed

lemma sqrtPriceAtLevel_pos: "sqrtPriceAtLevel l = Inr p \<Longrightarrow> 0 < p"
  using sqrtPriceAtLevel_range [of l p] by (simp add: MIN_SQRT_PRICE_def)

lemma levelAtSqrtPrice_defined:
  "MIN_SQRT_PRICE \<le> x \<Longrightarrow> x < MAX_SQRT_PRICE \<Longrightarrow> \<exists>l. levelAtSqrtPrice x = Inr l"
  using tick.tickAt_defined [of x] by (auto simp: levelAtSqrtPrice_def)

lemma levelAtSqrtPrice_tick: "levelAtSqrtPrice x = Inr l \<longleftrightarrow> getTickAtSqrtPrice x = Inr (- l)"
  by (auto simp: levelAtSqrtPrice_def toLevel_def bindR_eq_Inr_iff)

lemma levelAtSqrtPrice_le_iff:
  "levelAtSqrtPrice x = Inr l \<Longrightarrow> sqrtPriceAtLevel m = Inr p \<Longrightarrow> l \<le> m \<longleftrightarrow> p \<le> x"
  using tick.tickAt_ge_iff [of x "- l" "- m" p] by (simp add: levelAtSqrtPrice_tick sqrtPriceAtLevel_def toTick_def)

lemma levelAtSqrtPrice_price: "sqrtPriceAtLevel l = Inr p \<Longrightarrow> MIN_LEVEL < l \<Longrightarrow> levelAtSqrtPrice p = Inr l"
  using tick.tickAt_price [of "- l" p] by (simp add: levelAtSqrtPrice_tick sqrtPriceAtLevel_def toTick_def MIN_MAX_LEVEL)

lemma levelAtSqrtPrice_bounds: "levelAtSqrtPrice x = Inr l \<Longrightarrow> MIN_LEVEL < l \<and> l \<le> MAX_LEVEL"
  unfolding levelAtSqrtPrice_tick by (erule tick.tickAt_spec) (simp add: MIN_MAX_LEVEL)

lemma levelAtSqrtPrice_mono: "levelAtSqrtPrice x = Inr l \<Longrightarrow> levelAtSqrtPrice y = Inr m \<Longrightarrow> x \<le> y \<Longrightarrow> m \<le> l"
  using tick.tickAt_mono [of x "- l" y "- m"] by (simp add: levelAtSqrtPrice_tick)

section \<open>Valuations and the opening level\<close>

lemma fdvAtLevel_eq:
  assumes "sqrtPriceAtLevel l = Inr p" and "0 \<le> supply"
  shows "fdvEthWeiAtLevel supply l = Inr (supply * Q192 div (p * p))"
  using sqrtPriceAtLevel_pos [OF assms(1)] assms by (simp add: fdvEthWeiAtLevel_def bigDiv_pos Q192_def)

lemma mono_square: "0 \<le> (a::int) \<Longrightarrow> a \<le> b \<Longrightarrow> a * a \<le> b * b"
  by (simp add: mult_mono)

text \<open>A valuation reaches the target exactly when the squared price is at most the quotient that
  \<open>openingLevel\<close> takes the root of.\<close>

lemma fdv_reaches_iff:
  assumes "0 < (fdv::int)" "0 < p" "0 \<le> N"
  shows "fdv \<le> N div (p * p) \<longleftrightarrow> p * p \<le> N div fdv"
  using le_div_iff [of "p * p" fdv N] le_div_iff [of fdv "p * p" N] assms by (simp add: mult.commute)

lemma square_le_iff_isqrt:
  assumes "0 \<le> s" "s * s \<le> x" "x < (s + 1) * (s + 1)" "0 \<le> (p::int)"
  shows "p * p \<le> x \<longleftrightarrow> p \<le> s"
  using mono_square [of p s] mono_square [of "s + 1" p] assms by linarith

lemma openingLevel_Inr:
  assumes "0 \<le> supply" "0 < fdv" "openingLevel supply fdv = Inr l"
  obtains s where "isqrt (supply * Q192 div fdv) = Inr s" "levelAtSqrtPrice s = Inr l"
proof -
  have "mulDiv supply Q192 fdv = Inr (supply * Q192 div fdv)" using assms by (intro mulDiv_floor) (simp_all add: Q192_def)
  with assms(3) obtain s t where "isqrt (supply * Q192 div fdv) = Inr s" "getTickAtSqrtPrice s = Inr t" "l = toLevel t"
    by (auto simp: openingLevel_def bindR_eq_Inr_iff Let_def split: if_splits)
  then show thesis using that by (simp add: levelAtSqrtPrice_def)
qed

lemma openingLevel_least:
  assumes "0 \<le> supply" "0 < fdv" "openingLevel supply fdv = Inr l" and "fdvEthWeiAtLevel supply m = Inr v"
  shows "fdv \<le> v \<longleftrightarrow> l \<le> m"
proof -
  define N where "N = supply * Q192"
  have N: "0 \<le> N" using assms(1) by (simp add: N_def Q192_def)
  obtain s where s: "isqrt (N div fdv) = Inr s" "levelAtSqrtPrice s = Inr l"
    using openingLevel_Inr [OF assms(1-3)] by (auto simp: N_def)
  have "0 \<le> N div fdv" using N assms(2) by (simp add: pos_imp_zdiv_nonneg_iff)
  then have sq: "0 \<le> s" "s * s \<le> N div fdv" "N div fdv < (s + 1) * (s + 1)" using s(1) isqrt_spec by (metis sum.inject(2))+
  obtain p where p: "sqrtPriceAtLevel m = Inr p" using assms(4) by (auto simp: fdvEthWeiAtLevel_def bindR_eq_Inr_iff)
  have v: "v = N div (p * p)" using fdvAtLevel_eq [OF p assms(1)] assms(4) by (simp add: N_def)
  have "fdv \<le> v \<longleftrightarrow> p * p \<le> N div fdv" unfolding v using assms(2) sqrtPriceAtLevel_pos [OF p] N by (rule fdv_reaches_iff)
  also have "\<dots> \<longleftrightarrow> p \<le> s" using sq sqrtPriceAtLevel_pos [OF p] by (intro square_le_iff_isqrt) simp_all
  also have "\<dots> \<longleftrightarrow> l \<le> m" using levelAtSqrtPrice_le_iff [OF s(2) p] by simp
  finally show ?thesis .
qed

lemma isqrt_eqI:
  assumes "0 \<le> s" "s * s \<le> x" "x < (s + 1) * (s + 1)"
  shows "isqrt x = Inr s"
proof -
  have "0 \<le> x" using assms(2) zero_le_square [of s] by linarith
  then obtain r where r: "isqrt x = Inr r" "0 \<le> r" "r * r \<le> x" "x < (r + 1) * (r + 1)" by (rule isqrt_spec)
  have "s \<le> r" "r \<le> s" using square_le_iff_isqrt [OF r(2-4) assms(1)] square_le_iff_isqrt [OF assms r(2)] assms(2) r(3)
    by simp_all
  with r(1) show ?thesis by simp
qed

text \<open>The default template: a supply of \<open>10^27\<close> opening at a valuation of \<open>2 * 10^18\<close> wei.\<close>

lemma openingLevel_default: "openingLevel (10 ^ 27) (2 * 10 ^ 18) = Inr (- 200311)"
proof -
  define s :: int where "s = 1771595571142957102961017161607260"
  have "mulDiv (10 ^ 27) Q192 (2 * 10 ^ 18) = Inr (10 ^ 27 * Q192 div (2 * 10 ^ 18))"
    by (rule mulDiv_floor) (simp_all add: Q192_def)
  moreover have "isqrt (10 ^ 27 * Q192 div (2 * 10 ^ 18)) = Inr s"
    by (rule isqrt_eqI) (simp_all add: s_def Q192_def push_bit_eq_mult)
  moreover have "getTickAtSqrtPrice s = Inr 200311"
  proof (rule getTickAtSqrtPrice_bracket)
    show "tickPrice 200311 \<le> s" "s < tickPrice (200311 + 1)" unfolding s_def by code_simp+
  qed (simp_all add: model_defs)
  ultimately show ?thesis
    by (simp add: openingLevel_def toLevel_def isValidLevel_def MIN_LEVEL_def MAX_LEVEL_def MIN_TICK_def MAX_TICK_def s_def)
qed

section \<open>Properties\<close>

text \<open>C27. \<open>isqrt\<close> terminates on every input; it throws on negative numbers and returns the floor of the
  square root on the others.\<close>

theorem isqrt_floor:
  "if x < 0 then isqrt x = Inl (JsError ''isqrt of negative'')
   else \<exists>s. isqrt x = Inr s \<and> 0 \<le> s \<and> s * s \<le> x \<and> x < (s + 1) * (s + 1)"
proof (cases "x < 0")
  case False
  then have "0 \<le> x" by simp
  then show ?thesis by (rule isqrt_spec) (use False in auto)
qed (simp add: isqrt_def)

text \<open>Converting a valid level to its sqrt price and back returns the level (for every level above
  \<open>MIN_LEVEL\<close>), and the level of a price is at most \<open>m\<close> exactly when the price is at least the price at
  \<open>m\<close>: the level axis is the order-reversed tick axis.\<close>

lemma level_roundtrip:
  assumes "MIN_LEVEL < l" and "l \<le> MAX_LEVEL"
  shows "\<exists>p. sqrtPriceAtLevel l = Inr p \<and> levelAtSqrtPrice p = Inr l
    \<and> (\<forall>x k. levelAtSqrtPrice x = Inr k \<longrightarrow> (k \<le> l \<longleftrightarrow> p \<le> x))"
proof -
  have "isValidLevel l" using assms by (simp add: isValidLevel_def)
  then obtain p where p: "sqrtPriceAtLevel l = Inr p" using sqrtPriceAtLevel_defined by blast
  then show ?thesis using levelAtSqrtPrice_price [OF p assms(1)] levelAtSqrtPrice_le_iff [OF _ p] by auto
qed

text \<open>C16. The opening level of a launch is the least level at which the fully diluted valuation reaches the
  configured opening valuation: a level has a valuation of at least \<open>openingFdvWei\<close> exactly when it is not
  below the opening level.\<close>

theorem openingLevel_least_fdv:
  assumes "0 \<le> totalSupplyWei" and "0 < openingFdvWei"
    and "openingLevel totalSupplyWei openingFdvWei = Inr l"
  shows "isValidLevel l \<and> (\<exists>v. fdvEthWeiAtLevel totalSupplyWei l = Inr v \<and> openingFdvWei \<le> v)
    \<and> (\<forall>m v. fdvEthWeiAtLevel totalSupplyWei m = Inr v \<longrightarrow> m < l \<longrightarrow> v < openingFdvWei)"
proof -
  obtain s where "levelAtSqrtPrice s = Inr l" using openingLevel_Inr [OF assms] by blast
  then have valid: "isValidLevel l" using levelAtSqrtPrice_bounds [of s l] by (simp add: isValidLevel_def)
  then obtain p where "sqrtPriceAtLevel l = Inr p" using sqrtPriceAtLevel_defined by blast
  then obtain v where "fdvEthWeiAtLevel totalSupplyWei l = Inr v" using fdvAtLevel_eq assms(1) by blast
  with valid openingLevel_least [OF assms] show ?thesis by (metis linorder_not_le order_refl)
qed

theorem openingLevel_least_fdv_witness:
  "openingLevel (10 ^ 27) (2 * 10 ^ 18) = Inr (- 200311) \<and> isValidLevel (- 200311)
   \<and> (\<exists>v. fdvEthWeiAtLevel (10 ^ 27) (- 200311) = Inr v \<and> 2 * 10 ^ 18 \<le> v)"
  using openingLevel_least_fdv [OF _ _ openingLevel_default] openingLevel_default by simp

text \<open>\<open>divToDecimalString\<close> prints the quotient truncated to \<open>decimals\<close> fractional digits: the text is a
  digit string, a point and a digit string of \<open>max decimals 1\<close> digits, and read back as a decimal it is
  \<open>floor(numerator * 10^decimals / denominator)\<close> units of \<open>10^-decimals\<close>.\<close>

lemma divToDecimalString_roundtrip:
  assumes "0 \<le> numerator" and "0 < denominator" and "0 \<le> decimals"
  shows "\<exists>whole fraction. divToDecimalString numerator denominator decimals = Inr (whole @ ''.'' @ fraction)
    \<and> list_all isDigit whole \<and> list_all isDigit fraction \<and> length fraction = max (nat decimals) 1
    \<and> int (parseDec whole) * 10 ^ nat decimals + int (parseDec fraction)
      = numerator * 10 ^ nat decimals div denominator"
proof -
  define scale :: int where "scale = 10 ^ nat decimals"
  define scaled where "scaled = numerator * scale div denominator"
  have scale: "0 < scale" by (simp add: scale_def)
  have scaled: "0 \<le> scaled" using assms scale by (simp add: scaled_def pos_imp_zdiv_nonneg_iff)
  define w f where "w = decDigits (nat (scaled div scale))" and "f = decDigits (nat (scaled mod scale))"
  have nn: "0 \<le> scaled div scale" "0 \<le> scaled mod scale" using scaled scale by (simp_all add: pos_imp_zdiv_nonneg_iff)
  have eq: "divToDecimalString numerator denominator decimals = Inr (w @ ''.'' @ padStart (nat decimals) f)"
    using assms scale scaled nn unfolding divToDecimalString_def Let_def scale_def [symmetric]
    by (simp add: bigDiv_pos bigMod_pos toString_nonneg w_def f_def flip: scaled_def)
  have "length f \<le> max (nat decimals) 1"
  proof (cases "nat decimals = 0")
    case True
    then show ?thesis by (simp add: f_def scale_def decDigits.simps [of 0])
  next
    case False
    have "nat (scaled mod scale) < nat scale" using scale by simp
    also have "nat scale = 10 ^ nat decimals" by (simp add: scale_def nat_power_eq)
    finally show ?thesis using False decDigits_length_le [of "nat (scaled mod scale)" "nat decimals"] by (simp add: f_def)
  qed
  moreover have "1 \<le> length f" by (simp add: f_def Suc_leI)
  ultimately have len: "length (padStart (nat decimals) f) = max (nat decimals) 1" by simp
  have val: "int (parseDec w) * scale + int (parseDec (padStart (nat decimals) f)) = scaled"
    using nn by (simp add: w_def f_def)
  have "list_all isDigit w" "list_all isDigit (padStart (nat decimals) f)"
    using isDigit_decDigits isDigit_padStart [OF isDigit_decDigits] unfolding list_all_iff w_def f_def by blast+
  with eq len val [unfolded scale_def scaled_def] show ?thesis by blast
qed

end
