(* ===== verification/Geometry.thy ===== *)
theory Geometry
  imports ProtocolMath
begin

text \<open>
  Model of the curve and ladder geometry of \<open>src/src/protocol/protocol-math.ts\<close> (lines 199 to 298).
  \<open>Math.trunc(a / b)\<close> of safe integers is the truncating integer quotient; a curve has at least one
  position (the template has 32), which the lemmas state where they need it.
\<close>

section \<open>Curve positions\<close>

definition curvePositionStart :: "int \<Rightarrow> int \<Rightarrow> int \<Rightarrow> int \<Rightarrow> int" where
  "curvePositionStart opening far positions index =
     (let span = far - opening in opening + (span * index) sdiv positions)"

definition curvePositionAmount :: "int \<Rightarrow> int \<Rightarrow> int \<Rightarrow> int result" where
  "curvePositionAmount curveSupply positions index =
     bindR (bigDiv curveSupply positions) (\<lambda>each.
     if index + 1 = positions then Inr (curveSupply - each * (positions - 1)) else Inr each)"

definition curvePositionLiquidity :: "int \<Rightarrow> int \<Rightarrow> int \<Rightarrow> int \<Rightarrow> int \<Rightarrow> int result" where
  "curvePositionLiquidity opening far positions curveSupply index =
     (let start = curvePositionStart opening far positions index in
      if start \<ge> far then Inr 0
      else
        bindR (levelRangeToTicks start far) (\<lambda>(tickLower, tickUpper).
        bindR (getSqrtPriceAtTick tickUpper) (\<lambda>pu.
        bindR (getSqrtPriceAtTick tickLower) (\<lambda>pl.
        let denominator = pu - pl in
        if denominator = 0 then Inr 0
        else
          bindR (curvePositionAmount curveSupply positions index) (\<lambda>amount.
          bindR (mulDiv amount Q96 denominator) (\<lambda>liquidity.
          Inr (if liquidity > UINT128_MAX then UINT128_MAX else liquidity)))))))"

section \<open>Ladder bands\<close>

record band_levels =
  levelLower :: int
  levelUpper :: int
  exists :: bool

definition bandLevels :: "int \<Rightarrow> int \<Rightarrow> int \<Rightarrow> int \<Rightarrow> int \<Rightarrow> int \<Rightarrow> band_levels result" where
  "bandLevels graduationLevel firstStepLevels stepDecayLevels levelSpacing widthLevels index =
     (let m = index + 1; first = firstStepLevels; decay = stepDecayLevels; spacing = levelSpacing in
      bindR (bigDiv (first - spacing) decay) (\<lambda>k.
      bindR (if m \<le> k + 1
             then bindR (bigDiv (decay * m * (m - 1)) 2) (\<lambda>d. Inr (first * m - d))
             else bindR (bigDiv (decay * k * (k + 1)) 2)
                    (\<lambda>d. Inr (first * (k + 1) - d + (m - k - 1) * spacing))) (\<lambda>offset.
      let lower = graduationLevel + offset;
          upper = lower + widthLevels
      in if upper > MAX_LEVEL then Inr \<lparr>levelLower = 0, levelUpper = 0, exists = False\<rparr>
         else Inr \<lparr>levelLower = lower, levelUpper = upper, exists = True\<rparr>)))"

definition ladderSupply :: "int \<Rightarrow> int \<Rightarrow> int result" where
  "ladderSupply totalSupply ladderSupplyShareWad = mulDiv totalSupply ladderSupplyShareWad (10 ^ 18)"

definition perBandInventory :: "int \<Rightarrow> int \<Rightarrow> int \<Rightarrow> int result" where
  "perBandInventory totalSupply ladderSupplyShareWad coreBandCount =
     (if coreBandCount = 0 then Inr 0
      else bindR (ladderSupply totalSupply ladderSupplyShareWad) (\<lambda>s. bigDiv s coreBandCount))"

definition saturatingMul :: "int \<Rightarrow> int \<Rightarrow> int result" where
  "saturatingMul a b =
     (if a = 0 \<or> b = 0 then Inr 0
      else let product = a * b in
        bindR (bigDiv product a) (\<lambda>q. if q \<noteq> b then Inr UINT256_MAX else Inr product))"

definition sizeInventory :: "int \<Rightarrow> int \<Rightarrow> int \<Rightarrow> (int \<times> int) result" where
  "sizeInventory available perBand capMultiple =
     bindR (saturatingMul perBand capMultiple) (\<lambda>cap.
     if available > cap then Inr (cap, available - cap) else Inr (available, 0))"

section \<open>Lemmas on positions\<close>

lemma curvePositionStart_eq:
  "opening \<le> far \<Longrightarrow> 0 < n \<Longrightarrow> 0 \<le> i \<Longrightarrow> curvePositionStart opening far n i = opening + (far - opening) * i div n"
  by (simp add: curvePositionStart_def sdiv_nonneg Let_def)

lemma curvePositionStart_bounds:
  assumes "opening < far" "0 < n" "0 \<le> i" "i < n"
  shows "opening \<le> curvePositionStart opening far n i" and "curvePositionStart opening far n i < far"
proof -
  have "(far - opening) * i < (far - opening) * n" using assms by simp
  then have "(far - opening) * i div n < far - opening" using assms(2) by (intro div_less_cancel)
  moreover have "0 \<le> (far - opening) * i div n" using assms by (simp add: pos_imp_zdiv_nonneg_iff)
  ultimately show "opening \<le> curvePositionStart opening far n i" "curvePositionStart opening far n i < far"
    using assms by (simp_all add: curvePositionStart_eq)
qed

lemma curvePositionStart_mono:
  assumes "opening \<le> far" "0 < n" "0 \<le> i" "i \<le> j"
  shows "curvePositionStart opening far n i \<le> curvePositionStart opening far n j"
  using assms by (simp add: curvePositionStart_eq zdiv_mono1 mult_left_mono)

lemma curvePositionAmount_eq:
  assumes "0 \<le> s" "0 < n"
  shows "curvePositionAmount s n i = Inr (if i + 1 = n then s - s div n * (n - 1) else s div n)"
  using assms by (simp add: curvePositionAmount_def bigDiv_pos)

lemma curvePositionAmount_nonneg:
  assumes "0 \<le> s" "0 < n" "curvePositionAmount s n i = Inr a"
  shows "0 \<le> a" and "s div n \<le> a"
proof -
  have q: "0 \<le> s div n" "s div n * n \<le> s" using assms floor_div_bounds(1) [of n s] by (simp_all add: pos_imp_zdiv_nonneg_iff)
  have "s div n \<le> s - s div n * (n - 1)" using q(2) by (simp add: algebra_simps)
  with q(1) show "0 \<le> a" "s div n \<le> a" using assms by (auto simp: curvePositionAmount_eq split: if_splits)
qed

lemma sqrtPriceAtLevel_tick: "getSqrtPriceAtTick (- l) = sqrtPriceAtLevel l"
  by (simp add: sqrtPriceAtLevel_def toTick_def)

text \<open>The whole computation of a position's liquidity, on a valid curve.\<close>

lemma curvePositionLiquidity_eq:
  assumes "isValidLevel opening" "isValidLevel far" "opening < far" "0 < n" "0 \<le> i" "i < n" "0 \<le> s"
  obtains start p q a where "start = curvePositionStart opening far n i"
    and "sqrtPriceAtLevel start = Inr p" "sqrtPriceAtLevel far = Inr q" "q < p"
    and "curvePositionAmount s n i = Inr a" "0 \<le> a"
    and "curvePositionLiquidity opening far n s i = Inr (min (a * Q96 div (p - q)) UINT128_MAX)"
proof -
  define start where "start = curvePositionStart opening far n i"
  note b = curvePositionStart_bounds [OF assms(3-6), folded start_def]
  have "isValidLevel start" using b assms(1,2) by (simp add: isValidLevel_def)
  then obtain p q where p: "sqrtPriceAtLevel start = Inr p" and q: "sqrtPriceAtLevel far = Inr q"
    using sqrtPriceAtLevel_defined assms(2) by blast
  have qp: "q < p" using sqrtPriceAtLevel_less_iff [OF p q] b by simp
  obtain a where a: "curvePositionAmount s n i = Inr a" "0 \<le> a"
    using curvePositionAmount_eq [OF assms(7,4)] curvePositionAmount_nonneg(1) [OF assms(7,4)] by metis
  have "mulDiv a Q96 (p - q) = Inr (a * Q96 div (p - q))"
    using a(2) qp by (intro mulDiv_floor) (simp_all add: Q96_def)
  then have "curvePositionLiquidity opening far n s i = Inr (min (a * Q96 div (p - q)) UINT128_MAX)"
    using p q qp a(1) b
    by (simp add: curvePositionLiquidity_def levelRangeToTicks_def toTick_def sqrtPriceAtLevel_tick Let_def
        min_def flip: start_def)
  then show thesis using that [OF start_def p q qp a] by simp
qed

lemma curvePositionLiquidity_bounds:
  assumes "isValidLevel opening" "isValidLevel far" "opening < far" "0 < n" "0 \<le> i" "i < n" "0 \<le> s"
  obtains L where "curvePositionLiquidity opening far n s i = Inr L" "0 \<le> L" "L \<le> UINT128_MAX"
proof -
  obtain p q a where "q < p" "0 \<le> a"
    and L: "curvePositionLiquidity opening far n s i = Inr (min (a * Q96 div (p - q)) UINT128_MAX)"
    using curvePositionLiquidity_eq [OF assms] by metis
  then have "0 \<le> a * Q96 div (p - q)" by (simp add: pos_imp_zdiv_nonneg_iff Q96_def)
  with L show thesis by (intro that [OF L]) (simp_all add: UINT128_MAX_def)
qed

section \<open>Lemmas on bands\<close>

definition bandStep :: "int \<Rightarrow> int \<Rightarrow> int \<Rightarrow> nat \<Rightarrow> int" where
  "bandStep first decay spacing i = max spacing (first - decay * int i)"

definition bandOffset :: "int \<Rightarrow> int \<Rightarrow> int \<Rightarrow> nat \<Rightarrow> int" where
  "bandOffset first decay spacing m = (\<Sum>i<m. bandStep first decay spacing i)"

lemma halfProduct_step: "(decay * (m + 1) * m) div 2 = (decay * m * (m - 1)) div 2 + decay * (m::int)"
proof -
  have "decay * (m + 1) * m = decay * m * (m - 1) + 2 * (decay * m)" by (simp add: algebra_simps)
  then show ?thesis by simp
qed

lemma bandOffset_decaying:
  assumes "0 < decay" "spacing \<le> first" "int m \<le> (first - spacing) div decay + 1"
  shows "bandOffset first decay spacing m = first * int m - decay * int m * (int m - 1) div 2"
  using assms(3)
proof (induction m)
  case (Suc m)
  have "decay * int m \<le> first - spacing"
    using Suc.prems le_div_iff [OF assms(1), of "int m" "first - spacing"] by (simp add: mult.commute)
  then have "bandStep first decay spacing m = first - decay * int m" by (simp add: bandStep_def)
  with Suc halfProduct_step [of decay "int m"] show ?case
    by (simp add: bandOffset_def algebra_simps)
qed (simp add: bandOffset_def)

lemma bandOffset_floor:
  assumes "0 < decay" "spacing \<le> first" "k = (first - spacing) div decay" "k + 1 \<le> int m"
  shows "bandOffset first decay spacing m = first * (k + 1) - decay * k * (k + 1) div 2 + (int m - k - 1) * spacing"
proof -
  have k: "0 \<le> k" using assms by (simp add: pos_imp_zdiv_nonneg_iff)
  then have "nat (k + 1) \<le> m" using assms(4) by simp
  then show ?thesis
  proof (induction m rule: dec_induct)
    case base
    then show ?case
      using bandOffset_decaying [OF assms(1,2), of "nat (k + 1)"] k assms(3) by (simp add: mult.commute mult.left_commute)
  next
    case (step m)
    then have "k + 1 \<le> int m" using k by simp
    then have "\<not> decay * int m \<le> first - spacing"
      using le_div_iff [OF assms(1), of "int m" "first - spacing"] assms(3) by (simp add: mult.commute)
    then have "bandStep first decay spacing m = spacing" by (simp add: bandStep_def)
    with step.IH show ?case by (simp add: bandOffset_def algebra_simps)
  qed
qed

lemma bandLevels_eq:
  assumes "0 < decay" "spacing \<le> first" "0 \<le> spacing"
  shows "bandLevels g first decay spacing w (int i) =
    (let lower = g + bandOffset first decay spacing (Suc i) in
     if lower + w > MAX_LEVEL then Inr \<lparr>levelLower = 0, levelUpper = 0, exists = False\<rparr>
     else Inr \<lparr>levelLower = lower, levelUpper = lower + w, exists = True\<rparr>)"
proof -
  define k where "k = (first - spacing) div decay"
  have k: "0 \<le> k" "bigDiv (first - spacing) decay = Inr k"
    using assms by (simp_all add: k_def bigDiv_pos pos_imp_zdiv_nonneg_iff)
  show ?thesis
  proof (cases "int (Suc i) \<le> k + 1")
    case True
    have "0 \<le> decay * int (Suc i) * (int (Suc i) - 1)" using assms(1) by simp
    then have "bigDiv (decay * (int i + 1) * (int i + 1 - 1)) 2 = Inr (decay * int (Suc i) * (int (Suc i) - 1) div 2)"
      by (simp add: bigDiv_pos add.commute)
    with True k bandOffset_decaying [OF assms(1,2), of "Suc i"] show ?thesis
      by (simp add: bandLevels_def Let_def k_def add.commute)
  next
    case False
    have "bigDiv (decay * k * (k + 1)) 2 = Inr (decay * k * (k + 1) div 2)" using assms(1) k by (intro bigDiv_pos) simp_all
    with False k bandOffset_floor [OF assms(1,2) k_def, of "Suc i"] show ?thesis
      by (simp add: bandLevels_def Let_def add.commute)
  qed
qed

lemma sdiv_mult_cancel: "a \<noteq> 0 \<Longrightarrow> a * b sdiv a = (b::int)"
proof -
  assume a: "a \<noteq> 0"
  have "\<bar>a * b\<bar> div \<bar>a\<bar> = \<bar>b\<bar>" using a unfolding abs_mult by simp
  moreover have "sgn (a * b) * sgn a = sgn b" using a by (auto simp: sgn_if zero_less_mult_iff mult_less_0_iff)
  ultimately show ?thesis unfolding signed_divide_int_def by (simp only: sgn_mult_abs)
qed

lemma saturatingMul_eq: "saturatingMul a b = Inr (a * b)"
  by (simp add: saturatingMul_def bigDiv_def sdiv_mult_cancel Let_def)

lemma bandStep_ge: "spacing \<le> bandStep first decay spacing i"
  by (simp add: bandStep_def)

lemma bandOffset_Suc: "bandOffset first decay spacing (Suc m) = bandOffset first decay spacing m + bandStep first decay spacing m"
  by (simp add: bandOffset_def)

section \<open>Properties\<close>

text \<open>C30. The positions of a curve partition the curve supply: the amounts are non-negative, no position gets
  less than an equal share, and they sum to the supply exactly (the last one absorbs the remainder).\<close>

theorem curvePositionAmount_partition:
  assumes "0 \<le> curveSupply" and "0 < n"
  shows "\<exists>amount. (\<forall>i<n. curvePositionAmount curveSupply (int n) (int i) = Inr (amount i)
      \<and> 0 \<le> amount i \<and> curveSupply div int n \<le> amount i)
    \<and> (\<Sum>i<n. amount i) = curveSupply"
proof -
  define q where "q = curveSupply div int n"
  define amount where "amount i = (if int i + 1 = int n then curveSupply - q * (int n - 1) else q)" for i :: nat
  have eq: "curvePositionAmount curveSupply (int n) (int i) = Inr (amount i)" for i
    using assms by (simp add: curvePositionAmount_eq amount_def q_def)
  obtain m where m: "n = Suc m" using assms(2) by (cases n) auto
  have "(\<Sum>i<m. amount i) = (\<Sum>i<m. q)" by (rule sum.cong) (simp_all add: amount_def m)
  then have "(\<Sum>i<n. amount i) = curveSupply" by (simp add: m amount_def)
  moreover have "0 \<le> amount i \<and> q \<le> amount i" for i
    using curvePositionAmount_nonneg [OF assms(1) _ eq, of i] assms(2) by (simp add: q_def)
  ultimately show ?thesis using eq by (auto simp: q_def)
qed

theorem curvePositionAmount_partition_witness:
  "\<exists>amount. curvePositionAmount (10 ^ 26 + 7) (int 32) (int 31) = Inr (amount 31)
    \<and> (\<Sum>i<32::nat. amount i) = 10 ^ 26 + 7"
proof -
  have "(0::int) \<le> 10 ^ 26 + 7" "(0::nat) < 32" "(31::nat) < 32" by simp_all
  with curvePositionAmount_partition [OF this(1,2)] show ?thesis by blast
qed



text \<open>Bands never overlap when their width is at most the spacing floor, and the existing bands form a prefix
  of the ladder: if band \<open>i + 1\<close> exists then band \<open>i\<close> exists and ends at or before it starts. Band \<open>i + 1\<close>
  starts \<open>max(levelSpacing, firstStep - decay * (i + 1))\<close> levels above band \<open>i\<close>.\<close>

lemma bandLevels_disjoint:
  assumes "0 < decay" and "spacing \<le> first" and "0 \<le> spacing" and "w \<le> spacing"
    and "bandLevels g first decay spacing w (int i + 1) = Inr b" and "exists b"
  shows "\<exists>a. bandLevels g first decay spacing w (int i) = Inr a \<and> exists a \<and> levelUpper a \<le> levelLower b
    \<and> levelLower b - levelLower a = max spacing (first - decay * (int i + 1))"
proof -
  let ?lo = "\<lambda>i. g + bandOffset first decay spacing (Suc i)"
  have b: "b = \<lparr>levelLower = ?lo (Suc i), levelUpper = ?lo (Suc i) + w, exists = True\<rparr>" "?lo (Suc i) + w \<le> MAX_LEVEL"
    using assms(5,6) bandLevels_eq [OF assms(1-3), of g w "Suc i"] by (auto simp: Let_def add.commute split: if_splits)
  have step: "?lo (Suc i) = ?lo i + bandStep first decay spacing (Suc i)" using bandOffset_Suc by simp
  have ge: "spacing \<le> bandStep first decay spacing (Suc i)" by (rule bandStep_ge)
  then have "bandLevels g first decay spacing w (int i) = Inr \<lparr>levelLower = ?lo i, levelUpper = ?lo i + w, exists = True\<rparr>"
    using bandLevels_eq [OF assms(1-3), of g w i] b(2) step assms(3,4) by (simp add: Let_def)
  then show ?thesis using b(1) step ge assms(4) by (simp add: bandStep_def add.commute)
qed

text \<open>Splitting a band's inventory conserves it: the amount placed and the amount carried sum to what was
  available, the placed amount is capped at \<open>perBand * capMultiple\<close>, and something is carried only when the
  cap is reached. The cap is the exact product: on unbounded integers \<open>saturatingMul\<close> never saturates.\<close>

lemma sizeInventory_conserves:
  "\<exists>amount carried. sizeInventory available perBand capMultiple = Inr (amount, carried)
    \<and> amount + carried = available \<and> amount \<le> perBand * capMultiple \<and> 0 \<le> carried
    \<and> (carried = 0 \<or> amount = perBand * capMultiple)
    \<and> saturatingMul perBand capMultiple = Inr (perBand * capMultiple)"
  by (simp add: sizeInventory_def saturatingMul_eq)

end
