(* ===== verification/SwapMath.thy ===== *)
theory SwapMath
  imports Geometry
begin

text \<open>
  Model of the swap arithmetic and of the pre-launch quote of \<open>src/src/protocol/protocol-math.ts\<close>
  (lines 300 to 346 and 459 to 582). The quote's loop keeps the boundaries not yet crossed as a list
  instead of an index into an array; every iteration of the source is one unfolding of \<open>devBuyLoop\<close>.
\<close>

section \<open>Swap arithmetic\<close>

definition amount0Delta :: "int \<Rightarrow> int \<Rightarrow> int \<Rightarrow> bool \<Rightarrow> int result" where
  "amount0Delta sqrtPriceAX96 sqrtPriceBX96 liquidity roundUp =
     (let (sqrtA, sqrtB) = (if sqrtPriceAX96 > sqrtPriceBX96 then (sqrtPriceBX96, sqrtPriceAX96)
                            else (sqrtPriceAX96, sqrtPriceBX96)) in
      if sqrtA = 0 then Inl (JsError ''Invalid price'')
      else
        let numerator1 = push_bit 96 liquidity; numerator2 = sqrtB - sqrtA in
        if roundUp
        then bindR (mulDivRoundingUp numerator1 numerator2 sqrtB) (\<lambda>x. divRoundingUp x sqrtA)
        else bindR (mulDiv numerator1 numerator2 sqrtB) (\<lambda>x. bigDiv x sqrtA))"

definition amount1Delta :: "int \<Rightarrow> int \<Rightarrow> int \<Rightarrow> bool \<Rightarrow> int result" where
  "amount1Delta sqrtPriceAX96 sqrtPriceBX96 liquidity roundUp =
     (let numerator = (if sqrtPriceAX96 > sqrtPriceBX96 then sqrtPriceAX96 - sqrtPriceBX96
                       else sqrtPriceBX96 - sqrtPriceAX96) in
      bindR (mulDiv liquidity numerator Q96) (\<lambda>quotient.
      bindR (bigMod (liquidity * numerator) Q96) (\<lambda>rem.
      if roundUp \<and> rem \<noteq> 0 then Inr (quotient + 1) else Inr quotient)))"

definition nextSqrtFromAmount1Out :: "int \<Rightarrow> int \<Rightarrow> int \<Rightarrow> int result" where
  "nextSqrtFromAmount1Out sqrtPriceX96 liquidity amount1Out =
     bindR (divRoundingUp (push_bit 96 amount1Out) liquidity) (\<lambda>quotient.
     if sqrtPriceX96 \<le> quotient then Inl (JsError ''Not enough liquidity'')
     else Inr (sqrtPriceX96 - quotient))"

section \<open>The pre-launch quote\<close>

record dev_buy_quote =
  tokensOut :: int
  ethCost :: int
  endLevel :: int
  endSqrtPriceX96 :: int

fun devBuyBoundaries :: "int \<Rightarrow> int \<Rightarrow> int \<Rightarrow> int \<Rightarrow> int list \<Rightarrow> (int \<times> int) list result" where
  "devBuyBoundaries opening far positions curveSupply [] = Inr []"
| "devBuyBoundaries opening far positions curveSupply (i # is) =
     (let start = curvePositionStart opening far positions i in
      if start \<ge> far then Inr []
      else
        bindR (sqrtPriceAtLevel start) (\<lambda>sqrtPrice.
        bindR (curvePositionLiquidity opening far positions curveSupply i) (\<lambda>liquidity.
        bindR (devBuyBoundaries opening far positions curveSupply is) (\<lambda>rest.
        Inr ((sqrtPrice, liquidity) # rest)))))"

text \<open>ETH of one segment, the fee on the input side included.\<close>

definition segmentCost :: "int \<Rightarrow> int \<Rightarrow> int \<Rightarrow> int \<Rightarrow> int result" where
  "segmentCost feePips target current activeLiquidity =
     bindR (amount0Delta target current activeLiquidity True) (\<lambda>amountIn.
     bindR (mulDivRoundingUp amountIn feePips (1000000 - feePips)) (\<lambda>fee. Inr (amountIn + fee)))"

definition devBuyResult :: "int \<Rightarrow> int \<Rightarrow> int \<Rightarrow> dev_buy_quote result" where
  "devBuyResult tokens cost endSqrt =
     bindR (levelAtSqrtPrice endSqrt) (\<lambda>level.
     Inr \<lparr>tokensOut = tokens, ethCost = cost, endLevel = level, endSqrtPriceX96 = endSqrt\<rparr>)"

lemma length_tl_dropWhile: "x \<in> set xs \<Longrightarrow> length (dropWhile P xs) - Suc 0 < length xs"
  using length_dropWhile_le [of P xs] length_pos_if_in_set [of x xs] by linarith

function devBuyLoop :: "int \<Rightarrow> int \<Rightarrow> int \<Rightarrow> (int \<times> int) list \<Rightarrow> int \<Rightarrow> int \<Rightarrow> int \<Rightarrow> int \<Rightarrow> dev_buy_quote result" where
  "devBuyLoop feePips farSqrt tokens boundaries currentSqrt activeLiquidity remaining cost =
     (let ahead = dropWhile (\<lambda>b. fst b \<ge> currentSqrt) boundaries;
          targetSqrt = (if ahead \<noteq> [] then fst (hd ahead) else farSqrt) in
      if activeLiquidity = 0 then Inl (JsError ''dev buy exhausted curve liquidity'')
      else
        bindR (amount1Delta currentSqrt targetSqrt activeLiquidity False) (\<lambda>outToTarget.
        if remaining < outToTarget then
          bindR (nextSqrtFromAmount1Out currentSqrt activeLiquidity remaining) (\<lambda>endSqrt.
          bindR (segmentCost feePips endSqrt currentSqrt activeLiquidity) (\<lambda>c.
          devBuyResult tokens (cost + c) endSqrt))
        else
          bindR (segmentCost feePips targetSqrt currentSqrt activeLiquidity) (\<lambda>c.
          if remaining - outToTarget = 0 then devBuyResult tokens (cost + c) targetSqrt
          else if ahead \<noteq> [] then
            devBuyLoop feePips farSqrt tokens (tl ahead) targetSqrt (activeLiquidity + snd (hd ahead))
              (remaining - outToTarget) (cost + c)
          else Inl (JsError ''dev buy exceeds curve supply''))))"
  by pat_completeness auto
termination
  by (relation "measure (\<lambda>(_, _, _, bs, _). length bs)") (auto simp: length_tl_dropWhile)

declare devBuyLoop.simps [simp del]

definition devBuyQuote :: "int \<Rightarrow> int \<Rightarrow> int \<Rightarrow> int \<Rightarrow> int \<Rightarrow> int \<Rightarrow> int \<Rightarrow> dev_buy_quote result" where
  "devBuyQuote totalSupplyWei devBuyShareWad opening far positions curveSupply feePips =
     bindR (mulDiv totalSupplyWei devBuyShareWad (10 ^ 18)) (\<lambda>tokens.
     bindR (sqrtPriceAtLevel opening) (\<lambda>startSqrt.
     if tokens = 0 then
       Inr \<lparr>tokensOut = 0, ethCost = 0, endLevel = opening, endSqrtPriceX96 = startSqrt\<rparr>
     else
       bindR (devBuyBoundaries opening far positions curveSupply [1..positions - 1]) (\<lambda>boundaries.
       bindR (sqrtPriceAtLevel far) (\<lambda>farSqrt.
       bindR (curvePositionLiquidity opening far positions curveSupply 0) (\<lambda>activeLiquidity.
       if activeLiquidity = 0 then Inl (JsError ''position 0 has zero liquidity'')
       else devBuyLoop feePips farSqrt tokens boundaries startSqrt activeLiquidity tokens 0)))))"

section \<open>Lemmas on the arithmetic\<close>

lemma amount1Delta_down:
  assumes "b \<le> a" "0 \<le> L"
  shows "amount1Delta a b L False = Inr (L * (a - b) div Q96)"
  using assms by (auto simp: amount1Delta_def mulDiv_floor bigMod_def Q96_def Let_def)

definition amount0Up :: "int \<Rightarrow> int \<Rightarrow> int \<Rightarrow> int" where
  "amount0Up a b L = ceilDiv (ceilDiv (push_bit 96 L * (b - a)) b) a"

lemma amount0Delta_up:
  assumes "0 < a" "a \<le> b" "0 \<le> L"
  shows "amount0Delta a b L True = Inr (amount0Up a b L)"
proof -
  have "0 \<le> push_bit 96 L * (b - a)" using assms by (simp add: push_bit_eq_mult)
  moreover from this have "0 \<le> ceilDiv (push_bit 96 L * (b - a)) b" using assms by (intro ceilDiv_nonneg) simp_all
  ultimately show ?thesis
    using assms by (simp add: amount0Delta_def amount0Up_def mulDivRoundingUp_ceil divRoundingUp_ceil Let_def)
qed

lemma amount0Up_nonneg: "0 < a \<Longrightarrow> a \<le> b \<Longrightarrow> 0 \<le> L \<Longrightarrow> 0 \<le> amount0Up a b L"
  unfolding amount0Up_def by (intro ceilDiv_nonneg) (simp_all add: push_bit_eq_mult)

definition segmentCostSpec :: "int \<Rightarrow> int \<Rightarrow> int \<Rightarrow> int \<Rightarrow> int" where
  "segmentCostSpec feePips a b L =
     amount0Up a b L + ceilDiv (amount0Up a b L * feePips) (1000000 - feePips)"

lemma segmentCost_eq:
  assumes "0 < a" "a \<le> b" "0 \<le> L" "0 \<le> fee" "fee < 1000000"
  shows "segmentCost fee a b L = Inr (segmentCostSpec fee a b L)"
  using assms amount0Up_nonneg [of a b L]
  by (simp add: segmentCost_def amount0Delta_up mulDivRoundingUp_ceil segmentCostSpec_def)

lemma segmentCostSpec_nonneg:
  "0 < a \<Longrightarrow> a \<le> b \<Longrightarrow> 0 \<le> L \<Longrightarrow> 0 \<le> fee \<Longrightarrow> fee < 1000000 \<Longrightarrow> 0 \<le> segmentCostSpec fee a b L"
  using amount0Up_nonneg [of a b L] ceilDiv_nonneg [of "amount0Up a b L * fee" "1000000 - fee"]
  by (simp add: segmentCostSpec_def)

text \<open>An output below what the segment holds ends strictly inside the segment.\<close>

lemma nextSqrt_inside:
  assumes "0 < L" "0 \<le> r" "r < L * (c - t) div Q96" "0 < t"
  obtains e where "nextSqrtFromAmount1Out c L r = Inr e" "t \<le> e" "e \<le> c" "0 < r \<longrightarrow> e < c"
    "e = c - ceilDiv (r * Q96) L"
proof -
  have Q: "0 < Q96" by (simp add: Q96_def)
  have "(r + 1) * Q96 \<le> L * (c - t)" using assms(3) le_div_iff [OF Q, of "r + 1" "L * (c - t)"] by simp
  then have lt: "r * Q96 < L * (c - t)" using Q by (simp add: algebra_simps)
  define k where "k = ceilDiv (r * Q96) L"
  have k: "divRoundingUp (push_bit 96 r) L = Inr k"
    using assms(1,2) by (simp add: divRoundingUp_ceil push_bit_eq_mult k_def Q96_def)
  have kle: "k \<le> c - t" using lt assms(1) by (simp add: k_def ceilDiv_le_iff mult.commute)
  have kpos: "0 \<le> k" using assms(1,2) Q by (simp add: k_def ceilDiv_nonneg)
  have "0 < r \<longrightarrow> 0 < k"
  proof
    assume "0 < r"
    then have "\<not> r * Q96 \<le> 0 * L" using Q mult_pos_pos [of r Q96] by linarith
    then show "0 < k" using ceilDiv_le_iff [OF assms(1), of "r * Q96" 0] by (simp add: k_def)
  qed
  moreover have "k < c" using kle assms(4) by simp
  ultimately show thesis using that [of "c - k"] kle kpos k by (simp add: nextSqrtFromAmount1Out_def k_def)
qed

section \<open>What the loop can sell\<close>

function devBuyCapacity :: "int \<Rightarrow> (int \<times> int) list \<Rightarrow> int \<Rightarrow> int \<Rightarrow> int" where
  "devBuyCapacity farSqrt bs c L =
     (let ahead = dropWhile (\<lambda>b. fst b \<ge> c) bs in
      if ahead = [] then L * (c - farSqrt) div Q96
      else L * (c - fst (hd ahead)) div Q96
           + devBuyCapacity farSqrt (tl ahead) (fst (hd ahead)) (L + snd (hd ahead)))"
  by pat_completeness auto
termination
  by (relation "measure (\<lambda>(_, bs, _). length bs)") (auto simp: length_tl_dropWhile)

declare devBuyCapacity.simps [simp del]

definition loopInv :: "int \<Rightarrow> (int \<times> int) list \<Rightarrow> int \<Rightarrow> int \<Rightarrow> bool" where
  "loopInv farSqrt bs c L \<longleftrightarrow> MIN_SQRT_PRICE \<le> farSqrt \<and> farSqrt \<le> c \<and> c < MAX_SQRT_PRICE \<and> 0 < L
     \<and> (\<forall>b\<in>set bs. farSqrt \<le> fst b \<and> 0 \<le> snd b)"

lemma loopInv_ahead:
  assumes "loopInv farSqrt bs c L" and "dropWhile (\<lambda>b. fst b \<ge> c) bs = b # rest"
  shows "farSqrt \<le> fst b" and "fst b < c" and "loopInv farSqrt rest (fst b) (L + snd b)"
proof -
  have sub: "set (b # rest) \<subseteq> set bs" using assms(2) by (metis set_dropWhileD subsetI)
  have "\<not> c \<le> fst b" using assms(2) hd_dropWhile [of "\<lambda>b. fst b \<ge> c" bs] by simp
  with sub assms(1) show "farSqrt \<le> fst b" "fst b < c" "loopInv farSqrt rest (fst b) (L + snd b)"
    unfolding loopInv_def by auto
qed

lemma Q96_pos: "0 < Q96"
  by (simp add: Q96_def)

lemma devBuyCapacity_nonneg: "loopInv farSqrt bs c L \<Longrightarrow> 0 \<le> devBuyCapacity farSqrt bs c L"
proof (induction farSqrt bs c L rule: devBuyCapacity.induct)
  case (1 farSqrt bs c L)
  define ahead where "ahead = dropWhile (\<lambda>b. fst b \<ge> c) bs"
  show ?case
  proof (cases ahead)
    case Nil
    then show ?thesis using 1(2) Q96_pos
      by (subst devBuyCapacity.simps) (simp add: ahead_def [symmetric] loopInv_def pos_imp_zdiv_nonneg_iff)
  next
    case (Cons b rest)
    note st = loopInv_ahead [OF 1(2), folded ahead_def, OF Cons]
    have "0 \<le> L * (c - fst b) div Q96" using 1(2) st Q96_pos by (simp add: loopInv_def pos_imp_zdiv_nonneg_iff)
    moreover have "0 \<le> devBuyCapacity farSqrt rest (fst b) (L + snd b)" using 1(1) [OF ahead_def] Cons st(3) by simp
    ultimately show ?thesis using Cons by (subst devBuyCapacity.simps) (simp add: ahead_def [symmetric])
  qed
qed

definition quoteOk :: "int \<Rightarrow> int \<Rightarrow> int \<Rightarrow> int \<Rightarrow> dev_buy_quote result \<Rightarrow> bool" where
  "quoteOk tokens farSqrt c cost r \<longleftrightarrow> (\<exists>q. r = Inr q \<and> tokensOut q = tokens \<and> cost \<le> ethCost q
     \<and> farSqrt \<le> endSqrtPriceX96 q \<and> endSqrtPriceX96 q \<le> c \<and> levelAtSqrtPrice (endSqrtPriceX96 q) = Inr (endLevel q))"

lemma devBuyResult_ok:
  assumes "MIN_SQRT_PRICE \<le> farSqrt" "farSqrt \<le> e" "e \<le> c" "c < MAX_SQRT_PRICE" "0 \<le> k"
  shows "quoteOk tokens farSqrt c cost (devBuyResult tokens (cost + k) e)"
proof -
  obtain l where "levelAtSqrtPrice e = Inr l" using levelAtSqrtPrice_defined [of e] assms by auto
  with assms show ?thesis by (simp add: quoteOk_def devBuyResult_def)
qed

lemma quoteOk_mono: "quoteOk tokens farSqrt c' cost' r \<Longrightarrow> c' \<le> c \<Longrightarrow> cost \<le> cost' \<Longrightarrow> quoteOk tokens farSqrt c cost r"
  unfolding quoteOk_def by fastforce

text \<open>One segment: the quote ends inside it, ends at its target, or goes on with what remains.\<close>

lemma devBuyLoop_segment:
  assumes inv: "loopInv farSqrt bs c L" and fee: "0 \<le> fee" "fee < 1000000" and rem: "0 < remaining"
    and ahead: "ahead = dropWhile (\<lambda>b. fst b \<ge> c) bs"
    and target: "target = (if ahead \<noteq> [] then fst (hd ahead) else farSqrt)"
  defines "out \<equiv> L * (c - target) div Q96" and "k \<equiv> segmentCostSpec fee target c L"
  shows "remaining \<le> out \<Longrightarrow> quoteOk tokens farSqrt c cost (devBuyLoop fee farSqrt tokens bs c L remaining cost)"
    and "out < remaining \<Longrightarrow> devBuyLoop fee farSqrt tokens bs c L remaining cost =
      (if ahead \<noteq> [] then devBuyLoop fee farSqrt tokens (tl ahead) target (L + snd (hd ahead)) (remaining - out) (cost + k)
       else Inl (JsError ''dev buy exceeds curve supply''))"
proof -
  have t: "farSqrt \<le> target \<and> target \<le> c"
  proof (cases ahead)
    case Nil
    then show ?thesis using inv target by (simp add: loopInv_def)
  next
    case (Cons b rest)
    then show ?thesis using loopInv_ahead(1,2) [OF inv, of b rest] ahead target by simp
  qed
  have pos: "0 < farSqrt" "0 < target" "0 < L" "MIN_SQRT_PRICE \<le> farSqrt" "c < MAX_SQRT_PRICE"
    using inv t(1) by (auto simp: loopInv_def MIN_SQRT_PRICE_def)
  have o: "amount1Delta c target L False = Inr out" using t pos by (simp add: out_def amount1Delta_down)
  have k: "segmentCost fee target c L = Inr k" "0 \<le> k"
    using t pos fee by (simp_all add: k_def segmentCost_eq segmentCostSpec_nonneg)
  note unf = devBuyLoop.simps [of fee farSqrt tokens bs c L remaining cost, folded ahead, unfolded Let_def, folded target]
  show "quoteOk tokens farSqrt c cost (devBuyLoop fee farSqrt tokens bs c L remaining cost)" if "remaining \<le> out"
  proof (cases "remaining = out")
    case True
    then show ?thesis unfolding unf using pos o k t devBuyResult_ok [of farSqrt target c k] by simp
  next
    case False
    with that have lt: "remaining < out" by simp
    obtain e where e: "nextSqrtFromAmount1Out c L remaining = Inr e" "target \<le> e" "e \<le> c"
      by (rule nextSqrt_inside [OF pos(3) less_imp_le [OF rem] lt [unfolded out_def] pos(2)]) blast
    then have "segmentCost fee e c L = Inr (segmentCostSpec fee e c L)" "0 \<le> segmentCostSpec fee e c L"
      using pos fee by (simp_all add: segmentCost_eq segmentCostSpec_nonneg)
    then show ?thesis using lt pos o e t devBuyResult_ok [of farSqrt e c] by (simp add: unf)
  qed
  show "devBuyLoop fee farSqrt tokens bs c L remaining cost =
      (if ahead \<noteq> [] then devBuyLoop fee farSqrt tokens (tl ahead) target (L + snd (hd ahead)) (remaining - out) (cost + k)
       else Inl (JsError ''dev buy exceeds curve supply''))" if "out < remaining"
    using that pos o k by (simp add: unf)
qed

lemma devBuyLoop_spec:
  assumes "loopInv farSqrt bs c L" "0 \<le> fee" "fee < 1000000" "0 < remaining"
  shows "if remaining \<le> devBuyCapacity farSqrt bs c L
    then quoteOk tokens farSqrt c cost (devBuyLoop fee farSqrt tokens bs c L remaining cost)
    else devBuyLoop fee farSqrt tokens bs c L remaining cost = Inl (JsError ''dev buy exceeds curve supply'')"
  using assms
proof (induction farSqrt bs c L arbitrary: remaining cost rule: devBuyCapacity.induct)
  case (1 farSqrt bs c L)
  define ahead where "ahead = dropWhile (\<lambda>b. fst b \<ge> c) bs"
  note seg = devBuyLoop_segment [OF 1(2-5) ahead_def refl, of tokens cost]
  show ?case
  proof (cases ahead)
    case Nil
    then have "devBuyCapacity farSqrt bs c L = L * (c - farSqrt) div Q96"
      by (subst devBuyCapacity.simps) (simp add: ahead_def [symmetric])
    with seg Nil show ?thesis by (auto simp: not_le)
  next
    case (Cons b rest)
    define out where "out = L * (c - fst b) div Q96"
    note st = loopInv_ahead [OF 1(2), folded ahead_def, OF Cons]
    have cap: "devBuyCapacity farSqrt bs c L = out + devBuyCapacity farSqrt rest (fst b) (L + snd b)"
      using Cons by (subst devBuyCapacity.simps) (simp add: ahead_def [symmetric] out_def)
    have capnn: "0 \<le> devBuyCapacity farSqrt rest (fst b) (L + snd b)" using st(3) by (rule devBuyCapacity_nonneg)
    show ?thesis
    proof (cases "remaining \<le> out")
      case True
      then show ?thesis using seg(1) Cons capnn cap by (simp add: out_def)
    next
      case False
      define k where "k = segmentCostSpec fee (fst b) c L"
      have k: "0 \<le> k" unfolding k_def using 1(2-4) st by (intro segmentCostSpec_nonneg) (auto simp: loopInv_def MIN_SQRT_PRICE_def)
      have eq: "devBuyLoop fee farSqrt tokens bs c L remaining cost =
          devBuyLoop fee farSqrt tokens rest (fst b) (L + snd b) (remaining - out) (cost + k)"
        using seg(2) False Cons by (simp add: out_def k_def)
      have "0 < remaining - out" using False by simp
      from 1(1) [OF ahead_def, unfolded Cons list.sel, OF _ st(3) 1(3,4) this, of "cost + k"]
      have "if remaining - out \<le> devBuyCapacity farSqrt rest (fst b) (L + snd b)
        then quoteOk tokens farSqrt (fst b) (cost + k) (devBuyLoop fee farSqrt tokens bs c L remaining cost)
        else devBuyLoop fee farSqrt tokens bs c L remaining cost = Inl (JsError ''dev buy exceeds curve supply'')"
        by (simp add: eq)
      then show ?thesis using cap k st(2) quoteOk_mono [of tokens farSqrt "fst b" "cost + k" _ c cost]
        by (auto split: if_splits)
    qed
  qed
qed

section \<open>The boundaries of a valid curve\<close>

definition validCurve :: "int \<Rightarrow> int \<Rightarrow> int \<Rightarrow> int \<Rightarrow> bool" where
  "validCurve opening far n s \<longleftrightarrow> MIN_LEVEL < opening \<and> opening < far \<and> far \<le> MAX_LEVEL \<and> 0 < n \<and> 0 \<le> s"

text \<open>Start price, liquidity and amount of position \<open>i\<close>; \<open>q\<close> is the price at the far level.\<close>

definition positionFacts :: "int \<Rightarrow> int \<Rightarrow> int \<Rightarrow> int \<Rightarrow> int \<Rightarrow> int \<Rightarrow> int \<Rightarrow> int \<Rightarrow> int \<Rightarrow> bool" where
  "positionFacts opening far n s q i p L a \<longleftrightarrow>
     sqrtPriceAtLevel (curvePositionStart opening far n i) = Inr p \<and> q < p
     \<and> curvePositionAmount s n i = Inr a \<and> 0 \<le> a
     \<and> curvePositionLiquidity opening far n s i = Inr L \<and> L = min (a * Q96 div (p - q)) UINT128_MAX \<and> 0 \<le> L"

lemma positionFactsD:
  assumes "positionFacts opening far n s q i p L a"
  shows "q < p" "0 \<le> L" "0 \<le> a" "curvePositionLiquidity opening far n s i = Inr L"
  using assms unfolding positionFacts_def by blast+

lemma positionFacts_exist:
  assumes "validCurve opening far n s"
  obtains q P L a where "sqrtPriceAtLevel far = Inr q"
    and "\<And>i. 0 \<le> i \<Longrightarrow> i < n \<Longrightarrow> positionFacts opening far n s q i (P i) (L i) (a i)"
proof -
  have v: "isValidLevel opening" "isValidLevel far" "opening < far" "0 < n" "0 \<le> s"
    using assms by (simp_all add: validCurve_def isValidLevel_def)
  obtain q where q: "sqrtPriceAtLevel far = Inr q" using sqrtPriceAtLevel_defined v(2) by blast
  have "\<exists>p L a. positionFacts opening far n s q i p L a" if i: "0 \<le> i" "i < n" for i
  proof -
    obtain start p q' a where h: "start = curvePositionStart opening far n i"
      "sqrtPriceAtLevel start = Inr p" "sqrtPriceAtLevel far = Inr q'" "q' < p"
      "curvePositionAmount s n i = Inr a" "0 \<le> a"
      "curvePositionLiquidity opening far n s i = Inr (min (a * Q96 div (p - q')) UINT128_MAX)"
      by (rule curvePositionLiquidity_eq [OF v(1-4) i v(5)])
    then have "0 \<le> a * Q96 div (p - q')" using Q96_pos by (simp add: pos_imp_zdiv_nonneg_iff)
    with h q show ?thesis unfolding positionFacts_def by (auto simp: UINT128_MAX_def)
  qed
  then have "\<forall>i\<in>{0..<n}. \<exists>x. positionFacts opening far n s q i (fst x) (fst (snd x)) (snd (snd x))" by fastforce
  then obtain f where "\<forall>i\<in>{0..<n}. positionFacts opening far n s q i (fst (f i)) (fst (snd (f i))) (snd (snd (f i)))"
    by (rule bchoice [THEN exE])
  then show thesis using that [OF q, of "\<lambda>i. fst (f i)" "\<lambda>i. fst (snd (f i))" "\<lambda>i. snd (snd (f i))"] by simp
qed

lemma devBuyBoundaries_map:
  assumes "validCurve opening far n s" "\<forall>i\<in>set is. 0 \<le> i \<and> i < n"
    and "\<And>i. 0 \<le> i \<Longrightarrow> i < n \<Longrightarrow> positionFacts opening far n s q i (P i) (L i) (a i)"
  shows "devBuyBoundaries opening far n s is = Inr (map (\<lambda>i. (P i, L i)) is)"
  using assms(2)
proof (induction "is")
  case (Cons i "is")
  then have i: "0 \<le> i" "i < n" by simp_all
  have "opening < far" "0 < n" using assms(1) by (simp_all add: validCurve_def)
  then have "curvePositionStart opening far n i < far" using i by (rule curvePositionStart_bounds(2))
  then show ?case using Cons assms(3) [OF i] by (simp add: positionFacts_def Let_def)
qed simp

lemma start_price_less:
  assumes "validCurve opening far n s" "n \<le> far - opening" "0 \<le> i" "i < j" "j < n"
    and "positionFacts opening far n s q i p L a" "positionFacts opening far n s q j p' L' a'"
  shows "p' < p"
proof -
  have c: "opening < far" "0 < n" using assms(1) by (simp_all add: validCurve_def)
  have "(far - opening) * i + n * 1 \<le> (far - opening) * j"
    using mult_left_mono [of "i + 1" j "far - opening"] assms(2,4) c by (simp add: algebra_simps)
  then have "((far - opening) * i + n * 1) div n \<le> (far - opening) * j div n" using c by (intro zdiv_mono1)
  then have "curvePositionStart opening far n i < curvePositionStart opening far n j"
    using assms(3-5) c by (simp add: curvePositionStart_eq)
  then show ?thesis using assms(6,7) sqrtPriceAtLevel_less_iff unfolding positionFacts_def by blast
qed

lemma capacity_lower:
  assumes "sorted_wrt (\<lambda>x y. y < x) (c # map fst bs)" "0 \<le> L" "\<forall>b\<in>set bs. 0 \<le> snd b"
  shows "L * (c - q) + (\<Sum>b\<leftarrow>bs. snd b * (fst b - q)) - (int (length bs) + 1) * Q96 \<le> Q96 * devBuyCapacity q bs c L"
  using assms
proof (induction bs arbitrary: c L)
  case Nil
  have "L * (c - q) - Q96 \<le> Q96 * (L * (c - q) div Q96)"
    using floor_div_bounds(2) [OF Q96_pos, of "L * (c - q)"] by (simp add: algebra_simps)
  then show ?case by (subst devBuyCapacity.simps) (simp add: Let_def)
next
  case (Cons b bs)
  have "fst b < c" using Cons.prems(1) by simp
  then have d: "dropWhile (\<lambda>b. fst b \<ge> c) (b # bs) = b # bs" by simp
  have cap: "devBuyCapacity q (b # bs) c L = L * (c - fst b) div Q96 + devBuyCapacity q bs (fst b) (L + snd b)"
    by (subst devBuyCapacity.simps) (simp only: d Let_def list.sel list.distinct if_False)
  have "L * (c - fst b) - Q96 \<le> Q96 * (L * (c - fst b) div Q96)"
    using floor_div_bounds(2) [OF Q96_pos, of "L * (c - fst b)"] by (simp add: algebra_simps)
  moreover have "(L + snd b) * (fst b - q) + (\<Sum>b\<leftarrow>bs. snd b * (fst b - q)) - (int (length bs) + 1) * Q96
      \<le> Q96 * devBuyCapacity q bs (fst b) (L + snd b)"
    using Cons.prems by (intro Cons.IH) simp_all
  ultimately show ?case unfolding cap by (simp add: algebra_simps)
qed

lemma amounts_sum:
  assumes "0 < n" "0 \<le> s" "\<And>i. 0 \<le> i \<Longrightarrow> i < n \<Longrightarrow> curvePositionAmount s n i = Inr (a i)"
  shows "(\<Sum>i\<leftarrow>[0..n - 1]. a i) = s"
proof -
  have a: "a i = (if i + 1 = n then s - s div n * (n - 1) else s div n)" if "0 \<le> i" "i < n" for i
    using assms that curvePositionAmount_eq [OF assms(2,1), of i] by simp
  have "[0..n - 1] = [0..n - 2] @ [n - 1]" using assms(1) upto_rec2 [of 0 "n - 1"] by simp
  moreover have "map a [0..n - 2] = map (\<lambda>_. s div n) [0..n - 2]" by (rule map_cong) (simp_all add: a)
  then have "sum_list (map a [0..n - 2]) = (n - 1) * (s div n)" using assms(1) by (simp only: sum_list_triv) simp
  ultimately show ?thesis using assms(1) a [of "n - 1"] by (simp add: mult.commute)
qed

lemma positionFacts_value:
  assumes "positionFacts opening far n s q i p L a" "L \<noteq> UINT128_MAX" "0 \<le> q" "p \<le> MAX_SQRT_PRICE"
  shows "a * Q96 - 2 ^ 160 \<le> L * (p - q)"
proof -
  have d: "0 < p - q" and L: "L = a * Q96 div (p - q)"
    using assms(1,2) by (auto simp: positionFacts_def min_def split: if_splits)
  have "a * Q96 < (L + 1) * (p - q)" using floor_div_bounds(2) [OF d, of "a * Q96"] by (simp add: L)
  moreover have "p - q \<le> 2 ^ 160" using assms(3,4) by (simp add: MAX_SQRT_PRICE_def)
  ultimately show ?thesis by (simp add: algebra_simps)
qed

lemma sorted_upto_map:
  assumes "\<And>i j. m \<le> i \<Longrightarrow> i < j \<Longrightarrow> j < n \<Longrightarrow> (f j :: int) < f i"
  shows "sorted_wrt (\<lambda>x y. y < x) (map f [m..n - 1])"
  unfolding sorted_wrt_map using sorted_wrt_upto [of m "n - 1"]
  by (rule sorted_wrt_mono_rel [rotated]) (use assms in auto)

lemma sum_list_mono_upto:
  assumes "\<And>i. i \<in> set is \<Longrightarrow> f i - k \<le> (g i :: int)"
  shows "(\<Sum>i\<leftarrow>is. f i) - int (length is) * k \<le> (\<Sum>i\<leftarrow>is. g i)"
  using assms
proof (induction "is")
  case (Cons i "is")
  then have "f i - k \<le> g i" "(\<Sum>i\<leftarrow>is. f i) - int (length is) * k \<le> (\<Sum>i\<leftarrow>is. g i)" by simp_all
  then show ?case by (simp add: algebra_simps)
qed simp

text \<open>The whole curve sells its supply up to a rounding loss of less than \<open>2^64 + 1\<close> per position.\<close>

lemma curve_capacity:
  assumes "validCurve opening far n s" "n \<le> far - opening"
    and facts: "\<And>i. 0 \<le> i \<Longrightarrow> i < n \<Longrightarrow> positionFacts opening far n s q i (P i) (L i) (a i)"
    and "\<And>i. 0 \<le> i \<Longrightarrow> i < n \<Longrightarrow> L i \<noteq> UINT128_MAX" and "sqrtPriceAtLevel far = Inr q"
  shows "s - n * (2 ^ 64 + 1) \<le> devBuyCapacity q (map (\<lambda>i. (P i, L i)) [1..n - 1]) (P 0) (L 0)"
proof -
  define bs where "bs = map (\<lambda>i. (P i, L i)) [1..n - 1]"
  have n: "0 < n" "0 \<le> s" using assms(1) by (simp_all add: validCurve_def)
  have L: "0 \<le> L i" if "0 \<le> i" "i < n" for i using facts [OF that] unfolding positionFacts_def by blast
  have up: "[0..n - 1] = 0 # [1..n - 1]" using n upto_rec1 [of 0 "n - 1"] by simp
  have "sorted_wrt (\<lambda>x y. y < x) (map P [0..n - 1])"
  proof (rule sorted_upto_map)
    fix i j :: int
    assume "0 \<le> i" "i < j" "j < n"
    then show "P j < P i" by (intro start_price_less [OF assms(1,2) _ _ _ facts facts, of i j]) simp_all
  qed
  then have "sorted_wrt (\<lambda>x y. y < x) (P 0 # map fst bs)" by (simp add: up bs_def comp_def)
  moreover have "\<forall>b\<in>set bs. 0 \<le> snd b" using L by (auto simp: bs_def)
  ultimately have cap: "L 0 * (P 0 - q) + (\<Sum>b\<leftarrow>bs. snd b * (fst b - q)) - (int (length bs) + 1) * Q96
      \<le> Q96 * devBuyCapacity q bs (P 0) (L 0)"
    using L [of 0] n by (intro capacity_lower) simp_all
  have "L 0 * (P 0 - q) + (\<Sum>b\<leftarrow>bs. snd b * (fst b - q)) = (\<Sum>i\<leftarrow>[0..n - 1]. L i * (P i - q))"
    by (simp add: up bs_def comp_def)
  moreover have "(\<Sum>i\<leftarrow>[0..n - 1]. a i * Q96) - int (length [0..n - 1]) * 2 ^ 160 \<le> (\<Sum>i\<leftarrow>[0..n - 1]. L i * (P i - q))"
  proof (rule sum_list_mono_upto)
    fix i assume "i \<in> set [0..n - 1]"
    then have i: "0 \<le> i" "i < n" by simp_all
    have "P i \<le> MAX_SQRT_PRICE" using facts [OF i] sqrtPriceAtLevel_range unfolding positionFacts_def by blast
    then show "a i * Q96 - 2 ^ 160 \<le> L i * (P i - q)"
      using positionFacts_value [OF facts [OF i] assms(4) [OF i]] sqrtPriceAtLevel_pos [OF assms(5)] by simp
  qed
  moreover have "(\<Sum>i\<leftarrow>[0..n - 1]. a i * Q96) = s * Q96"
    using amounts_sum [OF n, of a] facts by (simp add: sum_list_mult_const positionFacts_def)
  ultimately have "s * Q96 - n * 2 ^ 160 - n * Q96 \<le> Q96 * devBuyCapacity q bs (P 0) (L 0)"
    using cap n by (simp add: bs_def)
  moreover have "s * Q96 - n * 2 ^ 160 - n * Q96 = Q96 * (s - n * (2 ^ 64 + 1))"
    by (simp add: Q96_def push_bit_eq_mult algebra_simps)
  ultimately show ?thesis using Q96_pos by (simp add: bs_def)
qed

lemma position0:
  assumes "validCurve opening far n s" "positionFacts opening far n s q 0 p L a"
  shows "sqrtPriceAtLevel opening = Inr p" "p < MAX_SQRT_PRICE"
    and "n * (2 ^ 64 + 1) \<le> s \<Longrightarrow> 0 \<le> q \<Longrightarrow> 0 < L"
proof -
  have c: "MIN_LEVEL < opening" "opening < far" "0 < n" "0 \<le> s" using assms(1) by (simp_all add: validCurve_def)
  have st: "curvePositionStart opening far n 0 = opening" using c by (simp add: curvePositionStart_eq)
  show p: "sqrtPriceAtLevel opening = Inr p" using assms(2) st by (simp add: positionFacts_def)
  have "sqrtPriceAtLevel MIN_LEVEL = Inr MAX_SQRT_PRICE"
    using tick.ends by (simp add: sqrtPriceAtLevel_def toTick_def MIN_MAX_LEVEL)
  then show lt: "p < MAX_SQRT_PRICE" using sqrtPriceAtLevel_less_iff [OF _ p] c(1) by blast
  show "0 < L" if "n * (2 ^ 64 + 1) \<le> s" "0 \<le> q"
  proof -
    have "2 ^ 64 \<le> s div n" using that(1) c(3) le_div_iff [of n "2 ^ 64" s] by (simp add: algebra_simps)
    also have "s div n \<le> a" using assms(2) curvePositionAmount_nonneg(2) [OF c(4,3)] unfolding positionFacts_def by blast
    finally have "2 ^ 160 \<le> a * Q96" by (simp add: Q96_def push_bit_eq_mult)
    moreover have "1 * (p - q) \<le> 2 ^ 160" using lt that(2) by (simp add: MAX_SQRT_PRICE_def)
    ultimately have "1 \<le> a * Q96 div (p - q)"
      using assms(2) by (subst le_div_iff) (auto simp: positionFacts_def)
    then show ?thesis using assms(2) by (auto simp: positionFacts_def UINT128_MAX_def)
  qed
qed

lemma devBuyQuote_loop:
  assumes "validCurve opening far n s" "0 \<le> S" "0 \<le> share" "S * share div 10 ^ 18 \<noteq> 0"
    and "sqrtPriceAtLevel far = Inr q"
    and facts: "\<And>i. 0 \<le> i \<Longrightarrow> i < n \<Longrightarrow> positionFacts opening far n s q i (P i) (L i) (a i)" and "0 < L 0"
  shows "devBuyQuote S share opening far n s fee =
    devBuyLoop fee q (S * share div 10 ^ 18) (map (\<lambda>i. (P i, L i)) [1..n - 1]) (P 0) (L 0) (S * share div 10 ^ 18) 0"
proof -
  have "0 < n" using assms(1) by (simp add: validCurve_def)
  then have f0: "positionFacts opening far n s q 0 (P 0) (L 0) (a 0)" using facts [of 0] by simp
  have "mulDiv S share (10 ^ 18) = Inr (S * share div 10 ^ 18)" using assms(2,3) by (intro mulDiv_floor) simp_all
  moreover have "devBuyBoundaries opening far n s [1..n - 1] = Inr (map (\<lambda>i. (P i, L i)) [1..n - 1])"
    using facts by (intro devBuyBoundaries_map [OF assms(1)]) auto
  moreover have "curvePositionLiquidity opening far n s 0 = Inr (L 0)" using f0 unfolding positionFacts_def by blast
  ultimately show ?thesis
    unfolding devBuyQuote_def using assms(4,5) less_imp_neq [OF assms(7)] position0(1) [OF assms(1) f0]
    by (simp only: bindR_Inr if_False eq_commute [of "L 0" 0])
qed

lemma devBuyQuote_succeeds:
  assumes curve: "validCurve opening far n s" "n \<le> far - opening" and fee: "0 \<le> fee" "fee < 1000000"
    and buy: "0 \<le> S" "0 \<le> share" "S * share div 10 ^ 18 + n * (2 ^ 64 + 1) \<le> s"
    and unclamped: "\<And>i. 0 \<le> i \<Longrightarrow> i < n \<Longrightarrow> curvePositionLiquidity opening far n s i \<noteq> Inr UINT128_MAX"
  shows "\<exists>r. devBuyQuote S share opening far n s fee = Inr r \<and> tokensOut r = S * share div 10 ^ 18
    \<and> 0 \<le> ethCost r \<and> opening \<le> endLevel r \<and> endLevel r \<le> far \<and> levelAtSqrtPrice (endSqrtPriceX96 r) = Inr (endLevel r)"
proof -
  obtain q P L a where q: "sqrtPriceAtLevel far = Inr q"
    and facts: "\<And>i. 0 \<le> i \<Longrightarrow> i < n \<Longrightarrow> positionFacts opening far n s q i (P i) (L i) (a i)"
    using positionFacts_exist [OF curve(1)] by metis
  have c: "MIN_LEVEL < opening" "opening < far" "0 < n" using curve(1) by (simp_all add: validCurve_def)
  have f0: "positionFacts opening far n s q 0 (P 0) (L 0) (a 0)" using facts [of 0] c(3) by simp
  have q0: "0 < q" "MIN_SQRT_PRICE \<le> q" using sqrtPriceAtLevel_pos [OF q] sqrtPriceAtLevel_range [OF q] by simp_all
  define tokens where "tokens = S * share div 10 ^ 18"
  have t: "0 \<le> tokens" using buy by (simp add: tokens_def pos_imp_zdiv_nonneg_iff)
  have L0: "0 < L 0" using position0(3) [OF curve(1) f0] buy(3) t q0(1) by (simp add: tokens_def)
  note p0 = position0(1,2) [OF curve(1) f0]
  show ?thesis
  proof (cases "tokens = 0")
    case True
    have "mulDiv S share (10 ^ 18) = Inr tokens" unfolding tokens_def using buy by (intro mulDiv_floor) simp_all
    then have "devBuyQuote S share opening far n s fee =
        Inr \<lparr>tokensOut = 0, ethCost = 0, endLevel = opening, endSqrtPriceX96 = P 0\<rparr>"
      unfolding devBuyQuote_def using True p0(1) by (simp only: bindR_Inr simp_thms if_True)
    moreover have "levelAtSqrtPrice (P 0) = Inr opening" using levelAtSqrtPrice_price [OF p0(1) c(1)] .
    ultimately show ?thesis using True c(2) unfolding tokens_def [symmetric] by simp
  next
    case False
    define bs where "bs = map (\<lambda>i. (P i, L i)) [1..n - 1]"
    have "\<forall>b\<in>set bs. q \<le> fst b \<and> 0 \<le> snd b" using positionFactsD(1,2) [OF facts]
      by (auto simp: bs_def intro: less_imp_le)
    then have inv: "loopInv q bs (P 0) (L 0)" using L0 q0 p0 positionFactsD(1) [OF f0] by (simp add: loopInv_def)
    have "s - n * (2 ^ 64 + 1) \<le> devBuyCapacity q bs (P 0) (L 0)"
      unfolding bs_def
      using facts unclamped positionFactsD(4) [OF facts] by (intro curve_capacity [OF curve _ _ q]) fastforce+
    then have cap: "tokens \<le> devBuyCapacity q bs (P 0) (L 0)" using buy(3) by (simp add: tokens_def)
    have "quoteOk tokens q (P 0) 0 (devBuyLoop fee q tokens bs (P 0) (L 0) tokens 0)"
      using devBuyLoop_spec [OF inv fee, of tokens tokens 0] cap False t by simp
    moreover have "devBuyQuote S share opening far n s fee = devBuyLoop fee q tokens bs (P 0) (L 0) tokens 0"
      using devBuyQuote_loop [OF curve(1) buy(1,2) _ q facts L0] False by (simp add: tokens_def bs_def)
    ultimately obtain r where r: "devBuyQuote S share opening far n s fee = Inr r" "tokensOut r = tokens" "0 \<le> ethCost r"
      "q \<le> endSqrtPriceX96 r" "endSqrtPriceX96 r \<le> P 0" "levelAtSqrtPrice (endSqrtPriceX96 r) = Inr (endLevel r)"
      by (auto simp: quoteOk_def)
    have "opening \<le> endLevel r" using levelAtSqrtPrice_mono [OF r(6) levelAtSqrtPrice_price [OF p0(1) c(1)] r(5)] .
    moreover have "endLevel r \<le> far" using levelAtSqrtPrice_le_iff [OF r(6) q] r(4) by simp
    ultimately show ?thesis using r unfolding tokens_def [symmetric] by blast
  qed
qed

lemma curve_unclamped:
  assumes "validCurve opening far n s"
    and "sqrtPriceAtLevel (curvePositionStart opening far n (n - 1)) = Inr p" "sqrtPriceAtLevel far = Inr q"
    and "s * Q96 < UINT128_MAX * (p - q)" and i: "0 \<le> i" "i < n"
  shows "curvePositionLiquidity opening far n s i \<noteq> Inr UINT128_MAX"
proof -
  obtain q' P L a where q': "sqrtPriceAtLevel far = Inr q'"
    and facts: "\<And>i. 0 \<le> i \<Longrightarrow> i < n \<Longrightarrow> positionFacts opening far n s q' i (P i) (L i) (a i)"
    using positionFacts_exist [OF assms(1)] by metis
  have c: "opening < far" "0 < n" "0 \<le> s" using assms(1) by (simp_all add: validCurve_def)
  note f = facts [OF i, unfolded positionFacts_def] and eq = q' [unfolded assms(3)]
  have "curvePositionStart opening far n i \<le> curvePositionStart opening far n (n - 1)"
    using c i by (intro curvePositionStart_mono) simp_all
  then have "p \<le> P i" using sqrtPriceAtLevel_less_iff [OF assms(2), of "curvePositionStart opening far n i" "P i"] f by (auto simp: not_less [symmetric])
  moreover have "0 \<le> s div n" "0 \<le> s div n * (n - 1)" "s div n * n \<le> s"
    using c floor_div_bounds(1) [of n s] by (simp_all add: pos_imp_zdiv_nonneg_iff)
  then have "a i \<le> s" using f curvePositionAmount_eq [OF c(3,2), of i] by (auto simp: algebra_simps split: if_splits)
  then have "a i * Q96 \<le> s * Q96" using Q96_pos by simp
  moreover have "UINT128_MAX * (p - q) \<le> UINT128_MAX * (P i - q)"
    using \<open>p \<le> P i\<close> by (intro mult_left_mono) (simp_all add: UINT128_MAX_def)
  ultimately have "a i * Q96 < UINT128_MAX * (P i - q)" using assms(4) by linarith
  moreover have "q < P i" using f eq by simp
  ultimately have "a i * Q96 div (P i - q) < UINT128_MAX" by (intro div_less_cancel) simp_all
  then show ?thesis using f eq by simp
qed

section \<open>Properties\<close>

text \<open>C5. \<open>devBuyQuote\<close> succeeds for every purchase that the curve's inventory covers, up to a rounding loss of
  \<open>2^64 + 1\<close> token units per position: it terminates without any of its exceptions, quotes exactly
  \<open>floor(totalSupply * share / 10^18)\<close> tokens at a non-negative cost, and ends between the opening and the far level.
  Hypotheses: a valid curve with at least one level per position, on which no liquidity reaches the \<open>uint128\<close> clamp
  (\<open>p\<close> and \<open>q\<close> are the prices at the last position's start and at the far level).\<close>

theorem devBuyQuote_total:
  assumes "MIN_LEVEL < opening" "opening < far" "far \<le> MAX_LEVEL" "0 < n" "n \<le> far - opening" "0 \<le> curveSupply"
    and "0 \<le> feePips" "feePips < 1000000" "0 \<le> totalSupplyWei" "0 \<le> devBuyShareWad"
    and "totalSupplyWei * devBuyShareWad div 10 ^ 18 + n * (2 ^ 64 + 1) \<le> curveSupply"
    and "sqrtPriceAtLevel (curvePositionStart opening far n (n - 1)) = Inr p" "sqrtPriceAtLevel far = Inr q"
    and "curveSupply * Q96 < UINT128_MAX * (p - q)"
  shows "\<exists>r. devBuyQuote totalSupplyWei devBuyShareWad opening far n curveSupply feePips = Inr r
    \<and> tokensOut r = totalSupplyWei * devBuyShareWad div 10 ^ 18 \<and> 0 \<le> ethCost r
    \<and> opening \<le> endLevel r \<and> endLevel r \<le> far \<and> levelAtSqrtPrice (endSqrtPriceX96 r) = Inr (endLevel r)"
proof -
  have v: "validCurve opening far n curveSupply" using assms(1-6) by (simp add: validCurve_def)
  show ?thesis
    using assms(7-11) curve_unclamped [OF v assms(12-14)] by (intro devBuyQuote_succeeds [OF v assms(5)]) simp_all
qed

theorem devBuyQuote_total_witness:
  "\<exists>r. devBuyQuote (10 ^ 27) (10 ^ 17) (- 200311) (- 186449) 32 (25 * 10 ^ 25) 10000 = Inr r
    \<and> tokensOut r = 10 ^ 27 * 10 ^ 17 div 10 ^ 18 \<and> 0 \<le> ethCost r
    \<and> - 200311 \<le> endLevel r \<and> endLevel r \<le> - 186449 \<and> levelAtSqrtPrice (endSqrtPriceX96 r) = Inr (endLevel r)"
proof (rule devBuyQuote_total)
  show "sqrtPriceAtLevel (curvePositionStart (- 200311) (- 186449) 32 (32 - 1)) = Inr 905293651241008558166240616349244"
    "sqrtPriceAtLevel (- 186449) = Inr 885861353533347032310801658993079" by code_simp+
qed (simp_all add: model_defs push_bit_eq_mult)

end
