(* ===== verification/Common.thy ===== *)
theory Common
  imports Decimal
begin

text \<open>
  Model of the shared helpers under \<open>src/src/common/\<close>: chain ids, pagination, text normalization, the
  idempotency-key header and the serialization of responses. A \<open>char\<close> is a code point up to 255, so that
  the white space of \<open>\s\<close> and \<open>trim()\<close> is the blanks of that range. \<open>Math.ceil(a / b)\<close> and the like of safe
  integers are exact integer operations.
\<close>

section \<open>Text\<close>

definition toLowerChar :: "char \<Rightarrow> char" where
  "toLowerChar c = (if 65 \<le> (of_char c :: nat) \<and> (of_char c :: nat) \<le> 90 then char_of (of_char c + 32 :: nat) else c)"

definition toLowerCase :: "string \<Rightarrow> string" where
  "toLowerCase = map toLowerChar"

definition startsWith :: "string \<Rightarrow> string \<Rightarrow> bool" where
  "startsWith p s \<longleftrightarrow> take (length p) s = p"

definition isSpace :: "char \<Rightarrow> bool" where
  "isSpace c \<longleftrightarrow> (of_char c :: nat) \<in> {9, 10, 11, 12, 13, 32, 160}"

definition trim :: "string \<Rightarrow> string" where
  "trim s = rev (dropWhile isSpace (rev (dropWhile isSpace s)))"

lemma length_dropWhile_Suc [termination_simp]: "length (dropWhile P s) < Suc (length s)"
  using length_dropWhile_le [of P s] by simp

lemma length_split_rest: "x \<in> set s \<Longrightarrow> length (dropWhile Q (tl (dropWhile P s))) < length s"
  using length_dropWhile_le [of Q "tl (dropWhile P s)"] length_dropWhile_le [of P s] length_pos_if_in_set [of x s]
  unfolding length_tl by linarith

text \<open>\<open>s.replace(/\s+/gu, ' ')\<close>: every maximal run of white space becomes one blank.\<close>

fun collapseRuns :: "string \<Rightarrow> string" where
  "collapseRuns [] = []"
| "collapseRuns (c # s) =
     (if isSpace c then CHR '' '' # collapseRuns (dropWhile isSpace s) else c # collapseRuns s)"

definition collapseWhitespace :: "string \<Rightarrow> string" where
  "collapseWhitespace value = trim (collapseRuns value)"

text \<open>\<open>s.split(/\s+/u)\<close>.\<close>

function splitOn :: "(char \<Rightarrow> bool) \<Rightarrow> string \<Rightarrow> string list" where
  "splitOn P s =
     (if dropWhile (\<lambda>c. \<not> P c) s = [] then [s]
      else takeWhile (\<lambda>c. \<not> P c) s # splitOn P (dropWhile P (tl (dropWhile (\<lambda>c. \<not> P c) s))))"
  by pat_completeness auto
termination
  by (relation "measure (\<lambda>(_, s). length s)") (auto simp: length_split_rest)

definition countWords :: "string \<Rightarrow> nat" where
  "countWords value =
     (let normalized = collapseWhitespace value in
      if normalized = [] then 0 else length (splitOn isSpace normalized))"

definition isHexLower :: "char \<Rightarrow> bool" where
  "isHexLower c \<longleftrightarrow> isDigit c \<or> (97 \<le> (of_char c :: nat) \<and> (of_char c :: nat) \<le> 102)"

text \<open>\<open>/^0x[0-9a-f]{40}$/u\<close> and not \<open>/^0x0{40}$/u\<close>.\<close>

definition isNonzeroAddress :: "string \<Rightarrow> bool" where
  "isNonzeroAddress w \<longleftrightarrow> startsWith ''0x'' w \<and> length w = 42 \<and> list_all isHexLower (drop 2 w)
     \<and> \<not> list_all (\<lambda>c. c = CHR ''0'') (drop 2 w)"

section \<open>HTTP helpers\<close>

text \<open>\<open>/^[ -~]{1,128}$/\<close>; \<open>None\<close> is a header that is absent or not a string.\<close>

definition isPrintable :: "char \<Rightarrow> bool" where
  "isPrintable c \<longleftrightarrow> 32 \<le> (of_char c :: nat) \<and> (of_char c :: nat) \<le> 126"

definition validateIdempotencyKey :: "string option \<Rightarrow> string result" where
  "validateIdempotencyKey value = (case value of
     Some s \<Rightarrow> if 1 \<le> length s \<and> length s \<le> 128 \<and> list_all isPrintable s then Inr s
       else Inl (DomainException 400 ''INVALID_IDEMPOTENCY_KEY'')
   | None \<Rightarrow> Inl (DomainException 400 ''INVALID_IDEMPOTENCY_KEY''))"

text \<open>The environment's \<open>DEFAULT_CHAIN_ID\<close> is \<open>fallback\<close>; \<open>parsed\<close> is \<open>Number(value)\<close> when it is an integer and
  \<open>None\<close> when the argument is absent or not an integer.\<close>

definition resolveChainId :: "int \<Rightarrow> int option \<Rightarrow> int" where
  "resolveChainId fallback parsed = (case parsed of
     Some n \<Rightarrow> if n > 0 then n else fallback
   | None \<Rightarrow> fallback)"

record page_meta =
  pm_page :: int
  pm_limit :: int
  pm_total :: int
  pm_totalPages :: int
  pm_hasNext :: bool

definition ceilDivPos :: "int \<Rightarrow> int \<Rightarrow> int" where
  "ceilDivPos a b = - ((- a) div b)"

definition pageMeta :: "int \<Rightarrow> int \<Rightarrow> int \<Rightarrow> page_meta" where
  "pageMeta p l t =
     (let pages = (if t = 0 then 0 else ceilDivPos t l) in
      \<lparr>pm_page = p, pm_limit = l, pm_total = t, pm_totalPages = pages, pm_hasNext = p < pages\<rparr>)"

definition pageSkip :: "int \<Rightarrow> int \<Rightarrow> int" where
  "pageSkip p l = (p - 1) * l"

text \<open>\<open>findMany({ skip, take })\<close> of an ordered table.\<close>

definition pageRows :: "int \<Rightarrow> int \<Rightarrow> 'a list \<Rightarrow> 'a list" where
  "pageRows p l rows = take (nat l) (drop (nat (pageSkip p l)) rows)"

section \<open>Response bodies\<close>

datatype jsv =
    JNull
  | JUndefined
  | JBool bool
  | JNum int
  | JBig int
  | JDecimal string
  | JDate string
  | JStr string
  | JArr "jsv list"
  | JObj "(string \<times> jsv) list"
  | JInstance string

fun serializeNumeric :: "jsv \<Rightarrow> jsv" where
  "serializeNumeric (JBig i) = JStr (toString i)"
| "serializeNumeric (JDecimal s) = JStr s"
| "serializeNumeric (JDate s) = JStr s"
| "serializeNumeric (JArr xs) = JArr (map serializeNumeric xs)"
| "serializeNumeric (JObj kvs) = JObj (map (\<lambda>(k, v). (k, serializeNumeric v)) kvs)"
| "serializeNumeric v = v"

fun trimStrings :: "jsv \<Rightarrow> jsv" where
  "trimStrings (JStr s) = JStr (trim s)"
| "trimStrings (JArr xs) = JArr (map trimStrings xs)"
| "trimStrings (JObj kvs) = JObj (map (\<lambda>(k, v). (k, trimStrings v)) kvs)"
| "trimStrings v = v"

definition responseEnvelope :: "jsv \<Rightarrow> jsv" where
  "responseEnvelope value = (case value of
     JObj kvs \<Rightarrow> if ''data'' \<in> fst ` set kvs \<and> ''meta'' \<in> fst ` set kvs then value
       else JObj [(''data'', value), (''meta'', JObj [])]
   | _ \<Rightarrow> JObj [(''data'', value), (''meta'', JObj [])])"

section \<open>Lemmas\<close>

lemma toLowerChar_idem: "toLowerChar (toLowerChar c) = toLowerChar c"
  by (auto simp: toLowerChar_def)

lemma toLowerCase_idem [simp]: "toLowerCase (toLowerCase s) = toLowerCase s"
  by (simp add: toLowerCase_def toLowerChar_idem)

lemma length_toLowerCase [simp]: "length (toLowerCase s) = length s"
  by (simp add: toLowerCase_def)

lemma resolveChainId_pos: "0 < fallback \<Longrightarrow> 0 < resolveChainId fallback v"
  by (simp add: resolveChainId_def split: option.split)

fun jsonSafe :: "jsv \<Rightarrow> bool" where
  "jsonSafe (JBig i) = False"
| "jsonSafe (JDecimal s) = False"
| "jsonSafe (JDate s) = False"
| "jsonSafe (JArr xs) = list_all jsonSafe xs"
| "jsonSafe (JObj kvs) = list_all (\<lambda>kv. jsonSafe (snd kv)) kvs"
| "jsonSafe v = True"

lemma serializeNumeric_safe: "jsonSafe (serializeNumeric v)"
  by (induction v rule: serializeNumeric.induct) (auto simp: list_all_iff)

lemma serializeNumeric_id: "jsonSafe v \<Longrightarrow> serializeNumeric v = v"
  by (induction v rule: serializeNumeric.induct) (auto simp: list_all_iff intro!: map_idI)

section \<open>Properties\<close>

text \<open>After serialization a response body holds no \<open>bigint\<close>, decimal or date at any depth (so that \<open>JSON.stringify\<close>
  cannot throw on it), and serializing again, as the cache does with a stored response, changes nothing.\<close>

lemma serializeNumeric_json_safe:
  "jsonSafe (serializeNumeric v) \<and> serializeNumeric (serializeNumeric v) = serializeNumeric v"
  using serializeNumeric_safe serializeNumeric_id by blast

lemma pages_prefix:
  assumes "1 \<le> l"
  shows "concat (map (\<lambda>p. pageRows p l rows) [1..int k]) = take (k * nat l) rows"
proof (induction k)
  case (Suc k)
  have "[1..int (Suc k)] = [1..int k] @ [int k + 1]" by (simp add: upto_rec2 add.commute)
  moreover have "pageRows (int k + 1) l rows = take (nat l) (drop (k * nat l) rows)"
    using assms by (simp add: pageRows_def pageSkip_def nat_mult_distrib)
  ultimately show ?case using Suc by (simp add: take_add [symmetric] add.commute)
qed simp

lemma totalPages_cover:
  assumes "1 \<le> l"
  shows "0 \<le> pm_totalPages (pageMeta p l (int n))" "int n \<le> pm_totalPages (pageMeta p l (int n)) * l"
    "n = 0 \<or> (pm_totalPages (pageMeta p l (int n)) - 1) * l < int n"
proof -
  define q where "q = (- int n) div l"
  have q: "- int n = l * q + (- int n) mod l" "0 \<le> (- int n) mod l" "(- int n) mod l < l" using assms by (simp_all add: q_def)
  have q0: "q \<le> 0"
  proof (rule ccontr)
    assume "\<not> q \<le> 0"
    then have "l * 1 \<le> l * q" using assms by (intro mult_left_mono) simp_all
    then show False using q assms by linarith
  qed
  have t: "pm_totalPages (pageMeta p l (int n)) = (if n = 0 then 0 else - q)"
    by (simp add: pageMeta_def ceilDivPos_def q_def Let_def)
  show "0 \<le> pm_totalPages (pageMeta p l (int n))" using t q0 by simp
  show "int n \<le> pm_totalPages (pageMeta p l (int n)) * l" using t q by (auto simp: mult.commute)
  show "n = 0 \<or> (pm_totalPages (pageMeta p l (int n)) - 1) * l < int n"
    using t q by (auto simp: algebra_simps)
qed

text \<open>Pagination loses and repeats nothing: the pages \<open>1\<close> to \<open>totalPages\<close> of a listing are, one after the other, the
  whole listing, the last of them is not empty, and \<open>hasNext\<close> is true exactly on the pages before it.\<close>

lemma pages_partition:
  assumes "1 \<le> limit"
  shows "let n = pm_totalPages (pageMeta page limit (int (length rows))) in
     concat (map (\<lambda>p. pageRows p limit rows) [1..n]) = rows
     \<and> (rows \<noteq> [] \<longrightarrow> pageRows n limit rows \<noteq> [])
     \<and> pm_hasNext (pageMeta page limit (int (length rows))) = (page < n)"
proof -
  define n where "n = pm_totalPages (pageMeta page limit (int (length rows)))"
  note c = totalPages_cover [OF assms, where p = page and n = "length rows", folded n_def]
  have "int (length rows) \<le> int (nat n * nat limit)" using c(1,2) assms by simp
  then have "concat (map (\<lambda>p. pageRows p limit rows) [1..n]) = rows"
    using pages_prefix [OF assms, of rows "nat n"] c(1) by (simp add: nat_int_comparison(3) [symmetric] del: of_nat_mult)
  moreover have "pageRows n limit rows \<noteq> []" if "rows \<noteq> []"
  proof -
    have "nat ((n - 1) * limit) < length rows" using c(3) that by (cases "0 \<le> (n - 1) * limit") (simp_all add: nat_less_iff)
    then show ?thesis using assms by (simp add: pageRows_def pageSkip_def)
  qed
  moreover have "pm_hasNext (pageMeta page limit (int (length rows))) = (page < n)" by (simp add: n_def pageMeta_def Let_def)
  ultimately show ?thesis unfolding n_def [symmetric] Let_def by blast
qed

end
