(* ===== verification/Trading.thy ===== *)
theory Trading
  imports SwapMath Common
begin

text \<open>
  Model of \<open>src/src/modules/trading/price.ts\<close> and of the price, quote, maximum-buy and depth reads of
  \<open>src/src/modules/trading/trading.service.ts\<close>. Database tables are lists of rows, in the order the query
  returns them; the chain reads (\<open>slot0\<close>, the quoter contract) are parameters that return a value or throw.
  The quotient \<open>covered / span\<close> of \<open>curveProgress\<close> is the exact rational.
\<close>

section \<open>Rows\<close>

datatype pool_status = Bonding | Graduated

record pool =
  pl_chainId :: int
  pl_poolId :: string
  pl_token :: string
  pl_status :: pool_status
  pl_totalSupply :: int
  pl_openingLevel :: int
  pl_farLevel :: int
  pl_graduationLevel :: "int option"
  pl_fullRangeLiq :: "int option"
  pl_wallLiquidity :: "int option"

record pool_stats =
  ps_chainId :: int
  ps_poolId :: string
  ps_lastPriceSqrtX96 :: int
  ps_athSqrtX96 :: int
  ps_burnedTotal :: int

record band_row =
  br_bandIndex :: int
  br_levelLower :: int
  br_levelUpper :: int
  br_liquidity :: int
  br_tokenInventory :: int
  br_live :: bool

section \<open>Prices (price.ts)\<close>

definition ethPerTokenWei :: "int \<Rightarrow> int \<times> int" where
  "ethPerTokenWei sqrtPriceX96 = (push_bit 192 1, sqrtPriceX96 * sqrtPriceX96)"

definition sqrtToEthString :: "int \<Rightarrow> string option" where
  "sqrtToEthString sqrtX =
     (if sqrtX = 0 then None
      else
        let scaled = (push_bit 192 1 * 10 ^ 18) sdiv (sqrtX * sqrtX);
            whole = scaled sdiv 10 ^ 18;
            frac = padStart 18 (toString (scaled smod 10 ^ 18))
        in Some (toString whole @ ''.'' @ frac))"

definition fdvEthWei :: "int \<Rightarrow> int \<Rightarrow> int result" where
  "fdvEthWei sqrtPriceX96 totalSupplyWei = bigDiv (push_bit 192 totalSupplyWei) (sqrtPriceX96 * sqrtPriceX96)"

definition levelFromSqrtPrice :: "int \<Rightarrow> int result" where
  "levelFromSqrtPrice sqrtPriceX96 = levelAtSqrtPrice sqrtPriceX96"

definition curveProgress :: "pool \<Rightarrow> int \<Rightarrow> rat" where
  "curveProgress pool level =
     (if pl_status pool = Graduated then 1
      else
        let span = pl_farLevel pool - pl_openingLevel pool in
        if span \<le> 0 then 0
        else
          let covered = min (max (level - pl_openingLevel pool) 0) span in
          of_int covered / of_int span)"

section \<open>The price read\<close>

definition poolOrThrow :: "pool list \<Rightarrow> string \<Rightarrow> int \<Rightarrow> pool result" where
  "poolOrThrow pools tokenRef chainId =
     (let norm = toLowerCase tokenRef;
          isPoolId = startsWith ''0x'' norm \<and> length norm = 66;
          row = find (\<lambda>p. pl_chainId p = chainId \<and> (if isPoolId then pl_poolId p = norm else pl_token p = norm)) pools
      in case row of None \<Rightarrow> Inl (NotFoundException ''TOKEN_NOT_FOUND'') | Some p \<Rightarrow> Inr p)"

datatype price_source = Indexer | Live | Opening

record price_view =
  pv_poolId :: string
  pv_level :: int
  pv_tick :: int
  pv_sqrtPriceX96 :: int
  pv_priceEth :: "string option"
  pv_fdvEthWei :: int
  pv_mcapEthWei :: int
  pv_athPriceEth :: "string option"
  pv_progress :: rat
  pv_source :: price_source

text \<open>The sqrt price and its source: the pool's live slot0, else the indexed price (\<open>0\<close> when there is none).\<close>

definition observedPrice :: "pool_stats option \<Rightarrow> int option result \<Rightarrow> int \<times> price_source" where
  "observedPrice stats reading =
     (let indexed = (case stats of Some s \<Rightarrow> ps_lastPriceSqrtX96 s | None \<Rightarrow> 0) in
      case reading of
        Inr (Some live) \<Rightarrow> (live, Live)
      | Inr None \<Rightarrow> (indexed, Indexer)
      | Inl _ \<Rightarrow> (indexed, if stats = None then Opening else Indexer))"

definition presentPrice :: "pool \<Rightarrow> pool_stats option \<Rightarrow> int \<times> price_source \<Rightarrow> price_view result" where
  "presentPrice pool stats = (\<lambda>(sqrtX, source).
     bindR (levelFromSqrtPrice sqrtX) (\<lambda>level.
     let totalSupply = pl_totalSupply pool;
         burned = (case stats of Some s \<Rightarrow> ps_burnedTotal s | None \<Rightarrow> 0);
         circulating = totalSupply - burned
     in bindR (fdvEthWei sqrtX totalSupply) (\<lambda>fdv.
        bindR (fdvEthWei sqrtX circulating) (\<lambda>mcap.
        Inr \<lparr>pv_poolId = pl_poolId pool, pv_level = level, pv_tick = - level, pv_sqrtPriceX96 = sqrtX,
             pv_priceEth = sqrtToEthString sqrtX, pv_fdvEthWei = fdv, pv_mcapEthWei = mcap,
             pv_athPriceEth = (case stats of Some s \<Rightarrow> sqrtToEthString (ps_athSqrtX96 s) | None \<Rightarrow> None),
             pv_progress = curveProgress pool level, pv_source = source\<rparr>))))"

definition priceRead ::
  "int \<Rightarrow> pool list \<Rightarrow> pool_stats list \<Rightarrow> (int \<Rightarrow> string \<Rightarrow> int option result) \<Rightarrow> string \<Rightarrow> int option \<Rightarrow> price_view result" where
  "priceRead fallback pools statsRows slot0 tokenRef queryChainId =
     (let chainId = resolveChainId fallback queryChainId in
      bindR (poolOrThrow pools tokenRef chainId) (\<lambda>pool.
      let stats = find (\<lambda>s. ps_chainId s = chainId \<and> ps_poolId s = pl_poolId pool) statsRows;
          observed = observedPrice stats (slot0 chainId (pl_poolId pool))
      in bindR (if fst observed = 0 then bindR (sqrtPriceAtLevel (pl_openingLevel pool)) (\<lambda>p. Inr (p, Opening))
                else Inr observed) (presentPrice pool stats)))"

section \<open>Quotes\<close>

datatype side = BUY | SELL

record quote_view =
  qv_poolId :: string
  qv_side :: side
  qv_amountIn :: int
  qv_amountOut :: int
  qv_gasEstimate :: int

text \<open>\<open>quoter\<close> is \<open>quoteExactInputSingle\<close> of the contract (token, zero-for-one, exact amount); \<open>v4Quoter\<close> its
  configured address.\<close>

definition computeQuote ::
  "int \<Rightarrow> pool list \<Rightarrow> string option \<Rightarrow> (string \<Rightarrow> bool \<Rightarrow> int \<Rightarrow> (int \<times> int) result)
   \<Rightarrow> string \<Rightarrow> side \<Rightarrow> int \<Rightarrow> int option \<Rightarrow> quote_view result" where
  "computeQuote fallback pools v4Quoter quoter tokenRef sd amount queryChainId =
     (let chainId = resolveChainId fallback queryChainId in
      bindR (poolOrThrow pools tokenRef chainId) (\<lambda>pool.
      if v4Quoter = None then Inl (NotFoundException ''QUOTER_NOT_CONFIGURED'')
      else
        let zeroForOne = (sd = BUY) in
        bindR (quoter (pl_token pool) zeroForOne amount) (\<lambda>(amountOut, gasEstimate).
        Inr \<lparr>qv_poolId = pl_poolId pool, qv_side = sd, qv_amountIn = amount, qv_amountOut = amountOut,
             qv_gasEstimate = gasEstimate\<rparr>)))"

fun growLoop :: "(int \<Rightarrow> bool) \<Rightarrow> nat \<Rightarrow> int \<Rightarrow> int" where
  "growLoop quotable 0 hi = hi"
| "growLoop quotable (Suc n) hi = (if quotable hi then growLoop quotable n (hi * 4) else hi)"

fun bisectLoop :: "(int \<Rightarrow> bool) \<Rightarrow> nat \<Rightarrow> int \<Rightarrow> int \<Rightarrow> int \<times> int" where
  "bisectLoop quotable 0 lo hi = (lo, hi)"
| "bisectLoop quotable (Suc n) lo hi =
     (if hi - lo > 10 ^ 14 then
        let mid = (lo + hi) sdiv 2 in
        if quotable mid then bisectLoop quotable n mid hi else bisectLoop quotable n lo mid
      else (lo, hi))"

definition maxBuySearch :: "(int \<Rightarrow> bool) \<Rightarrow> int" where
  "maxBuySearch quotable =
     (let hi = (if quotable (10 ^ 18) then growLoop quotable 6 (10 ^ 18) else 10 ^ 18)
      in fst (bisectLoop quotable 12 0 hi))"

definition maxBuy ::
  "int \<Rightarrow> pool list \<Rightarrow> string option \<Rightarrow> (string \<Rightarrow> bool \<Rightarrow> int \<Rightarrow> (int \<times> int) result) \<Rightarrow> string \<Rightarrow> int option result" where
  "maxBuy fallback pools v4Quoter quoter tokenRef =
     (let chainId = resolveChainId fallback None in
      bindR (poolOrThrow pools tokenRef chainId) (\<lambda>pool.
      if pl_status pool \<noteq> Bonding then Inr None
      else Inr (Some (maxBuySearch
        (\<lambda>amount. returns (computeQuote fallback pools v4Quoter quoter tokenRef BUY amount (Some chainId)))))))"

section \<open>Depth\<close>

record depth_position =
  dp_position :: int
  dp_startLevel :: int
  dp_endLevel :: int
  dp_liquidity :: int

fun depthLoop :: "pool \<Rightarrow> int \<Rightarrow> int \<Rightarrow> int \<Rightarrow> nat \<Rightarrow> int list \<Rightarrow> depth_position list result" where
  "depthLoop pool curvePositions curveSupply level room [] = Inr []"
| "depthLoop pool curvePositions curveSupply level room (i # is) =
     (let start = curvePositionStart (pl_openingLevel pool) (pl_farLevel pool) curvePositions i in
      if start \<le> level then depthLoop pool curvePositions curveSupply level room is
      else
        bindR (curvePositionLiquidity (pl_openingLevel pool) (pl_farLevel pool) curvePositions curveSupply i) (\<lambda>liquidity.
        let p = \<lparr>dp_position = i, dp_startLevel = start, dp_endLevel = pl_farLevel pool, dp_liquidity = liquidity\<rparr> in
        if room \<le> 1 then Inr [p]
        else bindR (depthLoop pool curvePositions curveSupply level (room - 1) is) (\<lambda>rest. Inr (p # rest))))"

datatype depth_view =
    CurveDepth int "depth_position list"
  | LadderDepth int "band_row list" "int option" "int option" "int \<times> int"

definition depth ::
  "int \<Rightarrow> pool list \<Rightarrow> pool_stats list \<Rightarrow> band_row list \<Rightarrow> string \<Rightarrow> int option \<Rightarrow> int option \<Rightarrow> depth_view result" where
  "depth fallback pools statsRows bandRows tokenRef queryBuckets queryChainId =
     (let chainId = resolveChainId fallback queryChainId;
          buckets = min (max (case queryBuckets of Some b \<Rightarrow> b | None \<Rightarrow> 8) 1) 32 in
      bindR (poolOrThrow pools tokenRef chainId) (\<lambda>pool.
      let stats = find (\<lambda>s. ps_chainId s = chainId \<and> ps_poolId s = pl_poolId pool) statsRows in
      bindR (case stats of Some s \<Rightarrow> Inr (ps_lastPriceSqrtX96 s) | None \<Rightarrow> sqrtPriceAtLevel (pl_openingLevel pool)) (\<lambda>sqrtX.
      bindR (levelFromSqrtPrice sqrtX) (\<lambda>level.
      let curveSupply = (pl_totalSupply pool * 25) sdiv 100 in
      if pl_status pool = Bonding then
        bindR (depthLoop pool 32 curveSupply level (nat buckets) [0..31]) (\<lambda>ps. Inr (CurveDepth level ps))
      else
        let live = filter (\<lambda>b. br_live b \<and> br_levelLower b > level) bandRows;
            grad = (case pl_graduationLevel pool of Some g \<Rightarrow> g | None \<Rightarrow> 0)
        in Inr (LadderDepth level (take (nat buckets) (sort_key br_levelLower live))
             (pl_fullRangeLiq pool) (pl_wallLiquidity pool) (grad + 1, grad + 880000))))))"

section \<open>Lemmas\<close>

lemma fdvEthWei_eq: "fdvEthWei x s = fdvEthWeiAtSqrtPrice s x"
  by (simp add: fdvEthWei_def fdvEthWeiAtSqrtPrice_def Q192_def push_bit_eq_mult)

lemma growLoop_bounds: "0 < hi \<Longrightarrow> hi \<le> growLoop q n hi \<and> growLoop q n hi \<le> 4 ^ n * hi"
proof (induction n arbitrary: hi)
  case (Suc n)
  then have "hi * 4 \<le> growLoop q n (hi * 4) \<and> growLoop q n (hi * 4) \<le> 4 ^ n * (hi * 4)" by simp
  moreover have "(1::int) \<le> 4 ^ Suc n" by (rule one_le_power) simp
  then have "hi \<le> 4 * 4 ^ n * hi" using Suc.prems mult_right_mono [of 1 "4 ^ Suc n" hi] by simp
  ultimately show ?case using Suc.prems by simp
qed simp

lemma growLoop_stops: "q (growLoop q n hi) \<Longrightarrow> growLoop q n hi = 4 ^ n * hi"
proof (induction n arbitrary: hi)
  case (Suc n)
  show ?case
  proof (cases "q hi")
    case True
    then have "growLoop q n (hi * 4) = 4 ^ n * (hi * 4)" using Suc by simp
    then show ?thesis using True by simp
  qed (use Suc.prems in simp)
qed simp

text \<open>Iterated bound on the width of the search interval.\<close>

fun widthBound :: "nat \<Rightarrow> int \<Rightarrow> int" where
  "widthBound 0 w = w"
| "widthBound (Suc n) w = widthBound n ((w + 1) div 2)"

lemma bisectLoop_spec:
  assumes "0 \<le> lo" "lo \<le> hi" "0 < hi" "lo = 0 \<or> q lo"
  shows "(case bisectLoop q n lo hi of (l, h) \<Rightarrow> 0 < h \<and> lo \<le> l \<and> l \<le> h \<and> h \<le> hi \<and> (l = 0 \<or> q l) \<and> (h = hi \<or> \<not> q h)
    \<and> (h - l \<le> 10 ^ 14 \<or> h - l \<le> widthBound n (hi - lo)))"
  using assms
proof (induction n arbitrary: lo hi)
  case (Suc n)
  show ?case
  proof (cases "hi - lo > 10 ^ 14")
    case True
    define mid where "mid = (lo + hi) div 2"
    have m: "(lo + hi) sdiv 2 = mid" "lo \<le> mid" "mid \<le> hi" "0 < mid"
      using Suc.prems True by (simp_all add: sdiv_nonneg mid_def)
    have w: "hi - mid \<le> (hi - lo + 1) div 2" "mid - lo \<le> (hi - lo + 1) div 2" unfolding mid_def by linarith+
    have mono: "widthBound n a \<le> widthBound n b" if "a \<le> b" for a b :: int
      using that by (induction n arbitrary: a b) (simp_all add: zdiv_mono1)
    show ?thesis
    proof (cases "q mid")
      case q: True
      with Suc.IH [of mid hi] m mono [OF w(1)] True show ?thesis by (auto simp: Let_def split: prod.splits)
    next
      case False
      with Suc.IH [of lo mid] m mono [OF w(2)] True Suc.prems show ?thesis by (auto simp: Let_def split: prod.splits)
    qed
  qed (use Suc.prems in simp)
qed simp

lemma widthBound_eq: "widthBound n w = (w + 2 ^ n - 1) div 2 ^ n"
proof (induction n arbitrary: w)
  case (Suc n)
  have "widthBound (Suc n) w = ((w + 1) div 2 + 2 ^ n - 1) div 2 ^ n" using Suc by simp
  also have "(w + 1) div 2 + 2 ^ n - 1 = (w + 2 ^ Suc n - 1) div 2" by simp
  also have "(w + 2 ^ Suc n - 1) div 2 div 2 ^ n = (w + 2 ^ Suc n - 1) div 2 ^ Suc n"
    by (simp only: zdiv_zmult2_eq [symmetric] power_Suc zero_le_power zero_le_numeral)
  finally show ?case .
qed simp

lemma growLoop_prev: "growLoop q n hi = hi \<or> (\<exists>x. growLoop q n hi = 4 * x \<and> q x)"
proof (induction n arbitrary: hi)
  case (Suc n)
  then show ?case using Suc.IH [of "hi * 4"] by (auto simp: mult.commute)
qed simp

section \<open>Properties\<close>

text \<open>C18. The maximum-buy search returns \<open>0\<close> or an amount that the quoter fills, never above \<open>4096 * 10^18\<close>. If the
  quoter fills exactly the positive amounts up to a capacity \<open>c\<close> below that bound, the answer does not exceed \<open>c\<close>
  and misses it by at most \<open>max(10^18, 4c) / 4096 + 1\<close>.\<close>

theorem maxBuySearch_accuracy:
  "0 \<le> maxBuySearch q \<and> (maxBuySearch q = 0 \<or> q (maxBuySearch q)) \<and> maxBuySearch q \<le> 4096 * 10 ^ 18
   \<and> ((\<forall>x>0. q x \<longleftrightarrow> x \<le> c) \<and> 0 \<le> c \<and> c < 4096 * 10 ^ 18
      \<longrightarrow> maxBuySearch q \<le> c \<and> c - maxBuySearch q \<le> max (10 ^ 18) (4 * c) div 4096 + 1)"
proof -
  define H where "H = (if q (10 ^ 18) then growLoop q 6 (10 ^ 18) else 10 ^ 18)"
  have g: "10 ^ 18 \<le> growLoop q 6 (10 ^ 18)" "growLoop q 6 (10 ^ 18) \<le> 4096 * 10 ^ 18"
    using growLoop_bounds [of "10 ^ 18" q 6] by simp_all
  have H: "10 ^ 18 \<le> H" "H \<le> 4096 * 10 ^ 18" using g by (simp_all add: H_def)
  obtain l h where lh: "bisectLoop q 12 0 H = (l, h)" by force
  have r: "maxBuySearch q = l" using lh by (simp add: maxBuySearch_def H_def)
  have b: "0 \<le> l" "l \<le> h" "h \<le> H" "l = 0 \<or> q l" "h = H \<or> \<not> q h" "0 < h" "h - l \<le> 10 ^ 14 \<or> h - l \<le> widthBound 12 H"
    using bisectLoop_spec [of 0 H q 12] H lh by auto
  have "l \<le> c \<and> c - l \<le> max (10 ^ 18) (4 * c) div 4096 + 1"
    if q: "\<forall>x>0. q x \<longleftrightarrow> x \<le> c" and c: "0 \<le> c" "c < 4096 * 10 ^ 18"
  proof -
    have "\<not> q H"
    proof
      assume "q H"
      then have "q (growLoop q 6 (10 ^ 18))" by (auto simp: H_def split: if_splits)
      then have "growLoop q 6 (10 ^ 18) = 4096 * 10 ^ 18" using growLoop_stops by fastforce
      with \<open>q (growLoop q 6 (10 ^ 18))\<close> q c(2) show False by fastforce
    qed
    then have "\<not> q h" using b(5) by blast
    have "l \<le> c" using b(1,4) q c(1) by (cases "l = 0") auto
    moreover have "c < h" using \<open>\<not> q h\<close> q b(6) by (auto simp: not_le)
    moreover have "H \<le> max (10 ^ 18) (4 * c)"
      using growLoop_prev [of q 6 "10 ^ 18"] q H(1) by (auto simp: H_def)
    then have "H div 4096 \<le> max (10 ^ 18) (4 * c) div 4096" by (rule zdiv_mono1) simp
    moreover have "widthBound 12 H \<le> H div 4096 + 1" by (simp add: widthBound_eq)
    moreover have "10 ^ 14 \<le> H div 4096 + 1" using zdiv_mono1 [OF H(1), of 4096] by simp
    ultimately show ?thesis using b(7) by linarith
  qed
  with b H r show ?thesis by auto
qed

theorem maxBuySearch_accuracy_witness:
  "maxBuySearch (\<lambda>x. x \<le> 3 * 10 ^ 18) \<le> 3 * 10 ^ 18
   \<and> 3 * 10 ^ 18 - maxBuySearch (\<lambda>x. x \<le> 3 * 10 ^ 18) \<le> max (10 ^ 18) (4 * (3 * 10 ^ 18)) div 4096 + 1"
  using maxBuySearch_accuracy [of "\<lambda>x. x \<le> 3 * 10 ^ 18" "3 * 10 ^ 18"] by simp

lemma sdiv_neg: "a < 0 \<Longrightarrow> 0 < d \<Longrightarrow> a sdiv d = - ((- a) div (d::int))"
  by (simp add: signed_divide_int_def)

lemma sdiv_mono:
  assumes "a \<le> b" "0 < (d::int)"
  shows "a sdiv d \<le> b sdiv d"
proof (cases "a < 0")
  case a: True
  have an: "0 \<le> (- a) div d" using a assms(2) by (simp add: pos_imp_zdiv_nonneg_iff)
  show ?thesis
  proof (cases "b < 0")
    case True
    then show ?thesis using a assms zdiv_mono1 [of "- b" "- a" d] by (simp add: sdiv_neg)
  next
    case False
    then have "0 \<le> b sdiv d" using assms(2) by (simp add: sdiv_nonneg pos_imp_zdiv_nonneg_iff)
    then show ?thesis using a an assms(2) by (simp add: sdiv_neg)
  qed
next
  case False
  then show ?thesis using assms by (simp add: sdiv_nonneg zdiv_mono1)
qed

lemma curveProgress_unit: "0 \<le> curveProgress p l \<and> curveProgress p l \<le> 1"
  by (auto simp: curveProgress_def Let_def divide_le_eq_1 min_def)

lemma fdvEthWei_mono:
  assumes "fdvEthWei x s = Inr a" "fdvEthWei x t = Inr b" "s \<le> t"
  shows "a \<le> b"
proof -
  have "x \<noteq> 0" and ab: "a = push_bit 192 s sdiv (x * x)" "b = push_bit 192 t sdiv (x * x)"
    using assms(1,2) by (auto simp: fdvEthWei_def bigDiv_Inr_iff)
  then have "0 < x * x" by (simp add: zero_less_mult_iff) linarith
  moreover have "push_bit 192 s \<le> push_bit 192 t" using assms(3) by (simp add: push_bit_eq_mult)
  ultimately show ?thesis unfolding ab by (intro sdiv_mono)
qed

lemma presentPrice_consistent:
  assumes "presentPrice pool stats (x, src) = Inr v" "\<forall>s. stats = Some s \<longrightarrow> 0 \<le> ps_burnedTotal s"
  shows "pv_sqrtPriceX96 v = x \<and> x \<noteq> 0 \<and> levelAtSqrtPrice x = Inr (pv_level v) \<and> pv_tick v = - pv_level v
    \<and> pv_priceEth v \<noteq> None \<and> 0 \<le> pv_progress v \<and> pv_progress v \<le> 1 \<and> pv_mcapEthWei v \<le> pv_fdvEthWei v
    \<and> pv_source v = src \<and> pv_poolId v = pl_poolId pool"
proof -
  define burned where "burned = (case stats of Some s \<Rightarrow> ps_burnedTotal s | None \<Rightarrow> 0)"
  have burned: "0 \<le> burned" using assms(2) by (simp add: burned_def split: option.split)
  obtain level fdv mcap where h: "levelAtSqrtPrice x = Inr level" "fdvEthWei x (pl_totalSupply pool) = Inr fdv"
    "fdvEthWei x (pl_totalSupply pool - burned) = Inr mcap"
    and v: "pv_level v = level" "pv_tick v = - level" "pv_sqrtPriceX96 v = x" "pv_priceEth v = sqrtToEthString x"
      "pv_fdvEthWei v = fdv" "pv_mcapEthWei v = mcap" "pv_progress v = curveProgress pool level" "pv_source v = src"
      "pv_poolId v = pl_poolId pool"
    using assms(1) unfolding presentPrice_def burned_def
    by (auto simp: bindR_eq_Inr_iff Let_def levelFromSqrtPrice_def)
  have "x \<noteq> 0" using h(2) by (auto simp: fdvEthWei_def bigDiv_Inr_iff)
  moreover have "mcap \<le> fdv" using fdvEthWei_mono [OF h(3,2)] burned by simp
  ultimately show ?thesis using h v curveProgress_unit [of pool level] by (simp add: sqrtToEthString_def Let_def)
qed

text \<open>Every successful price read is internally consistent: the sqrt price is not zero, the reported level is the
  level of that price and the tick its negation, the price text is present, the curve progress lies between 0 and 1,
  and the market cap does not exceed the fully diluted valuation when no burned amount is negative. A price
  reported as \<open>live\<close> is the one the chain returned.\<close>

lemma priceRead_consistent:
  assumes "priceRead fallback pools statsRows slot0 tokenRef chain = Inr v"
    and "\<forall>s\<in>set statsRows. 0 \<le> ps_burnedTotal s"
  shows "pv_sqrtPriceX96 v \<noteq> 0 \<and> levelAtSqrtPrice (pv_sqrtPriceX96 v) = Inr (pv_level v) \<and> pv_tick v = - pv_level v
    \<and> pv_priceEth v \<noteq> None \<and> 0 \<le> pv_progress v \<and> pv_progress v \<le> 1 \<and> pv_mcapEthWei v \<le> pv_fdvEthWei v
    \<and> (pv_source v = Live \<longrightarrow> slot0 (resolveChainId fallback chain) (pv_poolId v) = Inr (Some (pv_sqrtPriceX96 v)))"
proof -
  define chainId where "chainId = resolveChainId fallback chain"
  obtain pool where pool: "poolOrThrow pools tokenRef chainId = Inr pool"
    using assms(1) by (auto simp: priceRead_def chainId_def Let_def bindR_eq_Inr_iff)
  define stats where "stats = find (\<lambda>s. ps_chainId s = chainId \<and> ps_poolId s = pl_poolId pool) statsRows"
  define obs where "obs = observedPrice stats (slot0 chainId (pl_poolId pool))"
  have burned: "\<forall>s. stats = Some s \<longrightarrow> 0 \<le> ps_burnedTotal s"
    using assms(2) by (auto simp: stats_def find_Some_iff)
  obtain x src where p: "presentPrice pool stats (x, src) = Inr v" and src: "src = Opening \<or> (x, src) = obs"
    using assms(1) pool
    by (fastforce simp: priceRead_def Let_def bindR_eq_Inr_iff obs_def stats_def split: if_splits simp flip: chainId_def)
  note c = presentPrice_consistent [OF p burned]
  have "slot0 chainId (pl_poolId pool) = Inr (Some x)" if "src = Live"
    using src that by (auto simp: obs_def observedPrice_def Let_def split: sum.splits option.splits if_splits)
  with c show ?thesis by (auto simp: chainId_def)
qed

definition samplePool :: pool where
  "samplePool = \<lparr>pl_chainId = 8453, pl_poolId = ''p'', pl_token = ''t'', pl_status = Bonding, pl_totalSupply = 10 ^ 27,
     pl_openingLevel = - 200311, pl_farLevel = - 186449, pl_graduationLevel = None, pl_fullRangeLiq = None,
     pl_wallLiquidity = None\<rparr>"

lemma depthLoop_positions:
  assumes "depthLoop pool n cs level room js = Inr ps" "1 \<le> room"
  shows "map dp_position ps = take room (filter (\<lambda>i. level < curvePositionStart (pl_openingLevel pool) (pl_farLevel pool) n i) js)
    \<and> (\<forall>p\<in>set ps. dp_startLevel p = curvePositionStart (pl_openingLevel pool) (pl_farLevel pool) n (dp_position p)
        \<and> dp_endLevel p = pl_farLevel pool
        \<and> curvePositionLiquidity (pl_openingLevel pool) (pl_farLevel pool) n cs (dp_position p) = Inr (dp_liquidity p))"
  using assms
proof (induction pool n cs level room js arbitrary: ps rule: depthLoop.induct)
  case (2 pool n cs level room i js)
  define start where "start = curvePositionStart (pl_openingLevel pool) (pl_farLevel pool) n i"
  show ?case
  proof (cases "start \<le> level")
    case True
    then have "depthLoop pool n cs level room js = Inr ps" using 2(3) by (simp add: start_def Let_def)
    from 2(1) [OF refl True [unfolded start_def] this 2(4)] True show ?thesis by (simp add: start_def)
  next
    case False
    obtain liq where l: "curvePositionLiquidity (pl_openingLevel pool) (pl_farLevel pool) n cs i = Inr liq"
      using 2(3) False by (auto simp: start_def Let_def bindR_eq_Inr_iff)
    define p where "p = \<lparr>dp_position = i, dp_startLevel = start, dp_endLevel = pl_farLevel pool, dp_liquidity = liq\<rparr>"
    show ?thesis
    proof (cases "room \<le> 1")
      case True
      then have "ps = [p]" "room = 1" using 2(3,4) False l by (simp_all add: start_def p_def Let_def)
      then show ?thesis using False l by (simp add: start_def p_def)
    next
      case room: False
      then obtain rest where rest: "depthLoop pool n cs level (room - 1) js = Inr rest" "ps = p # rest"
        using 2(3) False l by (auto simp: start_def p_def Let_def bindR_eq_Inr_iff)
      have r1: "1 \<le> room - 1" using room by simp
      have t: "take room (i # xs) = i # take (room - 1) xs" for xs using room by (cases room) auto
      show ?thesis
        using 2(2) [OF refl _ l refl _ rest(1) r1] False room rest(2) l by (auto simp: start_def p_def t)
    qed
  qed
qed simp

text \<open>While a pool is bonding, the depth read lists the first \<open>buckets\<close> (clamped to 1..32) of the 32 curve
  positions that start strictly above the current level, in order, each with its start level and its liquidity.\<close>

lemma depth_bonding:
  assumes "depth fallback pools statsRows bandRows tokenRef queryBuckets chain = Inr (CurveDepth level ps)"
    and "poolOrThrow pools tokenRef (resolveChainId fallback chain) = Inr pool"
  shows "map dp_position ps = take (nat (min (max (case queryBuckets of Some b \<Rightarrow> b | None \<Rightarrow> 8) 1) 32))
      (filter (\<lambda>i. level < curvePositionStart (pl_openingLevel pool) (pl_farLevel pool) 32 i) [0..31])
    \<and> (\<forall>p\<in>set ps. dp_startLevel p = curvePositionStart (pl_openingLevel pool) (pl_farLevel pool) 32 (dp_position p)
        \<and> curvePositionLiquidity (pl_openingLevel pool) (pl_farLevel pool) 32 ((pl_totalSupply pool * 25) sdiv 100)
            (dp_position p) = Inr (dp_liquidity p))"
proof -
  define buckets where "buckets = min (max (case queryBuckets of Some b \<Rightarrow> b | None \<Rightarrow> 8) 1) (32::int)"
  have "depthLoop pool 32 ((pl_totalSupply pool * 25) sdiv 100) level (nat buckets) [0..31] = Inr ps"
    using assms by (auto simp: depth_def Let_def bindR_eq_Inr_iff buckets_def split: if_splits option.splits)
  moreover have "1 \<le> nat buckets" by (simp add: buckets_def)
  ultimately show ?thesis using depthLoop_positions unfolding buckets_def by blast
qed

end
