(* ===== verification/Ledger.thy ===== *)
theory Ledger
  imports Trading "HOL-Library.Multiset"
begin

text \<open>
  Model of the wallet ledger, the holder snapshot and the quote cache of
  \<open>src/src/modules/trading/trading.service.ts\<close>. A JavaScript \<open>Map\<close> is an association list in insertion
  order. The rows the queries return are the arguments, oldest swap first.
\<close>

section \<open>Insertion-ordered maps\<close>

fun mapSet :: "'k \<Rightarrow> 'v \<Rightarrow> ('k \<times> 'v) list \<Rightarrow> ('k \<times> 'v) list" where
  "mapSet k v [] = [(k, v)]"
| "mapSet k v (e # es) = (if fst e = k then (k, v) # es else e # mapSet k v es)"

lemma map_of_mapSet [simp]: "map_of (mapSet k v m) = (map_of m)(k \<mapsto> v)"
  by (induction m) auto

lemma keys_mapSet [simp]: "fst ` set (mapSet k v m) = insert k (fst ` set m)"
  by (induction m) auto

lemma distinct_mapSet: "distinct (map fst m) \<Longrightarrow> distinct (map fst (mapSet k v m))"
  by (induction m) auto

lemma sum_mapSet:
  assumes "distinct (map fst m)"
  shows "(\<Sum>e\<leftarrow>mapSet k v m. f (snd e)) =
    (\<Sum>e\<leftarrow>m. f (snd e)) + f v - (case map_of m k of Some w \<Rightarrow> f w | None \<Rightarrow> (0::int))"
  using assms by (induction m) (auto split: option.split simp: map_of_eq_None_iff)

section \<open>The wallet ledger\<close>

record trade_row =
  tr_poolId :: string
  tr_token :: string
  tr_isBuy :: bool
  tr_eth :: int
  tr_tokens :: int

record position =
  po_poolId :: string
  po_token :: string
  po_tokensHeld :: int
  po_costEth :: int
  po_realizedEth :: int
  po_trades :: int

definition newPosition :: "trade_row \<Rightarrow> position" where
  "newPosition row = \<lparr>po_poolId = tr_poolId row, po_token = tr_token row, po_tokensHeld = 0, po_costEth = 0,
     po_realizedEth = 0, po_trades = 0\<rparr>"

definition applyTrade :: "trade_row \<Rightarrow> position \<Rightarrow> position" where
  "applyTrade row pos =
     (let eth = tr_eth row; tokens = tr_tokens row; pos = pos\<lparr>po_trades := po_trades pos + 1\<rparr> in
      if tr_isBuy row then
        pos\<lparr>po_tokensHeld := po_tokensHeld pos + tokens, po_costEth := po_costEth pos + eth\<rparr>
      else if po_tokensHeld pos > 0 then
        let costSold = (po_costEth pos * tokens) sdiv po_tokensHeld pos in
        pos\<lparr>po_realizedEth := po_realizedEth pos + (eth - costSold), po_costEth := po_costEth pos - costSold,
            po_tokensHeld := po_tokensHeld pos - tokens\<rparr>
      else pos\<lparr>po_realizedEth := po_realizedEth pos + eth\<rparr>)"

definition foldRow :: "(string \<times> position) list \<Rightarrow> trade_row \<Rightarrow> (string \<times> position) list" where
  "foldRow byPool row =
     (let pos = (case map_of byPool (tr_poolId row) of Some p \<Rightarrow> p | None \<Rightarrow> newPosition row)
      in mapSet (tr_poolId row) (applyTrade row pos) byPool)"

text \<open>\<open>burns\<close> is the map \<open>burnsByToken\<close>, keyed by the lower-cased token.\<close>

definition applyBurn :: "(string \<rightharpoonup> int) \<Rightarrow> position \<Rightarrow> position" where
  "applyBurn burns pos = (case burns (toLowerCase (po_token pos)) of
     None \<Rightarrow> pos
   | Some burned \<Rightarrow>
       let debited = (if burned > po_tokensHeld pos then po_tokensHeld pos else burned);
           costBurned = (if po_tokensHeld pos > 0 then (po_costEth pos * debited) sdiv po_tokensHeld pos else 0)
       in pos\<lparr>po_costEth := po_costEth pos - costBurned, po_realizedEth := po_realizedEth pos - costBurned,
              po_tokensHeld := po_tokensHeld pos - debited\<rparr>)"

definition burnsByToken :: "(string \<times> int) list \<Rightarrow> string \<rightharpoonup> int" where
  "burnsByToken rows = map_of (rev (map (\<lambda>(t, b). (toLowerCase t, b)) rows))"

record position_view =
  vw_poolId :: string
  vw_tokensHeld :: int
  vw_costEth :: int
  vw_valueEth :: int
  vw_realizedPnlEth :: int
  vw_unrealizedPnlEth :: int
  vw_trades :: int

definition presentPosition :: "(string \<rightharpoonup> int) \<Rightarrow> position \<Rightarrow> position_view" where
  "presentPosition priceByPool pos =
     (let sqrtX = (case priceByPool (po_poolId pos) of Some x \<Rightarrow> x | None \<Rightarrow> 0);
          unrealizedEth = (if sqrtX > 0 \<and> po_tokensHeld pos > 0
            then push_bit 192 (po_tokensHeld pos) sdiv (sqrtX * sqrtX) else 0);
          cost = po_costEth pos; value = unrealizedEth
      in \<lparr>vw_poolId = po_poolId pos, vw_tokensHeld = po_tokensHeld pos, vw_costEth = cost, vw_valueEth = value,
          vw_realizedPnlEth = po_realizedEth pos, vw_unrealizedPnlEth = value - cost, vw_trades = po_trades pos\<rparr>)"

record pnl_view =
  pn_positions :: "position_view list"
  pn_realizedPnlEth :: int
  pn_unrealizedPnlEth :: int
  pn_costEth :: int
  pn_valueEth :: int

definition walletPnl :: "trade_row list \<Rightarrow> (string \<times> int) list \<Rightarrow> (string \<times> int) list \<Rightarrow> pnl_view" where
  "walletPnl rows burnRows lastPrices =
     (let byPool = foldl foldRow [] rows;
          burns = burnsByToken burnRows;
          debited = (if burnRows = [] then map snd byPool else map (\<lambda>e. applyBurn burns (snd e)) byPool);
          priceByPool = map_of (rev lastPrices);
          positions = map (presentPosition priceByPool) debited
      in \<lparr>pn_positions = positions,
          pn_realizedPnlEth = (\<Sum>p\<leftarrow>positions. vw_realizedPnlEth p),
          pn_unrealizedPnlEth = (\<Sum>p\<leftarrow>positions. vw_unrealizedPnlEth p),
          pn_costEth = (\<Sum>p\<leftarrow>positions. vw_costEth p),
          pn_valueEth = (\<Sum>p\<leftarrow>positions. vw_valueEth p)\<rparr>)"

section \<open>The paged trade history\<close>

definition walletTradesPage :: "int \<Rightarrow> int \<Rightarrow> 'a list \<Rightarrow> 'a list \<times> (int \<times> int \<times> int \<times> int)" where
  "walletTradesPage p l rows =
     (let safeLimit = min (max l 1) 100;
          offset = (max p 1 - 1) * safeLimit;
          count = int (length rows)
      in (take (nat safeLimit) (drop (nat offset) rows),
          (p, safeLimit, count, max 1 (ceilDivPos count safeLimit))))"

section \<open>Holders\<close>

record transfer_log =
  tl_from :: "string option"
  tl_to :: "string option"
  tl_value :: "int option"

definition ZERO_ADDRESS :: string where
  "ZERO_ADDRESS = ''0x0000000000000000000000000000000000000000''"

definition credit :: "string \<Rightarrow> int \<Rightarrow> (string \<times> int) list \<Rightarrow> (string \<times> int) list" where
  "credit who amount balances =
     (if who \<noteq> ZERO_ADDRESS
      then mapSet who ((case map_of balances who of Some b \<Rightarrow> b | None \<Rightarrow> 0) + amount) balances
      else balances)"

definition foldTransfer :: "(string \<times> int) list \<Rightarrow> transfer_log \<Rightarrow> (string \<times> int) list" where
  "foldTransfer balances entry = (case (tl_from entry, tl_to entry, tl_value entry) of
     (Some from, Some to, Some amount) \<Rightarrow>
        if from = [] \<or> to = [] then balances else credit to amount (credit from (- amount) balances)
   | _ \<Rightarrow> balances)"

record holder_view =
  hv_address :: string
  hv_balance :: int
  hv_shareBps :: int

definition holdersFromLogs :: "transfer_log list \<Rightarrow> (nat \<times> holder_view list) option" where
  "holdersFromLogs logs =
     (if length logs > 20000 then None
      else
        let balances = foldl foldTransfer [] logs;
            holders = filter (\<lambda>e. snd e > 0) balances;
            total = (\<Sum>e\<leftarrow>holders. snd e);
            top = map (\<lambda>(address, balance). \<lparr>hv_address = address, hv_balance = balance,
                hv_shareBps = (if total > 0 then (balance * 10000) sdiv total else 0)\<rparr>)
              (take 10 (sort_key (\<lambda>e. - snd e) holders))
        in Some (length holders, top))"

text \<open>The indexed path: \<open>rows\<close> are the ten largest positive balances of the table.\<close>

definition holdersIndexed :: "(string \<times> int) list \<Rightarrow> nat \<Rightarrow> (nat \<times> holder_view list) option" where
  "holdersIndexed rows c =
     (if rows = [] then None
      else
        let totalBal = (\<Sum>e\<leftarrow>rows. snd e);
            topTotal = (if totalBal > 0 then totalBal else 1)
        in Some (c, map (\<lambda>(address, balance). \<lparr>hv_address = address, hv_balance = balance,
             hv_shareBps = (balance * 10000) sdiv topTotal\<rparr>) rows))"

section \<open>The quote cache\<close>

text \<open>The two maps of the service and the computations under way: \<open>qs_running\<close> lists the promises not settled yet with
  their keys. A request either returns a fresh value, joins the pending promise of its key, or starts a
  computation; a computation settles with a value or an error.\<close>

record 'v quote_state =
  qs_cache :: "string \<rightharpoonup> 'v \<times> int"
  qs_inFlight :: "string \<rightharpoonup> nat"
  qs_running :: "(nat \<times> string) list"
  qs_next :: nat

datatype 'v quote_answer = Cached 'v | Joined nat | Started nat

definition QUOTE_TTL_MS :: int where [model_defs]: "QUOTE_TTL_MS = 1500"

definition initQuotes :: "'v quote_state" where
  "initQuotes = \<lparr>qs_cache = Map.empty, qs_inFlight = Map.empty, qs_running = [], qs_next = 0\<rparr>"

definition startQuote :: "string \<Rightarrow> 'v quote_state \<Rightarrow> 'v quote_answer \<times> 'v quote_state" where
  "startQuote key st = (Started (qs_next st),
     st\<lparr>qs_inFlight := (qs_inFlight st)(key \<mapsto> qs_next st), qs_running := (qs_next st, key) # qs_running st,
        qs_next := qs_next st + 1\<rparr>)"

definition cachedQuote :: "string \<Rightarrow> int \<Rightarrow> 'v quote_state \<Rightarrow> 'v quote_answer \<times> 'v quote_state" where
  "cachedQuote key now st = (case qs_cache st key of
     Some (v, expires) \<Rightarrow> if expires > now then (Cached v, st)
       else (case qs_inFlight st key of Some p \<Rightarrow> (Joined p, st) | None \<Rightarrow> startQuote key st)
   | None \<Rightarrow> (case qs_inFlight st key of Some p \<Rightarrow> (Joined p, st) | None \<Rightarrow> startQuote key st))"

definition settleQuote :: "nat \<Rightarrow> string \<Rightarrow> 'v result \<Rightarrow> int \<Rightarrow> 'v quote_state \<Rightarrow> 'v quote_state" where
  "settleQuote p key outcome now st =
     (let st = (case outcome of Inr v \<Rightarrow> st\<lparr>qs_cache := (qs_cache st)(key \<mapsto> (v, now + QUOTE_TTL_MS))\<rparr> | Inl _ \<Rightarrow> st)
      in st\<lparr>qs_inFlight := (qs_inFlight st)(key := None), qs_running := removeAll (p, key) (qs_running st)\<rparr>)"

inductive quoteReachable :: "'v quote_state \<Rightarrow> bool" where
  init: "quoteReachable initQuotes"
| request: "quoteReachable st \<Longrightarrow> quoteReachable (snd (cachedQuote key now st))"
| settle: "quoteReachable st \<Longrightarrow> (p, key) \<in> set (qs_running st) \<Longrightarrow> quoteReachable (settleQuote p key outcome now st)"

section \<open>Lemmas on the ledger\<close>

definition netEth :: "trade_row \<Rightarrow> int" where
  "netEth row = (if tr_isBuy row then - tr_eth row else tr_eth row)"

lemma applyTrade_net:
  "po_realizedEth (applyTrade row pos) - po_costEth (applyTrade row pos) = po_realizedEth pos - po_costEth pos + netEth row"
  by (simp add: applyTrade_def netEth_def Let_def)

lemma applyBurn_net: "po_realizedEth (applyBurn b pos) - po_costEth (applyBurn b pos) = po_realizedEth pos - po_costEth pos"
  by (simp add: applyBurn_def Let_def split: option.split)

lemma foldRow_distinct: "distinct (map fst m) \<Longrightarrow> distinct (map fst (foldRow m row))"
  by (simp add: foldRow_def distinct_mapSet Let_def)

lemma foldRows_distinct: "distinct (map fst m) \<Longrightarrow> distinct (map fst (foldl foldRow m rows))"
  by (induction rows arbitrary: m) (simp_all add: foldRow_distinct)

definition ledgerNet :: "position \<Rightarrow> int" where
  "ledgerNet p = po_realizedEth p - po_costEth p"

lemma foldRow_net:
  assumes "distinct (map fst m)"
  shows "(\<Sum>e\<leftarrow>foldRow m row. ledgerNet (snd e)) = (\<Sum>e\<leftarrow>m. ledgerNet (snd e)) + netEth row"
  using sum_mapSet [OF assms, of ledgerNet "tr_poolId row"] applyTrade_net [of row]
  by (simp add: foldRow_def Let_def ledgerNet_def newPosition_def split: option.split)

lemma foldRows_net:
  assumes "distinct (map fst m)"
  shows "(\<Sum>e\<leftarrow>foldl foldRow m rows. ledgerNet (snd e)) = (\<Sum>e\<leftarrow>m. ledgerNet (snd e)) + (\<Sum>r\<leftarrow>rows. netEth r)"
  using assms by (induction rows arbitrary: m) (simp_all add: foldRow_distinct foldRow_net)

lemma applyBurn_ledgerNet: "ledgerNet (applyBurn b p) = ledgerNet p"
  unfolding ledgerNet_def by (rule applyBurn_net)

section \<open>Properties\<close>

text \<open>C20. The profit ledger conserves ETH: over all positions, realized plus unrealized profit equals the value of the
  remaining holdings plus everything received from sells minus everything spent on buys, whatever the order of the
  trades, the rounding of the cost basis and the burns.\<close>

theorem walletPnl_conserves_eth:
  "pn_realizedPnlEth (walletPnl rows burnRows lastPrices) + pn_unrealizedPnlEth (walletPnl rows burnRows lastPrices)
   = pn_valueEth (walletPnl rows burnRows lastPrices)
     + (\<Sum>r\<leftarrow>rows. if tr_isBuy r then - tr_eth r else tr_eth r)"
proof -
  define ps where "ps = (if burnRows = [] then map snd (foldl foldRow [] rows)
    else map (\<lambda>e. applyBurn (burnsByToken burnRows) (snd e)) (foldl foldRow [] rows))"
  have "(\<Sum>p\<leftarrow>ps. ledgerNet p) = (\<Sum>e\<leftarrow>foldl foldRow [] rows. ledgerNet (snd e))"
    by (simp add: ps_def comp_def applyBurn_ledgerNet)
  also have "\<dots> = (\<Sum>r\<leftarrow>rows. netEth r)" using foldRows_net [of "[]" rows] by simp
  finally have net: "(\<Sum>p\<leftarrow>ps. po_realizedEth p) - (\<Sum>p\<leftarrow>ps. po_costEth p) = (\<Sum>r\<leftarrow>rows. netEth r)"
    by (simp add: ledgerNet_def sum_list_subtractf)
  show ?thesis
    using net unfolding walletPnl_def Let_def ps_def [symmetric] netEth_def
    by (simp add: comp_def presentPosition_def Let_def sum_list_subtractf)
qed

text \<open>Tokens a wallet has bought minus sold in a pool.\<close>

definition netTokens :: "string \<Rightarrow> trade_row list \<Rightarrow> int" where
  "netTokens pool rows = (\<Sum>r\<leftarrow>rows. if tr_poolId r = pool then (if tr_isBuy r then tr_tokens r else - tr_tokens r) else 0)"

definition covered :: "trade_row list \<Rightarrow> bool" where
  "covered rows \<longleftrightarrow> (\<forall>k\<le>length rows. \<forall>pool. 0 \<le> netTokens pool (take k rows))
     \<and> (\<forall>r\<in>set rows. 0 \<le> tr_tokens r \<and> 0 \<le> tr_eth r)"

lemma covered_snoc: "covered (rows @ [r]) \<Longrightarrow> covered rows \<and> 0 \<le> netTokens pool (rows @ [r]) \<and> 0 \<le> tr_tokens r \<and> 0 \<le> tr_eth r"
proof -
  assume c: "covered (rows @ [r])"
  have "0 \<le> netTokens pool (take k rows)" if "k \<le> length rows" for k pool
    using c that unfolding covered_def by (metis append_Nil2 diff_is_0_eq' le_SucI length_append_singleton take_0 take_append)
  moreover have "0 \<le> netTokens pool (rows @ [r])" using c unfolding covered_def by (metis order_refl take_all_iff)
  ultimately show ?thesis using c unfolding covered_def by auto
qed

lemma costSold_bounds:
  assumes "0 \<le> (cost::int)" "0 < held" "0 \<le> t" "t \<le> held"
  shows "0 \<le> (cost * t) sdiv held" and "(cost * t) sdiv held \<le> cost"
proof -
  have "cost * t \<le> cost * held" using assms by (simp add: mult_left_mono)
  then have "cost * t div held \<le> cost" using zdiv_mono1 [of "cost * t" "cost * held" held] assms(2) by simp
  then show "0 \<le> (cost * t) sdiv held" "(cost * t) sdiv held \<le> cost"
    using assms by (simp_all add: sdiv_nonneg pos_imp_zdiv_nonneg_iff)
qed

lemma applyTrade_held:
  assumes "0 \<le> po_tokensHeld p" "0 \<le> po_costEth p" "0 \<le> tr_tokens r" "0 \<le> tr_eth r"
    and "\<not> tr_isBuy r \<Longrightarrow> tr_tokens r \<le> po_tokensHeld p"
  shows "po_tokensHeld (applyTrade r p) = po_tokensHeld p + (if tr_isBuy r then tr_tokens r else - tr_tokens r)
    \<and> 0 \<le> po_costEth (applyTrade r p)"
  using assms costSold_bounds [of "po_costEth p" "po_tokensHeld p" "tr_tokens r"]
  by (auto simp: applyTrade_def Let_def)

lemma foldRows_held:
  assumes "covered rows"
  shows "case map_of (foldl foldRow [] rows) pool of
      Some p \<Rightarrow> po_tokensHeld p = netTokens pool rows \<and> 0 \<le> po_costEth p
    | None \<Rightarrow> netTokens pool rows = 0"
  using assms
proof (induction rows arbitrary: pool rule: rev_induct)
  case Nil
  then show ?case by (simp add: netTokens_def)
next
  case (snoc r rows)
  note c = covered_snoc [OF snoc.prems]
  have cov: "covered rows" using c by blast
  have nn: "0 \<le> netTokens p rows" for p using cov unfolding covered_def by (metis order_refl take_all_iff)
  define q where "q = (case map_of (foldl foldRow [] rows) (tr_poolId r) of Some p \<Rightarrow> p | None \<Rightarrow> newPosition r)"
  have q: "po_tokensHeld q = netTokens (tr_poolId r) rows" "0 \<le> po_costEth q"
    using snoc.IH [OF cov, of "tr_poolId r"] by (auto simp: q_def newPosition_def split: option.splits)
  have net: "netTokens p (rows @ [r]) = netTokens p rows
      + (if tr_poolId r = p then (if tr_isBuy r then tr_tokens r else - tr_tokens r) else 0)" for p
    by (simp add: netTokens_def)
  have t: "0 \<le> tr_tokens r" "0 \<le> tr_eth r" "0 \<le> netTokens (tr_poolId r) (rows @ [r])" using c by blast+
  have "po_tokensHeld (applyTrade r q) = netTokens (tr_poolId r) (rows @ [r]) \<and> 0 \<le> po_costEth (applyTrade r q)"
    using applyTrade_held [of q r] q nn [of "tr_poolId r"] t net [of "tr_poolId r"] by (auto split: if_splits)
  moreover have "foldl foldRow [] (rows @ [r]) = mapSet (tr_poolId r) (applyTrade r q) (foldl foldRow [] rows)"
    by (simp add: foldRow_def q_def Let_def)
  ultimately show ?case using snoc.IH [OF cov, of pool] net [of pool] by (auto split: option.splits)
qed

text \<open>For a wallet that never sells more than it holds, every folded position holds exactly the tokens bought minus
  the tokens sold, which is not negative, and its remaining cost basis is not negative.\<close>

lemma ledger_holdings:
  assumes "covered rows" and "map_of (foldl foldRow [] rows) pool = Some p"
  shows "po_tokensHeld p = netTokens pool rows \<and> 0 \<le> po_tokensHeld p \<and> 0 \<le> po_costEth p"
proof -
  have "0 \<le> netTokens pool rows" using assms(1) unfolding covered_def by (metis order_refl take_all_iff)
  with foldRows_held [OF assms(1), of pool] assms(2) show ?thesis by simp
qed

text \<open>Outside that hypothesis the fold drives a position negative: selling 15 of 10 held tokens leaves -5 tokens at a
  cost basis of -50.\<close>

lemma oversell_negative_position:
  "map (\<lambda>e. (po_tokensHeld (snd e), po_costEth (snd e), po_realizedEth (snd e))) (foldl foldRow []
     [\<lparr>tr_poolId = ''p'', tr_token = ''t'', tr_isBuy = True, tr_eth = 100, tr_tokens = 10\<rparr>,
      \<lparr>tr_poolId = ''p'', tr_token = ''t'', tr_isBuy = False, tr_eth = 300, tr_tokens = 15\<rparr>])
   = [(- 5, - 50, 150)]"
  by code_simp

section \<open>Holders: conservation and shares\<close>

definition supplyChange :: "transfer_log \<Rightarrow> int" where
  "supplyChange entry = (case (tl_from entry, tl_to entry, tl_value entry) of
     (Some from, Some to, Some amount) \<Rightarrow>
        if from = [] \<or> to = [] then 0
        else (if to \<noteq> ZERO_ADDRESS then amount else 0) - (if from \<noteq> ZERO_ADDRESS then amount else 0)
   | _ \<Rightarrow> 0)"

lemma credit_distinct: "distinct (map fst m) \<Longrightarrow> distinct (map fst (credit w a m))"
  by (simp add: credit_def distinct_mapSet)

lemma credit_sum:
  "distinct (map fst m) \<Longrightarrow> (\<Sum>e\<leftarrow>credit w a m. snd e) = (\<Sum>e\<leftarrow>m. snd e) + (if w \<noteq> ZERO_ADDRESS then a else 0)"
  using sum_mapSet [of m id w "(case map_of m w of Some b \<Rightarrow> b | None \<Rightarrow> 0) + a"]
  by (simp add: credit_def split: option.split)

lemma foldTransfer_sum:
  assumes "distinct (map fst m)"
  shows "distinct (map fst (foldTransfer m t)) \<and> (\<Sum>e\<leftarrow>foldTransfer m t. snd e) = (\<Sum>e\<leftarrow>m. snd e) + supplyChange t"
  using assms by (simp add: foldTransfer_def supplyChange_def credit_distinct credit_sum split: option.split)

lemma foldTransfers_sum:
  assumes "distinct (map fst m)"
  shows "(\<Sum>e\<leftarrow>foldl foldTransfer m ts. snd e) = (\<Sum>e\<leftarrow>m. snd e) + (\<Sum>t\<leftarrow>ts. supplyChange t)"
  using assms by (induction ts arbitrary: m) (simp_all add: foldTransfer_sum)

lemma sum_take_le: "\<forall>x\<in>set xs. 0 \<le> f x \<Longrightarrow> (\<Sum>x\<leftarrow>take n xs. f x) \<le> (\<Sum>x\<leftarrow>xs. (f x :: int))"
proof -
  assume nn: "\<forall>x\<in>set xs. 0 \<le> f x"
  have "(\<Sum>x\<leftarrow>xs. f x) = (\<Sum>x\<leftarrow>take n xs. f x) + (\<Sum>x\<leftarrow>drop n xs. f x)"
    by (metis append_take_drop_id map_append sum_list.append)
  moreover have "0 \<le> (\<Sum>x\<leftarrow>drop n xs. f x)" using nn by (intro sum_list_nonneg) (auto dest: in_set_dropD)
  ultimately show ?thesis by simp
qed

lemma sum_floor_le:
  assumes "0 < d" "\<forall>x\<in>set xs. 0 \<le> f x"
  shows "(\<Sum>x\<leftarrow>xs. f x * k div d) * d \<le> (\<Sum>x\<leftarrow>xs. (f x :: int)) * k"
  using assms
proof (induction xs)
  case (Cons x xs)
  have "f x * k div d * d \<le> f x * k" using floor_div_bounds(1) [OF assms(1)] .
  with Cons show ?case by (simp add: distrib_right)
qed simp

text \<open>C31. The holder snapshot folded from transfer logs conserves supply: the balances over all addresses sum to what
  was minted minus what was burned. The reported holders are those with a positive balance, at most ten are listed,
  in descending order of balance, and their shares sum to at most 10000 basis points.\<close>

theorem holders_snapshot:
  "(\<Sum>e\<leftarrow>foldl foldTransfer [] logs. snd e) = (\<Sum>t\<leftarrow>logs. supplyChange t)
   \<and> (holdersFromLogs logs = Some (n, tops) \<longrightarrow>
        n = length (filter (\<lambda>e. snd e > 0) (foldl foldTransfer [] logs)) \<and> length tops = min 10 n
        \<and> sorted_wrt (\<lambda>a b. hv_balance b \<le> hv_balance a) tops
        \<and> (\<forall>h\<in>set tops. 0 < hv_balance h) \<and> (\<Sum>h\<leftarrow>tops. hv_shareBps h) \<le> 10000)"
proof (intro conjI impI)
  show "(\<Sum>e\<leftarrow>foldl foldTransfer [] logs. snd e) = (\<Sum>t\<leftarrow>logs. supplyChange t)"
    using foldTransfers_sum [of "[]" logs] by simp
next
  assume h: "holdersFromLogs logs = Some (n, tops)"
  define hs where "hs = filter (\<lambda>e. snd e > 0) (foldl foldTransfer [] logs)"
  define ss where "ss = sort_key (\<lambda>e. - snd e) hs"
  define total where "total = (\<Sum>e\<leftarrow>hs. snd e)"
  have tops: "n = length hs" "tops = map (\<lambda>(a, b). \<lparr>hv_address = a, hv_balance = b,
      hv_shareBps = (if total > 0 then (b * 10000) sdiv total else 0)\<rparr>) (take 10 ss)"
    using h by (auto simp: holdersFromLogs_def Let_def hs_def ss_def total_def split: if_splits)
  show "n = length (filter (\<lambda>e. snd e > 0) (foldl foldTransfer [] logs))" using tops(1) by (simp add: hs_def)
  show "length tops = min 10 n" using tops by (simp add: ss_def min.commute)
  have pos: "\<forall>e\<in>set ss. 0 < snd e" by (simp add: ss_def hs_def)
  then show "\<forall>x\<in>set tops. 0 < hv_balance x" using tops(2) by (auto dest!: in_set_takeD)
  have "sorted (map (\<lambda>e. - snd e) ss)" by (simp add: ss_def)
  then have "sorted_wrt (\<lambda>a b. snd b \<le> snd a) (take 10 ss)"
    by (intro sorted_wrt_take) (simp add: sorted_map)
  then show "sorted_wrt (\<lambda>a b. hv_balance b \<le> hv_balance a) tops" unfolding tops(2) sorted_wrt_map by (simp add: case_prod_beta)
  show "(\<Sum>x\<leftarrow>tops. hv_shareBps x) \<le> 10000"
  proof (cases "total > 0")
    case True
    have nn: "\<forall>e\<in>set (take 10 ss). 0 \<le> snd e" using pos by (auto dest!: in_set_takeD intro: less_imp_le)
    have "(\<Sum>x\<leftarrow>tops. hv_shareBps x) = (\<Sum>e\<leftarrow>take 10 ss. snd e * 10000 div total)"
      unfolding tops(2) using True nn
      by (simp add: comp_def case_prod_beta, intro arg_cong [where f = sum_list] map_cong) (auto simp: sdiv_nonneg)
    moreover have "(\<Sum>e\<leftarrow>take 10 ss. snd e * 10000 div total) * total \<le> (\<Sum>e\<leftarrow>take 10 ss. snd e) * 10000"
      using True nn by (rule sum_floor_le)
    moreover have "(\<Sum>e\<leftarrow>take 10 ss. snd e) \<le> (\<Sum>e\<leftarrow>ss. snd e)" using pos by (intro sum_take_le) (auto intro: less_imp_le)
    moreover have "(\<Sum>e\<leftarrow>ss. snd e) = total"
    proof -
      have "mset (map snd ss) = mset (map snd hs)" by (simp add: ss_def)
      then show ?thesis unfolding total_def by (metis sum_mset_sum_list)
    qed
    ultimately have "(\<Sum>x\<leftarrow>tops. hv_shareBps x) * total \<le> 10000 * total" by simp
    with True show ?thesis by simp
  next
    case False
    then show ?thesis unfolding tops(2) by (simp add: comp_def case_prod_beta)
  qed
qed

theorem holders_snapshot_witness:
  "holdersFromLogs [\<lparr>tl_from = Some ZERO_ADDRESS, tl_to = Some ''0xa'', tl_value = Some 10\<rparr>]
     = Some (1, [\<lparr>hv_address = ''0xa'', hv_balance = 10, hv_shareBps = 10000\<rparr>])
   \<and> (\<Sum>h\<leftarrow>[\<lparr>hv_address = ''0xa'', hv_balance = 10, hv_shareBps = 10000\<rparr>]. hv_shareBps h) \<le> 10000"
proof -
  have h: "holdersFromLogs [\<lparr>tl_from = Some ZERO_ADDRESS, tl_to = Some ''0xa'', tl_value = Some 10\<rparr>]
     = Some (1, [\<lparr>hv_address = ''0xa'', hv_balance = 10, hv_shareBps = 10000\<rparr>])" by code_simp
  then show ?thesis using holders_snapshot [of "[\<lparr>tl_from = Some ZERO_ADDRESS, tl_to = Some ''0xa'', tl_value = Some 10\<rparr>]"] by blast
qed

text \<open>The indexed path divides by the ten rows it fetched and not by all holders: two tables with the same ten leading
  rows and different totals give the same shares, which sum to (nearly) 100 percent.\<close>

lemma indexed_shares_of_fetched_rows:
  "holdersIndexed [(''a'', 10), (''b'', 10)] 5000
   = Some (5000, [\<lparr>hv_address = ''a'', hv_balance = 10, hv_shareBps = 5000\<rparr>, \<lparr>hv_address = ''b'', hv_balance = 10, hv_shareBps = 5000\<rparr>])"
  by code_simp

section \<open>Quote coalescing\<close>

definition quoteInv :: "'v quote_state \<Rightarrow> bool" where
  "quoteInv st \<longleftrightarrow> distinct (map snd (qs_running st))
     \<and> (\<forall>key p. qs_inFlight st key = Some p \<longleftrightarrow> (p, key) \<in> set (qs_running st))
     \<and> (\<forall>(p, key)\<in>set (qs_running st). p < qs_next st)"

lemma startQuote_inv:
  assumes "quoteInv st" "qs_inFlight st key = None"
  shows "quoteInv (snd (startQuote key st))"
proof -
  have n: "(p, key) \<notin> set (qs_running st)" for p using assms unfolding quoteInv_def by (metis option.distinct(1))
  then have "key \<notin> snd ` set (qs_running st)" by auto
  then show ?thesis using assms n unfolding quoteInv_def startQuote_def by (auto simp: less_Suc_eq)
qed

lemma cachedQuote_inv: "quoteInv st \<Longrightarrow> quoteInv (snd (cachedQuote key now st))"
  using startQuote_inv [of st key] by (auto simp: cachedQuote_def split: option.split)

lemma settleQuote_inv:
  assumes "quoteInv st" "(p, key) \<in> set (qs_running st)"
  shows "quoteInv (settleQuote p key outcome now st)"
proof -
  have d: "distinct (map snd (qs_running st))" using assms(1) by (simp add: quoteInv_def)
  then have u: "p' = p" if "(p', key) \<in> set (qs_running st)" for p'
    using that assms(2) by (metis distinct_map inj_on_eq_iff prod.inject snd_conv)
  define rs where "rs = removeAll (p, key) (qs_running st)"
  have rs: "distinct (map snd rs)" "\<And>x. x \<in> set rs \<longleftrightarrow> x \<in> set (qs_running st) \<and> x \<noteq> (p, key)"
    using d by (auto simp: rs_def removeAll_filter_not_eq distinct_map_filter)
  have "((qs_inFlight st)(key := None)) k = Some p' \<longleftrightarrow> (p', k) \<in> set rs" for k p'
    using assms(1) u unfolding rs(2) quoteInv_def by (cases "k = key") auto
  moreover have "p' < qs_next st" if "(p', k) \<in> set rs" for p' k
    using that assms(1) unfolding rs(2) quoteInv_def by auto
  moreover have "qs_running (settleQuote p key outcome now st) = rs"
    "qs_inFlight (settleQuote p key outcome now st) = (qs_inFlight st)(key := None)"
    "qs_next (settleQuote p key outcome now st) = qs_next st"
    by (cases outcome; simp add: settleQuote_def rs_def Let_def)+
  ultimately show ?thesis using rs(1) unfolding quoteInv_def by auto
qed

lemma quoteReachable_inv: "quoteReachable st \<Longrightarrow> quoteInv st"
  by (induction rule: quoteReachable.induct)
    (simp_all add: cachedQuote_inv settleQuote_inv, simp add: quoteInv_def initQuotes_def)

text \<open>C32. Identical quote requests share one contract call: in every state the service can reach, no key has two
  computations under way; a request that finds its key neither fresh in the cache nor in flight starts one, any other
  request starts none, and once a computation settles with a value, every request for its key within the time to
  live is answered from the cache with that value.\<close>

theorem cachedQuote_coalesces:
  assumes "quoteReachable st"
  shows "(\<forall>p p' key. (p, key) \<in> set (qs_running st) \<longrightarrow> (p', key) \<in> set (qs_running st) \<longrightarrow> p = p')
    \<and> (case fst (cachedQuote key now st) of
         Started p \<Rightarrow> (\<forall>p'. (p', key) \<notin> set (qs_running st)) \<and> qs_running (snd (cachedQuote key now st)) = (p, key) # qs_running st
       | Joined p \<Rightarrow> (p, key) \<in> set (qs_running st) \<and> snd (cachedQuote key now st) = st
       | Cached v \<Rightarrow> snd (cachedQuote key now st) = st)
    \<and> ((p, key) \<in> set (qs_running st) \<and> t < now + QUOTE_TTL_MS \<longrightarrow>
         fst (cachedQuote key t (settleQuote p key (Inr v) now st)) = Cached v)"
proof (intro conjI impI allI)
  have inv: "quoteInv st" using assms by (rule quoteReachable_inv)
  fix p p' key assume "(p, key) \<in> set (qs_running st)" "(p', key) \<in> set (qs_running st)"
  with inv show "p = p'" unfolding quoteInv_def by (metis option.inject)
next
  have inv: "quoteInv st" using assms by (rule quoteReachable_inv)
  show "case fst (cachedQuote key now st) of
         Started p \<Rightarrow> (\<forall>p'. (p', key) \<notin> set (qs_running st)) \<and> qs_running (snd (cachedQuote key now st)) = (p, key) # qs_running st
       | Joined p \<Rightarrow> (p, key) \<in> set (qs_running st) \<and> snd (cachedQuote key now st) = st
       | Cached v \<Rightarrow> snd (cachedQuote key now st) = st"
  proof -
    have "(\<forall>p. qs_inFlight st key = Some p \<longrightarrow> (p, key) \<in> set (qs_running st))
      \<and> (qs_inFlight st key = None \<longrightarrow> (\<forall>p'. (p', key) \<notin> set (qs_running st)))"
      using inv unfolding quoteInv_def by (metis option.distinct(1))
    then show ?thesis
      by (cases "qs_cache st key"; cases "qs_inFlight st key") (auto simp: cachedQuote_def startQuote_def)
  qed
next
  assume "(p, key) \<in> set (qs_running st) \<and> t < now + QUOTE_TTL_MS"
  then show "fst (cachedQuote key t (settleQuote p key (Inr v) now st)) = Cached v"
    by (simp add: cachedQuote_def settleQuote_def Let_def)
qed

theorem cachedQuote_coalesces_witness:
  "fst (cachedQuote ''k'' 1499 (settleQuote 0 ''k'' (Inr (7::int)) 0 (snd (cachedQuote ''k'' 0 initQuotes)))) = Cached 7"
proof -
  have "quoteReachable (snd (cachedQuote ''k'' 0 initQuotes))" by (intro quoteReachable.intros)
  from cachedQuote_coalesces [OF this, of "''k''" 0 0 1499 7] show ?thesis
    by (simp add: QUOTE_TTL_MS_def) (simp add: cachedQuote_def startQuote_def initQuotes_def)
qed

end
