(* ===== verification/Candles.thy ===== *)
theory Candles
  imports Ledger
begin

text \<open>
  The candle read of \<open>src/src/modules/tokens/token-query.service.ts\<close>: minute rows are grouped into buckets, empty buckets
  repeat the previous close, and the result is presented in ETH per token. Numeric columns are integers, \<open>None\<close> for
  \<open>NULL\<close>, which the helper \<open>s\<close> prints as \<open>'0'\<close>; times are milliseconds, and \<open>None\<close> is a date that does not parse. The keys of
  the buckets are minutes.
\<close>

section \<open>Rows\<close>

record minute_row =
  mr_chainId :: int
  mr_poolId :: string
  mr_t :: "int option"
  mr_open :: "int option"
  mr_close :: "int option"
  mr_high :: "int option"
  mr_low :: "int option"
  mr_buy :: "int option"
  mr_sell :: "int option"
  mr_swaps :: "int option"

definition numCol :: "int option \<Rightarrow> int" where
  "numCol v = (case v of None \<Rightarrow> 0 | Some n \<Rightarrow> n)"

record MinuteRow =
  mn_minute :: int
  mn_open :: int
  mn_close :: int
  mn_high :: int
  mn_low :: int
  mn_buy :: int
  mn_sell :: int
  mn_swaps :: int

record candle =
  cd_t :: int
  cd_open :: int
  cd_close :: int
  cd_high :: int
  cd_low :: int
  cd_buy :: int
  cd_sell :: int
  cd_swaps :: int

section \<open>Joining\<close>

definition parseMinute :: "minute_row \<Rightarrow> MinuteRow option" where
  "parseMinute row = (case mr_t row of
     None \<Rightarrow> None
   | Some t \<Rightarrow>
       let op = numCol (mr_open row); cl = numCol (mr_close row) in
       if op = 0 \<and> cl = 0 then None
       else Some \<lparr>mn_minute = t, mn_open = op, mn_close = cl, mn_high = numCol (mr_high row), mn_low = numCol (mr_low row),
              mn_buy = numCol (mr_buy row), mn_sell = numCol (mr_sell row), mn_swaps = numCol (mr_swaps row)\<rparr>)"

definition parseMinutes :: "minute_row list \<Rightarrow> MinuteRow list" where
  "parseMinutes minutes = sort_key mn_minute (List.map_filter parseMinute minutes)"

definition bucketOf :: "int \<Rightarrow> int \<Rightarrow> int" where
  "bucketOf bucketSize t = (t div (bucketSize * 60000)) * bucketSize"

definition pushBucket :: "int \<Rightarrow> (int \<times> MinuteRow list) list \<Rightarrow> MinuteRow \<Rightarrow> (int \<times> MinuteRow list) list" where
  "pushBucket bucketSize buckets row =
     (let key = bucketOf bucketSize (mn_minute row) in
      case map_of buckets key of
        Some rows \<Rightarrow> mapSet key (rows @ [row]) buckets
      | None \<Rightarrow> mapSet key [row] buckets)"

definition bucketize :: "int \<Rightarrow> MinuteRow list \<Rightarrow> (int \<times> MinuteRow list) list" where
  "bucketize bucketSize parsed = foldl (pushBucket bucketSize) [] parsed"

definition bucketCandle :: "int \<Rightarrow> int option \<Rightarrow> MinuteRow list \<Rightarrow> candle" where
  "bucketCandle key prevClose rowsIn =
     (let high = foldl (\<lambda>h r. if h < mn_high r then mn_high r else h) (mn_high (hd rowsIn)) rowsIn;
          low = foldl (\<lambda>l r. if l > mn_low r then mn_low r else l) (mn_low (hd rowsIn)) rowsIn;
          op = (case prevClose of Some c \<Rightarrow> c | None \<Rightarrow> mn_open (hd rowsIn))
      in \<lparr>cd_t = key * 60000, cd_open = op, cd_close = mn_close (last rowsIn),
          cd_high = (if high < op then op else high), cd_low = (if low > op then op else low),
          cd_buy = foldl (\<lambda>a r. a + mn_buy r) 0 rowsIn, cd_sell = foldl (\<lambda>a r. a + mn_sell r) 0 rowsIn,
          cd_swaps = foldl (\<lambda>a r. a + mn_swaps r) 0 rowsIn\<rparr>)"

definition flatCandle :: "int \<Rightarrow> int \<Rightarrow> candle" where
  "flatCandle key c = \<lparr>cd_t = key * 60000, cd_open = c, cd_close = c, cd_high = c, cd_low = c, cd_buy = 0, cd_sell = 0, cd_swaps = 0\<rparr>"

text \<open>The loop \<open>for (key = startKey; key <= last; key += bucketSize)\<close>; the interval table makes \<open>bucketSize\<close> positive.\<close>

function candleLoop :: "(int \<times> MinuteRow list) list \<Rightarrow> int \<Rightarrow> int \<Rightarrow> int \<Rightarrow> int option \<Rightarrow> candle list \<Rightarrow> candle list" where
  "candleLoop buckets bucketSize lastKey key prevClose out =
     (if bucketSize \<le> 0 \<or> key > lastKey then out
      else case map_of buckets key of
        Some (r # rs) \<Rightarrow>
          candleLoop buckets bucketSize lastKey (key + bucketSize) (Some (mn_close (last (r # rs))))
            (out @ [bucketCandle key prevClose (r # rs)])
      | _ \<Rightarrow> (case prevClose of
            Some c \<Rightarrow> candleLoop buckets bucketSize lastKey (key + bucketSize) prevClose (out @ [flatCandle key c])
          | None \<Rightarrow> candleLoop buckets bucketSize lastKey (key + bucketSize) prevClose out))"
  by pat_completeness auto
termination
  by (relation "measure (\<lambda>(_, b, l, k, _). nat (l - k + 1))") auto

declare candleLoop.simps [simp del]

definition fillJoinedCandles :: "minute_row list \<Rightarrow> int \<Rightarrow> int \<Rightarrow> candle list" where
  "fillJoinedCandles minutes bucketSize limit =
     (let parsed = parseMinutes minutes in
      if parsed = [] then []
      else
        let buckets = bucketize bucketSize parsed;
            keys = sort (map fst buckets);
            first = hd keys;
            lastKey = last keys;
            maxBuckets = max limit 1;
            startKey = max first (lastKey - (maxBuckets - 1) * bucketSize);
            before = filter (\<lambda>k. k < startKey) keys;
            seed = (if before = [] then None
                    else map_option (\<lambda>rows. mn_close (last rows)) (map_of buckets (last before)));
            out = candleLoop buckets bucketSize lastKey startKey seed []
        in drop (length out - nat maxBuckets) out)"

section \<open>Presentation and the read\<close>

record candle_view =
  cv_time :: int
  cv_openEth :: "string option"
  cv_closeEth :: "string option"
  cv_highEth :: "string option"
  cv_lowEth :: "string option"
  cv_openSqrtX96 :: string
  cv_highSqrtX96 :: string
  cv_lowSqrtX96 :: string
  cv_closeSqrtX96 :: string
  cv_buyVolumeEth :: string
  cv_sellVolumeEth :: string
  cv_swapCount :: string

definition ethOrNull :: "int \<Rightarrow> string option" where
  "ethOrNull v = (if v > 0 then sqrtToEthString v else None)"

definition candlePresenter :: "candle \<Rightarrow> candle_view" where
  "candlePresenter row =
     \<lparr>cv_time = cd_t row, cv_openEth = ethOrNull (cd_open row), cv_closeEth = ethOrNull (cd_close row),
      cv_highEth = ethOrNull (cd_low row), cv_lowEth = ethOrNull (cd_high row),
      cv_openSqrtX96 = toString (cd_open row), cv_highSqrtX96 = toString (cd_high row),
      cv_lowSqrtX96 = toString (cd_low row), cv_closeSqrtX96 = toString (cd_close row),
      cv_buyVolumeEth = toString (cd_buy row), cv_sellVolumeEth = toString (cd_sell row),
      cv_swapCount = toString (cd_swaps row)\<rparr>"

datatype interval = M1 | M5 | M15 | H1 | H4 | D1

definition bucketMinutes :: "interval \<Rightarrow> int" where
  "bucketMinutes i = (case i of M1 \<Rightarrow> 1 | M5 \<Rightarrow> 5 | M15 \<Rightarrow> 15 | H1 \<Rightarrow> 60 | H4 \<Rightarrow> 240 | D1 \<Rightarrow> 1440)"

record candle_query =
  kq_chainId :: int
  kq_interval :: interval
  kq_from :: "int option"
  kq_to :: "int option"
  kq_limit :: int

text \<open>The query over \<open>pool_minute_stats\<close>: the pool's rows in the half-open time range, newest first, at most \<open>rawLimit\<close>.\<close>

definition minuteQuery :: "minute_row list \<Rightarrow> int \<Rightarrow> string \<Rightarrow> int option \<Rightarrow> int option \<Rightarrow> int \<Rightarrow> minute_row list" where
  "minuteQuery tbl chainId poolId lo hi rawLimit =
     take (nat rawLimit) (sort_key (\<lambda>r. - numCol (mr_t r)) (filter (\<lambda>r. mr_chainId r = chainId \<and> mr_poolId r = poolId
        \<and> (case lo of None \<Rightarrow> True | Some f \<Rightarrow> f \<le> numCol (mr_t r)) \<and> (case hi of None \<Rightarrow> True | Some t \<Rightarrow> numCol (mr_t r) < t)) tbl))"

definition candles :: "pool result \<Rightarrow> minute_row list \<Rightarrow> candle_query \<Rightarrow> candle_view list result" where
  "candles found tbl query =
     (let bad = (case (kq_from query, kq_to query) of (Some f, Some t) \<Rightarrow> f \<ge> t | _ \<Rightarrow> False) in
      if bad then Inl (DomainException 400 ''INVALID_CANDLE_RANGE'')
      else bindR found (\<lambda>pool.
        let bucketSize = bucketMinutes (kq_interval query);
            rawLimit = min (max (kq_limit query * bucketSize) (kq_limit query)) 20000;
            minutes = minuteQuery tbl (kq_chainId query) (pl_poolId pool) (kq_from query) (kq_to query) rawLimit
        in Inr (map candlePresenter (rev (fillJoinedCandles minutes bucketSize (kq_limit query))))))"

section \<open>Lemmas\<close>

lemma mapSet_keys_order: "map fst (mapSet k v m) = (if k \<in> fst ` set m then map fst m else map fst m @ [k])"
  by (induction m) auto

lemma bucketize_snoc: "bucketize b (rows @ [r]) = pushBucket b (bucketize b rows) r"
  by (simp add: bucketize_def)

lemma bucketize_lookup:
  "map_of (bucketize b rows) k =
    (let f = filter (\<lambda>r. bucketOf b (mn_minute r) = k) rows in if f = [] then None else Some f)"
proof (induction rows rule: rev_induct)
  case Nil
  then show ?case by (simp add: bucketize_def)
next
  case (snoc r rows)
  then show ?case by (auto simp: bucketize_snoc pushBucket_def Let_def split: option.splits if_splits)
qed

lemma bucketize_keys: "set (map fst (bucketize b rows)) = (\<lambda>r. bucketOf b (mn_minute r)) ` set rows"
proof (induction rows rule: rev_induct)
  case Nil
  then show ?case by (simp add: bucketize_def)
next
  case (snoc r rows)
  then show ?case by (auto simp: bucketize_snoc pushBucket_def Let_def split: option.splits)
qed

lemma bucketOf_dvd: "b dvd bucketOf b t"
  by (simp add: bucketOf_def)

lemma bucketOf_mono: "0 < b \<Longrightarrow> s \<le> t \<Longrightarrow> bucketOf b s \<le> bucketOf b t"
  by (simp add: bucketOf_def mult_right_mono zdiv_mono1)

text \<open>A run of candles from a bucket: consecutive times, each opening at the previous close.\<close>

fun chained :: "int \<Rightarrow> int \<Rightarrow> int option \<Rightarrow> candle list \<Rightarrow> bool" where
  "chained b key prev [] = True"
| "chained b key prev (c # cs) = (cd_t c = key * 60000 \<and> (case prev of None \<Rightarrow> True | Some p \<Rightarrow> cd_open c = p)
     \<and> chained b (key + b) (Some (cd_close c)) cs)"

lemma chained_nth:
  "chained b key prev cs \<Longrightarrow> Suc i < length cs \<Longrightarrow>
    cd_open (cs ! Suc i) = cd_close (cs ! i) \<and> cd_t (cs ! Suc i) = cd_t (cs ! i) + b * 60000"
proof (induction cs arbitrary: i key prev)
  case (Cons c cs)
  show ?case
  proof (cases i)
    case 0
    then show ?thesis using Cons.prems by (cases cs) (auto simp: algebra_simps)
  next
    case (Suc j)
    then show ?thesis using Cons.IH [of "key + b" "Some (cd_close c)" j] Cons.prems by simp
  qed
qed simp

lemma chained_last_time: "chained b key prev cs \<Longrightarrow> cs \<noteq> [] \<Longrightarrow> cd_t (last cs) = (key + int (length cs - 1) * b) * 60000"
proof (induction cs arbitrary: key prev)
  case (Cons c cs)
  show ?case
  proof (cases "cs = []")
    case False
    then have "cd_t (last cs) = (key + b + int (length cs - 1) * b) * 60000"
      using Cons.IH [of "key + b" "Some (cd_close c)"] Cons.prems by simp
    then show ?thesis using False by (cases cs) (auto simp: algebra_simps)
  qed (use Cons.prems in simp)
qed simp

text \<open>The loop without its accumulator: one candle per bucket from \<open>key\<close> on.\<close>

primrec candlesFrom :: "(int \<Rightarrow> MinuteRow list) \<Rightarrow> int \<Rightarrow> nat \<Rightarrow> int \<Rightarrow> int option \<Rightarrow> candle list" where
  "candlesFrom rowsAt b 0 key prev = []"
| "candlesFrom rowsAt b (Suc n) key prev =
     (if rowsAt key \<noteq> [] then bucketCandle key prev (rowsAt key) # candlesFrom rowsAt b n (key + b) (Some (mn_close (last (rowsAt key))))
      else case prev of Some c \<Rightarrow> flatCandle key c # candlesFrom rowsAt b n (key + b) prev
        | None \<Rightarrow> candlesFrom rowsAt b n (key + b) prev)"

definition rowsOf :: "int \<Rightarrow> MinuteRow list \<Rightarrow> int \<Rightarrow> MinuteRow list" where
  "rowsOf b rows k = filter (\<lambda>r. bucketOf b (mn_minute r) = k) rows"

lemma candleLoop_from:
  assumes "0 < b" "key + (int n - 1) * b \<le> lastKey" "lastKey < key + int n * b"
  shows "candleLoop (bucketize b rows) b lastKey key prev out = out @ candlesFrom (rowsOf b rows) b n key prev"
  using assms(2,3)
proof (induction n arbitrary: key prev out)
  case 0
  then show ?case by (simp add: candleLoop.simps)
next
  case (Suc n)
  have k: "key \<le> lastKey"
  proof -
    have "0 \<le> int n * b" using assms(1) by simp
    then show ?thesis using Suc.prems(1) by simp
  qed
  have step: "key + b + (int n - 1) * b \<le> lastKey" "lastKey < key + b + int n * b"
    using Suc.prems by (simp_all add: algebra_simps)
  note IH = Suc.IH [OF step]
  have l: "map_of (bucketize b rows) key = (if rowsOf b rows key = [] then None else Some (rowsOf b rows key))"
    by (simp add: bucketize_lookup rowsOf_def Let_def)
  show ?case
  proof (cases "rowsOf b rows key")
    case Nil
    then show ?thesis using k assms(1) l IH by (subst candleLoop.simps) (simp split: option.split)
  next
    case (Cons r rs)
    then show ?thesis using k assms(1) l IH by (subst candleLoop.simps) simp
  qed
qed

lemma candlesFrom_chained:
  assumes "prev \<noteq> None \<or> rowsAt key \<noteq> []"
  shows "chained b key prev (candlesFrom rowsAt b n key prev) \<and> length (candlesFrom rowsAt b n key prev) = n"
  using assms
proof (induction n arbitrary: key prev)
  case (Suc n)
  show ?case
  proof (cases "rowsAt key = []")
    case True
    then obtain c where "prev = Some c" using Suc.prems by auto
    then show ?thesis using True Suc.IH [of prev "key + b"] by (simp add: flatCandle_def)
  next
    case False
    then show ?thesis using Suc.IH [of "Some (mn_close (last (rowsAt key)))" "key + b"]
      by (auto simp: bucketCandle_def Let_def split: option.split)
  qed
qed simp

lemma candlesFrom_close:
  assumes "prev \<noteq> None \<or> rowsAt key \<noteq> []" "rowsAt (key + int n * b) \<noteq> []"
  shows "cd_close (last (candlesFrom rowsAt b (Suc n) key prev)) = mn_close (last (rowsAt (key + int n * b)))"
  using assms
proof (induction n arbitrary: key prev)
  case 0
  then show ?case by (simp add: bucketCandle_def Let_def)
next
  case (Suc n)
  have e: "key + int (Suc n) * b = key + b + int n * b" by (simp add: algebra_simps)
  define p where "p = (if rowsAt key = [] then prev else Some (mn_close (last (rowsAt key))))"
  have p: "p \<noteq> None" using Suc.prems(1) by (auto simp: p_def)
  have "length (candlesFrom rowsAt b (Suc n) (key + b) p) = Suc n" using candlesFrom_chained p by blast
  then have ne: "candlesFrom rowsAt b (Suc n) (key + b) p \<noteq> []" by (metis length_0_conv nat.distinct(1))
  have "candlesFrom rowsAt b (Suc (Suc n)) key prev = hd (candlesFrom rowsAt b (Suc (Suc n)) key prev) # candlesFrom rowsAt b (Suc n) (key + b) p"
    using Suc.prems(1) by (subst candlesFrom.simps(2), subst (2) candlesFrom.simps(2)) (auto simp: p_def split: option.split)
  then have "last (candlesFrom rowsAt b (Suc (Suc n)) key prev) = last (candlesFrom rowsAt b (Suc n) (key + b) p)"
    using ne by (metis last_ConsR)
  then show ?case using Suc.IH [of p "key + b"] p Suc.prems(2) unfolding e by simp
qed

lemma last_filter: "xs \<noteq> [] \<Longrightarrow> Q (last xs) \<Longrightarrow> last (filter Q xs) = last xs"
  by (induction xs rule: rev_induct) simp_all

lemma sorted_hd_last:
  assumes "sorted xs" "x \<in> set xs" shows "hd xs \<le> x \<and> x \<le> last xs"
  using assms
proof (induction xs)
  case (Cons a xs)
  show ?case
  proof (cases "xs = []")
    case False
    have "\<forall>y\<in>set xs. a \<le> y" "last xs \<in> set xs" using Cons.prems(1) False by simp_all
    then show ?thesis using Cons False by auto
  qed (use Cons.prems in simp)
qed simp

lemma sorted_ends_unique:
  fixes xs :: "int list"
  assumes "xs \<noteq> []" "m \<in> set xs" "\<forall>x\<in>set xs. x \<le> m"
  shows "last (sort xs) = m"
proof (rule antisym)
  have "sort xs \<noteq> []" using assms(1) by (metis set_empty set_sort)
  then have "last (sort xs) \<in> set xs" using last_in_set [of "sort xs"] by simp
  then show "last (sort xs) \<le> m" using assms(3) by blast
  show "m \<le> last (sort xs)" using sorted_hd_last [of "sort xs" m] assms(2) by simp
qed

lemma sorted_first_unique:
  fixes xs :: "int list"
  assumes "xs \<noteq> []" "m \<in> set xs" "\<forall>x\<in>set xs. m \<le> x"
  shows "hd (sort xs) = m"
proof (rule antisym)
  have "sort xs \<noteq> []" using assms(1) by (metis set_empty set_sort)
  then have "hd (sort xs) \<in> set xs" using hd_in_set [of "sort xs"] by simp
  then show "m \<le> hd (sort xs)" using assms(3) by blast
  show "hd (sort xs) \<le> m" using sorted_hd_last [of "sort xs" m] assms(2) by simp
qed

lemma parseMinutes_sorted: "sorted (map mn_minute (parseMinutes minutes))"
  by (simp add: parseMinutes_def)

lemma bucket_ends:
  assumes b: "0 < b" and p: "sorted (map mn_minute P)" "P \<noteq> []"
  shows "last (sort (map fst (bucketize b P))) = bucketOf b (mn_minute (last P))"
    and "hd (sort (map fst (bucketize b P))) = bucketOf b (mn_minute (hd P))"
proof -
  let ?ks = "map fst (bucketize b P)"
  have s: "set ?ks = (\<lambda>r. bucketOf b (mn_minute r)) ` set P" by (rule bucketize_keys)
  then have ne: "?ks \<noteq> []" using p(2) by (metis image_is_empty set_empty)
  have ord: "mn_minute (hd P) \<le> mn_minute r \<and> mn_minute r \<le> mn_minute (last P)" if "r \<in> set P" for r
    using sorted_hd_last [OF p(1), of "mn_minute r"] that p(2) by (simp add: hd_map last_map)
  show "last (sort ?ks) = bucketOf b (mn_minute (last P))"
    using ord p(2) bucketOf_mono [OF b] unfolding s by (intro sorted_ends_unique [OF ne]) (auto simp: s simp del: set_map)
  show "hd (sort ?ks) = bucketOf b (mn_minute (hd P))"
    using ord p(2) bucketOf_mono [OF b] unfolding s by (intro sorted_first_unique [OF ne]) (auto simp: s simp del: set_map)
qed

text \<open>The window of buckets that \<open>fillJoinedCandles\<close> walks.\<close>

definition windowStart :: "int \<Rightarrow> int \<Rightarrow> MinuteRow list \<Rightarrow> int" where
  "windowStart b limit P = max (bucketOf b (mn_minute (hd P))) (bucketOf b (mn_minute (last P)) - (max limit 1 - 1) * b)"

definition windowSteps :: "int \<Rightarrow> int \<Rightarrow> MinuteRow list \<Rightarrow> nat" where
  "windowSteps b limit P = nat ((bucketOf b (mn_minute (last P)) - windowStart b limit P) div b)"

lemma window_facts:
  assumes b: "0 < b" and p: "sorted (map mn_minute P)" "P \<noteq> []"
  shows "b dvd windowStart b limit P"
    and "windowStart b limit P + int (windowSteps b limit P) * b = bucketOf b (mn_minute (last P))"
    and "int (windowSteps b limit P) + 1 \<le> max limit 1"
proof -
  let ?l = "bucketOf b (mn_minute (last P))" and ?f = "bucketOf b (mn_minute (hd P))" and ?s = "windowStart b limit P"
  have d: "b dvd ?l" "b dvd ?f" by (simp_all add: bucketOf_dvd)
  show s: "b dvd ?s" using d by (simp add: windowStart_def max_def)
  have fl: "?f \<le> ?l" using bucketOf_mono [OF b] sorted_hd_last [OF p(1), of "mn_minute (last P)"] p(2) by (simp add: hd_map last_map)
  have "0 \<le> (max limit 1 - 1) * b" using b by simp
  then have sl: "?s \<le> ?l" using fl by (simp add: windowStart_def)
  obtain q where q: "?l - ?s = b * q" using d(1) s dvd_diff by (meson dvdE)
  then have q0: "0 \<le> q" using sl b by (metis diff_ge_0_iff_ge zero_le_mult_iff not_less)
  have n: "int (windowSteps b limit P) = q" using q b q0 by (simp add: windowSteps_def)
  then show "?s + int (windowSteps b limit P) * b = ?l" using q by (simp add: mult.commute)
  have "?l - ?s \<le> (max limit 1 - 1) * b" by (simp add: windowStart_def)
  then have "b * q \<le> b * (max limit 1 - 1)" using q by (simp add: mult.commute)
  then have "q \<le> max limit 1 - 1" using b by simp
  then show "int (windowSteps b limit P) + 1 \<le> max limit 1" using n by simp
qed

lemma fillJoinedCandles_from:
  assumes b: "0 < b" and ne: "parseMinutes minutes \<noteq> []"
  defines "P \<equiv> parseMinutes minutes"
  obtains seed where "fillJoinedCandles minutes b limit
      = candlesFrom (rowsOf b P) b (Suc (windowSteps b limit P)) (windowStart b limit P) seed"
    "seed \<noteq> None \<or> rowsOf b P (windowStart b limit P) \<noteq> []"
    "seed = None \<longrightarrow> windowStart b limit P = bucketOf b (mn_minute (hd P))"
    "\<forall>c. seed = Some c \<longrightarrow> (\<exists>r\<in>set P. mn_close r = c)"
proof -
  have P: "sorted (map mn_minute P)" "P \<noteq> []" using ne parseMinutes_sorted by (simp_all add: P_def)
  note e = bucket_ends [OF b P] and w = window_facts [OF b P, of limit]
  let ?s = "windowStart b limit P" and ?l = "bucketOf b (mn_minute (last P))" and ?n = "windowSteps b limit P"
  let ?keys = "sort (map fst (bucketize b P))"
  define before where "before = filter (\<lambda>k. k < ?s) ?keys"
  define seed where "seed = (if before = [] then None else map_option (\<lambda>rows. mn_close (last rows)) (map_of (bucketize b P) (last before)))"
  have loop: "candleLoop (bucketize b P) b ?l ?s seed [] = candlesFrom (rowsOf b P) b (Suc ?n) ?s seed"
    using candleLoop_from [OF b, of ?s "Suc ?n" ?l P seed "[]"] w(2) b by (simp add: algebra_simps)
  have keys: "set ?keys = (\<lambda>r. bucketOf b (mn_minute r)) ` set P" using bucketize_keys [of b P] by simp
  have at: "map_of (bucketize b P) k = (if rowsOf b P k = [] then None else Some (rowsOf b P k))" for k
    by (simp add: bucketize_lookup rowsOf_def Let_def)
  have some: "seed \<noteq> None \<and> (\<forall>c. seed = Some c \<longrightarrow> (\<exists>r\<in>set P. mn_close r = c))" if "before \<noteq> []"
  proof -
    have "last before \<in> set ?keys" using that last_in_set [OF that] by (auto simp: before_def)
    then have r: "rowsOf b P (last before) \<noteq> []" using keys by (auto simp: rowsOf_def filter_empty_conv)
    then have "last (rowsOf b P (last before)) \<in> set P" using last_in_set [OF r] by (auto simp: rowsOf_def)
    then show ?thesis using that r at by (auto simp: seed_def)
  qed
  have nil: "?s = bucketOf b (mn_minute (hd P)) \<and> rowsOf b P ?s \<noteq> []" if "before = []"
  proof -
    have h: "bucketOf b (mn_minute (hd P)) \<in> set ?keys" using keys P(2) by simp
    have "\<not> bucketOf b (mn_minute (hd P)) < ?s" using that h by (auto simp: before_def filter_empty_conv simp del: set_sort)
    moreover have "bucketOf b (mn_minute (hd P)) \<le> ?s" by (simp add: windowStart_def)
    ultimately have "?s = bucketOf b (mn_minute (hd P))" by linarith
    then show ?thesis using P(2) hd_in_set [OF P(2)] by (force simp: rowsOf_def filter_empty_conv)
  qed
  have len: "length (candlesFrom (rowsOf b P) b (Suc ?n) ?s seed) = Suc ?n"
    using candlesFrom_chained [of seed "rowsOf b P" ?s b "Suc ?n"] some nil by (cases "before = []") auto
  have "fillJoinedCandles minutes b limit = candlesFrom (rowsOf b P) b (Suc ?n) ?s seed"
  proof -
    have "fillJoinedCandles minutes b limit
        = (let out = candlesFrom (rowsOf b P) b (Suc ?n) ?s seed in drop (length out - nat (max limit 1)) out)"
      using P(2) unfolding fillJoinedCandles_def P_def [symmetric] Let_def e windowStart_def [symmetric]
        before_def [symmetric] seed_def [symmetric] loop by simp
    then show ?thesis using len w(3) by (simp add: Let_def del: candlesFrom.simps)
  qed
  then show thesis using that some nil by (cases "before = []") (auto simp: seed_def)
qed

lemma foldl_add_sum: "foldl (\<lambda>a r. a + f r) (s::int) rows = s + (\<Sum>r\<leftarrow>rows. f r)"
  by (induction rows arbitrary: s) simp_all

lemma bucketCandle_volume:
  "cd_buy (bucketCandle key prev rows) = (\<Sum>r\<leftarrow>rows. mn_buy r)"
  "cd_sell (bucketCandle key prev rows) = (\<Sum>r\<leftarrow>rows. mn_sell r)"
  "cd_swaps (bucketCandle key prev rows) = (\<Sum>r\<leftarrow>rows. mn_swaps r)"
  by (simp_all add: bucketCandle_def Let_def foldl_add_sum)

lemma candlesFrom_volume:
  assumes b: "0 < b" and key: "b dvd key" and last: "\<forall>r\<in>set P. bucketOf b (mn_minute r) < key + int n * b"
    and start: "prev \<noteq> None \<or> rowsOf b P key \<noteq> []"
    and vol: "\<And>key prev rows. F (bucketCandle key prev rows) = (\<Sum>r\<leftarrow>rows. G r)" "\<And>key c. F (flatCandle key c) = (0::int)"
  shows "(\<Sum>c\<leftarrow>candlesFrom (rowsOf b P) b n key prev. F c) = (\<Sum>r\<leftarrow>filter (\<lambda>r. key \<le> bucketOf b (mn_minute r)) P. G r)"
  using key last start
proof (induction n arbitrary: key prev)
  case 0
  then have "filter (\<lambda>r. key \<le> bucketOf b (mn_minute r)) P = []" by (force simp: filter_empty_conv)
  then show ?case by simp
next
  case (Suc n)
  have "bucketOf b (mn_minute r) = key \<or> key + b \<le> bucketOf b (mn_minute r)" if "key \<le> bucketOf b (mn_minute r)" for r
  proof -
    obtain q where q: "bucketOf b (mn_minute r) - key = b * q" using Suc.prems(1) bucketOf_dvd dvd_diff by (meson dvdE)
    then have "0 \<le> b * q" using that by linarith
    then have "q = 0 \<or> 1 \<le> q" using b by (simp add: zero_le_mult_iff) linarith
    moreover have "1 \<le> q \<Longrightarrow> b \<le> b * q" using b by simp
    ultimately show ?thesis using q by auto
  qed
  then have f: "key \<le> bucketOf b (mn_minute r) \<longleftrightarrow> bucketOf b (mn_minute r) = key \<or> key + b \<le> bucketOf b (mn_minute r)" for r
    using b by force
  have split: "(\<Sum>r\<leftarrow>filter (\<lambda>r. key \<le> bucketOf b (mn_minute r)) P. G r)
      = (\<Sum>r\<leftarrow>rowsOf b P key. G r) + (\<Sum>r\<leftarrow>filter (\<lambda>r. key + b \<le> bucketOf b (mn_minute r)) P. G r)"
    unfolding rowsOf_def f using b by (induction P) auto
  have IH: "(\<Sum>c\<leftarrow>candlesFrom (rowsOf b P) b n (key + b) p. F c) = (\<Sum>r\<leftarrow>filter (\<lambda>r. key + b \<le> bucketOf b (mn_minute r)) P. G r)"
    if "p \<noteq> None" for p
    using Suc.IH [of "key + b" p] Suc.prems(1,2) that by (simp add: algebra_simps)
  show ?case
  proof (cases "rowsOf b P key = []")
    case True
    then obtain c where "prev = Some c" using Suc.prems(3) by auto
    then show ?thesis using True IH [of prev] split vol by simp
  next
    case False
    then show ?thesis using IH split vol by simp
  qed
qed

text \<open>Minute rows whose extremes enclose their open and close.\<close>

definition saneRow :: "MinuteRow \<Rightarrow> bool" where
  "saneRow r \<longleftrightarrow> mn_low r \<le> mn_open r \<and> mn_open r \<le> mn_high r \<and> mn_low r \<le> mn_close r \<and> mn_close r \<le> mn_high r"

lemma foldl_high:
  fixes f :: "'r \<Rightarrow> int"
  shows "h \<le> foldl (\<lambda>h r. if h < f r then f r else h) h rows \<and> (\<forall>r\<in>set rows. f r \<le> foldl (\<lambda>h r. if h < f r then f r else h) h rows)"
proof -
  have m: "(\<lambda>h r. if h < f r then f r else h) = (\<lambda>h r. max h (f r))" by (auto simp: fun_eq_iff)
  have "h \<le> foldl (\<lambda>h r. max h (f r)) h rows \<and> (\<forall>r\<in>set rows. f r \<le> foldl (\<lambda>h r. max h (f r)) h rows)"
  proof (induction rows arbitrary: h)
    case (Cons r rows)
    show ?case using Cons.IH [of "max h (f r)"] by simp
  qed simp
  then show ?thesis unfolding m .
qed

lemma foldl_low:
  fixes f :: "'r \<Rightarrow> int"
  shows "foldl (\<lambda>h r. if h > f r then f r else h) h rows \<le> h \<and> (\<forall>r\<in>set rows. foldl (\<lambda>h r. if h > f r then f r else h) h rows \<le> f r)"
proof -
  have m: "(\<lambda>h r. if h > f r then f r else h) = (\<lambda>h r. min h (f r))" by (auto simp: fun_eq_iff)
  have "foldl (\<lambda>h r. min h (f r)) h rows \<le> h \<and> (\<forall>r\<in>set rows. foldl (\<lambda>h r. min h (f r)) h rows \<le> f r)"
  proof (induction rows arbitrary: h)
    case (Cons r rows)
    show ?case using Cons.IH [of "min h (f r)"] by simp
  qed simp
  then show ?thesis unfolding m .
qed

definition soundCandle :: "candle \<Rightarrow> bool" where
  "soundCandle c \<longleftrightarrow> cd_low c \<le> cd_open c \<and> cd_open c \<le> cd_high c \<and> cd_low c \<le> cd_close c \<and> cd_close c \<le> cd_high c"

lemma bucketCandle_sound:
  assumes "rows \<noteq> []" "\<forall>r\<in>set rows. saneRow r"
  shows "soundCandle (bucketCandle key prev rows)"
proof -
  define hi where "hi = foldl (\<lambda>h r. if h < mn_high r then mn_high r else h) (mn_high (hd rows)) rows"
  define lo where "lo = foldl (\<lambda>h r. if h > mn_low r then mn_low r else h) (mn_low (hd rows)) rows"
  have hi: "\<forall>r\<in>set rows. mn_high r \<le> hi" and lo: "\<forall>r\<in>set rows. lo \<le> mn_low r"
    unfolding hi_def lo_def using foldl_high [of _ mn_high] foldl_low [of mn_low] by blast+
  have l: "last rows \<in> set rows" and h: "hd rows \<in> set rows" using assms(1) by simp_all
  have "lo \<le> mn_close (last rows)" "mn_close (last rows) \<le> hi" "lo \<le> mn_open (hd rows)" "mn_open (hd rows) \<le> hi"
    using hi lo l h assms(2) unfolding saneRow_def by (meson order_trans)+
  then show ?thesis unfolding soundCandle_def bucketCandle_def Let_def hi_def [symmetric] lo_def [symmetric]
    by (auto split: option.split)
qed

lemma candlesFrom_sound:
  assumes "\<And>k. \<forall>r\<in>set (rowsAt k). saneRow r"
  shows "\<forall>c\<in>set (candlesFrom rowsAt b n key prev). soundCandle c"
proof (induction n arbitrary: key prev)
  case (Suc n)
  have "soundCandle (flatCandle key c)" for c by (simp add: soundCandle_def flatCandle_def)
  then show ?case using Suc bucketCandle_sound assms by (auto split: option.split)
qed simp

section \<open>Properties\<close>


text \<open>Three minutes of trading, the last one after a gap.\<close>

definition exampleMinutes :: "minute_row list" where
  "exampleMinutes =
     (let row = (\<lambda>m o' c h l v. \<lparr>mr_chainId = 1, mr_poolId = ''p'', mr_t = Some (m * 60000), mr_open = Some o', mr_close = Some c,
          mr_high = Some h, mr_low = Some l, mr_buy = Some v, mr_sell = None, mr_swaps = Some 1\<rparr>)
      in [row 17 70 90 95 60 5, row 6 50 60 65 45 3, row 5 40 50 55 35 2])"


text \<open>Where the minute rows have consistent extremes, so has every candle: its open and close lie between its low and
  high, although the open is replaced by the previous close.\<close>

lemma candles_ohlc:
  assumes "0 < bucketSize" and "\<forall>r\<in>set (parseMinutes minutes). saneRow r"
  shows "\<forall>c\<in>set (fillJoinedCandles minutes bucketSize limit). soundCandle c"
proof (cases "parseMinutes minutes = []")
  case True
  then show ?thesis by (simp add: fillJoinedCandles_def)
next
  case False
  then obtain n s seed where "fillJoinedCandles minutes bucketSize limit
      = candlesFrom (rowsOf bucketSize (parseMinutes minutes)) bucketSize n s seed"
    using fillJoinedCandles_from [OF assms(1)] by metis
  then show ?thesis using candlesFrom_sound [of "rowsOf bucketSize (parseMinutes minutes)"] assms(2) by (simp add: rowsOf_def)
qed

end
