(* ===== verification/TokenQuery.thy ===== *)
theory TokenQuery
  imports Candles
begin

text \<open>
  The token reads of \<open>src/src/modules/tokens/token-query.service.ts\<close> other than candles: pool lookup, trade pages, the
  milestone ladder, revenue pages, the token list with its sorts and the milestone board. SQL queries are list functions
  over the rows of the tables they name (\<open>WHERE\<close> a filter, \<open>ORDER BY\<close> stable sorts, \<open>LIMIT\<close>/\<open>OFFSET\<close> a slice; rows that tie
  under \<open>ORDER BY\<close>, whose order SQL leaves open, keep their table order). \<open>number\<close> fractions are rationals. The per-page cache
  in front of each read is that of \<open>Comments.cachedPage\<close> and is not repeated here.
\<close>

section \<open>Protocol template\<close>

definition T_bandFirstStepLevels :: int where [model_defs]: "T_bandFirstStepLevels = 6932"
definition T_bandStepDecayLevels :: int where [model_defs]: "T_bandStepDecayLevels = 391"
definition T_bandLevelSpacing :: int where [model_defs]: "T_bandLevelSpacing = 2235"
definition T_bandWidthLevels :: int where [model_defs]: "T_bandWidthLevels = 447"
definition T_coreBandCount :: int where [model_defs]: "T_coreBandCount = 22"
definition T_maxFeeFundedBands :: int where [model_defs]: "T_maxFeeFundedBands = 30"

definition GRADUATION_MCAP_WEI :: int where [model_defs]: "GRADUATION_MCAP_WEI = 8 * 10 ^ 18"

definition templateBand :: "int \<Rightarrow> int \<Rightarrow> band_levels result" where
  "templateBand grad i = bandLevels grad T_bandFirstStepLevels T_bandStepDecayLevels T_bandLevelSpacing T_bandWidthLevels i"

section \<open>Pools and trades\<close>

record pool_record =
  pr_pool :: pool
  pr_tokenDbId :: "string option"

definition findPool :: "'a pool_record_scheme list \<Rightarrow> string \<Rightarrow> int \<Rightarrow> 'a pool_record_scheme result" where
  "findPool pools tokenRef chainId =
     (let norm = toLowerCase tokenRef;
          isPoolId = startsWith ''0x'' norm \<and> length norm = 66;
          matches = (\<lambda>p. pl_chainId (pr_pool p) = chainId \<and>
             (if isPoolId then pl_poolId (pr_pool p) = norm
              else pl_token (pr_pool p) = norm \<or> (\<not> startsWith ''0x'' norm \<and> pr_tokenDbId p = Some norm)))
      in case find matches pools of
           None \<Rightarrow> Inl (NotFoundException ''TOKEN_NOT_FOUND'')
         | Some p \<Rightarrow> Inr p)"

record swap_fact =
  sf_chainId :: int
  sf_poolId :: string
  sf_transactionHash :: string
  sf_logIndex :: int
  sf_blockNumber :: int
  sf_timestamp :: int
  sf_isBuy :: bool
  sf_sender :: string
  sf_amount0Eth :: int
  sf_amount1Tokens :: int
  sf_sqrtPriceX96 :: int
  sf_tick :: int
  sf_fee :: int
  sf_feeEth :: int
  sf_feeTokens :: int

record trade_view =
  tv_transactionHash :: string
  tv_logIndex :: int
  tv_blockNumber :: string
  tv_timestamp :: int
  tv_side :: side
  tv_sender :: string
  tv_ethAmount :: string
  tv_tokenAmount :: string
  tv_sqrtPriceX96 :: string
  tv_level :: int
  tv_priceEth :: "string option"
  tv_feePips :: int
  tv_feeEth :: string
  tv_feeTokens :: string

datatype trade_sort = TradeNewest | TradeOldest | TradeAmount

record trade_query =
  tq_chainId :: int
  tq_side :: "side option"
  tq_sort :: trade_sort
  tq_page :: int
  tq_limit :: int

definition orderTrades :: "trade_sort \<Rightarrow> swap_fact list \<Rightarrow> swap_fact list" where
  "orderTrades s rows = (case s of
     TradeAmount \<Rightarrow> sort_key (\<lambda>r. - sf_amount0Eth r) rows
   | TradeOldest \<Rightarrow> sort_key sf_blockNumber (sort_key sf_logIndex rows)
   | TradeNewest \<Rightarrow> sort_key (\<lambda>r. - sf_blockNumber r) (sort_key (\<lambda>r. - sf_logIndex r) rows))"

definition presentTrade :: "swap_fact \<Rightarrow> trade_view" where
  "presentTrade r =
     \<lparr>tv_transactionHash = sf_transactionHash r, tv_logIndex = sf_logIndex r, tv_blockNumber = toString (sf_blockNumber r),
      tv_timestamp = sf_timestamp r, tv_side = (if sf_isBuy r then BUY else SELL), tv_sender = sf_sender r,
      tv_ethAmount = toString (sf_amount0Eth r), tv_tokenAmount = toString (sf_amount1Tokens r),
      tv_sqrtPriceX96 = toString (sf_sqrtPriceX96 r), tv_level = - sf_tick r, tv_priceEth = sqrtToEthString (sf_sqrtPriceX96 r),
      tv_feePips = sf_fee r, tv_feeEth = toString (sf_feeEth r), tv_feeTokens = toString (sf_feeTokens r)\<rparr>"

definition trades :: "'a pool_record_scheme list \<Rightarrow> swap_fact list \<Rightarrow> string \<Rightarrow> trade_query \<Rightarrow> (trade_view list \<times> page_meta) result" where
  "trades pools swaps tokenRef query =
     bindR (findPool pools tokenRef (tq_chainId query)) (\<lambda>p.
       let matching = filter (\<lambda>r. sf_chainId r = tq_chainId query \<and> sf_poolId r = pl_poolId (pr_pool p)
             \<and> (case tq_side query of None \<Rightarrow> True | Some sd \<Rightarrow> sf_isBuy r = (sd = BUY))) swaps
       in Inr (map presentTrade (pageRows (tq_page query) (tq_limit query) (orderTrades (tq_sort query) matching)),
               pageMeta (tq_page query) (tq_limit query) (int (length matching))))"

section \<open>The milestone ladder\<close>

record band_record =
  bd_chainId :: int
  bd_poolId :: string
  bd_bandIndex :: int
  bd_completed :: bool
  bd_levelLower :: "int option"
  bd_levelUpper :: "int option"
  bd_liquidity :: int
  bd_tokenInventory :: int
  bd_deployedAt :: int
  bd_completedAt :: "int option"

datatype milestone_kind = CORE | EXTENSION
datatype milestone_state = HARVESTED | DEPLOYED | SKIPPED | PENDING

record milestone_row =
  ms_index :: int
  ms_kind :: milestone_kind
  ms_state :: milestone_state
  ms_levelLower :: int
  ms_levelUpper :: int
  ms_liquidity :: "string option"
  ms_tokenInventory :: "string option"
  ms_deployedAt :: "int option"
  ms_completedAt :: "int option"

definition milestoneRow :: "band_record list \<Rightarrow> int list \<Rightarrow> int \<Rightarrow> band_levels \<Rightarrow> milestone_row" where
  "milestoneRow deployed skipped i geom =
     (let b = map_of (rev (map (\<lambda>d. (bd_bandIndex d, d)) deployed)) i in
      \<lparr>ms_index = i, ms_kind = (if i < T_coreBandCount then CORE else EXTENSION),
       ms_state = (case b of Some d \<Rightarrow> if bd_completed d then HARVESTED else DEPLOYED
                   | None \<Rightarrow> if i \<in> set skipped then SKIPPED else PENDING),
       ms_levelLower = (case Option.bind b bd_levelLower of Some l \<Rightarrow> l | None \<Rightarrow> levelLower geom),
       ms_levelUpper = (case Option.bind b bd_levelUpper of Some l \<Rightarrow> l | None \<Rightarrow> levelUpper geom),
       ms_liquidity = map_option (\<lambda>d. toString (bd_liquidity d)) b,
       ms_tokenInventory = map_option (\<lambda>d. toString (bd_tokenInventory d)) b,
       ms_deployedAt = map_option bd_deployedAt b, ms_completedAt = Option.bind b bd_completedAt\<rparr>)"

fun milestoneLoop :: "band_record list \<Rightarrow> int list \<Rightarrow> int \<Rightarrow> nat \<Rightarrow> int \<Rightarrow> milestone_row list result" where
  "milestoneLoop deployed skipped grad 0 i = Inr []"
| "milestoneLoop deployed skipped grad (Suc n) i =
     bindR (templateBand grad i) (\<lambda>geom.
       if \<not> exists geom then Inr []
       else bindR (milestoneLoop deployed skipped grad n (i + 1)) (\<lambda>rows. Inr (milestoneRow deployed skipped i geom # rows)))"

definition milestones :: "pool_record list \<Rightarrow> band_record list \<Rightarrow> (int \<times> string \<times> int) list \<Rightarrow> string \<Rightarrow> int \<Rightarrow> int \<Rightarrow> int
    \<Rightarrow> (milestone_row list \<times> page_meta) result" where
  "milestones pools bands skips tokenRef chainId page limit =
     bindR (findPool pools tokenRef chainId) (\<lambda>p.
       let pool = pr_pool p in
       case (pl_status pool, pl_graduationLevel pool) of
         (Graduated, Some grad) \<Rightarrow>
           let deployed = sort_key bd_bandIndex (filter (\<lambda>b. bd_chainId b = chainId \<and> bd_poolId b = pl_poolId pool) bands);
               skipped = map (\<lambda>(_, _, i). i) (filter (\<lambda>(c, q, _). c = chainId \<and> q = pl_poolId pool) skips)
           in bindR (milestoneLoop deployed skipped grad (nat (T_coreBandCount + T_maxFeeFundedBands)) 0) (\<lambda>rows.
                Inr (pageRows page limit rows, pageMeta page limit (int (length rows))))
       | _ \<Rightarrow> Inr ([], pageMeta page limit 0))"

section \<open>Revenue\<close>

definition REVENUE_TABLES :: "(string \<times> string) list" where
  "REVENUE_TABLES =
     [(''creatorAccruals'', ''creator_accruals''), (''protocolAccruals'', ''protocol_accruals''),
      (''creatorPathAccruals'', ''creator_path_accruals''), (''claims'', ''claims''), (''payoutTips'', ''payout_tips''),
      (''pluginPayouts'', ''plugin_payouts''), (''potFundings'', ''payout_pot_fundings''),
      (''potRedemptions'', ''payout_pot_redemptions''), (''feeCollections'', ''fee_collections''),
      (''feeRoutings'', ''fee_routings''), (''tokenBurns'', ''token_burns''), (''graduates'', ''graduations'')]"

record fact_row =
  fr_chainId :: int
  fr_poolId :: string
  fr_blockNumber :: int
  fr_logIndex :: int
  fr_columns :: jsv

definition revenue :: "pool_record list \<Rightarrow> (string \<Rightarrow> fact_row list) \<Rightarrow> string \<Rightarrow> int \<Rightarrow> string option \<Rightarrow> int \<Rightarrow> int
    \<Rightarrow> (fact_row list \<times> page_meta) result" where
  "revenue pools tables tokenRef chainId kind page limit =
     bindR (findPool pools tokenRef chainId) (\<lambda>p.
       case map_of REVENUE_TABLES (case kind of None \<Rightarrow> ''creatorAccruals'' | Some k \<Rightarrow> k) of
         None \<Rightarrow> Inl (DomainException 400 ''INVALID_REVENUE_KIND'')
       | Some table \<Rightarrow>
           let matching = filter (\<lambda>r. fr_chainId r = chainId \<and> fr_poolId r = pl_poolId (pr_pool p)) (tables table);
               ordered = sort_key (\<lambda>r. - fr_blockNumber r) (sort_key (\<lambda>r. - fr_logIndex r) matching)
           in Inr (pageRows page limit ordered, pageMeta page limit (int (length matching))))"

definition withFreshness :: "int \<Rightarrow> int \<Rightarrow> int option \<Rightarrow> (string \<times> jsv) list \<Rightarrow> (string \<times> jsv) list" where
  "withFreshness staleAfterMs now watermark value =
     (let fresh = (case watermark of None \<Rightarrow> False | Some blockTime \<Rightarrow> now - blockTime \<le> staleAfterMs)
      in mapSet ''stale'' (JBool (\<not> fresh)) value)"

section \<open>The token list\<close>

record metrics =
  mt_poolId :: string
  mt_chainId :: int
  mt_graduated :: bool
  mt_token :: "string option"
  mt_creator :: string
  mt_name :: string
  mt_symbol :: string
  mt_launchTime :: int
  mt_totalSupply :: "int option"
  mt_circulatingSupply :: "int option"
  mt_openingLevel :: "int option"
  mt_graduationLevel :: "int option"
  mt_lastPriceSqrtX96 :: "int option"
  mt_price24hAgoSqrtX96 :: "int option"
  mt_mcapWei :: "int option"
  mt_fdvWei :: "int option"
  mt_athMcapWei :: "int option"
  mt_buyVolumeEth :: "int option"
  mt_sellVolumeEth :: "int option"
  mt_vol24hWei :: "int option"
  mt_swapCount :: "int option"
  mt_creatorRevenueTotal :: "int option"
  mt_protocolRevenueTotal :: "int option"

record harvest_payout =
  hp_chainId :: int
  hp_poolId :: string
  hp_milestoneIndex :: int
  hp_netQuote :: int
  hp_timestamp :: int
  hp_logIndex :: int

text \<open>A row of the joined query, with the columns the service adds afterwards.\<close>

record list_row =
  lr_pm :: metrics
  lr_paid :: int
  lr_lastPayoutAt :: "int option"
  lr_netEth :: int
  lr_preLaunch :: bool
  lr_proximity :: "rat option"

definition lateralHarvests :: "harvest_payout list \<Rightarrow> metrics \<Rightarrow> list_row" where
  "lateralHarvests harvests pm =
     (let hs = filter (\<lambda>h. hp_chainId h = mt_chainId pm \<and> hp_poolId h = mt_poolId pm) harvests in
      \<lparr>lr_pm = pm, lr_paid = int (length hs),
       lr_lastPayoutAt = (if hs = [] then None else Some (Max (set (map hp_timestamp hs)))),
       lr_netEth = (\<Sum>h\<leftarrow>hs. hp_netQuote h), lr_preLaunch = False, lr_proximity = None\<rparr>)"

datatype list_sort = SortNewest | SortOldest | SortMarketCap | SortVolume | SortGraduated | SortMilestones | SortNextPayout

record list_query =
  lq_chainId :: int
  lq_q :: "string option"
  lq_creator :: "string option"
  lq_graduated :: "bool option"
  lq_sort :: list_sort
  lq_near :: bool
  lq_paid :: bool
  lq_page :: int
  lq_limit :: int

text \<open>\<open>LIKE\<close> patterns: \<open>%\<close> any text, \<open>_\<close> any character, a backslash quotes the next one.\<close>

fun likeStar :: "(string \<Rightarrow> bool) \<Rightarrow> string \<Rightarrow> bool" where
  "likeStar k [] = k []"
| "likeStar k (c # t) = (k (c # t) \<or> likeStar k t)"

fun like :: "string \<Rightarrow> string \<Rightarrow> bool" where
  "like [] t = (t = [])"
| "like [p] t =
     (if p = CHR ''%'' then True else if p = CHR ''_'' then length t = 1 else t = [p])"
| "like (p # d # ps) t =
     (if p = CHR ''%'' then likeStar (like (d # ps)) t
      else if p = CHR 0x5C then (case t of [] \<Rightarrow> False | c # t' \<Rightarrow> c = d \<and> like ps t')
      else (case t of [] \<Rightarrow> False | c # t' \<Rightarrow> (p = CHR ''_'' \<or> c = p) \<and> like (d # ps) t'))"

definition ilikeContains :: "string \<Rightarrow> string \<Rightarrow> bool" where
  "ilikeContains q t = like (''%'' @ toLowerCase q @ ''%'') (toLowerCase t)"

definition listWhere :: "list_query \<Rightarrow> list_row \<Rightarrow> bool" where
  "listWhere query r \<longleftrightarrow>
     (let pm = lr_pm r in
      mt_chainId pm = lq_chainId query
      \<and> (lq_near query \<longrightarrow> \<not> mt_graduated pm \<and> (case mt_mcapWei pm of None \<Rightarrow> False | Some m \<Rightarrow> (GRADUATION_MCAP_WEI * 8) sdiv 10 \<le> m))
      \<and> (lq_paid query \<longrightarrow> 0 < lr_paid r)
      \<and> (case lq_graduated query of None \<Rightarrow> True | Some g \<Rightarrow> mt_graduated pm = g)
      \<and> (case lq_creator query of None \<Rightarrow> True | Some c \<Rightarrow> mt_creator pm = toLowerCase c)
      \<and> (case lq_q query of None \<Rightarrow> True
         | Some q \<Rightarrow> q = [] \<or> ilikeContains q (mt_name pm) \<or> ilikeContains q (mt_symbol pm)))"

definition descNullsLast :: "('a \<Rightarrow> int option) \<Rightarrow> 'a list \<Rightarrow> 'a list" where
  "descNullsLast f rows = sort_key (\<lambda>r. - the (f r)) (filter (\<lambda>r. f r \<noteq> None) rows) @ filter (\<lambda>r. f r = None) rows"

definition listOrder :: "list_sort \<Rightarrow> list_row list \<Rightarrow> list_row list" where
  "listOrder s rows =
     (let newest = sort_key (\<lambda>r. - mt_launchTime (lr_pm r)) rows in
      case s of
        SortOldest \<Rightarrow> sort_key (\<lambda>r. mt_launchTime (lr_pm r)) rows
      | SortGraduated \<Rightarrow> sort_key (\<lambda>r. if mt_graduated (lr_pm r) then 0 else (1::int)) newest
      | SortMarketCap \<Rightarrow> descNullsLast (\<lambda>r. mt_mcapWei (lr_pm r)) rows
      | SortVolume \<Rightarrow> sort_key (\<lambda>r. - (numCol (mt_buyVolumeEth (lr_pm r)) + numCol (mt_sellVolumeEth (lr_pm r)))) rows
      | SortMilestones \<Rightarrow> sort_key (\<lambda>r. - lr_paid r) (descNullsLast lr_lastPayoutAt newest)
      | _ \<Rightarrow> newest)"

section \<open>Distance to the next payout\<close>

definition payoutProximity :: "int \<Rightarrow> int \<Rightarrow> int \<Rightarrow> rat option result" where
  "payoutProximity grad paid sqrtX =
     (if sqrtX \<le> 0 then Inr None
      else bindR (levelFromSqrtPrice sqrtX) (\<lambda>level.
           bindR (templateBand grad paid) (\<lambda>geom.
           if \<not> exists geom then Inr None
           else bindR (if paid = 0 then Inr grad else bindR (templateBand grad (paid - 1)) (\<lambda>g. Inr (levelUpper g))) (\<lambda>start.
                let span = levelLower geom - start in
                Inr (if span > 0 then Some (min (99 / 100) (max 0 (of_int (level - start) / of_int span))) else None)))))"

fun mapResult :: "('a \<Rightarrow> 'b result) \<Rightarrow> 'a list \<Rightarrow> 'b list result" where
  "mapResult f [] = Inr []"
| "mapResult f (x # xs) = bindR (f x) (\<lambda>y. bindR (mapResult f xs) (\<lambda>ys. Inr (y # ys)))"

definition scoreRow :: "list_row \<Rightarrow> list_row result" where
  "scoreRow r = bindR (payoutProximity (the (mt_graduationLevel (lr_pm r))) (lr_paid r) (numCol (mt_lastPriceSqrtX96 (lr_pm r))))
     (\<lambda>p. Inr (r\<lparr>lr_proximity := p\<rparr>))"

definition byProximity :: "list_row list \<Rightarrow> list_row list" where
  "byProximity rows = sort_key (\<lambda>r. - the (lr_proximity r)) (filter (\<lambda>r. lr_proximity r \<noteq> None) rows)"

section \<open>Cards\<close>

definition preLaunchFill :: "list_row \<Rightarrow> list_row result" where
  "preLaunchFill r =
     (let pm = lr_pm r in
      if numCol (mt_lastPriceSqrtX96 pm) > 0 then Inr r
      else bindR (sqrtPriceAtLevel (numCol (mt_openingLevel pm))) (\<lambda>openingSqrt.
        if openingSqrt = 0 then Inr r
        else
          let totalSupply = numCol (mt_totalSupply pm);
              circulating = (case mt_circulatingSupply pm of None \<Rightarrow> totalSupply | Some c \<Rightarrow> c)
          in bindR (bigDiv (push_bit 192 circulating) (openingSqrt * openingSqrt)) (\<lambda>mcap.
             bindR (bigDiv (push_bit 192 totalSupply) (openingSqrt * openingSqrt)) (\<lambda>fdv.
             Inr (r\<lparr>lr_pm := pm\<lparr>mt_lastPriceSqrtX96 := Some openingSqrt, mt_mcapWei := Some mcap, mt_fdvWei := Some fdv,
                       mt_athMcapWei := None\<rparr>, lr_preLaunch := True\<rparr>)))))"

definition ethPrice :: "int \<Rightarrow> rat" where
  "ethPrice sqrtX = of_int ((push_bit 192 1 * 10 ^ 18) sdiv (sqrtX * sqrtX)) / 10 ^ 18"

definition priceChange24h :: "metrics \<Rightarrow> rat option" where
  "priceChange24h r =
     (let now = numCol (mt_lastPriceSqrtX96 r); ago = numCol (mt_price24hAgoSqrtX96 r) in
      if now = 0 \<or> ago = 0 then None
      else if ethPrice ago = 0 then None
      else Some ((ethPrice now - ethPrice ago) / ethPrice ago * 100))"

record token_card =
  tc_poolId :: string
  tc_chainId :: int
  tc_graduated :: bool
  tc_token :: "string option"
  tc_creator :: string
  tc_name :: string
  tc_symbol :: string
  tc_launchTime :: int
  tc_totalSupply :: string
  tc_circulatingSupply :: string
  tc_priceEth :: "string option"
  tc_fdvEthWei :: "string option"
  tc_mcapEthWei :: "string option"
  tc_athMcapEthWei :: "string option"
  tc_buyVolumeEth :: string
  tc_sellVolumeEth :: string
  tc_volume24hEth :: "string option"
  tc_priceChange24h :: "rat option"
  tc_swapCount :: string
  tc_creatorRevenueTotal :: string
  tc_protocolRevenueTotal :: string
  tc_milestonesPaid :: int
  tc_milestonesTotal :: int
  tc_lastPayoutAt :: "int option"
  tc_netPaidEthWei :: string
  tc_nextPayoutProximity :: "rat option"
  tc_preLaunch :: bool
  tc_imageUri :: "string option"

definition numText :: "int option \<Rightarrow> string" where
  "numText v = toString (numCol v)"

definition cardFromMetrics :: "list_row \<Rightarrow> string option \<Rightarrow> token_card" where
  "cardFromMetrics r imageUri =
     (let pm = lr_pm r; lastSqrt = numCol (mt_lastPriceSqrtX96 pm) in
      \<lparr>tc_poolId = mt_poolId pm, tc_chainId = mt_chainId pm, tc_graduated = mt_graduated pm, tc_token = mt_token pm,
       tc_creator = mt_creator pm, tc_name = mt_name pm, tc_symbol = mt_symbol pm, tc_launchTime = mt_launchTime pm,
       tc_totalSupply = numText (mt_totalSupply pm),
       tc_circulatingSupply = (case mt_circulatingSupply pm of None \<Rightarrow> numText (mt_totalSupply pm) | Some c \<Rightarrow> toString c),
       tc_priceEth = (if lastSqrt > 0 then sqrtToEthString lastSqrt else None),
       tc_fdvEthWei = map_option toString (mt_fdvWei pm), tc_mcapEthWei = map_option toString (mt_mcapWei pm),
       tc_athMcapEthWei = map_option toString (mt_athMcapWei pm), tc_buyVolumeEth = numText (mt_buyVolumeEth pm),
       tc_sellVolumeEth = numText (mt_sellVolumeEth pm), tc_volume24hEth = map_option toString (mt_vol24hWei pm),
       tc_priceChange24h = priceChange24h pm, tc_swapCount = numText (mt_swapCount pm),
       tc_creatorRevenueTotal = numText (mt_creatorRevenueTotal pm), tc_protocolRevenueTotal = numText (mt_protocolRevenueTotal pm),
       tc_milestonesPaid = lr_paid r, tc_milestonesTotal = T_coreBandCount, tc_lastPayoutAt = lr_lastPayoutAt r,
       tc_netPaidEthWei = toString (lr_netEth r), tc_nextPayoutProximity = lr_proximity r, tc_preLaunch = lr_preLaunch r,
       tc_imageUri = imageUri\<rparr>)"

text \<open>Images: off-chain token rows win, then the newest launch record of the address.\<close>

record image_row =
  ir_chainId :: int
  ir_token :: "string option"
  ir_imageUri :: "string option"
  ir_createdAt :: int

definition usable :: "int \<Rightarrow> string list \<Rightarrow> image_row \<Rightarrow> bool" where
  "usable chainId wanted row \<longleftrightarrow> ir_chainId row = chainId \<and> ir_imageUri row \<noteq> None
     \<and> (case ir_token row of None \<Rightarrow> False | Some t \<Rightarrow> toLowerCase t \<in> set wanted)"

definition imageMap :: "image_row list \<Rightarrow> image_row list \<Rightarrow> int \<Rightarrow> string list \<Rightarrow> (string \<times> string) list" where
  "imageMap offchain records chainId wanted =
     (if wanted = [] then []
      else
        let m1 = foldl (\<lambda>m row. if the (ir_imageUri row) \<noteq> [] then mapSet (toLowerCase (the (ir_token row))) (the (ir_imageUri row)) m else m)
                   [] (filter (usable chainId wanted) offchain);
            missing = filter (\<lambda>t. map_of m1 t = None) wanted
        in if missing = [] then m1
           else foldl (\<lambda>m row. let t = toLowerCase (the (ir_token row)) in
                   if the (ir_imageUri row) \<noteq> [] \<and> map_of m t = None then mapSet t (the (ir_imageUri row)) m else m)
                   m1 (sort_key (\<lambda>r. - ir_createdAt r) (filter (usable chainId missing) records)))"

definition lowerToken :: "metrics \<Rightarrow> string" where
  "lowerToken pm = (case mt_token pm of None \<Rightarrow> [] | Some t \<Rightarrow> toLowerCase t)"

definition cardsOf :: "(string list \<Rightarrow> (string \<times> string) list) \<Rightarrow> list_row list \<Rightarrow> token_card list" where
  "cardsOf images rows =
     (let m = images (filter (\<lambda>t. t \<noteq> []) (map (\<lambda>r. lowerToken (lr_pm r)) rows))
      in map (\<lambda>r. cardFromMetrics r (map_of m (lowerToken (lr_pm r)))) rows)"

definition listTokens :: "metrics list \<Rightarrow> harvest_payout list \<Rightarrow> image_row list \<Rightarrow> image_row list \<Rightarrow> list_query
    \<Rightarrow> (token_card list \<times> page_meta) result" where
  "listTokens view harvests offchain records query =
     (let joined = map (lateralHarvests harvests) view;
          images = imageMap offchain records (lq_chainId query)
      in if lq_sort query = SortNextPayout
         then bindR (mapResult scoreRow (filter (\<lambda>r. mt_chainId (lr_pm r) = lq_chainId query \<and> mt_graduated (lr_pm r)
                  \<and> mt_graduationLevel (lr_pm r) \<noteq> None) joined)) (\<lambda>scored.
              let ranked = byProximity scored in
              Inr (cardsOf images (pageRows (lq_page query) (lq_limit query) ranked),
                   pageMeta (lq_page query) (lq_limit query) (int (length ranked))))
         else
           let matching = filter (listWhere query) joined in
           bindR (mapResult preLaunchFill (pageRows (lq_page query) (lq_limit query) (listOrder (lq_sort query) matching))) (\<lambda>rows.
             Inr (cardsOf images rows, pageMeta (lq_page query) (lq_limit query) (int (length matching)))))"

section \<open>The milestone board\<close>

record leader =
  ld_poolId :: string
  ld_token :: "string option"
  ld_symbol :: string
  ld_name :: string
  ld_graduated :: bool
  ld_imageUri :: "string option"
  ld_mcapEthWei :: "string option"
  ld_milestonesPaid :: int
  ld_milestonesTotal :: int
  ld_netPaidEthWei :: string
  ld_lastPayoutAt :: "int option"
  ld_nextIn :: "rat option"
  ld_nextIndex :: "int option"

record next_up =
  nu_poolId :: string
  nu_symbol :: string
  nu_name :: string
  nu_imageUri :: "string option"
  nu_nextIndex :: int
  nu_proximityPct :: int
  nu_mcapEthWei :: "string option"

record payout_event =
  pe_poolId :: string
  pe_symbol :: "string option"
  pe_name :: "string option"
  pe_milestoneIndex :: int
  pe_netEthWei :: string
  pe_timestamp :: int

record board =
  bo_distributedEthWei :: string
  bo_payouts :: int
  bo_payouts24h :: int
  bo_leaders :: "leader list"
  bo_nextUp :: "next_up list"
  bo_events :: "payout_event list"

definition mathRound :: "rat \<Rightarrow> int" where
  "mathRound x = \<lfloor>x + 1 / 2\<rfloor>"

definition leaderRow :: "(string \<times> string) list \<Rightarrow> list_row \<Rightarrow> (leader \<times> next_up option) result" where
  "leaderRow images r =
     (let pm = lr_pm r; sqrtX = numCol (mt_lastPriceSqrtX96 pm); image = map_of images (lowerToken pm);
          live = mt_graduated pm \<and> mt_graduationLevel pm \<noteq> None
      in bindR (if live then payoutProximity (the (mt_graduationLevel pm)) (lr_paid r) sqrtX else Inr None) (\<lambda>nextIn.
         Inr (\<lparr>ld_poolId = mt_poolId pm, ld_token = mt_token pm, ld_symbol = mt_symbol pm, ld_name = mt_name pm,
               ld_graduated = mt_graduated pm, ld_imageUri = image, ld_mcapEthWei = map_option toString (mt_mcapWei pm),
               ld_milestonesPaid = lr_paid r, ld_milestonesTotal = T_coreBandCount, ld_netPaidEthWei = toString (lr_netEth r),
               ld_lastPayoutAt = lr_lastPayoutAt r, ld_nextIn = nextIn,
               ld_nextIndex = (if live \<and> sqrtX > 0 then Some (lr_paid r) else None)\<rparr>,
              map_option (\<lambda>p. \<lparr>nu_poolId = mt_poolId pm, nu_symbol = mt_symbol pm, nu_name = mt_name pm, nu_imageUri = image,
               nu_nextIndex = lr_paid r, nu_proximityPct = mathRound (p * 100), nu_mcapEthWei = map_option toString (mt_mcapWei pm)\<rparr>) nextIn)))"

text \<open>\<open>pools\<close> gives the token of a pool id and \<open>names\<close> the symbol and name of a token, the two joins of the event query;
  \<open>now\<close> is the database clock.\<close>

definition milestoneBoard :: "metrics list \<Rightarrow> harvest_payout list \<Rightarrow> (string \<rightharpoonup> string) \<Rightarrow> (int \<times> string \<rightharpoonup> string \<times> string)
    \<Rightarrow> image_row list \<Rightarrow> image_row list \<Rightarrow> int \<Rightarrow> int \<Rightarrow> int option \<Rightarrow> board result" where
  "milestoneBoard view harvests pools names offchain records now defaultChain chainIdQuery =
     (let chainId = resolveChainId defaultChain chainIdQuery;
          rows = take 50 (listOrder SortMilestones (filter (\<lambda>r. mt_chainId (lr_pm r) = chainId) (map (lateralHarvests harvests) view)));
          images = imageMap offchain records chainId (filter (\<lambda>t. t \<noteq> []) (map (\<lambda>r. lowerToken (lr_pm r)) rows));
          own = filter (\<lambda>h. hp_chainId h = chainId) harvests;
          events = take 20 (sort_key (\<lambda>h. - hp_timestamp h) (sort_key (\<lambda>h. - hp_logIndex h) (filter (\<lambda>h. pools (hp_poolId h) \<noteq> None) own)))
      in bindR (mapResult (leaderRow images) rows) (\<lambda>ls.
         Inr \<lparr>bo_distributedEthWei = toString (\<Sum>h\<leftarrow>own. hp_netQuote h), bo_payouts = int (length own),
              bo_payouts24h = int (length (filter (\<lambda>h. hp_timestamp h \<ge> now - 24 * 60 * 60 * 1000) own)),
              bo_leaders = map fst ls,
              bo_nextUp = take 10 (sort_key (\<lambda>n. - nu_proximityPct n) (List.map_filter snd ls)),
              bo_events = map (\<lambda>h. let t = names (chainId, the (pools (hp_poolId h))) in
                 \<lparr>pe_poolId = hp_poolId h, pe_symbol = map_option fst t, pe_name = map_option snd t, pe_milestoneIndex = hp_milestoneIndex h,
                 pe_netEthWei = toString (hp_netQuote h), pe_timestamp = hp_timestamp h\<rparr>) events\<rparr>))"

section \<open>Lemmas\<close>

lemma mapResult_mem: "mapResult f xs = Inr ys \<Longrightarrow> y \<in> set ys \<Longrightarrow> \<exists>x\<in>set xs. f x = Inr y"
  by (induction xs arbitrary: ys) (auto simp: bindR_eq_Inr_iff)

lemma payoutProximity_range: "payoutProximity grad paid sqrtX = Inr (Some p) \<Longrightarrow> 0 \<le> p \<and> p \<le> 99 / 100"
proof -
  assume a: "payoutProximity grad paid sqrtX = Inr (Some p)"
  have "\<exists>x. p = min (99 / 100) (max 0 x)"
    using a by (auto simp: payoutProximity_def bindR_eq_Inr_iff Let_def simp del: of_int_diff split: if_splits)
  then show ?thesis by auto
qed

lemma sorted_pageRows: "sorted (map f rows) \<Longrightarrow> sorted (map f (pageRows p l rows))"
  by (simp add: pageRows_def take_map [symmetric] drop_map [symmetric] sorted_wrt_take sorted_wrt_drop)

lemma set_pageRows: "set (pageRows p l rows) \<subseteq> set rows"
  unfolding pageRows_def by (meson in_set_dropD in_set_takeD subsetI)

section \<open>Properties\<close>

text \<open>C36. The \<open>next_payout\<close> list shows graduated pools of the requested chain only, each with a proximity between 0 and 0.99,
  nearest first.\<close>

theorem next_payout_ranking:
  assumes "listTokens view harvests offchain records query = Inr (cards, meta)" and "lq_sort query = SortNextPayout"
  shows "sorted (map (\<lambda>c. - the (tc_nextPayoutProximity c)) cards)
    \<and> list_all (\<lambda>c. tc_chainId c = lq_chainId query \<and> tc_graduated c
        \<and> (case tc_nextPayoutProximity c of None \<Rightarrow> False | Some p \<Rightarrow> 0 \<le> p \<and> p \<le> 99 / 100)) cards"
proof -
  let ?rows = "filter (\<lambda>r. mt_chainId (lr_pm r) = lq_chainId query \<and> mt_graduated (lr_pm r) \<and> mt_graduationLevel (lr_pm r) \<noteq> None)
    (map (lateralHarvests harvests) view)"
  obtain scored where sc: "mapResult scoreRow ?rows = Inr scored"
    and cards: "cards = cardsOf (imageMap offchain records (lq_chainId query)) (pageRows (lq_page query) (lq_limit query) (byProximity scored))"
    using assms by (auto simp: listTokens_def Let_def bindR_eq_Inr_iff)
  have row: "mt_chainId (lr_pm r) = lq_chainId query \<and> mt_graduated (lr_pm r) \<and> (\<forall>p. lr_proximity r = Some p \<longrightarrow> 0 \<le> p \<and> p \<le> 99 / 100)"
    if r: "r \<in> set scored" for r
  proof -
    obtain x where x: "x \<in> set ?rows" "scoreRow x = Inr r"
      using mapResult_mem [OF sc r] by blast
    then show ?thesis using payoutProximity_range by (auto simp: scoreRow_def bindR_eq_Inr_iff)
  qed
  have sub: "set (pageRows (lq_page query) (lq_limit query) (byProximity scored)) \<subseteq> {r \<in> set scored. lr_proximity r \<noteq> None}"
    using set_pageRows [of "lq_page query" "lq_limit query" "byProximity scored"] by (auto simp: byProximity_def)
  have "sorted (map (\<lambda>r. - the (lr_proximity r)) (pageRows (lq_page query) (lq_limit query) (byProximity scored)))"
    by (rule sorted_pageRows) (simp add: byProximity_def)
  then have "sorted (map (\<lambda>c. - the (tc_nextPayoutProximity c)) cards)"
    by (simp add: cards cardsOf_def Let_def cardFromMetrics_def comp_def)
  moreover have "list_all (\<lambda>c. tc_chainId c = lq_chainId query \<and> tc_graduated c
        \<and> (case tc_nextPayoutProximity c of None \<Rightarrow> False | Some p \<Rightarrow> 0 \<le> p \<and> p \<le> 99 / 100)) cards"
    using sub row by (auto simp: cards cardsOf_def Let_def cardFromMetrics_def list_all_iff split: option.split)
  ultimately show ?thesis by blast
qed

definition exampleMetrics :: "int \<Rightarrow> metrics" where
  "exampleMetrics sqrtX = \<lparr>mt_poolId = ''p'', mt_chainId = 1, mt_graduated = True, mt_token = Some ''0xA'', mt_creator = ''c'', mt_name = ''N'',
     mt_symbol = ''S'', mt_launchTime = 1, mt_totalSupply = Some 100, mt_circulatingSupply = None, mt_openingLevel = Some 0,
     mt_graduationLevel = Some (- 1000), mt_lastPriceSqrtX96 = Some sqrtX, mt_price24hAgoSqrtX96 = None, mt_mcapWei = None, mt_fdvWei = None,
     mt_athMcapWei = None, mt_buyVolumeEth = None, mt_sellVolumeEth = None, mt_vol24hWei = None, mt_swapCount = None,
     mt_creatorRevenueTotal = None, mt_protocolRevenueTotal = None\<rparr>"

definition exampleListQuery :: list_query where
  "exampleListQuery = \<lparr>lq_chainId = 1, lq_q = None, lq_creator = None, lq_graduated = None, lq_sort = SortNextPayout, lq_near = False,
     lq_paid = False, lq_page = 1, lq_limit = 20\<rparr>"

lemma example_level: "levelFromSqrtPrice (2 ^ 96) = Inr 0"
proof -
  have "getSqrtPriceAtTick 0 = Inr (2 ^ 96)" by code_simp
  then show ?thesis
    using levelAtSqrtPrice_price [of 0 "2 ^ 96"] by (simp add: sqrtPriceAtLevel_def toTick_def levelFromSqrtPrice_def model_defs)
qed

lemma example_band: "templateBand (- 1000) 0 = Inr \<lparr>levelLower = 5932, levelUpper = 6379, exists = True\<rparr>"
  by code_simp

lemma example_ranking: "\<exists>cs m. listTokens [exampleMetrics (2 ^ 96)] [] [] [] exampleListQuery = Inr (cs, m) \<and> length cs = 1"
proof -
  obtain q where "payoutProximity (- 1000) 0 (2 ^ 96) = Inr (Some q)"
    by (rule that [of "250 / 1733"]) (simp add: payoutProximity_def example_level [simplified] example_band)
  then show ?thesis
    by (simp add: listTokens_def exampleListQuery_def lateralHarvests_def exampleMetrics_def scoreRow_def numCol_def byProximity_def
        cardsOf_def pageRows_def pageSkip_def Let_def)
qed

theorem next_payout_ranking_witness:
  "\<exists>c m. listTokens [exampleMetrics (2 ^ 96)] [] [] [] exampleListQuery = Inr ([c], m)
    \<and> tc_graduated c \<and> tc_chainId c = 1"
proof -
  obtain cs m where l: "listTokens [exampleMetrics (2 ^ 96)] [] [] [] exampleListQuery = Inr (cs, m)" "length cs = 1"
    using example_ranking by blast
  then obtain c where c: "cs = [c]" by (cases cs) auto
  have "lq_sort exampleListQuery = SortNextPayout" "lq_chainId exampleListQuery = 1" by (simp_all add: exampleListQuery_def)
  then show ?thesis using next_payout_ranking [OF l(1)] l(1) c by auto
qed

definition templateOffset :: "nat \<Rightarrow> int" where
  "templateOffset i = bandOffset T_bandFirstStepLevels T_bandStepDecayLevels T_bandLevelSpacing (Suc i)"

lemma templateBand_eq:
  "templateBand grad (int i) =
    (let lower = grad + templateOffset i in
     if lower + T_bandWidthLevels > MAX_LEVEL then Inr \<lparr>levelLower = 0, levelUpper = 0, exists = False\<rparr>
     else Inr \<lparr>levelLower = lower, levelUpper = lower + T_bandWidthLevels, exists = True\<rparr>)"
  unfolding templateBand_def templateOffset_def by (rule bandLevels_eq) (simp_all add: model_defs)

definition templateLevels :: "int \<Rightarrow> nat \<Rightarrow> band_levels" where
  "templateLevels grad i = \<lparr>levelLower = grad + templateOffset i, levelUpper = grad + templateOffset i + T_bandWidthLevels, exists = True\<rparr>"

lemma milestoneLoop_rows:
  "\<exists>m\<le>n. milestoneLoop deployed skipped grad n (int i)
      = Inr (map (\<lambda>k. milestoneRow deployed skipped (int k) (templateLevels grad k)) [i..<i + m])
    \<and> (\<forall>k<m. grad + templateOffset (i + k) + T_bandWidthLevels \<le> MAX_LEVEL)
    \<and> (m < n \<longrightarrow> MAX_LEVEL < grad + templateOffset (i + m) + T_bandWidthLevels)"
proof (induction n arbitrary: i)
  case (Suc n)
  show ?case
  proof (cases "MAX_LEVEL < grad + templateOffset i + T_bandWidthLevels")
    case True
    then have "milestoneLoop deployed skipped grad (Suc n) (int i) = Inr []" by (simp add: templateBand_eq Let_def)
    then show ?thesis using True by (intro exI [of _ 0]) simp
  next
    case False
    have si: "int i + 1 = int (Suc i)" by simp
    obtain m where m: "m \<le> n" "milestoneLoop deployed skipped grad n (int (Suc i))
        = Inr (map (\<lambda>k. milestoneRow deployed skipped (int k) (templateLevels grad k)) [Suc i..<Suc i + m])"
      "\<forall>k<m. grad + templateOffset (Suc i + k) + T_bandWidthLevels \<le> MAX_LEVEL"
      "m < n \<longrightarrow> MAX_LEVEL < grad + templateOffset (Suc i + m) + T_bandWidthLevels" using Suc.IH [of "Suc i"] by blast
    have "milestoneLoop deployed skipped grad (Suc n) (int i)
        = Inr (map (\<lambda>k. milestoneRow deployed skipped (int k) (templateLevels grad k)) [i..<i + Suc m])"
      (is "?loop = Inr ?rows")
    proof -
      have "[i..<i + Suc m] = i # [Suc i..<Suc i + m]" by (subst upt_conv_Cons) simp_all
      then show ?thesis
        using False m(2) unfolding milestoneLoop.simps si by (simp add: templateBand_eq templateLevels_def Let_def)
    qed
    moreover have "\<forall>k<Suc m. grad + templateOffset (i + k) + T_bandWidthLevels \<le> MAX_LEVEL"
      using m(3) False by (auto simp: less_Suc_eq_0_disj)
    moreover have "Suc m < Suc n \<longrightarrow> MAX_LEVEL < grad + templateOffset (i + Suc m) + T_bandWidthLevels" using m(4) by simp
    ultimately show ?thesis using m(1) by blast
  qed
qed simp

lemma milestoneRow_state:
  assumes "distinct (map bd_bandIndex deployed)"
  shows "ms_state (milestoneRow deployed skipped i geom) =
    (if \<exists>d\<in>set deployed. bd_bandIndex d = i \<and> bd_completed d then HARVESTED
     else if \<exists>d\<in>set deployed. bd_bandIndex d = i then DEPLOYED
     else if i \<in> set skipped then SKIPPED else PENDING)"
proof -
  let ?m = "map (\<lambda>d. (bd_bandIndex d, d)) deployed"
  have fst: "map fst ?m = map bd_bandIndex deployed" by (simp add: comp_def)
  have d: "distinct (map fst ?m)" using assms unfolding fst .
  then have rev: "map_of (rev ?m) = map_of ?m" by (intro map_of_inject_set [THEN iffD2]) (simp_all add: rev_map [symmetric])
  show ?thesis
  proof (cases "map_of ?m i")
    case None
    then have "\<not> (\<exists>d\<in>set deployed. bd_bandIndex d = i)" by (force simp: map_of_eq_None_iff image_iff)
    then show ?thesis using None rev by (auto simp: milestoneRow_def Let_def)
  next
    case (Some d)
    then have "(i, d) \<in> set ?m" by (rule map_of_SomeD)
    then have dm: "d \<in> set deployed" "bd_bandIndex d = i" by auto
    have uniq: "e = d" if "e \<in> set deployed" "bd_bandIndex e = i" for e
      using assms that dm by (auto simp: distinct_map dest: inj_onD)
    have "ms_state (milestoneRow deployed skipped i geom) = (if bd_completed d then HARVESTED else DEPLOYED)"
      using Some rev by (simp add: milestoneRow_def Let_def)
    moreover have "(\<exists>e\<in>set deployed. bd_bandIndex e = i \<and> bd_completed e) \<longleftrightarrow> bd_completed d"
      "\<exists>e\<in>set deployed. bd_bandIndex e = i" using uniq dm by blast+
    ultimately show ?thesis by (simp only: if_True)
  qed
qed

lemma milestoneRow_index [simp]: "ms_index (milestoneRow deployed skipped i geom) = i"
  by (simp add: milestoneRow_def Let_def)

lemma milestoneRow_levels:
  assumes "i \<notin> bd_bandIndex ` set deployed"
  shows "ms_levelLower (milestoneRow deployed skipped i geom) = levelLower geom"
    "ms_levelUpper (milestoneRow deployed skipped i geom) = levelUpper geom"
proof -
  have "map_of (rev (map (\<lambda>d. (bd_bandIndex d, d)) deployed)) i = None"
    using assms by (force simp: map_of_eq_None_iff image_iff)
  then show "ms_levelLower (milestoneRow deployed skipped i geom) = levelLower geom"
    "ms_levelUpper (milestoneRow deployed skipped i geom) = levelUpper geom" by (simp_all add: milestoneRow_def Let_def)
qed



end
