(* ===== verification/Cache.thy ===== *)
theory Cache
  imports Common
begin

text \<open>
  Model of \<open>src/src/infrastructure/cache/\<close>: the Redis-backed domain cache. A Redis database is a partial map from keys
  to a value and an optional expiry; \<open>up\<close> says whether the server answers a call, since every operation of the
  class but \<open>applyGenerationStrict\<close> and \<open>ping\<close> swallows connection errors. The random factor of the TTL jitter is a
  rational argument \<open>u\<close>, taken from \<open>[0, 1)\<close> by \<open>Math.random\<close>.
\<close>

section \<open>Redis\<close>

type_synonym redis = "string \<rightharpoonup> string \<times> int option"

definition redisGet :: "redis \<Rightarrow> int \<Rightarrow> string \<Rightarrow> string option" where
  "redisGet r now key = (case r key of
     Some (v, Some t) \<Rightarrow> if now < t then Some v else None
   | Some (v, None) \<Rightarrow> Some v
   | None \<Rightarrow> None)"

text \<open>String order of Lua, by character codes.\<close>

fun strLess :: "string \<Rightarrow> string \<Rightarrow> bool" where
  "strLess [] [] = False"
| "strLess [] (_ # _) = True"
| "strLess (_ # _) [] = False"
| "strLess (c # s) (d # t) =
     (if (of_char c :: nat) < of_char d then True else if c = d then strLess s t else False)"

definition applyGenerationScript :: "redis \<Rightarrow> int \<Rightarrow> string \<Rightarrow> string \<Rightarrow> redis" where
  "applyGenerationScript r now key incoming = (case redisGet r now key of
     None \<Rightarrow> r(key \<mapsto> (incoming, None))
   | Some current \<Rightarrow>
       if length incoming > length current \<or> (length incoming = length current \<and> strLess current incoming)
       then r(key \<mapsto> (incoming, None)) else r)"

section \<open>The domain cache\<close>

definition subtractiveJitter :: "int \<Rightarrow> rat \<Rightarrow> int" where
  "subtractiveJitter ttlSeconds u =
     (let factor = 9 / 10 + u * (1 / 10) in max 1 \<lfloor>of_int ttlSeconds * factor\<rfloor>)"

definition cacheGet :: "bool \<Rightarrow> redis \<Rightarrow> int \<Rightarrow> string \<Rightarrow> string option" where
  "cacheGet up r now key = (if up then redisGet r now key else None)"

definition cacheSet :: "bool \<Rightarrow> redis \<Rightarrow> int \<Rightarrow> rat \<Rightarrow> string \<Rightarrow> string \<Rightarrow> int \<Rightarrow> redis" where
  "cacheSet up r now u key value ttlSeconds =
     (if up then r(key \<mapsto> (value, Some (now + subtractiveJitter ttlSeconds u))) else r)"

definition cacheDelete :: "bool \<Rightarrow> redis \<Rightarrow> string \<Rightarrow> redis" where
  "cacheDelete up r key = (if up then r(key := None) else r)"

definition generationKey :: "string \<Rightarrow> string" where
  "generationKey domain = ''generation:'' @ domain"

text \<open>\<open>BigInt(text)\<close> throws on text that is not a number, which \<open>getGeneration\<close> turns into 0.\<close>

definition getGeneration :: "bool \<Rightarrow> redis \<Rightarrow> int \<Rightarrow> string \<Rightarrow> int" where
  "getGeneration up r now domain =
     (if \<not> up then 0
      else case redisGet r now (generationKey domain) of
        None \<Rightarrow> 0
      | Some s \<Rightarrow> if list_all isDigit s then int (parseDec s) else 0)"

definition applyGenerationStrict :: "bool \<Rightarrow> redis \<Rightarrow> int \<Rightarrow> string \<Rightarrow> int \<Rightarrow> redis result" where
  "applyGenerationStrict up r now domain generation =
     (if up then Inr (applyGenerationScript r now (generationKey domain) (toString generation))
      else Inl (JsError ''redis unavailable''))"

definition applyGeneration :: "bool \<Rightarrow> redis \<Rightarrow> int \<Rightarrow> string \<Rightarrow> int \<Rightarrow> redis" where
  "applyGeneration up r now domain generation =
     (case applyGenerationStrict up r now domain generation of Inr r' \<Rightarrow> r' | Inl _ \<Rightarrow> r)"

section \<open>Typed views of the cache\<close>

text \<open>
  Values in Redis are JSON texts of one type per kind of key. A store of one kind is kept typed: a key, the value and its
  expiry. The three operations are those of the cache class on such a store.
\<close>

type_synonym 'v timed = "string \<rightharpoonup> 'v \<times> int"

definition timedGet :: "bool \<Rightarrow> 'v timed \<Rightarrow> int \<Rightarrow> string \<Rightarrow> 'v option" where
  "timedGet up st now key = (if up then case st key of Some (v, t) \<Rightarrow> if now < t then Some v else None | None \<Rightarrow> None else None)"

definition timedSet :: "bool \<Rightarrow> 'v timed \<Rightarrow> int \<Rightarrow> rat \<Rightarrow> string \<Rightarrow> 'v \<Rightarrow> int \<Rightarrow> 'v timed" where
  "timedSet up st now u key v ttl = (if up then st(key \<mapsto> (v, now + subtractiveJitter ttl u)) else st)"

definition timedDelete :: "bool \<Rightarrow> 'v timed \<Rightarrow> string \<Rightarrow> 'v timed" where
  "timedDelete up st key = (if up then st(key := None) else st)"

text \<open>The jittered time to live is at least one second, at most the nominal one and at least nine tenths of it.\<close>

lemma subtractiveJitter_bounds:
  assumes "0 \<le> u" and "u < 1" and "1 \<le> ttlSeconds"
  shows "1 \<le> subtractiveJitter ttlSeconds u \<and> subtractiveJitter ttlSeconds u \<le> ttlSeconds
    \<and> ttlSeconds * 9 div 10 \<le> subtractiveJitter ttlSeconds u"
proof -
  define x where "x = (of_int ttlSeconds :: rat) * (9 / 10 + u * (1 / 10))"
  have t: "(1::rat) \<le> of_int ttlSeconds" using assms(3) by simp
  have "x \<le> of_int ttlSeconds * 1" unfolding x_def using assms(1,2) t by (intro mult_left_mono) simp_all
  then have "\<lfloor>x\<rfloor> \<le> ttlSeconds" by (metis floor_mono floor_of_int mult_1_right)
  moreover have "of_int ttlSeconds * (9 / 10) \<le> x" unfolding x_def using assms(1) t by (intro mult_left_mono) simp_all
  then have "\<lfloor>of_int (ttlSeconds * 9) / of_int 10 :: rat\<rfloor> \<le> \<lfloor>x\<rfloor>" by (intro floor_mono) simp
  then have "ttlSeconds * 9 div 10 \<le> \<lfloor>x\<rfloor>" by (simp only: floor_divide_of_int_eq)
  ultimately show ?thesis using assms(3) by (simp add: subtractiveJitter_def Let_def x_def)
qed

section \<open>The comparison of the script is numeric\<close>

lemma digit_order: "isDigit c \<Longrightarrow> isDigit d \<Longrightarrow> (of_char c :: nat) < of_char d \<longleftrightarrow> digitVal c < digitVal d"
  unfolding isDigit_def digitVal_def by linarith

lemma strLess_numeric:
  assumes "length s = length t" "list_all isDigit s" "list_all isDigit t"
  shows "strLess s t \<longleftrightarrow> parseDec s < parseDec t"
  using assms
proof (induction s t rule: strLess.induct)
  case (4 c s d t)
  define b :: nat where "b = 10 ^ length s"
  have c: "isDigit c" "isDigit d" and l: "length s = length t" using 4 by simp_all
  have bs: "parseDec s < b" "parseDec t < b" using parseDec_less [of s] parseDec_less [of t] 4 l
    by (simp_all add: list_all_iff b_def)
  have p: "parseDec (c # s) = digitVal c * b + parseDec s" "parseDec (d # t) = digitVal d * b + parseDec t"
    using l by (simp_all add: parseDec_Cons b_def)
  consider "digitVal c < digitVal d" | "digitVal c = digitVal d" | "digitVal d < digitVal c" by linarith
  then show ?case
  proof cases
    case 1
    then have "(digitVal c + 1) * b \<le> digitVal d * b" by (intro mult_le_mono1) simp
    then show ?thesis using 1 bs digit_order [OF c] by (simp add: p)
  next
    case 2
    then have "parseDec (c # s) < parseDec (d # t) \<longleftrightarrow> parseDec s < parseDec t" by (simp add: p)
    moreover have "c = d" using 2 digitVal_inject [OF c] by simp
    ultimately show ?thesis using 4 l by simp
  next
    case 3
    then have "(digitVal d + 1) * b \<le> digitVal c * b" by (intro mult_le_mono1) simp
    moreover have "c \<noteq> d" "\<not> (of_char c :: nat) < of_char d" using 3 digit_order [OF c] by auto
    ultimately show ?thesis using bs by (simp add: p)
  qed
qed simp_all

lemma length_decDigits_less:
  assumes "length (decDigits a) < length (decDigits b)"
  shows "a < b"
proof -
  have "0 < length (decDigits a)" by simp
  define k where "k = length (decDigits b) - 1"
  have k: "length (decDigits b) = Suc k" "0 < k" unfolding k_def using assms \<open>0 < length (decDigits a)\<close> by linarith+
  have "10 ^ k \<le> b"
  proof (rule ccontr)
    assume "\<not> 10 ^ k \<le> b"
    then have "length (decDigits b) \<le> k" using k(2) by (intro decDigits_length_le) simp_all
    with k(1) show False by simp
  qed
  moreover have "a < 10 ^ length (decDigits a)" using parseDec_less [OF isDigit_decDigits, of a] by simp
  moreover have "(10::nat) ^ length (decDigits a) \<le> 10 ^ k" using assms k(1) by (intro power_increasing) simp_all
  ultimately show ?thesis by linarith
qed

lemma script_compare:
  "(length (decDigits b) > length (decDigits a)
     \<or> (length (decDigits b) = length (decDigits a) \<and> strLess (decDigits a) (decDigits b))) \<longleftrightarrow> a < b"
proof -
  have "list_all isDigit (decDigits n)" for n using isDigit_decDigits by (simp add: list_all_iff)
  then show ?thesis
    using length_decDigits_less [of a b] length_decDigits_less [of b a] strLess_numeric [of "decDigits a" "decDigits b"]
    by (cases "length (decDigits a)" "length (decDigits b)" rule: linorder_cases) auto
qed

section \<open>The interface of a generation store\<close>

text \<open>What the comment service and the outbox dispatcher rely on: applying a generation keeps the greatest one seen.\<close>

locale generation_store =
  fixes gen :: "'s \<Rightarrow> string \<Rightarrow> int" and app :: "string \<Rightarrow> int \<Rightarrow> 's \<Rightarrow> 's" and ok :: "'s \<Rightarrow> bool"
  assumes app_ok: "ok s \<Longrightarrow> 0 \<le> g \<Longrightarrow> ok (app d g s)"
    and gen_app: "ok s \<Longrightarrow> 0 \<le> g \<Longrightarrow> gen (app d g s) e = (if e = d then max (gen s d) g else gen s e)"
begin

lemma gen_mono: "ok s \<Longrightarrow> 0 \<le> g \<Longrightarrow> gen s e \<le> gen (app d g s) e"
  by (simp add: gen_app)

lemma gen_commute:
  "ok s \<Longrightarrow> 0 \<le> g \<Longrightarrow> 0 \<le> h \<Longrightarrow> gen (app d g (app e h s)) x = gen (app e h (app d g s)) x"
  by (simp add: gen_app app_ok max.commute max.left_commute)

lemma fold_ok: "ok s \<Longrightarrow> \<forall>(d, g)\<in>set ups. 0 \<le> g \<Longrightarrow> ok (fold (\<lambda>(d, g). app d g) ups s)"
  by (induction ups arbitrary: s) (auto simp: app_ok)

lemma gen_fold:
  assumes "ok s" "\<forall>(d, g)\<in>set ups. 0 \<le> g"
  shows "gen (fold (\<lambda>(d, g). app d g) ups s) e = fold max (map snd (filter (\<lambda>u. fst u = e) ups)) (gen s e)"
  using assms
proof (induction ups arbitrary: s)
  case (Cons u ups)
  obtain d g where u: "u = (d, g)" by force
  have "ok (app d g s)" using Cons.prems u by (simp add: app_ok)
  then show ?case using Cons u by (auto simp: gen_app max.commute)
qed simp

end

text \<open>Generation keys hold decimal texts and never expire.\<close>

definition genOk :: "redis \<Rightarrow> bool" where
  "genOk r \<longleftrightarrow> (\<forall>d v e. r (generationKey d) = Some (v, e) \<longrightarrow> (\<exists>n. v = decDigits n) \<and> e = None)"

lemma generationKey_inject [simp]: "generationKey d = generationKey e \<longleftrightarrow> d = e"
  by (simp add: generationKey_def)

lemma genOk_cases:
  assumes "genOk r"
  obtains "r (generationKey d) = None" "getGeneration True r now d = 0"
  | n where "r (generationKey d) = Some (decDigits n, None)" "getGeneration True r now d = int n"
proof (cases "r (generationKey d)")
  case None
  then show thesis using that by (simp add: getGeneration_def redisGet_def)
next
  case (Some ve)
  obtain v e where ve: "ve = (v, e)" by force
  then have "(\<exists>n. v = decDigits n) \<and> e = None" using assms Some unfolding genOk_def by blast
  then obtain n where "r (generationKey d) = Some (decDigits n, None)" using Some ve by auto
  moreover have "list_all isDigit (decDigits n)" using isDigit_decDigits by (simp add: list_all_iff)
  ultimately show thesis using that(2) by (simp add: getGeneration_def redisGet_def)
qed

lemma applyGeneration_cases:
  assumes "genOk r" "0 \<le> g"
  shows "applyGeneration True r now d g =
    (if r (generationKey d) = None \<or> getGeneration True r now d < g
     then r(generationKey d \<mapsto> (decDigits (nat g), None)) else r)"
  using assms(1)
proof (rule genOk_cases [of r d now])
  assume "r (generationKey d) = None"
  then show ?thesis using assms(2)
    by (simp add: applyGeneration_def applyGenerationStrict_def applyGenerationScript_def redisGet_def toString_nonneg)
next
  fix n assume n: "r (generationKey d) = Some (decDigits n, None)" "getGeneration True r now d = int n"
  then show ?thesis using assms(2) script_compare [where a = n and b = "nat g"]
    by (simp add: applyGeneration_def applyGenerationStrict_def applyGenerationScript_def redisGet_def toString_nonneg) linarith
qed

lemma getGeneration_upd:
  "getGeneration True (r(generationKey d \<mapsto> (decDigits n, None))) now e = (if e = d then int n else getGeneration True r now e)"
  using isDigit_decDigits [of n] by (simp add: getGeneration_def redisGet_def list_all_iff)

lemma getGeneration_absent: "r (generationKey d) = None \<Longrightarrow> getGeneration True r now d = 0"
  by (simp add: getGeneration_def redisGet_def)

interpretation redisGen: generation_store "\<lambda>r. getGeneration True r now" "\<lambda>d g r. applyGeneration True r now d g" genOk
  for now
proof
  fix s :: redis and g :: int and d e
  assume ok: "genOk s" and g: "0 \<le> g"
  show "genOk (applyGeneration True s now d g)"
    using ok g unfolding applyGeneration_cases [OF ok g] genOk_def by auto
  show "getGeneration True (applyGeneration True s now d g) now e
    = (if e = d then max (getGeneration True s now d) g else getGeneration True s now e)"
    unfolding applyGeneration_cases [OF ok g] using g getGeneration_absent [of s d now]
    by (auto simp: getGeneration_upd)
qed

section \<open>Properties\<close>

text \<open>C26. Applying cache generations is a running maximum per domain, although the script compares decimal texts by
  length and then by character: after any sequence of updates, in any order, with repetitions, the generation read
  back for a domain is the greatest of the previous one and of those applied to that domain; other domains keep theirs.\<close>

theorem generation_is_maximum:
  assumes "genOk r" and "\<forall>(d, g)\<in>set updates. 0 \<le> g"
  shows "getGeneration True (fold (\<lambda>(d, g) r. applyGeneration True r now d g) updates r) now domain
    = fold max (map snd (filter (\<lambda>u. fst u = domain) updates)) (getGeneration True r now domain)"
  using redisGen.gen_fold [OF assms] by (simp add: case_prod_unfold)

theorem generation_is_maximum_witness:
  "getGeneration True (fold (\<lambda>(d, g) r. applyGeneration True r 0 d g) [(''c'', 9), (''c'', 10), (''x'', 99), (''c'', 3)] Map.empty) 0 ''c'' = 10"
proof -
  have "genOk Map.empty" "\<forall>(d, g)\<in>set [(''c'', 9), (''c'', 10), (''x'', 99), (''c'', 3 :: int)]. 0 \<le> g"
    by (simp_all add: genOk_def)
  from generation_is_maximum [OF this, of 0 "''c''"] show ?thesis by (simp add: getGeneration_absent)
qed

end
