(* ===== verification/Outbox.thy ===== *)
theory Outbox
  imports Cache "HOL-Library.Multiset"
begin

text \<open>
  Model of \<open>src/src/infrastructure/queue/outbox-dispatcher.ts\<close>. The table is a list of rows; the two database
  steps of a dispatch (the claiming transaction, then one update per event) are separate functions, so that other
  writers can come in between. \<open>now\<close> is the clock of the claim, \<open>up\<close> tells for each event whether Redis answers.
\<close>

record outbox_event =
  ob_id :: nat
  ob_topic :: string
  ob_payload :: jsv
  ob_createdAt :: int
  ob_availableAt :: int
  ob_publishedAt :: "int option"
  ob_leaseOwner :: "string option"
  ob_leaseExpiresAt :: "int option"
  ob_attempts :: int
  ob_lastError :: "string option"

definition COMMENT_CACHE_EVENT :: string where
  "COMMENT_CACHE_EVENT = ''APPLY_CACHE_GENERATION''"

section \<open>Claiming\<close>

definition leaseFree :: "int \<Rightarrow> outbox_event \<Rightarrow> bool" where
  "leaseFree now e \<longleftrightarrow> ob_publishedAt e = None \<and> (case ob_leaseExpiresAt e of None \<Rightarrow> True | Some t \<Rightarrow> t < now)"

definition outboxCandidates :: "int \<Rightarrow> outbox_event list \<Rightarrow> outbox_event list" where
  "outboxCandidates now tbl = take 50 (sort_key ob_createdAt (filter (\<lambda>e. leaseFree now e \<and> ob_availableAt e \<le> now) tbl))"

definition claimBatch :: "string \<Rightarrow> int \<Rightarrow> outbox_event list \<Rightarrow> outbox_event list \<times> outbox_event list" where
  "claimBatch owner now tbl =
     (let ids = map ob_id (outboxCandidates now tbl);
          tbl' = map (\<lambda>e. if ob_id e \<in> set ids \<and> leaseFree now e
                   then e\<lparr>ob_leaseOwner := Some owner, ob_leaseExpiresAt := Some (now + 30000)\<rparr> else e) tbl
      in (sort_key ob_createdAt (filter (\<lambda>e. ob_id e \<in> set ids \<and> ob_leaseOwner e = Some owner \<and> ob_publishedAt e = None) tbl'),
          tbl'))"

section \<open>Delivery\<close>

text \<open>A field of a JSON object; an absent one is \<open>undefined\<close>.\<close>

definition jsField :: "string \<Rightarrow> (string \<times> jsv) list \<Rightarrow> jsv" where
  "jsField k kvs = (case map_of kvs k of None \<Rightarrow> JUndefined | Some v \<Rightarrow> v)"

definition cachePayload :: "jsv \<Rightarrow> (string \<times> string) option" where
  "cachePayload payload = (case payload of
     JObj kvs \<Rightarrow> (case (jsField ''domain'' kvs, jsField ''generation'' kvs) of
         (JStr domain, JStr generation) \<Rightarrow>
           if generation \<noteq> [] \<and> list_all isDigit generation then Some (domain, generation) else None
       | _ \<Rightarrow> None)
   | _ \<Rightarrow> None)"

definition applyCacheGeneration :: "bool \<Rightarrow> int \<Rightarrow> jsv \<Rightarrow> redis \<Rightarrow> redis result" where
  "applyCacheGeneration up now payload r = (case cachePayload payload of
     None \<Rightarrow> Inl (JsError ''Invalid cache generation payload'')
   | Some (domain, generation) \<Rightarrow> applyGenerationStrict up r now domain (int (parseDec generation)))"

definition mine :: "string \<Rightarrow> outbox_event \<Rightarrow> outbox_event \<Rightarrow> bool" where
  "mine owner event e \<longleftrightarrow> ob_id e = ob_id event \<and> ob_leaseOwner e = Some owner \<and> ob_publishedAt e = None"

definition finalizeEvent :: "string \<Rightarrow> int \<Rightarrow> outbox_event \<Rightarrow> outbox_event list \<Rightarrow> outbox_event list" where
  "finalizeEvent owner now event tbl =
     map (\<lambda>e. if mine owner event e
        then e\<lparr>ob_publishedAt := Some now, ob_attempts := ob_attempts e + 1, ob_leaseOwner := None,
               ob_leaseExpiresAt := None, ob_lastError := None\<rparr> else e) tbl"

definition releaseEvent :: "string \<Rightarrow> string \<Rightarrow> outbox_event \<Rightarrow> outbox_event list \<Rightarrow> outbox_event list" where
  "releaseEvent owner err event tbl =
     map (\<lambda>e. if mine owner event e
        then e\<lparr>ob_attempts := ob_attempts e + 1, ob_lastError := Some (take 1000 err), ob_leaseOwner := None,
               ob_leaseExpiresAt := None\<rparr> else e) tbl"

definition errorMessage :: "exn \<Rightarrow> string" where
  "errorMessage x = (case x of JsError m \<Rightarrow> m | _ \<Rightarrow> ''Unknown error'')"

definition deliverEvent :: "string \<Rightarrow> (nat \<Rightarrow> bool) \<Rightarrow> int \<Rightarrow> outbox_event
    \<Rightarrow> redis \<times> outbox_event list \<times> nat \<Rightarrow> redis \<times> outbox_event list \<times> nat" where
  "deliverEvent owner up now event = (\<lambda>(r, tbl, published).
     case (if ob_topic event \<noteq> COMMENT_CACHE_EVENT
           then Inl (JsError (''Unsupported outbox topic: '' @ ob_topic event))
           else applyCacheGeneration (up (ob_id event)) now (ob_payload event) r) of
       Inr r' \<Rightarrow> (r', finalizeEvent owner now event tbl,
          if length (filter (mine owner event) tbl) = 1 then published + 1 else published)
     | Inl x \<Rightarrow> (r, releaseEvent owner (errorMessage x) event tbl, published))"

definition dispatchBatch :: "string \<Rightarrow> (nat \<Rightarrow> bool) \<Rightarrow> int \<Rightarrow> redis \<Rightarrow> outbox_event list \<Rightarrow> redis \<times> outbox_event list \<times> nat" where
  "dispatchBatch owner up now r tbl =
     (let (events, tbl') = claimBatch owner now tbl
      in fold (deliverEvent owner up now) events (r, tbl', 0))"

section \<open>Lemmas\<close>

lemma ids_preserved [simp]:
  "map ob_id (finalizeEvent owner now event tbl) = map ob_id tbl"
  "map ob_id (releaseEvent owner err event tbl) = map ob_id tbl"
  "map ob_id (snd (claimBatch owner now tbl)) = map ob_id tbl"
  by (simp_all add: finalizeEvent_def releaseEvent_def claimBatch_def Let_def comp_def)

lemma deliver_ids [simp]: "map ob_id (fst (snd (deliverEvent owner up now event st))) = map ob_id (fst (snd st))"
  by (simp add: deliverEvent_def split: prod.split sum.split)

text \<open>What a delivery attempt does to a leased row, and what it applies to the cache; neither depends on the cache.\<close>

definition deliverError :: "(nat \<Rightarrow> bool) \<Rightarrow> outbox_event \<Rightarrow> string option" where
  "deliverError up event =
     (if ob_topic event \<noteq> COMMENT_CACHE_EVENT then Some (''Unsupported outbox topic: '' @ ob_topic event)
      else if cachePayload (ob_payload event) = None then Some ''Invalid cache generation payload''
      else if up (ob_id event) then None else Some ''redis unavailable'')"

definition settledRow :: "(nat \<Rightarrow> bool) \<Rightarrow> int \<Rightarrow> outbox_event \<Rightarrow> outbox_event" where
  "settledRow up now e = (case deliverError up e of
     None \<Rightarrow> e\<lparr>ob_publishedAt := Some now, ob_attempts := ob_attempts e + 1, ob_leaseOwner := None,
               ob_leaseExpiresAt := None, ob_lastError := None\<rparr>
   | Some err \<Rightarrow> e\<lparr>ob_attempts := ob_attempts e + 1, ob_lastError := Some (take 1000 err), ob_leaseOwner := None,
               ob_leaseExpiresAt := None\<rparr>)"

definition settledUpdates :: "(nat \<Rightarrow> bool) \<Rightarrow> outbox_event list \<Rightarrow> (string \<times> int) list" where
  "settledUpdates up events = map (\<lambda>e. case cachePayload (ob_payload e) of
       Some (domain, generation) \<Rightarrow> (domain, int (parseDec generation)) | None \<Rightarrow> ([], 0))
     (filter (\<lambda>e. deliverError up e = None) events)"

lemma deliverEvent_eq:
  "deliverEvent owner up now v (r, tbl, n) =
     (fold (\<lambda>(d, g) r. applyGeneration True r now d g) (settledUpdates up [v]) r,
      map (\<lambda>e. if mine owner v e then (case deliverError up v of
            None \<Rightarrow> e\<lparr>ob_publishedAt := Some now, ob_attempts := ob_attempts e + 1, ob_leaseOwner := None,
               ob_leaseExpiresAt := None, ob_lastError := None\<rparr>
          | Some err \<Rightarrow> e\<lparr>ob_attempts := ob_attempts e + 1, ob_lastError := Some (take 1000 err), ob_leaseOwner := None,
               ob_leaseExpiresAt := None\<rparr>) else e) tbl,
      n + (if deliverError up v = None \<and> length (filter (mine owner v) tbl) = 1 then 1 else 0))"
  by (auto simp: deliverEvent_def deliverError_def settledUpdates_def applyCacheGeneration_def applyGenerationStrict_def
      applyGeneration_def finalizeEvent_def releaseEvent_def errorMessage_def split: option.split)

lemma settledRow_id [simp]: "ob_id (settledRow up now e) = ob_id e"
  by (simp add: settledRow_def split: option.split)

lemma settledUpdates_Cons: "settledUpdates up (v # vs) = settledUpdates up [v] @ settledUpdates up vs"
  by (simp add: settledUpdates_def)

lemma same_id_same_row: "distinct (map ob_id tbl) \<Longrightarrow> a \<in> set tbl \<Longrightarrow> b \<in> set tbl \<Longrightarrow> ob_id a = ob_id b \<Longrightarrow> a = b"
  by (metis distinct_map inj_onD)

lemma deliver_leased:
  assumes "distinct (map ob_id tbl)" "v \<in> set tbl" "mine owner v v"
  shows "deliverEvent owner up now v (r, tbl, n) =
     (fold (\<lambda>(d, g) r. applyGeneration True r now d g) (settledUpdates up [v]) r,
      map (\<lambda>e. if e = v then settledRow up now e else e) tbl, n + length (filter (\<lambda>e. deliverError up e = None) [v]))"
proof -
  have m: "mine owner v e \<longleftrightarrow> e = v" if "e \<in> set tbl" for e
    using that assms same_id_same_row [of tbl e v] by (auto simp: mine_def)
  then have "filter (mine owner v) tbl = filter (\<lambda>e. e = v) tbl" by (intro filter_cong) simp_all
  also have "\<dots> = [v]" using assms(1,2) by (induction tbl) (auto simp: filter_empty_conv)
  finally show ?thesis unfolding deliverEvent_eq using m by (auto simp: settledRow_def)
qed

lemma fold_deliver:
  assumes "distinct (map ob_id tbl)" "distinct (map ob_id events)" "set events \<subseteq> set tbl" "\<forall>v\<in>set events. mine owner v v"
  shows "fold (deliverEvent owner up now) events (r, tbl, n) =
     (fold (\<lambda>(d, g) r. applyGeneration True r now d g) (settledUpdates up events) r,
      map (\<lambda>e. if e \<in> set events then settledRow up now e else e) tbl, n + length (filter (\<lambda>e. deliverError up e = None) events))"
  using assms
proof (induction events arbitrary: r tbl n)
  case (Cons v events)
  define tbl1 where "tbl1 = map (\<lambda>e. if e = v then settledRow up now e else e) tbl"
  have ids: "map ob_id tbl1 = map ob_id tbl" by (simp add: tbl1_def)
  have v: "v \<notin> set events" "settledRow up now v \<notin> set events"
    using Cons.prems(2) by (auto dest: arg_cong [where f = ob_id] intro: image_eqI [where f = ob_id])
       (metis image_eqI settledRow_id)
  have sub: "set events \<subseteq> set tbl1" using Cons.prems(3) v(1) by (auto simp: tbl1_def)
  have "map (\<lambda>e. if e \<in> set events then settledRow up now e else e) tbl1
      = map (\<lambda>e. if e \<in> set (v # events) then settledRow up now e else e) tbl"
    using v by (simp add: tbl1_def)
  moreover have "distinct (map ob_id tbl1)" "distinct (map ob_id events)" "\<forall>v\<in>set events. mine owner v v"
    using Cons.prems by (simp_all add: ids)
  ultimately show ?case
    using Cons.IH [OF _ _ sub] Cons.prems deliver_leased [of tbl v owner up now r n]
      settledUpdates_Cons [of up v events]
    by (simp add: tbl1_def [symmetric])
qed (simp add: settledUpdates_def)

definition leased :: "string \<Rightarrow> int \<Rightarrow> outbox_event \<Rightarrow> outbox_event" where
  "leased owner now e = e\<lparr>ob_leaseOwner := Some owner, ob_leaseExpiresAt := Some (now + 30000)\<rparr>"

lemma leased_simps [simp]:
  "ob_id (leased owner now e) = ob_id e" "ob_createdAt (leased owner now e) = ob_createdAt e"
  "ob_publishedAt (leased owner now e) = ob_publishedAt e" "ob_leaseOwner (leased owner now e) = Some owner"
  "deliverError up (leased owner now e) = deliverError up e" "settledRow up now (leased owner now e) = settledRow up now e"
  by (simp_all add: leased_def deliverError_def settledRow_def split: option.split)

lemma candidates_sub: "set (outboxCandidates now tbl) \<subseteq> {e \<in> set tbl. leaseFree now e \<and> ob_availableAt e \<le> now}"
  unfolding outboxCandidates_def using set_take_subset by fastforce

lemma distinct_candidates: "distinct (map ob_id tbl) \<Longrightarrow> distinct (map ob_id (outboxCandidates now tbl))"
proof -
  assume "distinct (map ob_id tbl)"
  then have "distinct (map ob_id (filter P tbl))" for P by (rule distinct_map_filter)
  then have "distinct (map ob_id (sort_key ob_createdAt (filter P tbl)))" for P by (simp add: distinct_map)
  then show ?thesis unfolding outboxCandidates_def by (simp add: take_map [symmetric])
qed

lemma claimBatch_spec:
  fixes now :: int and tbl :: "outbox_event list"
  assumes "distinct (map ob_id tbl)"
  defines "cs \<equiv> set (outboxCandidates now tbl)"
  shows "snd (claimBatch owner now tbl) = map (\<lambda>e. if e \<in> cs then leased owner now e else e) tbl"
    and "mset (fst (claimBatch owner now tbl)) = mset (map (leased owner now) (outboxCandidates now tbl))"
proof -
  let ?ids = "map ob_id (outboxCandidates now tbl)"
  have in_ids: "ob_id e \<in> set ?ids \<longleftrightarrow> e \<in> cs" if "e \<in> set tbl" for e
    using that candidates_sub [of now tbl] same_id_same_row [OF assms(1)] by (auto simp: cs_def)
  have free: "leaseFree now e" if "e \<in> cs" for e using that candidates_sub [of now tbl] by (auto simp: cs_def)
  show t: "snd (claimBatch owner now tbl) = map (\<lambda>e. if e \<in> cs then leased owner now e else e) tbl"
    using in_ids free unfolding claimBatch_def Let_def by (auto simp: leased_def)
  let ?P = "\<lambda>e. ob_id e \<in> set ?ids \<and> ob_leaseOwner e = Some owner \<and> ob_publishedAt e = None"
  have "fst (claimBatch owner now tbl) = sort_key ob_createdAt (filter ?P (snd (claimBatch owner now tbl)))"
    by (simp add: claimBatch_def Let_def)
  then have m: "mset (fst (claimBatch owner now tbl)) = mset (filter ?P (snd (claimBatch owner now tbl)))" by simp
  have "filter ?P (snd (claimBatch owner now tbl)) = map (leased owner now) (filter (\<lambda>e. e \<in> cs) tbl)"
  proof -
    have "filter ?P (map (\<lambda>e. if e \<in> cs then leased owner now e else e) xs) = map (leased owner now) (filter (\<lambda>e. e \<in> cs) xs)"
      if "set xs \<subseteq> set tbl" for xs using that
    proof (induction xs)
      case (Cons x xs)
      have "?P (if x \<in> cs then leased owner now x else x) \<longleftrightarrow> x \<in> cs"
        using in_ids [of x] free [of x] Cons.prems by (auto simp: leaseFree_def)
      then show ?case using Cons by auto
    qed simp
    then show ?thesis unfolding t by simp
  qed
  moreover have "mset (filter (\<lambda>e. e \<in> cs) tbl) = mset (outboxCandidates now tbl)"
  proof -
    have "distinct tbl" "distinct (outboxCandidates now tbl)"
      using assms(1) distinct_candidates [OF assms(1), of now] by (auto simp: distinct_map)
    moreover have "set (filter (\<lambda>e. e \<in> cs) tbl) = set (outboxCandidates now tbl)"
      using candidates_sub [of now tbl] by (auto simp: cs_def)
    ultimately show ?thesis by (intro set_eq_iff_mset_eq_distinct [THEN iffD1]) simp_all
  qed
  ultimately show "mset (fst (claimBatch owner now tbl)) = mset (map (leased owner now) (outboxCandidates now tbl))"
    using m by (simp add: image_mset_def [symmetric])
qed

lemma settledUpdates_leased [simp]: "settledUpdates up (map (leased owner now) es) = settledUpdates up es"
  by (induction es) (simp_all add: settledUpdates_def leased_def deliverError_def)

lemma settledUpdates_set_cong: "mset a = mset b \<Longrightarrow> set (settledUpdates up a) = set (settledUpdates up b)"
  by (auto simp: settledUpdates_def dest!: mset_eq_setD)

lemma settledUpdates_nonneg: "\<forall>(d, g)\<in>set (settledUpdates up es). 0 \<le> g"
  by (auto simp: settledUpdates_def split: option.splits)

lemma dispatchBatch_eq:
  fixes now :: int and tbl :: "outbox_event list" and owner :: string
  assumes d: "distinct (map ob_id tbl)"
  defines "cs \<equiv> outboxCandidates now tbl" and "es \<equiv> fst (claimBatch owner now tbl)"
  shows "dispatchBatch owner up now r tbl =
    (fold (\<lambda>(d, g) r. applyGeneration True r now d g) (settledUpdates up es) r,
     map (\<lambda>e. if e \<in> set cs then settledRow up now e else e) tbl, length (filter (\<lambda>e. deliverError up e = None) cs))"
proof -
  note c = claimBatch_spec [OF d, where now = now and owner = owner, folded cs_def es_def]
  let ?tbl = "snd (claimBatch owner now tbl)"
  have "mset (map ob_id es) = image_mset ob_id (mset es)" by simp
  also have "\<dots> = mset (map ob_id cs)" unfolding c(2) by (simp add: image_mset.compositionality comp_def)
  finally have ids: "distinct (map ob_id es)" using distinct_candidates [OF d, of now] mset_eq_imp_distinct_iff
    unfolding cs_def by blast
  have es: "set es = leased owner now ` set cs" using mset_eq_setD [OF c(2)] by simp
  have sub: "set es \<subseteq> set ?tbl" unfolding c(1) es using candidates_sub [of now tbl] by (auto simp: cs_def)
  have own: "\<forall>v\<in>set es. mine owner v v" using candidates_sub [of now tbl] unfolding es
    by (auto simp: mine_def cs_def leaseFree_def)
  have "map (\<lambda>e. if e \<in> set es then settledRow up now e else e) ?tbl
      = map (\<lambda>e. if e \<in> set cs then settledRow up now e else e) tbl"
  proof -
    have "e \<in> set cs" if "e \<in> set tbl" "e \<in> set es" for e
    proof -
      obtain c where c: "c \<in> set cs" "e = leased owner now c" using \<open>e \<in> set es\<close> es by auto
      then have "c = e" using same_id_same_row [OF d, of c e] that candidates_sub [of now tbl] by (auto simp: cs_def)
      then show ?thesis using c by simp
    qed
    then show ?thesis unfolding c(1) using es by (auto intro!: map_cong)
  qed
  moreover have "length (filter (\<lambda>e. deliverError up e = None) es) = length (filter (\<lambda>e. deliverError up e = None) cs)"
  proof -
    have "mset (filter (\<lambda>e. deliverError up e = None) es) = filter_mset (\<lambda>e. deliverError up e = None) (mset (map (leased owner now) cs))"
      using c(2) by simp
    also have "\<dots> = mset (map (leased owner now) (filter (\<lambda>e. deliverError up e = None) cs))"
      by (induction cs) simp_all
    finally show ?thesis by (metis length_map mset_eq_length)
  qed
  ultimately show ?thesis
    using fold_deliver [OF _ ids sub own, of up now r 0] d
    by (simp add: dispatchBatch_def case_prod_beta es_def)
qed

lemma dispatchBatch_generation:
  assumes "distinct (map ob_id tbl)" and "genOk r"
  shows "genOk (fst (dispatchBatch owner up now r tbl))"
    and "getGeneration True (fst (dispatchBatch owner up now r tbl)) now domain
      = Max (insert (getGeneration True r now domain)
          {g. (domain, g) \<in> set (settledUpdates up (outboxCandidates now tbl))})"
proof -
  let ?es = "fst (claimBatch owner now tbl)"
  note eq = dispatchBatch_eq [OF assms(1), of owner up now r]
  show "genOk (fst (dispatchBatch owner up now r tbl))"
    using redisGen.fold_ok [OF assms(2) settledUpdates_nonneg] unfolding eq by (simp add: case_prod_unfold)
  have s: "set (settledUpdates up ?es) = set (settledUpdates up (outboxCandidates now tbl))"
    using settledUpdates_set_cong [OF claimBatch_spec(2) [OF assms(1)]] by simp
  let ?gs = "map snd (filter (\<lambda>u. fst u = domain) (settledUpdates up ?es))"
  have "getGeneration True (fst (dispatchBatch owner up now r tbl)) now domain
      = fold max ?gs (getGeneration True r now domain)"
    using redisGen.gen_fold [OF assms(2) settledUpdates_nonneg] unfolding eq by (simp add: case_prod_unfold)
  also have "\<dots> = Max (insert (getGeneration True r now domain) (set ?gs))"
    by (simp only: Max.set_eq_fold [symmetric] list.set)
  also have "set ?gs = {g. (domain, g) \<in> set (settledUpdates up ?es)}" by force
  finally show "getGeneration True (fst (dispatchBatch owner up now r tbl)) now domain
      = Max (insert (getGeneration True r now domain)
          {g. (domain, g) \<in> set (settledUpdates up (outboxCandidates now tbl))})" by (simp only: s)
qed

text \<open>C25. One dispatch of the outbox, row by row: exactly the (at most 50, oldest first) unpublished, due rows without a live
  lease are attempted; a delivered one is published with its lease cleared, any other one keeps waiting with its error
  recorded, its attempt counted and its lease released; every other row is untouched; the number returned is that of the
  deliveries; and the cache ends, for every domain, at the greatest of its previous generation and the delivered ones.\<close>

theorem dispatchBatch_outcome:
  assumes "distinct (map ob_id tbl)" and "genOk r"
  shows "snd (dispatchBatch owner up now r tbl) =
      (map (\<lambda>e. if e \<in> set (outboxCandidates now tbl) then settledRow up now e else e) tbl,
       length (filter (\<lambda>e. deliverError up e = None) (outboxCandidates now tbl)))
    \<and> getGeneration True (fst (dispatchBatch owner up now r tbl)) now domain
      = Max (insert (getGeneration True r now domain)
          {g. (domain, g) \<in> set (settledUpdates up (outboxCandidates now tbl))})"
proof
  show "snd (dispatchBatch owner up now r tbl) =
      (map (\<lambda>e. if e \<in> set (outboxCandidates now tbl) then settledRow up now e else e) tbl,
       length (filter (\<lambda>e. deliverError up e = None) (outboxCandidates now tbl)))"
    using dispatchBatch_eq [OF assms(1), of owner up now r] by simp
qed (rule dispatchBatch_generation(2) [OF assms])

text \<open>Three rows: a due generation event, an unsupported topic, and one that is not yet available.\<close>

definition exampleOutbox :: "outbox_event list" where
  "exampleOutbox =
     (let row = (\<lambda>i topic g due. \<lparr>ob_id = i, ob_topic = topic, ob_payload = JObj [(''domain'', JStr ''c''), (''generation'', JStr g)],
          ob_createdAt = 5, ob_availableAt = due, ob_publishedAt = None, ob_leaseOwner = None, ob_leaseExpiresAt = None,
          ob_attempts = 0, ob_lastError = None\<rparr>)
      in [row 1 COMMENT_CACHE_EVENT ''12'' 5, row 2 ''OTHER'' ''99'' 5, row 3 COMMENT_CACHE_EVENT ''13'' 500])"

theorem dispatchBatch_outcome_witness:
  "map ob_publishedAt (fst (snd (dispatchBatch ''w'' (\<lambda>_. True) 100 Map.empty exampleOutbox))) = [Some 100, None, None]
    \<and> snd (snd (dispatchBatch ''w'' (\<lambda>_. True) 100 Map.empty exampleOutbox)) = 1
    \<and> getGeneration True (fst (dispatchBatch ''w'' (\<lambda>_. True) 100 Map.empty exampleOutbox)) 100 ''c'' = 12"
proof -
  have "distinct (map ob_id exampleOutbox)" by (simp add: exampleOutbox_def Let_def)
  moreover have "genOk Map.empty" by (simp add: genOk_def)
  moreover have "map ob_publishedAt (map (\<lambda>e. if e \<in> set (outboxCandidates 100 exampleOutbox) then settledRow (\<lambda>_. True) 100 e else e) exampleOutbox)
     = [Some 100, None, None]" by code_simp
  moreover have "length (filter (\<lambda>e. deliverError (\<lambda>_. True) e = None) (outboxCandidates 100 exampleOutbox)) = 1" by code_simp
  moreover have "settledUpdates (\<lambda>_. True) (outboxCandidates 100 exampleOutbox) = [(''c'', 12)]" by code_simp
  moreover have "{g. (''c'', g) \<in> set [(''c'', 12)]} = {12 :: int}" by auto
  moreover have "getGeneration True Map.empty 100 ''c'' = 0" by (simp add: getGeneration_absent)
  ultimately show ?thesis
    using dispatchBatch_outcome [of exampleOutbox Map.empty "''w''" "\<lambda>_. True" 100 "''c''"] by simp
qed

end
