(* ===== verification/CommentStore.thy ===== *)
theory CommentStore
  imports Outbox
begin

text \<open>
  The database side of \<open>src/src/modules/comments/\<close>: the token references (\<open>comment-token-resolver.ts\<close>) and the
  transactions of \<open>comments.service.ts\<close>, \<open>comment-likes.service.ts\<close> and \<open>comment-cache-generation.ts\<close>, over a record
  of the tables they touch. A transaction is a function to \<open>result\<close>: its \<open>Inl\<close> is a rollback. Random ids (\<open>randomUUID\<close>,
  \<open>@default(uuid())\<close>) and clocks are arguments; an id that is already taken is the unique violation \<open>P2002\<close>, so no
  freshness is assumed. The step relation \<open>commentStep\<close> has one rule per committed transaction.
\<close>

section \<open>Token references\<close>

record token_row =
  tk_id :: string
  tk_chainId :: int
  tk_token :: "string option"
  tk_name :: string
  tk_symbol :: string
  tk_uri :: string
  tk_source :: string

text \<open>The indexer's schema, reached only through raw SQL text: what the database answers to each query.\<close>

record sink =
  sk_pools :: "string \<Rightarrow> string option list"
  sk_tokens :: "string \<Rightarrow> (string option \<times> string option \<times> string option) list"

definition SQUOTE :: char where
  "SQUOTE = CHR 0x27"

definition poolSql :: "string \<Rightarrow> string" where
  "poolSql ref = ''SELECT token FROM public.pools WHERE pool_id = '' @ [SQUOTE] @ ref @ [SQUOTE] @ '' LIMIT 1''"

definition tokenSql :: "string \<Rightarrow> string" where
  "tokenSql token = ''SELECT name, symbol, uri FROM public.tokens WHERE token = '' @ [SQUOTE] @ token @ [SQUOTE]"

definition uuidLike :: "string \<Rightarrow> bool" where
  "uuidLike s \<longleftrightarrow> length s = 36 \<and> list_all (\<lambda>(i, c).
     if i \<in> {8, 13, 18, 23} then c = CHR ''-''
     else if i = 14 then c \<in> set ''12345''
     else if i = 19 then c \<in> set ''89ab''
     else isHexLower c) (enumerate 0 s)"

text \<open>JavaScript's \<open>value || fallback\<close> on a nullable string.\<close>

definition jsOr :: "string option \<Rightarrow> string \<Rightarrow> string" where
  "jsOr v fallback = (case v of None \<Rightarrow> fallback | Some s \<Rightarrow> if s = [] then fallback else s)"

definition findToken :: "int \<Rightarrow> string \<Rightarrow> token_row list \<Rightarrow> token_row option" where
  "findToken chain token tokens = find (\<lambda>t. tk_chainId t = chain \<and> tk_token t = Some token) tokens"

text \<open>\<open>raced\<close> are rows that other transactions commit between the caller's lookup and the insertion; \<open>newId\<close> is the
  generated key. The unique index is on chain and token address.\<close>

definition provisionFromSink :: "sink \<Rightarrow> token_row list \<Rightarrow> string \<Rightarrow> int \<Rightarrow> string \<Rightarrow> token_row list
    \<Rightarrow> token_row list \<times> string option" where
  "provisionFromSink sk raced newId chain token tokens =
     (case sk_tokens sk (tokenSql token) of
        [] \<Rightarrow> (tokens, None)
      | (name, symbol, uri) # _ \<Rightarrow>
          let seen = tokens @ raced in
          if newId \<notin> tk_id ` set seen \<and> findToken chain token seen = None
          then (seen @ [\<lparr>tk_id = newId, tk_chainId = chain, tk_token = Some token, tk_name = jsOr name token,
                  tk_symbol = take 12 (jsOr symbol ''UNKNOWN''), tk_uri = (case uri of None \<Rightarrow> [] | Some u \<Rightarrow> u),
                  tk_source = ''INDEXER''\<rparr>], Some newId)
          else (seen, map_option tk_id (findToken chain token seen)))"

definition resolveByAddress :: "sink \<Rightarrow> token_row list \<Rightarrow> string \<Rightarrow> int \<Rightarrow> string \<Rightarrow> token_row list
    \<Rightarrow> token_row list \<times> string option" where
  "resolveByAddress sk raced newId chain token tokens =
     (case findToken chain token tokens of
        Some t \<Rightarrow> (tokens, Some (tk_id t))
      | None \<Rightarrow> provisionFromSink sk raced newId chain token tokens)"

definition orNotFound :: "token_row list \<times> string option \<Rightarrow> (token_row list \<times> string) result" where
  "orNotFound = (\<lambda>(tokens, found). case found of
     None \<Rightarrow> Inl (NotFoundException ''TOKEN_NOT_FOUND'') | Some i \<Rightarrow> Inr (tokens, i))"

definition resolve :: "sink \<Rightarrow> token_row list \<Rightarrow> string \<Rightarrow> int \<Rightarrow> string \<Rightarrow> token_row list
    \<Rightarrow> (token_row list \<times> string) result" where
  "resolve sk raced newId chain tokenRef tokens =
     (let normalized = toLowerCase tokenRef in
      if uuidLike normalized
      then orNotFound (tokens, map_option tk_id (find (\<lambda>t. tk_id t = normalized) tokens))
      else if startsWith ''0x'' normalized \<and> length normalized = 42
      then orNotFound (resolveByAddress sk raced newId chain normalized tokens)
      else if startsWith ''0x'' normalized \<and> length normalized = 66
      then (case sk_pools sk (poolSql normalized) of
              Some token # _ \<Rightarrow>
                if token = [] then Inl (NotFoundException ''TOKEN_NOT_FOUND'')
                else orNotFound (resolveByAddress sk raced newId chain (toLowerCase token) tokens)
            | _ \<Rightarrow> Inl (NotFoundException ''TOKEN_NOT_FOUND''))
      else Inl (NotFoundException ''TOKEN_NOT_FOUND''))"

section \<open>Tables\<close>

record comment_row =
  cm_id :: string
  cm_tokenDbId :: string
  cm_walletAddress :: string
  cm_parentId :: "string option"
  cm_rootId :: string
  cm_depth :: int
  cm_text :: "string option"
  cm_isDeleted :: bool
  cm_likeCount :: int
  cm_replyCount :: int
  cm_createdAt :: int
  cm_deletedAt :: "int option"

datatype idempotency_state = IN_PROGRESS | COMPLETED | FAILED

record idempotency_row =
  idm_requestHash :: string
  idm_state :: idempotency_state
  idm_responseStatus :: "int option"
  idm_resourceId :: "string option"
  idm_expiresAt :: int

record comment_db =
  db_tokens :: "token_row list"
  db_comments :: "comment_row list"
  db_likes :: "(string \<times> string) list"
  db_profiles :: "string list"
  db_idempotency :: "string \<times> string \<times> string \<rightharpoonup> idempotency_row"
  db_generations :: "string \<rightharpoonup> int"
  db_outbox :: "outbox_event list"

record comment_input =
  ci_walletAddress :: "string option"
  ci_text :: string
  ci_parentCommentId :: "string option"

definition COMMENT_SCOPE :: string where
  "COMMENT_SCOPE = ''POST:/api/v1/tokens/:tokenRef/comments''"

definition IDEMPOTENCY_RETENTION_MS :: int where
  "IDEMPOTENCY_RETENTION_MS = 30 * 24 * 60 * 60 * 1000"

definition findComment :: "comment_db \<Rightarrow> string \<Rightarrow> comment_row option" where
  "findComment db i = find (\<lambda>c. cm_id c = i) (db_comments db)"

definition updateComment :: "string \<Rightarrow> (comment_row \<Rightarrow> comment_row) \<Rightarrow> comment_db \<Rightarrow> comment_db" where
  "updateComment i f db = db\<lparr>db_comments := map (\<lambda>c. if cm_id c = i then f c else c) (db_comments db)\<rparr>"

definition upsertProfile :: "string \<Rightarrow> comment_db \<Rightarrow> comment_db" where
  "upsertProfile w db = (if w \<in> set (db_profiles db) then db else db\<lparr>db_profiles := db_profiles db @ [w]\<rparr>)"

section \<open>Cache generations\<close>

definition commentCacheDomain :: "string \<Rightarrow> string" where
  "commentCacheDomain tokenId = ''comments:'' @ tokenId"

definition advanceCommentCacheGeneration :: "nat \<Rightarrow> int \<Rightarrow> string \<Rightarrow> comment_db \<Rightarrow> (comment_db \<times> int) result" where
  "advanceCommentCacheGeneration eventId now tokenId db =
     (let domain = commentCacheDomain tokenId;
          generation = (case db_generations db domain of None \<Rightarrow> 1 | Some g \<Rightarrow> g + 1)
      in if eventId \<in> ob_id ` set (db_outbox db) then Inl (PrismaError ''P2002'')
         else Inr (db\<lparr>db_generations := (db_generations db)(domain \<mapsto> generation),
                db_outbox := db_outbox db @ [\<lparr>ob_id = eventId, ob_topic = COMMENT_CACHE_EVENT,
                  ob_payload = JObj [(''domain'', JStr domain), (''generation'', JStr (toString generation))],
                  ob_createdAt = now, ob_availableAt = now, ob_publishedAt = None, ob_leaseOwner = None,
                  ob_leaseExpiresAt = None, ob_attempts = 0, ob_lastError = None\<rparr>]\<rparr>, generation))"

section \<open>Transactions\<close>

definition checkParent :: "string \<Rightarrow> string option \<Rightarrow> comment_db \<Rightarrow> unit result" where
  "checkParent tokenId parentId db = (case parentId of
     None \<Rightarrow> Inr ()
   | Some p \<Rightarrow> (case findComment db p of
        None \<Rightarrow> Inl (NotFoundException ''COMMENT_PARENT_NOT_FOUND'')
      | Some parent \<Rightarrow>
          if cm_tokenDbId parent \<noteq> tokenId then Inl (NotFoundException ''COMMENT_PARENT_NOT_FOUND'')
          else if cm_isDeleted parent then Inl (ConflictException ''COMMENT_PARENT_DELETED'')
          else if cm_depth parent \<ge> 3 then Inl (ConflictException ''COMMENT_MAX_DEPTH'')
          else Inr ()))"

definition newComment :: "string \<Rightarrow> string \<Rightarrow> string \<Rightarrow> comment_input \<Rightarrow> int \<Rightarrow> comment_row" where
  "newComment i tokenId wallet input now =
     \<lparr>cm_id = i, cm_tokenDbId = tokenId, cm_walletAddress = wallet, cm_parentId = ci_parentCommentId input,
      cm_rootId = i, cm_depth = 0, cm_text = Some (ci_text input), cm_isDeleted = False, cm_likeCount = 0,
      cm_replyCount = 0, cm_createdAt = now, cm_deletedAt = None\<rparr>"

definition createTx :: "string \<Rightarrow> nat \<Rightarrow> int \<Rightarrow> string \<Rightarrow> string \<Rightarrow> comment_input \<Rightarrow> string \<Rightarrow> string \<Rightarrow> comment_db
    \<Rightarrow> (comment_db \<times> comment_row \<times> int) result" where
  "createTx i eventId now tokenId wallet input key hash db0 =
     (let idem = (COMMENT_SCOPE, wallet, key) in
      if db_idempotency db0 idem \<noteq> None then Inl (PrismaError ''P2002'')
      else
        let row = \<lparr>idm_requestHash = hash, idm_state = IN_PROGRESS, idm_responseStatus = None,
                   idm_resourceId = None, idm_expiresAt = now + IDEMPOTENCY_RETENTION_MS\<rparr>;
            db1 = upsertProfile wallet (db0\<lparr>db_idempotency := (db_idempotency db0)(idem \<mapsto> row)\<rparr>)
        in bindR (checkParent tokenId (ci_parentCommentId input) db1) (\<lambda>_.
           if i \<in> cm_id ` set (db_comments db1) then Inl (PrismaError ''P2002'')
           else
             let created = newComment i tokenId wallet input now;
                 db2 = db1\<lparr>db_comments := db_comments db1 @ [created]\<rparr>;
                 db3 = (case ci_parentCommentId input of None \<Rightarrow> db2
                        | Some p \<Rightarrow> updateComment p (\<lambda>c. c\<lparr>cm_replyCount := cm_replyCount c + 1\<rparr>) db2);
                 db4 = db3\<lparr>db_idempotency := (db_idempotency db3)(idem \<mapsto>
                        row\<lparr>idm_state := COMPLETED, idm_responseStatus := Some 201, idm_resourceId := Some i\<rparr>)\<rparr>
             in bindR (advanceCommentCacheGeneration eventId now tokenId db4) (\<lambda>(db5, generation).
                Inr (db5, created, generation))))"

definition deleteTx :: "nat \<Rightarrow> int \<Rightarrow> string \<Rightarrow> string \<Rightarrow> comment_db \<Rightarrow> (comment_db \<times> comment_row \<times> int option) result" where
  "deleteTx eventId now commentId walletAddress db0 =
     (case findComment db0 commentId of
        None \<Rightarrow> Inl (NotFoundException ''COMMENT_NOT_FOUND'')
      | Some comment \<Rightarrow>
          if cm_walletAddress comment \<noteq> walletAddress then Inl (NotFoundException ''COMMENT_NOT_FOUND'')
          else if cm_isDeleted comment then Inr (db0, comment, None)
          else
            let del = (\<lambda>c. c\<lparr>cm_isDeleted := True, cm_text := None, cm_deletedAt := Some now\<rparr>);
                db1 = updateComment commentId del db0;
                db2 = (case cm_parentId comment of None \<Rightarrow> db1
                       | Some p \<Rightarrow> updateComment p (\<lambda>c. c\<lparr>cm_replyCount := cm_replyCount c - 1\<rparr>) db1)
            in bindR (advanceCommentCacheGeneration eventId now (cm_tokenDbId comment) db2) (\<lambda>(db3, generation).
               Inr (db3, del comment, Some generation)))"

record like_status =
  ls_commentId :: string
  ls_walletAddress :: string
  ls_liked :: bool
  ls_likeCount :: int

definition likeTx :: "nat \<Rightarrow> int \<Rightarrow> string \<Rightarrow> string \<Rightarrow> comment_db
    \<Rightarrow> (comment_db \<times> like_status \<times> int option \<times> string) result" where
  "likeTx eventId now commentId walletAddress db0 =
     (case findComment db0 commentId of
        None \<Rightarrow> Inl (NotFoundException ''COMMENT_NOT_FOUND'')
      | Some comment \<Rightarrow>
          if cm_isDeleted comment then Inl (NotFoundException ''COMMENT_NOT_FOUND'')
          else
            let db1 = upsertProfile walletAddress db0;
                status = (\<lambda>n. \<lparr>ls_commentId = commentId, ls_walletAddress = walletAddress, ls_liked = True, ls_likeCount = n\<rparr>)
            in if (commentId, walletAddress) \<in> set (db_likes db1)
               then Inr (db1, status (cm_likeCount comment), None, cm_tokenDbId comment)
               else
                 let db2 = updateComment commentId (\<lambda>c. c\<lparr>cm_likeCount := cm_likeCount c + 1\<rparr>)
                             (db1\<lparr>db_likes := db_likes db1 @ [(commentId, walletAddress)]\<rparr>)
                 in bindR (advanceCommentCacheGeneration eventId now (cm_tokenDbId comment) db2) (\<lambda>(db3, generation).
                    Inr (db3, status (cm_likeCount comment + 1), Some generation, cm_tokenDbId comment)))"

definition unlikeTx :: "nat \<Rightarrow> int \<Rightarrow> string \<Rightarrow> string \<Rightarrow> comment_db
    \<Rightarrow> (comment_db \<times> like_status \<times> int option \<times> string) result" where
  "unlikeTx eventId now commentId walletAddress db0 =
     (case findComment db0 commentId of
        None \<Rightarrow> Inl (NotFoundException ''COMMENT_NOT_FOUND'')
      | Some comment \<Rightarrow>
          let kept = filter (\<lambda>l. l \<noteq> (commentId, walletAddress)) (db_likes db0);
              removed = length (db_likes db0) - length kept;
              db1 = db0\<lparr>db_likes := kept\<rparr>;
              status = (\<lambda>n. \<lparr>ls_commentId = commentId, ls_walletAddress = walletAddress, ls_liked = False, ls_likeCount = n\<rparr>)
          in if removed = 0 then Inr (db1, status (cm_likeCount comment), None, cm_tokenDbId comment)
             else
               let db2 = updateComment commentId (\<lambda>c. c\<lparr>cm_likeCount := cm_likeCount c - 1\<rparr>) db1
               in bindR (advanceCommentCacheGeneration eventId now (cm_tokenDbId comment) db2) (\<lambda>(db3, generation).
                  Inr (db3, status (cm_likeCount comment - 1), Some generation, cm_tokenDbId comment)))"

section \<open>Steps and invariant\<close>

definition emptyCommentDb :: "token_row list \<Rightarrow> comment_db" where
  "emptyCommentDb tokens = \<lparr>db_tokens = tokens, db_comments = [], db_likes = [], db_profiles = [],
     db_idempotency = Map.empty, db_generations = Map.empty, db_outbox = []\<rparr>"

inductive commentStep :: "comment_db \<Rightarrow> comment_db \<Rightarrow> bool" where
  step_resolve: "resolve sk raced newId chain ref (db_tokens db) = Inr (tokens, i) \<Longrightarrow> commentStep db (db\<lparr>db_tokens := tokens\<rparr>)"
| step_create: "createTx i eventId now tokenId wallet input key hash db = Inr (db', c, g) \<Longrightarrow> commentStep db db'"
| step_delete: "deleteTx eventId now commentId wallet db = Inr (db', c, g) \<Longrightarrow> commentStep db db'"
| step_like: "likeTx eventId now commentId wallet db = Inr (db', s, g, t) \<Longrightarrow> commentStep db db'"
| step_unlike: "unlikeTx eventId now commentId wallet db = Inr (db', s, g, t) \<Longrightarrow> commentStep db db'"
| step_dispatch: "dispatchBatch owner up now r (db_outbox db) = (r', tbl, n) \<Longrightarrow> commentStep db (db\<lparr>db_outbox := tbl\<rparr>)"

inductive commentReachable :: "comment_db \<Rightarrow> bool" where
  reach_empty: "commentReachable (emptyCommentDb tokens)"
| reach_step: "commentReachable db \<Longrightarrow> commentStep db db' \<Longrightarrow> commentReachable db'"

definition likesOf :: "string \<Rightarrow> (string \<times> string) list \<Rightarrow> int" where
  "likesOf i likes = int (length (filter (\<lambda>l. fst l = i) likes))"

definition repliesOf :: "string \<Rightarrow> comment_row list \<Rightarrow> int" where
  "repliesOf i cs = int (length (filter (\<lambda>c. cm_parentId c = Some i \<and> \<not> cm_isDeleted c) cs))"

definition rowOk :: "comment_row list \<Rightarrow> (string \<times> string) list \<Rightarrow> comment_row \<Rightarrow> bool" where
  "rowOk cs likes c \<longleftrightarrow> cm_likeCount c = likesOf (cm_id c) likes \<and> cm_replyCount c = repliesOf (cm_id c) cs
     \<and> (cm_isDeleted c \<longleftrightarrow> cm_text c = None) \<and> (cm_isDeleted c \<longleftrightarrow> cm_deletedAt c \<noteq> None)
     \<and> cm_depth c = 0 \<and> cm_rootId c = cm_id c
     \<and> (case cm_parentId c of None \<Rightarrow> True | Some p \<Rightarrow> (p, cm_tokenDbId c) \<in> (\<lambda>d. (cm_id d, cm_tokenDbId d)) ` set cs)"

definition tablesOk :: "comment_row list \<Rightarrow> (string \<times> string) list \<Rightarrow> bool" where
  "tablesOk cs likes \<longleftrightarrow> distinct (map cm_id cs) \<and> distinct likes \<and> fst ` set likes \<subseteq> cm_id ` set cs
     \<and> list_all (rowOk cs likes) cs"

definition generationsOf :: "string \<Rightarrow> outbox_event list \<Rightarrow> int list" where
  "generationsOf d tbl = map (\<lambda>p. int (parseDec (snd p)))
     (filter (\<lambda>p. fst p = d) (List.map_filter (\<lambda>e. cachePayload (ob_payload e)) tbl))"

definition dbGeneration :: "comment_db \<Rightarrow> string \<Rightarrow> int" where
  "dbGeneration db d = (case db_generations db d of None \<Rightarrow> 0 | Some g \<Rightarrow> g)"

definition outboxOk :: "comment_db \<Rightarrow> bool" where
  "outboxOk db \<longleftrightarrow> distinct (map ob_id (db_outbox db))
     \<and> list_all (\<lambda>e. ob_topic e = COMMENT_CACHE_EVENT \<and> cachePayload (ob_payload e) \<noteq> None) (db_outbox db)
     \<and> (\<forall>d. generationsOf d (db_outbox db) = [1..dbGeneration db d]) \<and> (\<forall>d. 0 \<le> dbGeneration db d)"

lemma findComment_Some: "findComment db i = Some c \<longleftrightarrow> (c \<in> set (db_comments db) \<and> cm_id c = i)"
  if "distinct (map cm_id (db_comments db))"
proof
  assume "findComment db i = Some c"
  then show "c \<in> set (db_comments db) \<and> cm_id c = i" unfolding findComment_def by (auto simp: find_Some_iff)
next
  assume a: "c \<in> set (db_comments db) \<and> cm_id c = i"
  then obtain d where d: "findComment db i = Some d"
    unfolding findComment_def by (cases "find (\<lambda>c. cm_id c = i) (db_comments db)") (auto simp: find_None_iff)
  then have "d \<in> set (db_comments db)" "cm_id d = i" unfolding findComment_def by (auto simp: find_Some_iff)
  then have "d = c" using a that by (metis distinct_map inj_onD)
  then show "findComment db i = Some c" using d by simp
qed

lemma findComment_mem: "findComment db i = Some c \<Longrightarrow> c \<in> set (db_comments db) \<and> cm_id c = i"
  unfolding findComment_def by (auto simp: find_Some_iff)

text \<open>Updating rows in place, without touching keys, parents and tokens.\<close>

definition keepsKeys :: "(comment_row \<Rightarrow> comment_row) \<Rightarrow> bool" where
  "keepsKeys f \<longleftrightarrow> (\<forall>c. cm_id (f c) = cm_id c \<and> cm_tokenDbId (f c) = cm_tokenDbId c \<and> cm_parentId (f c) = cm_parentId c
     \<and> cm_depth (f c) = cm_depth c \<and> cm_rootId (f c) = cm_rootId c)"

lemma keepsKeysD:
  assumes "keepsKeys f"
  shows "cm_id (f c) = cm_id c" "cm_tokenDbId (f c) = cm_tokenDbId c" "cm_parentId (f c) = cm_parentId c"
    "cm_depth (f c) = cm_depth c" "cm_rootId (f c) = cm_rootId c"
  using assms by (auto simp: keepsKeys_def)

lemma tablesOk_map:
  assumes ok: "tablesOk cs likes" and f: "keepsKeys f"
    and likes': "distinct likes'" "fst ` set likes' \<subseteq> cm_id ` set cs"
    and rows: "\<And>c. c \<in> set cs \<Longrightarrow> cm_likeCount (f c) - cm_likeCount c = likesOf (cm_id c) likes' - likesOf (cm_id c) likes
      \<and> cm_replyCount (f c) - cm_replyCount c = repliesOf (cm_id c) (map f cs) - repliesOf (cm_id c) cs
      \<and> (cm_isDeleted (f c) \<longleftrightarrow> cm_text (f c) = None) \<and> (cm_isDeleted (f c) \<longleftrightarrow> cm_deletedAt (f c) \<noteq> None)"
  shows "tablesOk (map f cs) likes'"
proof -
  note k = keepsKeysD [OF f]
  have ids: "map cm_id (map f cs) = map cm_id cs" by (simp add: k)
  have idset: "cm_id ` set (map f cs) = cm_id ` set cs" by (simp add: image_image k)
  have pairs: "(\<lambda>d. (cm_id d, cm_tokenDbId d)) ` set (map f cs) = (\<lambda>d. (cm_id d, cm_tokenDbId d)) ` set cs"
    by (simp add: image_image k)
  have "rowOk (map f cs) likes' (f c)" if c: "c \<in> set cs" for c
  proof -
    have "rowOk cs likes c" using ok c by (simp add: tablesOk_def list_all_iff)
    then show ?thesis using rows [OF c] unfolding rowOk_def pairs by (auto simp: k split: option.splits)
  qed
  then show ?thesis using ok likes' unfolding tablesOk_def ids idset by (simp add: list_all_iff)
qed

lemma repliesOf_map_same:
  assumes "\<And>c. c \<in> set cs \<Longrightarrow> cm_parentId (f c) = cm_parentId c \<and> cm_isDeleted (f c) = cm_isDeleted c"
  shows "repliesOf i (map f cs) = repliesOf i cs"
  using assms by (induction cs) (auto simp: repliesOf_def)

lemma repliesOf_delete:
  assumes "distinct (map cm_id cs)" "c \<in> set cs" "\<not> cm_isDeleted c" and f: "keepsKeys f"
    and del: "\<And>d. cm_isDeleted (f d) \<longleftrightarrow> cm_isDeleted d \<or> cm_id d = cm_id c"
  shows "repliesOf i (map f cs) = repliesOf i cs - (if cm_parentId c = Some i then 1 else 0)"
proof -
  note k = keepsKeysD [OF f]
  obtain xs ys where cs: "cs = xs @ c # ys" using assms(2) by (auto simp: in_set_conv_decomp)
  have ne: "cm_id d \<noteq> cm_id c" if "d \<in> set xs \<or> d \<in> set ys" for d
    using assms(1) that unfolding cs by (metis Un_iff distinct.simps(2) distinct_append image_eqI list.set_map list.simps(9) map_append not_distinct_conv_prefix set_append distinct_map)
  have "repliesOf i (map f xs) = repliesOf i xs" "repliesOf i (map f ys) = repliesOf i ys"
    using ne by (auto intro!: repliesOf_map_same simp: k del)
  then show ?thesis using assms(3) by (simp add: cs repliesOf_def k del)
qed

lemma likesOf_snoc: "likesOf i (likes @ [(c, w)]) = likesOf i likes + (if c = i then 1 else 0)"
  by (simp add: likesOf_def)

lemma removed_likes:
  assumes "distinct likes"
  shows "length likes - length (filter (\<lambda>l. l \<noteq> x) likes) = (if x \<in> set likes then 1 else 0)"
    and "likesOf i (filter (\<lambda>l. l \<noteq> x) likes) = likesOf i likes - (if x \<in> set likes \<and> fst x = i then 1 else 0)"
proof -
  have "length (filter (\<lambda>l. l \<noteq> x) likes) + length (filter (\<lambda>l. \<not> l \<noteq> x) likes) = length likes"
    by (rule sum_length_filter_compl)
  moreover have "filter (\<lambda>l. l = x) likes = (if x \<in> set likes then [x] else [])"
    using assms by (induction likes) (auto simp: filter_empty_conv)
  ultimately show "length likes - length (filter (\<lambda>l. l \<noteq> x) likes) = (if x \<in> set likes then 1 else 0)" by auto
  show "likesOf i (filter (\<lambda>l. l \<noteq> x) likes) = likesOf i likes - (if x \<in> set likes \<and> fst x = i then 1 else 0)"
    using assms by (induction likes) (auto simp: likesOf_def)
qed

lemma repliesOf_snoc: "repliesOf i (cs @ [c]) = repliesOf i cs + (if cm_parentId c = Some i \<and> \<not> cm_isDeleted c then 1 else 0)"
  by (simp add: repliesOf_def)

text \<open>What each transaction does to the two tables of comments and likes.\<close>

definition generationEvent :: "nat \<Rightarrow> int \<Rightarrow> string \<Rightarrow> int \<Rightarrow> outbox_event" where
  "generationEvent eventId now domain g = \<lparr>ob_id = eventId, ob_topic = COMMENT_CACHE_EVENT,
     ob_payload = JObj [(''domain'', JStr domain), (''generation'', JStr (toString g))], ob_createdAt = now,
     ob_availableAt = now, ob_publishedAt = None, ob_leaseOwner = None, ob_leaseExpiresAt = None, ob_attempts = 0,
     ob_lastError = None\<rparr>"

definition bumped :: "nat \<Rightarrow> int \<Rightarrow> string \<Rightarrow> comment_db \<Rightarrow> comment_db" where
  "bumped eventId now tokenId db =
     (let domain = commentCacheDomain tokenId; g = dbGeneration db domain + 1 in
      db\<lparr>db_generations := (db_generations db)(domain \<mapsto> g), db_outbox := db_outbox db @ [generationEvent eventId now domain g]\<rparr>)"

lemma advance_iff:
  "advanceCommentCacheGeneration eventId now tokenId db = Inr r \<longleftrightarrow> eventId \<notin> ob_id ` set (db_outbox db)
     \<and> r = (bumped eventId now tokenId db, dbGeneration db (commentCacheDomain tokenId) + 1)"
  by (auto simp: advanceCommentCacheGeneration_def bumped_def generationEvent_def dbGeneration_def Let_def
      split: option.split)

lemma bumped_tables [simp]:
  "db_comments (bumped e n t db) = db_comments db" "db_likes (bumped e n t db) = db_likes db"
  "db_idempotency (bumped e n t db) = db_idempotency db" "db_profiles (bumped e n t db) = db_profiles db"
  "db_tokens (bumped e n t db) = db_tokens db"
  by (simp_all add: bumped_def Let_def)

lemma upsertProfile_tables [simp]:
  "db_comments (upsertProfile w db) = db_comments db" "db_likes (upsertProfile w db) = db_likes db"
  "db_idempotency (upsertProfile w db) = db_idempotency db" "db_generations (upsertProfile w db) = db_generations db"
  "db_outbox (upsertProfile w db) = db_outbox db" "db_tokens (upsertProfile w db) = db_tokens db"
  by (simp_all add: upsertProfile_def)

lemma updateComment_tables [simp]:
  "db_comments (updateComment i f db) = map (\<lambda>c. if cm_id c = i then f c else c) (db_comments db)"
  "db_likes (updateComment i f db) = db_likes db" "db_idempotency (updateComment i f db) = db_idempotency db"
  "db_generations (updateComment i f db) = db_generations db" "db_outbox (updateComment i f db) = db_outbox db"
  "db_profiles (updateComment i f db) = db_profiles db" "db_tokens (updateComment i f db) = db_tokens db"
  by (simp_all add: updateComment_def)

definition addReply :: "int \<Rightarrow> string option \<Rightarrow> comment_row \<Rightarrow> comment_row" where
  "addReply k p c = (if p = Some (cm_id c) then c\<lparr>cm_replyCount := cm_replyCount c + k\<rparr> else c)"

lemma addReply_simps [simp]:
  "cm_id (addReply k p c) = cm_id c" "cm_tokenDbId (addReply k p c) = cm_tokenDbId c"
  "cm_parentId (addReply k p c) = cm_parentId c" "cm_isDeleted (addReply k p c) = cm_isDeleted c"
  "cm_text (addReply k p c) = cm_text c" "cm_deletedAt (addReply k p c) = cm_deletedAt c"
  "cm_likeCount (addReply k p c) = cm_likeCount c" "cm_depth (addReply k p c) = cm_depth c"
  "cm_rootId (addReply k p c) = cm_rootId c"
  "cm_replyCount (addReply k p c) = cm_replyCount c + (if p = Some (cm_id c) then k else 0)"
  by (simp_all add: addReply_def)

lemma addReply_None [simp]: "addReply k None = (\<lambda>c. c)"
  by (simp add: addReply_def fun_eq_iff)

lemma repliesOf_addReply [simp]: "repliesOf i (map (addReply k p) cs) = repliesOf i cs"
  by (rule repliesOf_map_same) simp

lemma createTx_tables:
  assumes "createTx i eventId now tokenId wallet input key hash db = Inr (db', created, g)"
  shows "created = newComment i tokenId wallet input now"
    "db_comments db' = map (addReply 1 (ci_parentCommentId input)) (db_comments db @ [created])"
    "db_likes db' = db_likes db" "i \<notin> cm_id ` set (db_comments db)"
    "checkParent tokenId (ci_parentCommentId input) db = Inr ()"
    "db_idempotency db (COMMENT_SCOPE, wallet, key) = None"
    "db_idempotency db' = (db_idempotency db)((COMMENT_SCOPE, wallet, key) \<mapsto>
       \<lparr>idm_requestHash = hash, idm_state = COMPLETED, idm_responseStatus = Some 201, idm_resourceId = Some i,
        idm_expiresAt = now + IDEMPOTENCY_RETENTION_MS\<rparr>)"
  using assms
  by (auto simp: createTx_def Let_def bindR_eq_Inr_iff checkParent_def findComment_def addReply_def
      advance_iff split: if_splits option.splits)

lemma tablesOk_create:
  assumes ok: "tablesOk (db_comments db) (db_likes db)"
    and c: "createTx i eventId now tokenId wallet input key hash db = Inr (db', created, g)"
  shows "tablesOk (db_comments db') (db_likes db')"
proof -
  note t = createTx_tables [OF c]
  let ?cs = "db_comments db" and ?p = "ci_parentCommentId input"
  have ids: "distinct (map cm_id ?cs)" using ok by (simp add: tablesOk_def)
  have par: "\<exists>d\<in>set ?cs. cm_id d = p \<and> cm_tokenDbId d = tokenId" if "?p = Some p" for p
    using t(5) that findComment_mem [of db p] by (auto simp: checkParent_def split: option.splits if_splits)
  have old: "rowOk ?cs (db_likes db) c" if "c \<in> set ?cs" for c using ok that by (simp add: tablesOk_def list_all_iff)
  have "cm_parentId c \<noteq> Some i" if "c \<in> set ?cs" for c
    using old [OF that] t(4) by (auto simp: rowOk_def)
  then have r0: "repliesOf i ?cs = 0" by (simp add: repliesOf_def filter_empty_conv)
  have "fst l \<noteq> i" if "l \<in> set (db_likes db)" for l using ok t(4) that unfolding tablesOk_def by blast
  then have l0: "likesOf i (db_likes db) = 0" by (simp add: likesOf_def filter_empty_conv)
  let ?keys = "\<lambda>cs. (\<lambda>d. (cm_id d, cm_tokenDbId d)) ` set cs"
  have keys: "?keys (db_comments db') = insert (i, tokenId) (?keys ?cs)"
    unfolding t(2) by (simp add: t(1) newComment_def image_image)
  have replies: "repliesOf j (db_comments db') = repliesOf j ?cs + (if ?p = Some j then 1 else 0)" for j
    unfolding t(2) repliesOf_addReply repliesOf_snoc by (simp add: t(1) newComment_def)
  have pk: "(p, tokenId) \<in> ?keys ?cs" if "?p = Some p" for p using par [OF that] by force
  have created: "rowOk (db_comments db') (db_likes db') (addReply 1 ?p created)"
    unfolding rowOk_def keys replies t(3) using pk r0 l0 by (simp add: t(1) newComment_def split: option.split)
  have kept: "rowOk (db_comments db') (db_likes db') (addReply 1 ?p c)" if "c \<in> set ?cs" for c
    using old [OF that] unfolding rowOk_def keys replies t(3) by (auto split: option.splits)
  have "distinct (map cm_id (db_comments db'))" using ids t(4) unfolding t(2) by (simp add: t(1) newComment_def comp_def)
  moreover have "fst ` set (db_likes db') \<subseteq> cm_id ` set (db_comments db')"
    using ok unfolding t(2,3) tablesOk_def by (auto simp: image_image)
  moreover have "list_all (rowOk (db_comments db') (db_likes db')) (db_comments db')"
    using created kept unfolding t(2) by (simp add: list_all_iff)
  ultimately show ?thesis using ok by (simp add: tablesOk_def t(3))
qed

definition markDeleted :: "string \<Rightarrow> int \<Rightarrow> comment_row \<Rightarrow> comment_row" where
  "markDeleted i now c = (if cm_id c = i then c\<lparr>cm_isDeleted := True, cm_text := None, cm_deletedAt := Some now\<rparr> else c)"

lemma markDeleted_simps [simp]:
  "cm_id (markDeleted i now c) = cm_id c" "cm_tokenDbId (markDeleted i now c) = cm_tokenDbId c"
  "cm_parentId (markDeleted i now c) = cm_parentId c" "cm_likeCount (markDeleted i now c) = cm_likeCount c"
  "cm_replyCount (markDeleted i now c) = cm_replyCount c" "cm_depth (markDeleted i now c) = cm_depth c"
  "cm_rootId (markDeleted i now c) = cm_rootId c" "cm_isDeleted (markDeleted i now c) \<longleftrightarrow> cm_isDeleted c \<or> cm_id c = i"
  "cm_text (markDeleted i now c) = (if cm_id c = i then None else cm_text c)"
  "cm_deletedAt (markDeleted i now c) = (if cm_id c = i then Some now else cm_deletedAt c)"
  by (simp_all add: markDeleted_def)

definition addLike :: "int \<Rightarrow> string \<Rightarrow> comment_row \<Rightarrow> comment_row" where
  "addLike k i c = (if cm_id c = i then c\<lparr>cm_likeCount := cm_likeCount c + k\<rparr> else c)"

lemma addLike_simps [simp]:
  "cm_id (addLike k i c) = cm_id c" "cm_tokenDbId (addLike k i c) = cm_tokenDbId c"
  "cm_parentId (addLike k i c) = cm_parentId c" "cm_isDeleted (addLike k i c) = cm_isDeleted c"
  "cm_text (addLike k i c) = cm_text c" "cm_deletedAt (addLike k i c) = cm_deletedAt c"
  "cm_replyCount (addLike k i c) = cm_replyCount c" "cm_depth (addLike k i c) = cm_depth c"
  "cm_rootId (addLike k i c) = cm_rootId c"
  "cm_likeCount (addLike k i c) = cm_likeCount c + (if cm_id c = i then k else 0)"
  by (simp_all add: addLike_def)

lemma keepsKeys_edits [simp]: "keepsKeys (addLike k i)" "keepsKeys (\<lambda>c. addReply k p (markDeleted i now c))"
  by (simp_all add: keepsKeys_def)

lemma deleteTx_cases:
  assumes "deleteTx eventId now commentId wallet db = Inr (db', d, g)"
  obtains comment where "findComment db commentId = Some comment" "cm_isDeleted comment" "db' = db" "g = None" "d = comment"
  | comment where "findComment db commentId = Some comment" "cm_walletAddress comment = wallet" "\<not> cm_isDeleted comment"
    "db_comments db' = map (\<lambda>c. addReply (- 1) (cm_parentId comment) (markDeleted commentId now c)) (db_comments db)"
    "db_likes db' = db_likes db" "db_idempotency db' = db_idempotency db"
    "g = Some (dbGeneration db (commentCacheDomain (cm_tokenDbId comment)) + 1)"
    "\<exists>db1. db_generations db1 = db_generations db \<and> db_outbox db1 = db_outbox db \<and> eventId \<notin> ob_id ` set (db_outbox db)
       \<and> db' = bumped eventId now (cm_tokenDbId comment) db1"
proof -
  obtain comment where c: "findComment db commentId = Some comment"
    using assms by (auto simp: deleteTx_def split: option.splits)
  have w: "cm_walletAddress comment = wallet" using assms c by (simp add: deleteTx_def split: if_splits)
  show thesis
  proof (cases "cm_isDeleted comment")
    case True
    then show thesis using that(1) [OF c] assms c w by (simp add: deleteTx_def)
  next
    case False
    define db1 where "db1 = updateComment commentId (\<lambda>c. c\<lparr>cm_isDeleted := True, cm_text := None, cm_deletedAt := Some now\<rparr>) db"
    define db2 where "db2 = (case cm_parentId comment of None \<Rightarrow> db1
      | Some p \<Rightarrow> updateComment p (\<lambda>c. c\<lparr>cm_replyCount := cm_replyCount c - 1\<rparr>) db1)"
    have r: "eventId \<notin> ob_id ` set (db_outbox db2)" "db' = bumped eventId now (cm_tokenDbId comment) db2"
      "g = Some (dbGeneration db2 (commentCacheDomain (cm_tokenDbId comment)) + 1)"
      using assms c w False unfolding db2_def db1_def
      by (auto simp: deleteTx_def Let_def bindR_eq_Inr_iff advance_iff)
    have g: "db_generations db2 = db_generations db" "db_outbox db2 = db_outbox db" "db_likes db2 = db_likes db"
      "db_idempotency db2 = db_idempotency db"
      by (simp_all add: db2_def db1_def split: option.split)
    have "db_comments db2 = map (\<lambda>c. addReply (- 1) (cm_parentId comment) (markDeleted commentId now c)) (db_comments db)"
      by (auto simp: db2_def db1_def addReply_def markDeleted_def split: option.split)
    then show thesis using that(2) [OF c w False] r g by (auto simp: dbGeneration_def)
  qed
qed

lemma tablesOk_delete:
  assumes ok: "tablesOk (db_comments db) (db_likes db)" and d: "deleteTx eventId now commentId wallet db = Inr (db', d, g)"
  shows "tablesOk (db_comments db') (db_likes db')"
  using d
proof (cases rule: deleteTx_cases)
  case (2 comment)
  have m: "comment \<in> set (db_comments db)" "cm_id comment = commentId" using findComment_mem [OF 2(1)] by auto
  have ids: "distinct (map cm_id (db_comments db))" using ok by (simp add: tablesOk_def)
  note del = repliesOf_delete [OF ids m(1) 2(3), where f = "\<lambda>c. addReply (- 1) (cm_parentId comment) (markDeleted commentId now c)"]
  show ?thesis unfolding 2(4,5)
  proof (rule tablesOk_map [OF ok])
    fix c assume "c \<in> set (db_comments db)"
    then have "rowOk (db_comments db) (db_likes db) c" using ok by (simp add: tablesOk_def list_all_iff)
    then show "cm_likeCount (addReply (- 1) (cm_parentId comment) (markDeleted commentId now c)) - cm_likeCount c
        = likesOf (cm_id c) (db_likes db) - likesOf (cm_id c) (db_likes db)
      \<and> cm_replyCount (addReply (- 1) (cm_parentId comment) (markDeleted commentId now c)) - cm_replyCount c
        = repliesOf (cm_id c) (map (\<lambda>c. addReply (- 1) (cm_parentId comment) (markDeleted commentId now c)) (db_comments db))
          - repliesOf (cm_id c) (db_comments db)
      \<and> (cm_isDeleted (addReply (- 1) (cm_parentId comment) (markDeleted commentId now c))
        \<longleftrightarrow> cm_text (addReply (- 1) (cm_parentId comment) (markDeleted commentId now c)) = None)
      \<and> (cm_isDeleted (addReply (- 1) (cm_parentId comment) (markDeleted commentId now c))
        \<longleftrightarrow> cm_deletedAt (addReply (- 1) (cm_parentId comment) (markDeleted commentId now c)) \<noteq> None)"
      using m by (auto simp: del rowOk_def)
  qed (use ok in \<open>simp_all add: tablesOk_def\<close>)
qed (simp add: ok)

lemma likeTx_cases:
  assumes "likeTx eventId now commentId wallet db = Inr (db', s, g, t)"
  obtains comment where "findComment db commentId = Some comment" "\<not> cm_isDeleted comment"
    "(commentId, wallet) \<in> set (db_likes db)" "db' = upsertProfile wallet db" "g = None" "ls_likeCount s = cm_likeCount comment"
  | comment where "findComment db commentId = Some comment" "\<not> cm_isDeleted comment"
    "(commentId, wallet) \<notin> set (db_likes db)"
    "db_comments db' = map (addLike 1 commentId) (db_comments db)" "db_likes db' = db_likes db @ [(commentId, wallet)]"
    "g = Some (dbGeneration db (commentCacheDomain (cm_tokenDbId comment)) + 1)" "ls_likeCount s = cm_likeCount comment + 1"
    "t = cm_tokenDbId comment"
    "\<exists>db1. db_generations db1 = db_generations db \<and> db_outbox db1 = db_outbox db \<and> eventId \<notin> ob_id ` set (db_outbox db)
       \<and> db' = bumped eventId now (cm_tokenDbId comment) db1"
proof -
  obtain comment where c: "findComment db commentId = Some comment" "\<not> cm_isDeleted comment"
    using assms by (auto simp: likeTx_def split: option.splits if_splits)
  show thesis
  proof (cases "(commentId, wallet) \<in> set (db_likes db)")
    case True
    then show thesis using that(1) [OF c] assms c by (auto simp: likeTx_def Let_def)
  next
    case False
    define db2 where "db2 = updateComment commentId (\<lambda>c. c\<lparr>cm_likeCount := cm_likeCount c + 1\<rparr>)
      ((upsertProfile wallet db)\<lparr>db_likes := db_likes db @ [(commentId, wallet)]\<rparr>)"
    have r: "eventId \<notin> ob_id ` set (db_outbox db)" "db' = bumped eventId now (cm_tokenDbId comment) db2"
      "g = Some (dbGeneration db2 (commentCacheDomain (cm_tokenDbId comment)) + 1)" "t = cm_tokenDbId comment"
      "ls_likeCount s = cm_likeCount comment + 1"
      using assms c False by (auto simp: likeTx_def Let_def bindR_eq_Inr_iff advance_iff db2_def)
    have d: "db_generations db2 = db_generations db" "db_outbox db2 = db_outbox db"
      "db_likes db2 = db_likes db @ [(commentId, wallet)]" "db_comments db2 = map (addLike 1 commentId) (db_comments db)"
      by (simp_all add: db2_def addLike_def)
    show thesis using that(2) [OF c False] r d by (simp add: dbGeneration_def) blast
  qed
qed

lemma unlikeTx_cases:
  assumes dist: "distinct (db_likes db)" and "unlikeTx eventId now commentId wallet db = Inr (db', s, g, t)"
  obtains comment where "findComment db commentId = Some comment" "(commentId, wallet) \<notin> set (db_likes db)" "db' = db"
    "g = None" "ls_likeCount s = cm_likeCount comment"
  | comment where "findComment db commentId = Some comment" "(commentId, wallet) \<in> set (db_likes db)"
    "db_comments db' = map (addLike (- 1) commentId) (db_comments db)"
    "db_likes db' = filter (\<lambda>l. l \<noteq> (commentId, wallet)) (db_likes db)"
    "g = Some (dbGeneration db (commentCacheDomain (cm_tokenDbId comment)) + 1)" "ls_likeCount s = cm_likeCount comment - 1"
    "t = cm_tokenDbId comment"
    "\<exists>db1. db_generations db1 = db_generations db \<and> db_outbox db1 = db_outbox db \<and> eventId \<notin> ob_id ` set (db_outbox db)
       \<and> db' = bumped eventId now (cm_tokenDbId comment) db1"
proof -
  obtain comment where c: "findComment db commentId = Some comment"
    using assms by (auto simp: unlikeTx_def split: option.splits)
  note r = removed_likes(1) [OF dist, of "(commentId, wallet)"]
  show thesis
  proof (cases "(commentId, wallet) \<in> set (db_likes db)")
    case True
    define db2 where "db2 = updateComment commentId (\<lambda>c. c\<lparr>cm_likeCount := cm_likeCount c - 1\<rparr>)
      (db\<lparr>db_likes := filter (\<lambda>l. l \<noteq> (commentId, wallet)) (db_likes db)\<rparr>)"
    have r': "eventId \<notin> ob_id ` set (db_outbox db)" "db' = bumped eventId now (cm_tokenDbId comment) db2"
      "g = Some (dbGeneration db2 (commentCacheDomain (cm_tokenDbId comment)) + 1)" "t = cm_tokenDbId comment"
      "ls_likeCount s = cm_likeCount comment - 1"
      using assms(2) c True r by (auto simp: unlikeTx_def Let_def bindR_eq_Inr_iff advance_iff db2_def split: if_splits)
    have d: "db_generations db2 = db_generations db" "db_outbox db2 = db_outbox db"
      "db_likes db2 = filter (\<lambda>l. l \<noteq> (commentId, wallet)) (db_likes db)"
      "db_comments db2 = map (addLike (- 1) commentId) (db_comments db)"
      by (simp_all add: db2_def addLike_def)
    show thesis using that(2) [OF c True] r' d by (simp add: dbGeneration_def) blast
  next
    case False
    then have "filter (\<lambda>l. l \<noteq> (commentId, wallet)) (db_likes db) = db_likes db" by (auto intro!: filter_True)
    then show thesis using that(1) [OF c False] assms(2) c by (auto simp: unlikeTx_def Let_def)
  qed
qed

lemma tablesOk_like:
  assumes ok: "tablesOk (db_comments db) (db_likes db)" and l: "likeTx eventId now commentId wallet db = Inr (db', s, g, t)"
  shows "tablesOk (db_comments db') (db_likes db')"
  using l
proof (cases rule: likeTx_cases)
  case 1
  then show ?thesis using ok by simp
next
  case (2 comment)
  show ?thesis unfolding 2(4,5)
  proof (rule tablesOk_map [OF ok])
    show "distinct (db_likes db @ [(commentId, wallet)])" using ok 2(3) by (simp add: tablesOk_def)
    show "fst ` set (db_likes db @ [(commentId, wallet)]) \<subseteq> cm_id ` set (db_comments db)"
      using ok findComment_mem [OF 2(1)] by (auto simp: tablesOk_def)
  qed (use ok in \<open>auto simp: likesOf_snoc repliesOf_map_same tablesOk_def list_all_iff rowOk_def\<close>)
qed

lemma tablesOk_unlike:
  assumes ok: "tablesOk (db_comments db) (db_likes db)" and u: "unlikeTx eventId now commentId wallet db = Inr (db', s, g, t)"
  shows "tablesOk (db_comments db') (db_likes db')"
proof -
  have dist: "distinct (db_likes db)" using ok by (simp add: tablesOk_def)
  from dist u show ?thesis
  proof (cases rule: unlikeTx_cases)
    case 1
    then show ?thesis using ok by simp
  next
    case (2 comment)
    show ?thesis unfolding 2(3,4)
    proof (rule tablesOk_map [OF ok])
      show "distinct (filter (\<lambda>l. l \<noteq> (commentId, wallet)) (db_likes db))" using dist by simp
      show "fst ` set (filter (\<lambda>l. l \<noteq> (commentId, wallet)) (db_likes db)) \<subseteq> cm_id ` set (db_comments db)"
        using ok by (auto simp: tablesOk_def)
    qed (use ok 2(2) in \<open>auto simp: removed_likes(2) [OF dist] repliesOf_map_same tablesOk_def list_all_iff rowOk_def\<close>)
  qed
qed

lemma commentCacheDomain_inject [simp]: "commentCacheDomain s = commentCacheDomain t \<longleftrightarrow> s = t"
  by (simp add: commentCacheDomain_def)

text \<open>Every transaction that writes comments ends in \<open>bumped\<close>, applied to a state with the generations and the outbox
  of the start.\<close>

definition bumpOf :: "comment_db \<Rightarrow> comment_db \<Rightarrow> string \<Rightarrow> bool" where
  "bumpOf db db' t \<longleftrightarrow> (\<exists>db1 eventId now. db_generations db1 = db_generations db \<and> db_outbox db1 = db_outbox db
     \<and> eventId \<notin> ob_id ` set (db_outbox db) \<and> db' = bumped eventId now t db1)"

lemma bumpOfI:
  "db_generations db1 = db_generations db \<Longrightarrow> db_outbox db1 = db_outbox db \<Longrightarrow> eventId \<notin> ob_id ` set (db_outbox db)
     \<Longrightarrow> bumpOf db (bumped eventId now t db1) t"
  unfolding bumpOf_def by blast

lemma map_filter_of_map: "List.map_filter f xs = map the (filter (\<lambda>y. y \<noteq> None) (map f xs))"
  by (induction xs) (auto simp: List.map_filter_simps split: option.split)

lemma createTx_bump:
  assumes "createTx i eventId now tokenId wallet input key hash db = Inr (db', created, g)"
  shows "bumpOf db db' tokenId" "g = dbGeneration db (commentCacheDomain tokenId) + 1"
  using assms
  by (auto simp: createTx_def Let_def bindR_eq_Inr_iff advance_iff dbGeneration_def split: if_splits option.splits
      intro!: bumpOfI)

lemma generationsOf_append [simp]: "generationsOf d (a @ b) = generationsOf d a @ generationsOf d b"
  by (simp add: generationsOf_def List.map_filter_def)

lemma cachePayload_event [simp]:
  "0 \<le> g \<Longrightarrow> cachePayload (ob_payload (generationEvent e n d g)) = Some (d, decDigits (nat g))"
  using isDigit_decDigits [of "nat g"]
  by (simp add: generationEvent_def cachePayload_def jsField_def toString_nonneg list_all_iff)

lemma generationsOf_event: "0 \<le> g \<Longrightarrow> generationsOf d' [generationEvent e n d g] = (if d' = d then [g] else [])"
  by (simp add: generationsOf_def List.map_filter_def)

lemma dbGeneration_bumped:
  "dbGeneration (bumped e n t db) d = dbGeneration db d + (if d = commentCacheDomain t then 1 else 0)"
  by (simp add: bumped_def Let_def dbGeneration_def)

lemma outboxOk_bumped:
  assumes "outboxOk db" "bumpOf db db' t"
  shows "outboxOk db'"
proof -
  obtain db1 e n where b: "db_generations db1 = db_generations db" "db_outbox db1 = db_outbox db"
    "e \<notin> ob_id ` set (db_outbox db)" "db' = bumped e n t db1" using assms(2) by (auto simp: bumpOf_def)
  define d where "d = commentCacheDomain t"
  define g where "g = dbGeneration db d + 1"
  have gen: "dbGeneration db1 = dbGeneration db" using b(1) by (simp add: dbGeneration_def fun_eq_iff)
  have g: "0 \<le> g" "1 \<le> g" using assms(1) by (simp_all add: outboxOk_def g_def)
  have ob: "db_outbox db' = db_outbox db @ [generationEvent e n d g]"
    using b gen by (simp add: bumped_def Let_def d_def g_def)
  have "generationsOf x (db_outbox db') = [1..dbGeneration db' x]" for x
  proof (cases "x = d")
    case True
    have "[1..g] = [1..dbGeneration db d] @ [g]" using g by (simp add: g_def upto_rec2)
    then show ?thesis unfolding ob using True assms(1) g b(4) gen
      by (simp add: generationsOf_event outboxOk_def dbGeneration_bumped d_def [symmetric] g_def)
  next
    case False
    then show ?thesis unfolding ob using assms(1) g b(4) gen
      by (simp add: generationsOf_event outboxOk_def dbGeneration_bumped d_def)
  qed
  moreover have "0 \<le> dbGeneration db' x" for x using assms(1) b(4) gen by (simp add: dbGeneration_bumped outboxOk_def)
  moreover have "ob_topic (generationEvent e n d g) = COMMENT_CACHE_EVENT" "ob_id (generationEvent e n d g) = e"
    by (simp_all add: generationEvent_def)
  ultimately show ?thesis using assms(1) b(3) g by (simp add: outboxOk_def ob)
qed

lemma outboxOk_cong: "db_generations a = db_generations b \<Longrightarrow> db_outbox a = db_outbox b \<Longrightarrow> outboxOk a = outboxOk b"
  by (simp add: outboxOk_def dbGeneration_def)

lemma settledRow_simps [simp]:
  "ob_topic (settledRow up now e) = ob_topic e" "ob_payload (settledRow up now e) = ob_payload e"
  by (simp_all add: settledRow_def split: option.split)

lemma outboxOk_dispatch:
  assumes "outboxOk db" "dispatchBatch owner up now r (db_outbox db) = (r', tbl, n)"
  shows "outboxOk (db\<lparr>db_outbox := tbl\<rparr>)"
proof -
  have "distinct (map ob_id (db_outbox db))" using assms(1) by (simp add: outboxOk_def)
  then have tbl: "tbl = map (\<lambda>e. if e \<in> set (outboxCandidates now (db_outbox db)) then settledRow up now e else e) (db_outbox db)"
    using dispatchBatch_eq [of "db_outbox db" owner up now r] assms(2) by simp
  have "map (\<lambda>e. cachePayload (ob_payload e)) tbl = map (\<lambda>e. cachePayload (ob_payload e)) (db_outbox db)"
    by (simp add: tbl)
  then have "List.map_filter (\<lambda>e. cachePayload (ob_payload e)) tbl = List.map_filter (\<lambda>e. cachePayload (ob_payload e)) (db_outbox db)"
    by (simp only: map_filter_of_map)
  then have "generationsOf d tbl = generationsOf d (db_outbox db)" for d by (simp add: generationsOf_def)
  moreover have "map ob_id tbl = map ob_id (db_outbox db)" by (simp add: tbl)
  moreover have "list_all (\<lambda>e. ob_topic e = COMMENT_CACHE_EVENT \<and> cachePayload (ob_payload e) \<noteq> None) tbl"
    using assms(1) by (auto simp: tbl list_all_iff outboxOk_def)
  ultimately show ?thesis using assms(1) by (simp add: outboxOk_def dbGeneration_def)
qed

text \<open>The invariant of every reachable database.\<close>

definition commentDbOk :: "comment_db \<Rightarrow> bool" where
  "commentDbOk db \<longleftrightarrow> tablesOk (db_comments db) (db_likes db) \<and> outboxOk db"

lemma filter_map_other:
  assumes "\<And>c. c \<in> set cs \<Longrightarrow> cm_tokenDbId (f c) = cm_tokenDbId c" "\<And>c. c \<in> set cs \<Longrightarrow> cm_tokenDbId c \<noteq> t \<Longrightarrow> f c = c"
  shows "filter (\<lambda>c. cm_tokenDbId c \<noteq> t) (map f cs) = filter (\<lambda>c. cm_tokenDbId c \<noteq> t) cs"
  using assms by (induction cs) auto

lemma same_key: "tablesOk cs likes \<Longrightarrow> a \<in> set cs \<Longrightarrow> b \<in> set cs \<Longrightarrow> cm_id a = cm_id b \<Longrightarrow> a = b"
  unfolding tablesOk_def by (metis distinct_map inj_onD)

text \<open>A parent has the token of its reply.\<close>

lemma parent_token:
  assumes "tablesOk cs likes" "c \<in> set cs" "d \<in> set cs" "cm_parentId c = Some (cm_id d)"
  shows "cm_tokenDbId d = cm_tokenDbId c"
proof -
  have "rowOk cs likes c" using assms(1,2) by (simp add: tablesOk_def list_all_iff)
  then obtain e where "e \<in> set cs" "cm_id e = cm_id d" "cm_tokenDbId e = cm_tokenDbId c"
    using assms(4) by (auto simp: rowOk_def)
  then show ?thesis using same_key [OF assms(1)] assms(3) by metis
qed

lemma others_create:
  assumes ok: "tablesOk (db_comments db) (db_likes db)"
    and c: "createTx i eventId now tokenId wallet input key hash db = Inr (db', created, g)"
  shows "filter (\<lambda>c. cm_tokenDbId c \<noteq> tokenId) (db_comments db') = filter (\<lambda>c. cm_tokenDbId c \<noteq> tokenId) (db_comments db)"
proof -
  note t = createTx_tables [OF c]
  have "addReply 1 (ci_parentCommentId input) d = d" if d: "d \<in> set (db_comments db)" "cm_tokenDbId d \<noteq> tokenId" for d
  proof -
    have "ci_parentCommentId input \<noteq> Some (cm_id d)"
      using t(5) d findComment_mem [of db "cm_id d"] same_key [OF ok]
      by (auto simp: checkParent_def split: option.splits if_splits)
    then show ?thesis by (simp add: addReply_def)
  qed
  then have "filter (\<lambda>c. cm_tokenDbId c \<noteq> tokenId) (map (addReply 1 (ci_parentCommentId input)) (db_comments db))
      = filter (\<lambda>c. cm_tokenDbId c \<noteq> tokenId) (db_comments db)" by (intro filter_map_other) simp_all
  then show ?thesis unfolding t(2) by (simp add: t(1) newComment_def)
qed

lemma others_like:
  assumes ok: "tablesOk (db_comments db) (db_likes db)" and c: "findComment db i = Some comment"
  shows "filter (\<lambda>c. cm_tokenDbId c \<noteq> cm_tokenDbId comment) (map (addLike k i) (db_comments db))
    = filter (\<lambda>c. cm_tokenDbId c \<noteq> cm_tokenDbId comment) (db_comments db)"
proof (rule filter_map_other)
  fix d assume "d \<in> set (db_comments db)" "cm_tokenDbId d \<noteq> cm_tokenDbId comment"
  then have "cm_id d \<noteq> i" using findComment_mem [OF c] same_key [OF ok] by metis
  then show "addLike k i d = d" by (simp add: addLike_def)
qed simp

lemma others_delete:
  assumes ok: "tablesOk (db_comments db) (db_likes db)" and c: "findComment db i = Some comment"
  shows "filter (\<lambda>c. cm_tokenDbId c \<noteq> cm_tokenDbId comment)
      (map (\<lambda>c. addReply k (cm_parentId comment) (markDeleted i now c)) (db_comments db))
    = filter (\<lambda>c. cm_tokenDbId c \<noteq> cm_tokenDbId comment) (db_comments db)"
proof (rule filter_map_other)
  fix d assume d: "d \<in> set (db_comments db)" "cm_tokenDbId d \<noteq> cm_tokenDbId comment"
  then have "cm_id d \<noteq> i" "cm_parentId comment \<noteq> Some (cm_id d)"
    using findComment_mem [OF c] same_key [OF ok] parent_token [OF ok, of comment d] by metis+
  then show "addReply k (cm_parentId comment) (markDeleted i now d) = d" by (simp add: addReply_def markDeleted_def)
qed simp

lemma commentStep_cases:
  assumes "commentStep db db'" "commentDbOk db"
  obtains "db_comments db' = db_comments db" "dbGeneration db' = dbGeneration db" "commentDbOk db'"
  | t where "bumpOf db db' t" "commentDbOk db'"
      "filter (\<lambda>c. cm_tokenDbId c \<noteq> t) (db_comments db') = filter (\<lambda>c. cm_tokenDbId c \<noteq> t) (db_comments db)"
proof -
  have ok: "tablesOk (db_comments db) (db_likes db)" "outboxOk db" using assms(2) by (simp_all add: commentDbOk_def)
  note unchanged = that(1) and bumped = that(2)
  have bump: thesis if b: "bumpOf db db' t" "tablesOk (db_comments db') (db_likes db')"
      "filter (\<lambda>c. cm_tokenDbId c \<noteq> t) (db_comments db') = filter (\<lambda>c. cm_tokenDbId c \<noteq> t) (db_comments db)" for t
    using bumped [OF b(1) _ b(3)] b(2) outboxOk_bumped [OF ok(2) b(1)] by (simp add: commentDbOk_def)
  have same: "db_comments db' = db_comments db \<Longrightarrow> db_likes db' = db_likes db \<Longrightarrow> db_generations db' = db_generations db
      \<Longrightarrow> outboxOk db' \<Longrightarrow> thesis"
    using unchanged assms(2) by (simp add: commentDbOk_def dbGeneration_def fun_eq_iff)
  from assms(1) show thesis
  proof cases
    case (step_resolve sk raced newId chain ref tokens i)
    then show thesis using same outboxOk_cong [of db' db] ok(2) by simp
  next
    case (step_create i eventId now tokenId wallet input key hash c g)
    then show thesis using bump createTx_bump(1) tablesOk_create [OF ok(1)] others_create [OF ok(1)] by metis
  next
    case (step_delete eventId now commentId wallet c g)
    from step_delete show thesis
    proof (cases rule: deleteTx_cases)
      case 1
      then show thesis using same ok(2) by simp
    next
      case (2 comment)
      show thesis by (rule bump [of "cm_tokenDbId comment"])
        (use 2 others_delete [OF ok(1) 2(1)] tablesOk_delete [OF ok(1) step_delete] in \<open>auto simp: bumpOf_def\<close>)
    qed
  next
    case (step_like eventId now commentId wallet s g t)
    from step_like show thesis
    proof (cases rule: likeTx_cases)
      case 1
      then show thesis using same outboxOk_cong [of db' db] ok(2) by simp
    next
      case (2 comment)
      show thesis by (rule bump [of "cm_tokenDbId comment"])
        (use 2 others_like [OF ok(1) 2(1)] tablesOk_like [OF ok(1) step_like] in \<open>auto simp: bumpOf_def\<close>)
    qed
  next
    case (step_unlike eventId now commentId wallet s g t)
    have dist: "distinct (db_likes db)" using ok(1) by (simp add: tablesOk_def)
    from dist step_unlike show thesis
    proof (cases rule: unlikeTx_cases)
      case 1
      then show thesis using same ok(2) by simp
    next
      case (2 comment)
      show thesis by (rule bump [of "cm_tokenDbId comment"])
        (use 2 others_like [OF ok(1) 2(1)] tablesOk_unlike [OF ok(1) step_unlike] in \<open>auto simp: bumpOf_def\<close>)
    qed
  next
    case (step_dispatch owner up now r r' tbl n)
    then show thesis using same outboxOk_dispatch [OF ok(2)] by simp
  qed
qed

lemma commentDbOk_empty: "commentDbOk (emptyCommentDb tokens)"
  by (simp add: commentDbOk_def emptyCommentDb_def tablesOk_def outboxOk_def generationsOf_def dbGeneration_def
      List.map_filter_def)

lemma commentStep_ok: "commentStep db db' \<Longrightarrow> commentDbOk db \<Longrightarrow> commentDbOk db'"
  by (erule commentStep_cases) simp_all

lemma commentReachable_ok: "commentReachable db \<Longrightarrow> commentDbOk db"
  by (induction rule: commentReachable.induct) (auto simp: commentDbOk_empty intro: commentStep_ok)

section \<open>Properties of the tables\<close>

text \<open>C12. In every state the comment transactions can reach, whatever other wallets do in between, the stored counters are
  exact: a comment's \<open>likeCount\<close> is the number of distinct wallets whose like is on record, its \<open>replyCount\<close> the number of
  its replies that are not deleted; its text is erased exactly when it is deleted; and a reply's parent exists and belongs
  to the same token.\<close>

theorem comment_counters_exact:
  assumes "commentReachable db" and "c \<in> set (db_comments db)"
  shows "cm_likeCount c = int (card {w. (cm_id c, w) \<in> set (db_likes db)})
    \<and> cm_replyCount c = int (card {d \<in> set (db_comments db). cm_parentId d = Some (cm_id c) \<and> \<not> cm_isDeleted d})
    \<and> (cm_isDeleted c \<longleftrightarrow> cm_text c = None)
    \<and> (case cm_parentId c of None \<Rightarrow> True
       | Some p \<Rightarrow> (p, cm_tokenDbId c) \<in> (\<lambda>d. (cm_id d, cm_tokenDbId d)) ` set (db_comments db))"
proof -
  have ok: "tablesOk (db_comments db) (db_likes db)" using commentReachable_ok [OF assms(1)] by (simp add: commentDbOk_def)
  then have dist: "distinct (db_likes db)" "distinct (db_comments db)" and row: "rowOk (db_comments db) (db_likes db) c"
    using assms(2) by (auto simp: tablesOk_def list_all_iff simp: distinct_map)
  have "int (card {w. (cm_id c, w) \<in> set (db_likes db)}) = likesOf (cm_id c) (db_likes db)"
  proof -
    let ?A = "{l \<in> set (db_likes db). fst l = cm_id c}"
    have "card (snd ` ?A) = card ?A" by (rule card_image) (auto simp: inj_on_def)
    moreover have "snd ` ?A = {w. (cm_id c, w) \<in> set (db_likes db)}" by force
    ultimately have "card {w. (cm_id c, w) \<in> set (db_likes db)} = card ?A" by simp
    then show ?thesis using distinct_card [of "filter (\<lambda>l. fst l = cm_id c) (db_likes db)"] dist(1)
      by (simp add: likesOf_def)
  qed
  moreover have "int (card {d \<in> set (db_comments db). cm_parentId d = Some (cm_id c) \<and> \<not> cm_isDeleted d})
      = repliesOf (cm_id c) (db_comments db)"
    using distinct_card [of "filter (\<lambda>d. cm_parentId d = Some (cm_id c) \<and> \<not> cm_isDeleted d) (db_comments db)"] dist(2)
    by (simp add: repliesOf_def)
  ultimately show ?thesis using row by (simp add: rowOk_def split: option.splits)
qed

text \<open>A thread with one reply and one like.\<close>

definition afterTx :: "(comment_db \<times> 'a) result \<Rightarrow> comment_db" where
  "afterTx r = (case r of Inr (db, _) \<Rightarrow> db | Inl _ \<Rightarrow> emptyCommentDb [])"

definition exampleThread1 :: comment_db where
  "exampleThread1 = afterTx (createTx ''c1'' 1 10 ''t'' ''w1''
     \<lparr>ci_walletAddress = Some ''w1'', ci_text = ''hi'', ci_parentCommentId = None\<rparr> ''k1'' ''h1'' (emptyCommentDb []))"

definition exampleThread2 :: comment_db where
  "exampleThread2 = afterTx (createTx ''c2'' 2 11 ''t'' ''w2''
     \<lparr>ci_walletAddress = Some ''w2'', ci_text = ''re'', ci_parentCommentId = Some ''c1''\<rparr> ''k2'' ''h2'' exampleThread1)"

definition exampleThread :: comment_db where
  "exampleThread = afterTx (likeTx 3 12 ''c1'' ''w2'' exampleThread2)"

lemma afterTx_reachable:
  assumes "\<And>db'. r = Inr db' \<Longrightarrow> commentStep db (fst db')" "commentReachable db"
  shows "commentReachable (afterTx r)"
proof (cases r)
  case (Inr p)
  then show ?thesis using assms reach_step by (cases p) (force simp: afterTx_def)
qed (simp add: afterTx_def reach_empty)

lemma exampleThread_reachable: "commentReachable exampleThread"
proof -
  have "commentReachable exampleThread1" unfolding exampleThread1_def
    by (rule afterTx_reachable [OF _ reach_empty [of "[]"]]) (auto intro: step_create)
  then have "commentReachable exampleThread2" unfolding exampleThread2_def
    by (rule afterTx_reachable [rotated]) (auto intro: step_create)
  then show ?thesis unfolding exampleThread_def by (rule afterTx_reachable [rotated]) (auto intro: step_like)
qed

lemma exampleThread_counts:
  "map (\<lambda>c. (cm_id c, cm_likeCount c, cm_replyCount c)) (db_comments exampleThread) = [(''c1'', 1, 1), (''c2'', 0, 0)]"
  by code_simp

theorem comment_counters_exact_witness:
  "cm_likeCount (hd (db_comments exampleThread)) = 1
    \<and> card {w. (cm_id (hd (db_comments exampleThread)), w) \<in> set (db_likes exampleThread)} = 1"
proof -
  have m: "hd (db_comments exampleThread) \<in> set (db_comments exampleThread)"
    and l: "cm_likeCount (hd (db_comments exampleThread)) = 1"
    using exampleThread_counts by (cases "db_comments exampleThread"; simp)+
  from comment_counters_exact [OF exampleThread_reachable m] l show ?thesis by simp
qed

text \<open>C28. The transactional outbox loses and duplicates nothing: in every reachable state the events of a domain are, in
  commit order, exactly the generations \<open>1, 2, \<dots>\<close> up to the one stored in the database, each well-formed and under its
  own id.\<close>

theorem outbox_complete:
  assumes "commentReachable db"
  shows "generationsOf d (db_outbox db) = [1..dbGeneration db d] \<and> distinct (map ob_id (db_outbox db))
    \<and> list_all (\<lambda>e. ob_topic e = COMMENT_CACHE_EVENT \<and> cachePayload (ob_payload e) \<noteq> None) (db_outbox db)"
  using commentReachable_ok [OF assms] by (simp add: commentDbOk_def outboxOk_def)

theorem outbox_complete_witness:
  "generationsOf ''comments:t'' (db_outbox exampleThread) = [1..dbGeneration exampleThread ''comments:t'']
    \<and> dbGeneration exampleThread ''comments:t'' = 3"
proof -
  have "dbGeneration exampleThread ''comments:t'' = 3" by code_simp
  then show ?thesis using outbox_complete [OF exampleThread_reachable, of "''comments:t''"] by simp
qed

text \<open>The depth limit of \<open>createTx\<close> never fires: every comment is stored with depth 0 as its own root.\<close>

lemma depth_limit_unreachable:
  assumes "commentReachable db"
  shows "checkParent tokenId p db \<noteq> Inl (ConflictException ''COMMENT_MAX_DEPTH'')"
proof -
  have "cm_depth c = 0" if "c \<in> set (db_comments db)" for c
    using commentReachable_ok [OF assms] that by (simp add: commentDbOk_def tablesOk_def list_all_iff rowOk_def)
  then have "findComment db i = Some c \<Longrightarrow> cm_depth c = 0" for i c using findComment_mem [of db i c] by blast
  then show ?thesis by (auto simp: checkParent_def split: option.split)
qed

text \<open>The pool reference is spliced into SQL text without escaping: a reference of the right length may close the quoted
  literal and continue the statement.\<close>

definition hostileRef :: string where
  "hostileRef = ''0x'' @ [SQUOTE] @ '' union select usename::text from pg_user limit 1 --'' @ replicate 12 (CHR ''z'')"

lemma poolSql_unescaped:
  "length hostileRef = 66 \<and> toLowerCase hostileRef = hostileRef \<and> \<not> uuidLike hostileRef
    \<and> (\<exists>rest. poolSql hostileRef = ''SELECT token FROM public.pools WHERE pool_id = '' @ [SQUOTE] @ ''0x'' @ [SQUOTE] @ '' union select'' @ rest)"
proof -
  have "length hostileRef = 66 \<and> toLowerCase hostileRef = hostileRef \<and> \<not> uuidLike hostileRef" by code_simp
  then show ?thesis by (simp add: poolSql_def hostileRef_def)
qed

end
