(* ===== verification/Comments.thy ===== *)
theory Comments
  imports CommentStore "HOL-Library.List_Lexorder" "HOL-Library.Char_ord"
begin

text \<open>
  The services of \<open>src/src/modules/comments/\<close> over the transactions of \<open>CommentStore\<close> and the caches: creating with
  replay, deleting, liking, the like status, and the two cached listings. Pages and like statuses live in Redis as JSON;
  they are kept here in typed stores (\<open>timed\<close>: a key, a value and its expiry), one per kind of key. \<open>between\<close> arguments are
  what other requests commit between two database accesses of one request.
\<close>

section \<open>Creating and deleting\<close>

definition replay :: "comment_db \<Rightarrow> idempotency_row \<Rightarrow> string \<Rightarrow> (comment_row \<times> bool) result" where
  "replay db existing hash =
     (if idm_requestHash existing \<noteq> hash then Inl (ConflictException ''IDEMPOTENCY_KEY_REUSED'')
      else if idm_state existing \<noteq> COMPLETED then Inl (ConflictException ''REQUEST_IN_PROGRESS'')
      else case idm_resourceId existing of
        None \<Rightarrow> Inl (ConflictException ''REQUEST_IN_PROGRESS'')
      | Some i \<Rightarrow> (case findComment db i of
           None \<Rightarrow> Inl (NotFoundException ''COMMENT_NOT_FOUND'')
         | Some comment \<Rightarrow> Inr (comment, True)))"

text \<open>The environment of one request: the clock, whether Redis answers, the generated ids, and the chain and sink the
  resolver sees. \<open>env_hash\<close> is \<open>requestHash(canonicalize({ tokenId, ...input }))\<close>.\<close>

record request_env =
  env_now :: int
  env_up :: bool
  env_id :: string
  env_eventId :: nat
  env_tokenId :: string
  env_raced :: "token_row list"
  env_chain :: int
  env_sink :: sink
  env_hash :: "string \<Rightarrow> comment_input \<Rightarrow> string"
  env_random :: rat

definition resolveIn :: "request_env \<Rightarrow> string \<Rightarrow> comment_db \<Rightarrow> (comment_db \<times> string) result" where
  "resolveIn env tokenRef db =
     bindR (resolve (env_sink env) (env_raced env) (env_tokenId env) (env_chain env) tokenRef (db_tokens db))
       (\<lambda>(tokens, tokenId). Inr (db\<lparr>db_tokens := tokens\<rparr>, tokenId))"

definition createComment :: "request_env \<Rightarrow> (comment_db \<Rightarrow> comment_db) \<Rightarrow> string \<Rightarrow> comment_input \<Rightarrow> string
    \<Rightarrow> comment_db \<times> redis \<Rightarrow> (comment_row \<times> bool) result \<times> comment_db \<times> redis" where
  "createComment env between tokenRef input key = (\<lambda>(db, r).
     case ci_walletAddress input of
       None \<Rightarrow> (Inl (DomainException 401 ''SESSION_INVALID''), db, r)
     | Some wallet \<Rightarrow>
         if wallet = [] then (Inl (DomainException 401 ''SESSION_INVALID''), db, r)
         else case resolveIn env tokenRef db of
           Inl e \<Rightarrow> (Inl e, db, r)
         | Inr (db1, tokenId) \<Rightarrow>
             let hash = env_hash env tokenId input; idem = (COMMENT_SCOPE, wallet, key) in
             case db_idempotency db1 idem of
               Some existing \<Rightarrow> (replay db1 existing hash, db1, r)
             | None \<Rightarrow>
                 let db2 = between db1 in
                 case createTx (env_id env) (env_eventId env) (env_now env) tokenId wallet input key hash db2 of
                   Inr (db3, created, generation) \<Rightarrow>
                     (Inr (created, False), db3, applyGeneration (env_up env) r (env_now env) (commentCacheDomain tokenId) generation)
                 | Inl e \<Rightarrow>
                     if e \<noteq> PrismaError ''P2002'' then (Inl e, db2, r)
                     else case db_idempotency db2 idem of
                       None \<Rightarrow> (Inl (PrismaError ''P2025''), db2, r)
                     | Some raced \<Rightarrow> (replay db2 raced hash, db2, r))"

definition deleteComment :: "request_env \<Rightarrow> string \<Rightarrow> string \<Rightarrow> comment_db \<times> redis \<Rightarrow> comment_row result \<times> comment_db \<times> redis" where
  "deleteComment env commentId walletAddress = (\<lambda>(db, r).
     case deleteTx (env_eventId env) (env_now env) commentId walletAddress db of
       Inl e \<Rightarrow> (Inl e, db, r)
     | Inr (db', deleted, generation) \<Rightarrow>
         (Inr deleted, db', case generation of None \<Rightarrow> r
            | Some g \<Rightarrow> applyGeneration (env_up env) r (env_now env) (commentCacheDomain (cm_tokenDbId deleted)) g))"

section \<open>Likes\<close>

definition likeKey :: "string \<Rightarrow> string \<Rightarrow> string" where
  "likeKey commentId walletAddress = ''comments:'' @ commentId @ '':likes:'' @ walletAddress"

definition likeStatus :: "request_env \<Rightarrow> string \<Rightarrow> string \<Rightarrow> comment_db \<times> like_status timed
    \<Rightarrow> like_status result \<times> like_status timed" where
  "likeStatus env commentId walletAddress = (\<lambda>(db, st).
     let key = likeKey commentId walletAddress in
     case timedGet (env_up env) st (env_now env) key of
       Some cached \<Rightarrow> (Inr cached, st)
     | None \<Rightarrow> (case findComment db commentId of
          None \<Rightarrow> (Inl (NotFoundException ''COMMENT_NOT_FOUND''), st)
        | Some comment \<Rightarrow>
            let res = \<lparr>ls_commentId = commentId, ls_walletAddress = walletAddress,
                   ls_liked = (commentId, walletAddress) \<in> set (db_likes db), ls_likeCount = cm_likeCount comment\<rparr>
            in (Inr res, timedSet (env_up env) st (env_now env) (env_random env) key res 15)))"

definition afterLike :: "request_env \<Rightarrow> string \<Rightarrow> string \<Rightarrow> (comment_db \<times> like_status \<times> int option \<times> string) result
    \<Rightarrow> comment_db \<times> redis \<times> like_status timed \<Rightarrow> like_status result \<times> comment_db \<times> redis \<times> like_status timed" where
  "afterLike env commentId walletAddress tx = (\<lambda>(db, r, st).
     case tx of
       Inl e \<Rightarrow> (Inl e, db, r, st)
     | Inr (db', value, generation, tokenId) \<Rightarrow>
         (Inr value, db',
          (case generation of None \<Rightarrow> r
           | Some g \<Rightarrow> applyGeneration (env_up env) r (env_now env) (commentCacheDomain tokenId) g),
          timedDelete (env_up env) st (likeKey commentId walletAddress)))"

definition likeComment :: "request_env \<Rightarrow> string \<Rightarrow> string \<Rightarrow> comment_db \<times> redis \<times> like_status timed
    \<Rightarrow> like_status result \<times> comment_db \<times> redis \<times> like_status timed" where
  "likeComment env commentId walletAddress s =
     afterLike env commentId walletAddress (likeTx (env_eventId env) (env_now env) commentId walletAddress (fst s)) s"

definition unlikeComment :: "request_env \<Rightarrow> string \<Rightarrow> string \<Rightarrow> comment_db \<times> redis \<times> like_status timed
    \<Rightarrow> like_status result \<times> comment_db \<times> redis \<times> like_status timed" where
  "unlikeComment env commentId walletAddress s =
     afterLike env commentId walletAddress (unlikeTx (env_eventId env) (env_now env) commentId walletAddress (fst s)) s"

section \<open>Listings\<close>

datatype comment_sort = Newest | Oldest | Top

record comment_query =
  cq_page :: int
  cq_limit :: int
  cq_sort :: "comment_sort option"

record comment_page =
  pg_data :: "(comment_row \<times> comment_row list) list"
  pg_meta :: page_meta

definition oldestFirst :: "comment_row list \<Rightarrow> comment_row list" where
  "oldestFirst rows = sort_key cm_createdAt (sort_key cm_id rows)"

definition orderRoots :: "comment_sort option \<Rightarrow> comment_row list \<Rightarrow> comment_row list" where
  "orderRoots s rows = (case s of
     Some Oldest \<Rightarrow> oldestFirst rows
   | Some Top \<Rightarrow> sort_key (\<lambda>c. - cm_likeCount c) (sort_key (\<lambda>c. - cm_createdAt c) (sort_key cm_id rows))
   | _ \<Rightarrow> sort_key (\<lambda>c. - cm_createdAt c) (sort_key cm_id rows))"

definition repliesTo :: "string \<Rightarrow> comment_row list \<Rightarrow> comment_row list" where
  "repliesTo i rows = oldestFirst (filter (\<lambda>c. cm_parentId c = Some i) rows)"

definition rootsPage :: "string \<Rightarrow> comment_query \<Rightarrow> comment_row list \<Rightarrow> comment_page" where
  "rootsPage tokenId query rows =
     (let matching = filter (\<lambda>c. cm_tokenDbId c = tokenId \<and> cm_parentId c = None) rows in
      \<lparr>pg_data = map (\<lambda>c. (c, take 3 (repliesTo (cm_id c) rows)))
                   (pageRows (cq_page query) (cq_limit query) (orderRoots (cq_sort query) matching)),
       pg_meta = pageMeta (cq_page query) (cq_limit query) (int (length matching))\<rparr>)"

definition repliesPage :: "string \<Rightarrow> comment_query \<Rightarrow> comment_row list \<Rightarrow> comment_page" where
  "repliesPage commentId query rows =
     (let matching = repliesTo commentId rows in
      \<lparr>pg_data = map (\<lambda>c. (c, [])) (pageRows (cq_page query) (cq_limit query) matching),
       pg_meta = pageMeta (cq_page query) (cq_limit query) (int (length matching))\<rparr>)"

definition DQUOTE :: char where
  "DQUOTE = CHR 0x22"

definition sortName :: "comment_sort \<Rightarrow> string" where
  "sortName s = (case s of Newest \<Rightarrow> ''newest'' | Oldest \<Rightarrow> ''oldest'' | Top \<Rightarrow> ''top'')"

text \<open>\<open>JSON.stringify\<close> of the query's own fields in key order; a replies query has no \<open>sort\<close>.\<close>

definition queryJson :: "comment_query \<Rightarrow> string" where
  "queryJson q = ''{'' @ [DQUOTE] @ ''limit'' @ [DQUOTE] @ '':'' @ toString (cq_limit q) @ '','' @ [DQUOTE] @ ''page'' @ [DQUOTE] @ '':''
     @ toString (cq_page q) @ (case cq_sort q of None \<Rightarrow> ''}''
        | Some s \<Rightarrow> '','' @ [DQUOTE] @ ''sort'' @ [DQUOTE] @ '':'' @ [DQUOTE] @ sortName s @ [DQUOTE] @ ''}'')"

definition rootsKey :: "string \<Rightarrow> string \<Rightarrow> comment_query \<Rightarrow> string" where
  "rootsKey tokenId generation q = ''comments:'' @ tokenId @ '':'' @ generation @ '':roots:'' @ queryJson q"

definition repliesKey :: "string \<Rightarrow> string \<Rightarrow> string \<Rightarrow> comment_query \<Rightarrow> string" where
  "repliesKey tokenId generation commentId q =
     ''comments:'' @ tokenId @ '':'' @ generation @ '':replies:'' @ commentId @ '':'' @ queryJson q"

definition commentGeneration :: "bool \<Rightarrow> int \<Rightarrow> string \<Rightarrow> comment_db \<Rightarrow> redis \<Rightarrow> string \<times> redis" where
  "commentGeneration up now tokenId db r =
     (let domain = commentCacheDomain tokenId; cached = getGeneration up r now domain in
      if cached > 0 then (toString cached, r)
      else case db_generations db domain of
        None \<Rightarrow> (''0'', r)
      | Some g \<Rightarrow> (toString g, applyGeneration up r now domain g))"

text \<open>The common tail of the two listings: answer from the cache, or compute the page and store it.\<close>

definition cachedPage :: "request_env \<Rightarrow> string \<Rightarrow> comment_page \<Rightarrow> comment_page timed \<Rightarrow> comment_page \<times> comment_page timed" where
  "cachedPage env key computed st =
     (case timedGet (env_up env) st (env_now env) key of
        Some cached \<Rightarrow> (cached, st)
      | None \<Rightarrow> (computed, timedSet (env_up env) st (env_now env) (env_random env) key computed 30))"

definition listComments :: "request_env \<Rightarrow> (comment_db \<Rightarrow> comment_db) \<Rightarrow> string \<Rightarrow> comment_query
    \<Rightarrow> comment_db \<times> redis \<times> comment_page timed \<Rightarrow> comment_page result \<times> comment_db \<times> redis \<times> comment_page timed" where
  "listComments env between tokenRef query = (\<lambda>(db, r, st).
     case resolveIn env tokenRef db of
       Inl e \<Rightarrow> (Inl e, db, r, st)
     | Inr (db1, tokenId) \<Rightarrow>
         let (generation, r1) = commentGeneration (env_up env) (env_now env) tokenId db1 r;
             db2 = between db1;
             (page, st1) = cachedPage env (rootsKey tokenId generation query) (rootsPage tokenId query (db_comments db2)) st
         in (Inr page, db2, r1, st1))"

definition requireComment :: "comment_db \<Rightarrow> string \<Rightarrow> string result" where
  "requireComment db commentId = (case findComment db commentId of
     None \<Rightarrow> Inl (NotFoundException ''COMMENT_NOT_FOUND'')
   | Some comment \<Rightarrow> Inr (cm_tokenDbId comment))"

definition listReplies :: "request_env \<Rightarrow> (comment_db \<Rightarrow> comment_db) \<Rightarrow> string \<Rightarrow> comment_query
    \<Rightarrow> comment_db \<times> redis \<times> comment_page timed \<Rightarrow> comment_page result \<times> comment_db \<times> redis \<times> comment_page timed" where
  "listReplies env between commentId query = (\<lambda>(db, r, st).
     case requireComment db commentId of
       Inl e \<Rightarrow> (Inl e, db, r, st)
     | Inr tokenId \<Rightarrow>
         let (generation, r1) = commentGeneration (env_up env) (env_now env) tokenId db r;
             db2 = between db;
             (page, st1) = cachedPage env (repliesKey tokenId generation commentId query) (repliesPage commentId query (db_comments db2)) st
         in (Inr page, db2, r1, st1))"

section \<open>Idempotent creation\<close>

lemma step_idempotency:
  assumes "commentStep db db'" "commentDbOk db" "db_idempotency db k = Some row"
  shows "db_idempotency db' k = Some row"
  using assms(1)
proof cases
  case (step_create i eventId now tokenId wallet input key hash c g)
  then show ?thesis using createTx_tables(6,7) [OF step_create] assms(3) by auto
next
  case (step_delete eventId now commentId wallet c g)
  from step_delete show ?thesis by (cases rule: deleteTx_cases) (simp_all add: assms(3))
next
  case (step_like eventId now commentId wallet s g t)
  then show ?thesis using assms(3)
    by (auto simp: likeTx_def Let_def bindR_eq_Inr_iff advance_iff split: option.splits if_splits)
next
  case (step_unlike eventId now commentId wallet s g t)
  then show ?thesis using assms(3)
    by (auto simp: unlikeTx_def Let_def bindR_eq_Inr_iff advance_iff split: option.splits if_splits)
qed (simp_all add: assms(3))

text \<open>Rows keep their id, token and author for ever.\<close>

definition identity :: "comment_row \<Rightarrow> string \<times> string \<times> string" where
  "identity c = (cm_id c, cm_tokenDbId c, cm_walletAddress c)"

lemma identity_edits [simp]:
  "identity (addReply k p c) = identity c" "identity (addLike k i c) = identity c" "identity (markDeleted i now c) = identity c"
  by (simp_all add: identity_def addReply_def addLike_def markDeleted_def)

lemma step_identity:
  assumes "commentStep db db'" "commentDbOk db"
  shows "identity ` set (db_comments db) \<subseteq> identity ` set (db_comments db')"
  using assms(1)
proof cases
  case (step_create i eventId now tokenId wallet input key hash c g)
  then show ?thesis unfolding createTx_tables(2) [OF step_create] by (auto simp: image_image)
next
  case (step_delete eventId now commentId wallet c g)
  from step_delete show ?thesis by (cases rule: deleteTx_cases) (simp_all add: image_image)
next
  case (step_like eventId now commentId wallet s g t)
  from step_like show ?thesis by (cases rule: likeTx_cases) (simp_all add: image_image)
next
  case (step_unlike eventId now commentId wallet s g t)
  have "distinct (db_likes db)" using assms(2) by (simp add: commentDbOk_def tablesOk_def)
  from this step_unlike show ?thesis by (cases rule: unlikeTx_cases) (simp_all add: image_image)
qed simp_all

lemma steps_persist:
  assumes "commentStep\<^sup>*\<^sup>* db db'" "commentDbOk db"
  shows "commentDbOk db' \<and> (db_idempotency db k = Some row \<longrightarrow> db_idempotency db' k = Some row)
    \<and> identity ` set (db_comments db) \<subseteq> identity ` set (db_comments db')"
  using assms
proof (induction rule: rtranclp_induct)
  case (step b c)
  then show ?case using commentStep_ok step_idempotency step_identity by (meson order_trans)
qed simp

lemma createComment_fresh:
  assumes "createComment env between tokenRef input key (db, r) = (Inr (c, False), db', r')"
  obtains wallet tokenId db1 g where "ci_walletAddress input = Some wallet" "wallet \<noteq> []" "resolveIn env tokenRef db = Inr (db1, tokenId)"
    "createTx (env_id env) (env_eventId env) (env_now env) tokenId wallet input key (env_hash env tokenId input) (between db1)
       = Inr (db', c, g)"
    "r' = applyGeneration (env_up env) r (env_now env) (commentCacheDomain tokenId) g"
  using assms
  by (auto simp: createComment_def replay_def Let_def split: option.splits if_splits sum.splits prod.splits)

lemma createComment_replays:
  assumes "ci_walletAddress input = Some wallet" "wallet \<noteq> []" "resolveIn env tokenRef db = Inr (db1, tokenId)"
    "db_idempotency db1 (COMMENT_SCOPE, wallet, key) = Some row"
  shows "createComment env between tokenRef input key (db, r) = (replay db1 row (env_hash env tokenId input), db1, r)"
  using assms by (simp add: createComment_def Let_def)

lemma resolveIn_tables:
  "resolveIn env tokenRef db = Inr (db1, tokenId) \<Longrightarrow> db1 = db\<lparr>db_tokens := db_tokens db1\<rparr>"
  by (auto simp: resolveIn_def bindR_eq_Inr_iff)

text \<open>C11. Creating a comment is idempotent per wallet and key. Once a request has created its comment, then after any
  further activity of the system a repetition of it (same wallet, key, body and token, whatever ids, clock and Redis state
  it runs with) returns that comment as a replay and changes nothing; a request that reuses the key with another body,
  hence another hash, is refused with \<open>IDEMPOTENCY_KEY_REUSED\<close> and changes nothing either.\<close>

theorem createComment_idempotent:
  assumes "commentReachable db" and "\<And>d. commentStep\<^sup>*\<^sup>* d (between d)"
    and "createComment env between tokenRef input key (db, r) = (Inr (c, False), db1, r1)"
    and "commentStep\<^sup>*\<^sup>* db1 db2"
    and "resolveIn env tokenRef db = Inr (db0, tokenId)"
    and "resolveIn env' tokenRef' db2 = Inr (db3, tokenId)"
    and "env_hash env' = env_hash env" and "ci_walletAddress input' = ci_walletAddress input"
  shows "\<exists>c'. (input' = input \<longrightarrow>
        createComment env' between' tokenRef' input' key (db2, rr) = (Inr (c', True), db3, rr))
    \<and> (env_hash env tokenId input' \<noteq> env_hash env tokenId input \<longrightarrow>
        createComment env' between' tokenRef' input' key (db2, rr) = (Inl (ConflictException ''IDEMPOTENCY_KEY_REUSED''), db3, rr))
    \<and> identity c' = identity c \<and> db3 = db2\<lparr>db_tokens := db_tokens db3\<rparr>"
proof -
  obtain wallet t0 d0 g where w: "ci_walletAddress input = Some wallet" "wallet \<noteq> []"
    and "resolveIn env tokenRef db = Inr (d0, t0)"
    and "createTx (env_id env) (env_eventId env) (env_now env) t0 wallet input key (env_hash env t0 input) (between d0) = Inr (db1, c, g)"
    by (rule createComment_fresh [OF assms(3)])
  then have tx: "createTx (env_id env) (env_eventId env) (env_now env) tokenId wallet input key (env_hash env tokenId input) (between db0)
       = Inr (db1, c, g)" using assms(5) by simp
  have st0: "commentStep db db0" using assms(5) by (auto simp: resolveIn_def bindR_eq_Inr_iff intro: step_resolve)
  have ok0: "commentDbOk (between db0)"
    using steps_persist [OF assms(2)] commentStep_ok [OF st0] commentReachable_ok [OF assms(1)] by blast
  then have ok1: "commentDbOk db1" using commentStep_ok step_create [OF tx] by blast
  note t = createTx_tables [OF tx]
  define row where "row = \<lparr>idm_requestHash = env_hash env tokenId input, idm_state = COMPLETED, idm_responseStatus = Some 201,
    idm_resourceId = Some (env_id env), idm_expiresAt = env_now env + IDEMPOTENCY_RETENTION_MS\<rparr>"
  have "db_idempotency db1 (COMMENT_SCOPE, wallet, key) = Some row" by (simp add: t(7) row_def)
  then have p: "commentDbOk db2" "db_idempotency db2 (COMMENT_SCOPE, wallet, key) = Some row"
    "identity ` set (db_comments db1) \<subseteq> identity ` set (db_comments db2)"
    using steps_persist [OF assms(4) ok1] by blast+
  have d3: "db3 = db2\<lparr>db_tokens := db_tokens db3\<rparr>" by (rule resolveIn_tables [OF assms(6)])
  have "identity c \<in> identity ` set (db_comments db1)" unfolding t(2) by (simp add: image_image)
  then obtain c' where c': "c' \<in> set (db_comments db2)" "identity c' = identity c" using p(3) by auto
  have "cm_id c' = env_id env" using c'(2) by (simp add: identity_def t(1) newComment_def)
  then have f: "findComment db3 (env_id env) = Some c'"
    using findComment_Some [of db2 "env_id env" c'] c'(1) p(1)
    by (subst d3) (simp add: commentDbOk_def tablesOk_def findComment_def)
  have "db_idempotency db3 (COMMENT_SCOPE, wallet, key) = Some row" using p(2) by (subst d3) simp
  then have r: "createComment env' between' tokenRef' input' key (db2, rr) = (replay db3 row (env_hash env tokenId input'), db3, rr)"
    using createComment_replays [OF _ w(2) assms(6), of input' key row] w(1) assms(7,8) by simp
  show ?thesis using f c'(2) d3 unfolding r by (auto simp: replay_def row_def)
qed

definition exampleTokenId :: string where
  "exampleTokenId = ''00000000-0000-4000-8000-000000000001''"

definition exampleEnv :: request_env where
  "exampleEnv = \<lparr>env_now = 10, env_up = True, env_id = ''c1'', env_eventId = 1, env_tokenId = [], env_raced = [], env_chain = 8453,
     env_sink = \<lparr>sk_pools = (\<lambda>_. []), sk_tokens = (\<lambda>_. [])\<rparr>, env_hash = (\<lambda>t i. t @ ci_text i), env_random = 0\<rparr>"

definition exampleTokenDb :: comment_db where
  "exampleTokenDb = emptyCommentDb [\<lparr>tk_id = exampleTokenId, tk_chainId = 8453, tk_token = None, tk_name = ''N'', tk_symbol = ''S'',
     tk_uri = [], tk_source = ''INDEXER''\<rparr>]"

definition exampleInput :: comment_input where
  "exampleInput = \<lparr>ci_walletAddress = Some ''w'', ci_text = ''hi'', ci_parentCommentId = None\<rparr>"

lemma example_resolves: "db_tokens db = db_tokens exampleTokenDb \<Longrightarrow> resolveIn exampleEnv exampleTokenId db = Inr (db, exampleTokenId)"
proof -
  assume "db_tokens db = db_tokens exampleTokenDb"
  moreover have "resolve (env_sink exampleEnv) (env_raced exampleEnv) (env_tokenId exampleEnv) (env_chain exampleEnv) exampleTokenId
     (db_tokens exampleTokenDb) = Inr (db_tokens exampleTokenDb, exampleTokenId)" by code_simp
  ultimately show ?thesis by (simp add: resolveIn_def)
qed

theorem createComment_idempotent_witness:
  "\<exists>c db1. createComment exampleEnv id exampleTokenId exampleInput ''k'' (exampleTokenDb, Map.empty) = (Inr (c, False), db1,
        applyGeneration True Map.empty 10 (commentCacheDomain exampleTokenId) 1)
    \<and> (\<exists>c'. createComment exampleEnv id exampleTokenId exampleInput ''k'' (db1, Map.empty) = (Inr (c', True), db1, Map.empty)
        \<and> identity c' = identity c)"
proof -
  obtain db1 where first: "createComment exampleEnv id exampleTokenId exampleInput ''k'' (exampleTokenDb, Map.empty)
      = (Inr (newComment ''c1'' exampleTokenId ''w'' exampleInput 10, False), db1,
         applyGeneration True Map.empty 10 (commentCacheDomain exampleTokenId) 1)"
    and toks: "db_tokens db1 = db_tokens exampleTokenDb"
    by (simp add: createComment_def example_resolves exampleInput_def Let_def)
      (simp add: createTx_def exampleTokenDb_def emptyCommentDb_def exampleEnv_def checkParent_def upsertProfile_def
        advanceCommentCacheGeneration_def Let_def)
  have "commentReachable exampleTokenDb" by (simp add: exampleTokenDb_def reach_empty)
  from createComment_idempotent [OF this _ first rtranclp.rtrancl_refl example_resolves [OF refl] example_resolves [OF toks] refl refl,
      where rr = Map.empty and between' = id]
  show ?thesis using first by auto
qed

section \<open>Coherence of the cached listings\<close>

subsection \<open>A versioned source\<close>

text \<open>What a generation-keyed cache relies on: a version that never decreases, and a view that changes only together with
  its version. Pages stored under a version that was current or older when they were computed then never mislead a reader
  who asks for the current version.\<close>

locale versioned_source =
  fixes src_step :: "'db \<Rightarrow> 'db \<Rightarrow> bool" and ok :: "'db \<Rightarrow> bool" and version :: "'db \<Rightarrow> 'k \<Rightarrow> int" and view :: "'db \<Rightarrow> 'k \<Rightarrow> 'v"
  assumes step_ok: "src_step db db' \<Longrightarrow> ok db \<Longrightarrow> ok db'"
    and version_mono: "src_step db db' \<Longrightarrow> ok db \<Longrightarrow> version db k \<le> version db' k"
    and view_stable: "src_step db db' \<Longrightarrow> ok db \<Longrightarrow> version db' k = version db k \<Longrightarrow> view db' k = view db k"
begin

definition fresh :: "('k \<Rightarrow> 'q \<Rightarrow> 'v \<Rightarrow> 'p) \<Rightarrow> 'db \<Rightarrow> ('k \<Rightarrow> int \<Rightarrow> 'q \<Rightarrow> 'p option) \<Rightarrow> bool" where
  "fresh render db cached \<longleftrightarrow> (\<forall>k g q p. cached k g q = Some p
     \<longrightarrow> g \<le> version db k \<and> (g = version db k \<longrightarrow> p = render k q (view db k)))"

lemma fresh_hit: "fresh render db cached \<Longrightarrow> cached k (version db k) q = Some p \<Longrightarrow> p = render k q (view db k)"
  by (simp add: fresh_def)

lemma steps: 
  assumes "src_step\<^sup>*\<^sup>* db db'" "ok db"
  shows "ok db' \<and> version db k \<le> version db' k \<and> (version db' k = version db k \<longrightarrow> view db' k = view db k)"
  using assms
proof (induction rule: rtranclp_induct)
  case (step b c)
  then have b: "ok b" "version db k \<le> version b k" "version b k = version db k \<longrightarrow> view b k = view db k" by auto
  have c: "ok c" "version b k \<le> version c k" "version c k = version b k \<Longrightarrow> view c k = view b k"
    using step.hyps(2) b(1) step_ok version_mono view_stable by blast+
  have "version c k = version db k \<Longrightarrow> version b k = version db k \<and> version c k = version b k" using b(2) c(2) by linarith
  then show ?case using b c by auto
qed simp

lemma fresh_steps: "fresh render db cached \<Longrightarrow> src_step\<^sup>*\<^sup>* db db' \<Longrightarrow> ok db \<Longrightarrow> fresh render db' cached"
proof (unfold fresh_def, intro allI impI)
  fix k g q p
  assume f: "\<forall>k g q p. cached k g q = Some p \<longrightarrow> g \<le> version db k \<and> (g = version db k \<longrightarrow> p = render k q (view db k))"
    and s: "src_step\<^sup>*\<^sup>* db db'" "ok db" and hit: "cached k g q = Some p"
  have "g \<le> version db k" "g = version db k \<Longrightarrow> p = render k q (view db k)" using f hit by blast+
  moreover have "version db k \<le> version db' k" "version db' k = version db k \<Longrightarrow> view db' k = view db k" using steps [OF s] by blast+
  ultimately show "g \<le> version db' k \<and> (g = version db' k \<longrightarrow> p = render k q (view db' k))" by auto
qed

lemma fresh_put:
  assumes "fresh render db cached" "g \<le> version db k"
    and "\<And>k' g' q'. cached' k' g' q' = cached k' g' q' \<or> cached' k' g' q' = None
      \<or> k' = k \<and> g' = g \<and> cached' k' g' q' = Some (render k q' (view db k))"
  shows "fresh render db cached'"
  unfolding fresh_def
proof (intro allI impI)
  fix k' g' q' p assume "cached' k' g' q' = Some p"
  then show "g' \<le> version db k' \<and> (g' = version db k' \<longrightarrow> p = render k' q' (view db k'))"
    using assms(3) [of k' g' q'] assms(1,2) unfolding fresh_def by (metis option.distinct(1) option.inject)
qed

end

subsection \<open>The comments of a token\<close>

definition tokenComments :: "comment_db \<Rightarrow> string \<Rightarrow> comment_row list" where
  "tokenComments db t = filter (\<lambda>c. cm_tokenDbId c = t) (db_comments db)"

lemma dbGeneration_bumpOf:
  "bumpOf db db' t \<Longrightarrow> dbGeneration db' d = dbGeneration db d + (if d = commentCacheDomain t then 1 else 0)"
  unfolding bumpOf_def by (auto simp: dbGeneration_bumped) (simp_all add: dbGeneration_def)

interpretation commentSource: versioned_source commentStep commentDbOk "\<lambda>db t. dbGeneration db (commentCacheDomain t)" tokenComments
proof
  fix db db' t assume s: "commentStep db db'" "commentDbOk db"
  show "commentDbOk db'" by (rule commentStep_ok [OF s])
  from s show "dbGeneration db (commentCacheDomain t) \<le> dbGeneration db' (commentCacheDomain t)"
    by (cases rule: commentStep_cases) (simp_all add: dbGeneration_bumpOf)
  assume eq: "dbGeneration db' (commentCacheDomain t) = dbGeneration db (commentCacheDomain t)"
  from s show "tokenComments db' t = tokenComments db t"
  proof (cases rule: commentStep_cases)
    case 1
    then show ?thesis by (simp add: tokenComments_def)
  next
    case (2 u)
    have "u \<noteq> t" using 2(1) eq by (auto simp: dbGeneration_bumpOf)
    have "tokenComments d t = filter (\<lambda>c. cm_tokenDbId c = t) (filter (\<lambda>c. cm_tokenDbId c \<noteq> u) (db_comments d))" for d
      using \<open>u \<noteq> t\<close> by (auto simp: tokenComments_def intro!: filter_cong)
    then show ?thesis using 2(3) by (simp only:)
  qed
qed

text \<open>A page depends only on the comments of its token.\<close>

lemma rootsPage_view:
  assumes "commentDbOk db"
  shows "rootsPage t q (tokenComments db t) = rootsPage t q (db_comments db)"
proof -
  have ok: "tablesOk (db_comments db) (db_likes db)" using assms by (simp add: commentDbOk_def)
  have "repliesTo (cm_id c) (tokenComments db t) = repliesTo (cm_id c) (db_comments db)"
    if "c \<in> set (db_comments db)" "cm_tokenDbId c = t" for c
  proof -
    have "filter (\<lambda>d. cm_parentId d = Some (cm_id c)) (tokenComments db t) = filter (\<lambda>d. cm_parentId d = Some (cm_id c)) (db_comments db)"
      unfolding tokenComments_def filter_filter using parent_token [OF ok _ that(1)] that(2) by (intro filter_cong) auto
    then show ?thesis by (simp add: repliesTo_def)
  qed
  moreover have "set (pageRows p l (orderRoots s rows)) \<subseteq> set rows" for p l s rows
    unfolding pageRows_def orderRoots_def oldestFirst_def
    by (auto split: option.splits comment_sort.splits dest!: in_set_takeD in_set_dropD)
  ultimately show ?thesis
    by (force simp: rootsPage_def Let_def tokenComments_def filter_filter conj_commute cong: conj_cong intro!: map_cong)
qed

lemma repliesPage_view:
  assumes "commentDbOk db" "findComment db i = Some c"
  shows "repliesPage i q (tokenComments db (cm_tokenDbId c)) = repliesPage i q (db_comments db)"
proof -
  have ok: "tablesOk (db_comments db) (db_likes db)" using assms by (simp add: commentDbOk_def)
  note m = findComment_mem [OF assms(2)]
  have "filter (\<lambda>d. cm_parentId d = Some i) (tokenComments db (cm_tokenDbId c)) = filter (\<lambda>d. cm_parentId d = Some i) (db_comments db)"
    unfolding tokenComments_def filter_filter using parent_token [OF ok, of _ c] m by (intro filter_cong) auto
  then show ?thesis by (simp add: repliesPage_def repliesTo_def)
qed

subsection \<open>Cache keys\<close>

definition pageKey :: "string \<Rightarrow> string \<Rightarrow> string option \<times> comment_query \<Rightarrow> string" where
  "pageKey tokenId generation = (\<lambda>(parent, query). case parent of
     None \<Rightarrow> rootsKey tokenId generation query | Some commentId \<Rightarrow> repliesKey tokenId generation commentId query)"

definition plainId :: "string \<Rightarrow> bool" where
  "plainId s \<longleftrightarrow> CHR '':'' \<notin> set s"

lemma delimited_inject:
  assumes "list_all P a" "list_all P b" "\<not> P x" "\<not> P y"
  shows "a @ x # s = b @ y # t \<longleftrightarrow> a = b \<and> x = y \<and> s = t"
  using assms
proof (induction a arbitrary: b)
  case Nil
  then show ?case by (cases b) auto
next
  case (Cons c a)
  then show ?case by (cases b) auto
qed

lemma queryJson_inject: "queryJson q = queryJson q' \<Longrightarrow> q = q'"
proof -
  let ?P = "\<lambda>c. isDigit c \<or> c = CHR ''-''"
  assume e: "queryJson q = queryJson q'"
  have p: "\<not> ?P (CHR '','')" "\<not> ?P (CHR ''}'')" by (simp_all add: isDigit_def)
  have nc: "CHR '','' \<notin> set (toString i)" for i using toString_chars [of i] p(1) by (auto simp: list_all_iff)
  note cut = delimited_inject [OF toString_chars toString_chars]
  have "cq_limit q = cq_limit q'"
    and rest: "toString (cq_page q) @ (case cq_sort q of None \<Rightarrow> ''}'' | Some s \<Rightarrow> '','' @ [DQUOTE] @ ''sort'' @ [DQUOTE] @ '':'' @ [DQUOTE] @ sortName s @ [DQUOTE] @ ''}'')
      = toString (cq_page q') @ (case cq_sort q' of None \<Rightarrow> ''}'' | Some s \<Rightarrow> '','' @ [DQUOTE] @ ''sort'' @ [DQUOTE] @ '':'' @ [DQUOTE] @ sortName s @ [DQUOTE] @ ''}'')"
    using e p by (simp_all add: queryJson_def cut)
  moreover have "cq_page q = cq_page q' \<and> cq_sort q = cq_sort q'"
  proof (cases "cq_sort q"; cases "cq_sort q'")
    fix s s' assume "cq_sort q = Some s" "cq_sort q' = Some s'"
    then show ?thesis using rest p by (cases s; cases s') (simp_all add: cut sortName_def DQUOTE_def)
  next
    fix s assume "cq_sort q = None" "cq_sort q' = Some s"
    then show ?thesis using rest p nc [of "cq_page q"] by (auto simp: cut dest: arg_cong [where f = set])
  next
    fix s assume "cq_sort q = Some s" "cq_sort q' = None"
    then show ?thesis using rest [symmetric] p nc [of "cq_page q'"] by (auto simp: cut dest: arg_cong [where f = set])
  qed (use rest p in \<open>simp_all add: cut\<close>)
  ultimately show ?thesis by simp
qed

lemma pageKey_inject:
  assumes "plainId t" "plainId t'" "list_all plainId (case fst q of None \<Rightarrow> [] | Some c \<Rightarrow> [c])"
    "list_all plainId (case fst q' of None \<Rightarrow> [] | Some c \<Rightarrow> [c])" "0 \<le> g" "0 \<le> g'"
    and e: "pageKey t (toString g) q = pageKey t' (toString g') q'"
  shows "t = t' \<and> g = g' \<and> q = q'"
proof -
  let ?P = "\<lambda>c. c \<noteq> CHR '':''"
  have id: "list_all ?P s" if "plainId s" for s using that by (auto simp: plainId_def list_all_iff)
  have num: "list_all ?P (toString i)" for i using toString_chars [of i] by (auto simp: list_all_iff isDigit_def)
  note cut = delimited_inject [of ?P]
  obtain pa qa pb qb where q: "q = (pa, qa)" "q' = (pb, qb)" by (cases q; cases q') auto
  show ?thesis
  proof (cases pa; cases pb)
    fix c c' assume c: "pa = Some c" "pb = Some c'"
    then show ?thesis using e assms(3,4) id [OF assms(1)] id [OF assms(2)] num id [of c] id [of c'] q
      by (simp add: pageKey_def repliesKey_def cut queryJson_inject)
  qed (use e id [OF assms(1)] id [OF assms(2)] num q in \<open>auto simp: pageKey_def repliesKey_def rootsKey_def cut dest: queryJson_inject\<close>)
qed

subsection \<open>The running system\<close>

lemma uuidLike_plain: "uuidLike s \<Longrightarrow> plainId s"
proof -
  assume u: "uuidLike s"
  have c: "CHR '':'' \<noteq> CHR ''-''" "\<not> isHexLower (CHR '':'')" by (simp_all add: isHexLower_def isDigit_def)
  have "s ! i \<noteq> CHR '':''" if "i < length s" for i
    using u that c by (auto simp: uuidLike_def list_all_length nth_enumerate_eq split: if_splits dest!: spec [of _ i])
  then show ?thesis by (auto simp: plainId_def in_set_conv_nth)
qed

text \<open>Requests, outbox deliveries (late, repeated or out of order) and evictions interleave freely. Token and comment ids are
  UUID columns.\<close>

inductive pageReachable :: "comment_db \<times> redis \<times> comment_page timed \<Rightarrow> bool" where
  page_init: "pageReachable (emptyCommentDb tokens, Map.empty, Map.empty)"
| page_write: "pageReachable (db, r, st) \<Longrightarrow> commentStep db db' \<Longrightarrow> pageReachable (db', r, st)"
| page_deliver: "pageReachable (db, r, st) \<Longrightarrow> 1 \<le> g \<Longrightarrow> g \<le> dbGeneration db (commentCacheDomain t)
    \<Longrightarrow> pageReachable (db, applyGeneration up r now (commentCacheDomain t) g, st)"
| page_forget: "pageReachable (db, r, st) \<Longrightarrow> pageReachable (db, r(generationKey d := None), st)"
| page_evict: "pageReachable (db, r, st) \<Longrightarrow> pageReachable (db, r, st(key := None))"
| page_list: "pageReachable (db, r, st) \<Longrightarrow> resolveIn env tokenRef db = Inr (db1, t) \<Longrightarrow> uuidLike t
    \<Longrightarrow> commentStep\<^sup>*\<^sup>* db1 (between db1) \<Longrightarrow> listComments env between tokenRef query (db, r, st) = (Inr page, db', r', st')
    \<Longrightarrow> pageReachable (db', r', st')"
| page_replies: "pageReachable (db, r, st) \<Longrightarrow> requireComment db commentId = Inr t \<Longrightarrow> uuidLike t \<Longrightarrow> uuidLike commentId
    \<Longrightarrow> commentStep\<^sup>*\<^sup>* db (between db) \<Longrightarrow> listReplies env between commentId query (db, r, st) = (Inr page, db', r', st')
    \<Longrightarrow> pageReachable (db', r', st')"

definition renderPage :: "string \<Rightarrow> string option \<times> comment_query \<Rightarrow> comment_row list \<Rightarrow> comment_page" where
  "renderPage t = (\<lambda>(parent, query) rows. case parent of
     None \<Rightarrow> rootsPage t query rows | Some commentId \<Rightarrow> repliesPage commentId query rows)"

definition plainReq :: "string option \<times> comment_query \<Rightarrow> bool" where
  "plainReq q \<longleftrightarrow> (case fst q of None \<Rightarrow> True | Some c \<Rightarrow> plainId c)"

definition storedPages :: "comment_page timed \<Rightarrow> string \<Rightarrow> int \<Rightarrow> string option \<times> comment_query \<Rightarrow> comment_page option" where
  "storedPages st t g q = (if plainId t \<and> plainReq q \<and> 0 \<le> g then map_option fst (st (pageKey t (toString g) q)) else None)"

definition systemOk :: "comment_db \<times> redis \<times> comment_page timed \<Rightarrow> bool" where
  "systemOk = (\<lambda>(db, r, st). commentDbOk db \<and> genOk r
     \<and> (\<forall>t now. getGeneration True r now (commentCacheDomain t) \<le> dbGeneration db (commentCacheDomain t))
     \<and> commentSource.fresh renderPage db (storedPages st))"

lemma systemOk_parts:
  assumes "systemOk (db, r, st)"
  shows "commentDbOk db" "genOk r" "getGeneration True r now (commentCacheDomain t) \<le> dbGeneration db (commentCacheDomain t)"
    "commentSource.fresh renderPage db (storedPages st)"
  using assms by (auto simp: systemOk_def)

lemma applyGeneration_bounded:
  assumes "genOk r" "0 \<le> g" "\<And>t now. getGeneration True r now (commentCacheDomain t) \<le> dbGeneration db (commentCacheDomain t)"
    "g \<le> dbGeneration db (commentCacheDomain t)"
  shows "genOk (applyGeneration up r now (commentCacheDomain t) g)
    \<and> getGeneration True (applyGeneration up r now (commentCacheDomain t) g) now' (commentCacheDomain t') \<le> dbGeneration db (commentCacheDomain t')"
proof (cases up)
  case True
  have "applyGeneration True r now d g = applyGeneration True r now' d g" for d
    using assms(1) unfolding applyGeneration_cases [OF assms(1,2)]
    by (rule genOk_cases [of r d now]) (auto simp: getGeneration_def redisGet_def)
  then show ?thesis using True redisGen.app_ok [OF assms(1,2)] redisGen.gen_app [OF assms(1,2), of now'] assms(3,4) by auto
next
  case False
  then show ?thesis using assms by (simp add: applyGeneration_def applyGenerationStrict_def)
qed

lemma commentGeneration_spec:
  assumes "systemOk (db, r, st)"
  obtains g r1 where "commentGeneration up now t db r = (toString g, r1)" "0 \<le> g" "g \<le> dbGeneration db (commentCacheDomain t)"
    "systemOk (db, r1, st)"
    "getGeneration up r now (commentCacheDomain t) \<in> {0, dbGeneration db (commentCacheDomain t)} \<longrightarrow> g = dbGeneration db (commentCacheDomain t)"
proof -
  note ok = systemOk_parts [OF assms]
  let ?d = "commentCacheDomain t"
  have pos: "0 \<le> dbGeneration db ?d" using ok(1) by (simp add: commentDbOk_def outboxOk_def)
  show thesis
  proof (cases "getGeneration up r now ?d > 0")
    case True
    then have up: up by (cases up) (simp_all add: getGeneration_def)
    show thesis
      by (rule that [of "getGeneration up r now ?d" r]) (use True up ok(3) assms in \<open>auto simp: commentGeneration_def Let_def\<close>)
  next
    case False
    show thesis
    proof (cases "db_generations db ?d")
      case None
      have "toString 0 = ''0''" by code_simp
      then show thesis using False None pos assms
        by (intro that [of 0 r]) (auto simp: commentGeneration_def Let_def dbGeneration_def)
    next
      case (Some g)
      then have g: "g = dbGeneration db ?d" by (simp add: dbGeneration_def)
      have "systemOk (db, applyGeneration up r now ?d g, st)"
        using applyGeneration_bounded [OF ok(2) _ ok(3), where g = g] pos g ok(1,4) unfolding systemOk_def by auto
      then show thesis using False Some g pos
        by (intro that [of g "applyGeneration up r now ?d g"]) (auto simp: commentGeneration_def Let_def)
    qed
  qed
qed

lemma storedPages_set:
  assumes "plainId t" "plainReq q" "0 \<le> g"
  shows "storedPages (timedSet up st now u (pageKey t (toString g) q) page ttl) t' g' q' = storedPages st t' g' q'
    \<or> t' = t \<and> g' = g \<and> q' = q \<and> storedPages (timedSet up st now u (pageKey t (toString g) q) page ttl) t' g' q' = Some page"
proof (cases "up \<and> plainId t' \<and> plainReq q' \<and> 0 \<le> g' \<and> pageKey t' (toString g') q' = pageKey t (toString g) q")
  case True
  have "list_all plainId (case fst x of None \<Rightarrow> [] | Some c \<Rightarrow> [c])" if "plainReq x" for x
    using that by (auto simp: plainReq_def split: option.splits)
  then have "t' = t \<and> g' = g \<and> q' = q" using True assms by (intro pageKey_inject) auto
  then show ?thesis using True assms by (simp add: storedPages_def timedSet_def)
next
  case False
  then have "storedPages (timedSet up st now u (pageKey t (toString g) q) page ttl) t' g' q' = storedPages st t' g' q'"
    unfolding storedPages_def timedSet_def by (cases up) simp_all
  then show ?thesis by blast
qed

lemma cachedPage_ok:
  assumes ok: "systemOk (db, r, st)" and q: "plainId t" "plainReq q" "0 \<le> g" "g \<le> dbGeneration db (commentCacheDomain t)"
    and page: "cachedPage env (pageKey t (toString g) q) (renderPage t q (tokenComments db t)) st = (page, st1)"
  shows "systemOk (db, r, st1)" "g = dbGeneration db (commentCacheDomain t) \<Longrightarrow> page = renderPage t q (tokenComments db t)"
proof -
  let ?v = "renderPage t q (tokenComments db t)"
  note f = systemOk_parts(4) [OF ok]
  consider "st1 = st" "storedPages st t g q = Some page"
    | "st1 = timedSet (env_up env) st (env_now env) (env_random env) (pageKey t (toString g) q) ?v 30" "page = ?v"
  proof (cases "timedGet (env_up env) st (env_now env) (pageKey t (toString g) q)")
    case None
    have "(?v, timedSet (env_up env) st (env_now env) (env_random env) (pageKey t (toString g) q) ?v 30) = (page, st1)"
      using page unfolding cachedPage_def None by (simp only: option.case)
    then show thesis using that(2) by blast
  next
    case (Some cached)
    then have "st1 = st" "page = cached" using page by (simp_all add: cachedPage_def)
    moreover have "map_option fst (st (pageKey t (toString g) q)) = Some cached"
      using Some by (simp add: timedGet_def split: if_splits option.splits prod.splits)
    ultimately show thesis using that(1) q by (simp add: storedPages_def)
  qed
  then have "commentSource.fresh renderPage db (storedPages st1)
    \<and> (g = dbGeneration db (commentCacheDomain t) \<longrightarrow> page = ?v)"
  proof cases
    case 1
    then show ?thesis using f commentSource.fresh_hit [OF f] by blast
  next
    case 2
    have "commentSource.fresh renderPage db (storedPages st1)"
      by (rule commentSource.fresh_put [OF f q(4)]) (use storedPages_set [OF q(1,2,3)] 2(1) in blast)
    then show ?thesis using 2(2) by simp
  qed
  then show "systemOk (db, r, st1)" "g = dbGeneration db (commentCacheDomain t) \<Longrightarrow> page = ?v"
    using ok by (auto simp: systemOk_def)
qed

lemma systemOk_steps:
  assumes "systemOk (db, r, st)" "commentStep\<^sup>*\<^sup>* db db'"
  shows "systemOk (db', r, st)"
proof -
  note ok = systemOk_parts [OF assms(1)]
  have "getGeneration True r now (commentCacheDomain t) \<le> dbGeneration db' (commentCacheDomain t)" for now t
    using ok(3) [of now t] commentSource.steps [OF assms(2) ok(1), of t] by linarith
  then show ?thesis using ok commentSource.steps [OF assms(2) ok(1)] commentSource.fresh_steps [OF ok(4) assms(2) ok(1)]
    by (simp add: systemOk_def)
qed

lemma resolveIn_step: "resolveIn env tokenRef db = Inr (db1, t) \<Longrightarrow> commentStep db db1"
  by (auto simp: resolveIn_def bindR_eq_Inr_iff intro: step_resolve)

lemma listComments_ok:
  assumes ok: "systemOk (db, r, st)" and res: "resolveIn env tokenRef db = Inr (db1, t)" "uuidLike t"
    and betw: "commentStep\<^sup>*\<^sup>* db1 (between db1)"
    and l: "listComments env between tokenRef query (db, r, st) = (Inr page, db', r', st')"
  shows "systemOk (db', r', st')"
    "\<lbrakk>between db1 = db1; getGeneration (env_up env) r (env_now env) (commentCacheDomain t) \<in> {0, dbGeneration db (commentCacheDomain t)}\<rbrakk>
      \<Longrightarrow> page = rootsPage t query (db_comments db)"
proof -
  have ok1: "systemOk (db1, r, st)" using systemOk_steps [OF ok] resolveIn_step [OF res(1)] by blast
  obtain g r1 where g: "commentGeneration (env_up env) (env_now env) t db1 r = (toString g, r1)" "0 \<le> g"
    "g \<le> dbGeneration db1 (commentCacheDomain t)" "systemOk (db1, r1, st)"
    "getGeneration (env_up env) r (env_now env) (commentCacheDomain t) \<in> {0, dbGeneration db1 (commentCacheDomain t)}
      \<longrightarrow> g = dbGeneration db1 (commentCacheDomain t)"
    by (rule commentGeneration_spec [OF ok1, where up = "env_up env" and now = "env_now env" and t = t])
  define db2 where "db2 = between db1"
  have ok2: "systemOk (db2, r1, st)" unfolding db2_def by (rule systemOk_steps [OF g(4) betw])
  have g2: "g \<le> dbGeneration db2 (commentCacheDomain t)"
    using g(3) commentSource.steps [OF betw systemOk_parts(1) [OF ok1], of t] by (simp add: db2_def)
  have view: "rootsPage t query (db_comments db2) = renderPage t (None, query) (tokenComments db2 t)"
    using rootsPage_view [OF systemOk_parts(1) [OF ok2]] by (simp add: renderPage_def)
  have c: "cachedPage env (pageKey t (toString g) (None, query)) (renderPage t (None, query) (tokenComments db2 t)) st = (page, st')"
    and e: "db' = db2" "r' = r1"
    using l res(1) g(1) view by (auto simp: listComments_def Let_def db2_def pageKey_def split: prod.splits)
  note cp = cachedPage_ok [OF ok2 uuidLike_plain [OF res(2)] _ g(2) g2 c]
  show "systemOk (db', r', st')" using cp(1) e by (simp add: plainReq_def)
  assume a: "between db1 = db1" "getGeneration (env_up env) r (env_now env) (commentCacheDomain t) \<in> {0, dbGeneration db (commentCacheDomain t)}"
  have d1: "db1 = db\<lparr>db_tokens := db_tokens db1\<rparr>" by (rule resolveIn_tables [OF res(1)])
  then have d: "dbGeneration db1 = dbGeneration db" "db_comments db1 = db_comments db"
    by (metis (no_types) comment_db.select_convs(6) comment_db.surjective comment_db.update_convs(1) dbGeneration_def ext,
        metis comment_db.select_convs(2) comment_db.surjective comment_db.update_convs(1))
  show "page = rootsPage t query (db_comments db)"
  proof -
    have "g = dbGeneration db1 (commentCacheDomain t)" using g(5) a(2) d(1) by auto
    then have "page = renderPage t (None, query) (tokenComments db2 t)" using cp(2) a(1) by (simp add: plainReq_def db2_def)
    then show ?thesis using view a(1) d(2) by (simp add: db2_def)
  qed
qed

lemma listReplies_ok:
  assumes ok: "systemOk (db, r, st)" and res: "requireComment db commentId = Inr t" "uuidLike t" "uuidLike commentId"
    and betw: "commentStep\<^sup>*\<^sup>* db (between db)"
    and l: "listReplies env between commentId query (db, r, st) = (Inr page, db', r', st')"
  shows "systemOk (db', r', st')"
    "\<lbrakk>between db = db; getGeneration (env_up env) r (env_now env) (commentCacheDomain t) \<in> {0, dbGeneration db (commentCacheDomain t)}\<rbrakk>
      \<Longrightarrow> page = repliesPage commentId query (db_comments db)"
proof -
  obtain g r1 where g: "commentGeneration (env_up env) (env_now env) t db r = (toString g, r1)" "0 \<le> g"
    "g \<le> dbGeneration db (commentCacheDomain t)" "systemOk (db, r1, st)"
    "getGeneration (env_up env) r (env_now env) (commentCacheDomain t) \<in> {0, dbGeneration db (commentCacheDomain t)}
      \<longrightarrow> g = dbGeneration db (commentCacheDomain t)"
    by (rule commentGeneration_spec [OF ok, where up = "env_up env" and now = "env_now env" and t = t])
  define db2 where "db2 = between db"
  have ok2: "systemOk (db2, r1, st)" unfolding db2_def by (rule systemOk_steps [OF g(4) betw])
  have g2: "g \<le> dbGeneration db2 (commentCacheDomain t)"
    using g(3) commentSource.steps [OF betw systemOk_parts(1) [OF ok], of t] by (simp add: db2_def)
  obtain c where c: "findComment db commentId = Some c" "cm_tokenDbId c = t"
    using res(1) by (auto simp: requireComment_def split: option.splits)
  have "identity c \<in> identity ` set (db_comments db2)"
    using steps_persist [OF betw systemOk_parts(1) [OF ok]] findComment_mem [OF c(1)] unfolding db2_def by blast
  then obtain c2 where c2: "c2 \<in> set (db_comments db2)" "cm_id c2 = commentId" "cm_tokenDbId c2 = t"
    using findComment_mem [OF c(1)] c(2) by (auto simp: identity_def)
  then have "findComment db2 commentId = Some c2"
    using findComment_Some [of db2] systemOk_parts(1) [OF ok2] by (auto simp: commentDbOk_def tablesOk_def)
  then have view: "repliesPage commentId query (db_comments db2) = renderPage t (Some commentId, query) (tokenComments db2 t)"
    using repliesPage_view [OF systemOk_parts(1) [OF ok2], of commentId c2 query] c2(3) by (simp add: renderPage_def)
  have cp: "cachedPage env (pageKey t (toString g) (Some commentId, query))
      (renderPage t (Some commentId, query) (tokenComments db2 t)) st = (page, st')" and e: "db' = db2" "r' = r1"
    using l res(1) g(1) view by (auto simp: listReplies_def Let_def db2_def pageKey_def split: prod.splits)
  have "plainReq (Some commentId, query)" using uuidLike_plain [OF res(3)] by (simp add: plainReq_def)
  note cp = cachedPage_ok [OF ok2 uuidLike_plain [OF res(2)] this g(2) g2 cp]
  show "systemOk (db', r', st')" using cp(1) e by simp
  assume a: "between db = db" "getGeneration (env_up env) r (env_now env) (commentCacheDomain t) \<in> {0, dbGeneration db (commentCacheDomain t)}"
  have "g = dbGeneration db2 (commentCacheDomain t)" using g(5) a by (auto simp: db2_def)
  then show "page = repliesPage commentId query (db_comments db)" using cp(2) view a(1) by (simp add: db2_def)
qed

lemma storedPages_evict: "storedPages (st(key := None)) t g q = storedPages st t g q \<or> storedPages (st(key := None)) t g q = None"
  by (simp add: storedPages_def)

lemma pageReachable_ok: "pageReachable s \<Longrightarrow> systemOk s"
proof (induction rule: pageReachable.induct)
  case (page_init tokens)
  have "commentSource.fresh renderPage (emptyCommentDb tokens) (storedPages Map.empty)"
    by (simp add: commentSource.fresh_def storedPages_def)
  then show ?case using commentDbOk_empty [of tokens]
    by (simp add: systemOk_def genOk_def getGeneration_absent commentDbOk_def outboxOk_def)
next
  case (page_write db r st db')
  then show ?case using systemOk_steps by blast
next
  case (page_deliver db r st g t up now)
  note ok = systemOk_parts [OF page_deliver.IH]
  show ?case using applyGeneration_bounded [OF ok(2) _ ok(3), where g = g] page_deliver.hyps ok(1,4)
    unfolding systemOk_def by simp
next
  case (page_forget db r st d)
  note ok = systemOk_parts [OF page_forget.IH]
  have "0 \<le> dbGeneration db x" for x using ok(1) by (simp add: commentDbOk_def outboxOk_def)
  moreover have "getGeneration True (r(generationKey d := None)) now x = (if x = d then 0 else getGeneration True r now x)" for now x
    by (simp add: getGeneration_def redisGet_def)
  moreover have "genOk (r(generationKey d := None))" using ok(2) by (auto simp: genOk_def)
  ultimately show ?case using ok by (simp add: systemOk_def)
next
  case (page_evict db r st key)
  note ok = systemOk_parts [OF page_evict.IH]
  have "commentSource.fresh renderPage db (storedPages (st(key := None)))"
    using ok(4) storedPages_evict [of st key] unfolding commentSource.fresh_def by (metis option.distinct(1))
  then show ?case using ok by (simp add: systemOk_def)
next
  case page_list
  then show ?case using listComments_ok(1) by blast
next
  case page_replies
  then show ?case using listReplies_ok(1) by blast
qed



end
