(* ===== verification/Draining.thy ===== *)
theory Draining
  imports Comments
begin

text \<open>
  The comment tables, the outbox dispatcher and the cache together: repeated rounds of the dispatcher publish a backlog and
  bring the cache to the generations of the database.
\<close>

section \<open>Draining the outbox\<close>

text \<open>Rounds of the dispatcher with Redis reachable, each with its own lease owner and clock.\<close>

definition dispatchRounds :: "(string \<times> int) list \<Rightarrow> redis \<times> outbox_event list \<Rightarrow> redis \<times> outbox_event list" where
  "dispatchRounds = fold (\<lambda>(owner, now) (r, tbl). case dispatchBatch owner (\<lambda>_. True) now r tbl of (r', tbl', _) \<Rightarrow> (r', tbl'))"

definition unpublished :: "outbox_event list \<Rightarrow> outbox_event list" where
  "unpublished tbl = filter (\<lambda>e. ob_publishedAt e = None) tbl"

text \<open>Rows that a round at any of the clocks may deliver: well-formed, due and without a lease.\<close>

definition deliverable :: "int set \<Rightarrow> outbox_event \<Rightarrow> bool" where
  "deliverable nows e \<longleftrightarrow> ob_topic e = COMMENT_CACHE_EVENT \<and> cachePayload (ob_payload e) \<noteq> None
     \<and> (ob_publishedAt e = None \<longrightarrow> (\<forall>now\<in>nows. leaseFree now e \<and> ob_availableAt e \<le> now))"

definition payloadOf :: "outbox_event \<Rightarrow> string \<times> int" where
  "payloadOf e = (case cachePayload (ob_payload e) of None \<Rightarrow> ([], 0) | Some (d, g) \<Rightarrow> (d, int (parseDec g)))"

definition reflected :: "redis \<Rightarrow> outbox_event \<Rightarrow> bool" where
  "reflected r e \<longleftrightarrow> ob_publishedAt e \<noteq> None \<longrightarrow> snd (payloadOf e) \<le> getGeneration True r 0 (fst (payloadOf e))"

definition drainOk :: "int set \<Rightarrow> (string \<Rightarrow> int) \<Rightarrow> redis \<times> outbox_event list \<Rightarrow> bool" where
  "drainOk nows bound = (\<lambda>(r, tbl). genOk r \<and> distinct (map ob_id tbl) \<and> (\<forall>e\<in>set tbl. deliverable nows e \<and> reflected r e)
     \<and> (\<forall>p\<in>payloadOf ` set tbl. snd p \<le> bound (fst p)) \<and> (\<forall>x. getGeneration True r 0 x \<le> bound x))"

lemma getGeneration_time: "genOk r \<Longrightarrow> getGeneration True r now d = getGeneration True r now' d"
  by (rule genOk_cases [of r d now]) (auto simp: getGeneration_def redisGet_def)

lemma settledRow_published:
  "deliverError up e = None \<Longrightarrow> ob_publishedAt (settledRow up now e) = Some now"
  by (simp add: settledRow_def)

lemma deliverError_None: "deliverable nows e \<Longrightarrow> deliverError (\<lambda>_. True) e = None"
  by (simp add: deliverable_def deliverError_def)

lemma payloadOf_settled [simp]: "payloadOf (settledRow up now e) = payloadOf e"
  by (simp add: payloadOf_def)

lemma settledUpdates_all:
  assumes "\<forall>e\<in>set es. deliverable nows e"
  shows "settledUpdates (\<lambda>_. True) es = map payloadOf es"
  using assms by (induction es) (auto simp: settledUpdates_def payloadOf_def deliverError_None split: option.splits)

lemma candidates_all:
  assumes "\<forall>e\<in>set tbl. deliverable nows e" "now \<in> nows"
  shows "outboxCandidates now tbl = take 50 (sort_key ob_createdAt (unpublished tbl))"
proof -
  have "filter (\<lambda>e. leaseFree now e \<and> ob_availableAt e \<le> now) tbl = unpublished tbl"
    unfolding unpublished_def using assms by (intro filter_cong) (auto simp: deliverable_def leaseFree_def)
  then show ?thesis by (simp add: outboxCandidates_def)
qed

lemma drain_round:
  assumes ok: "drainOk nows bound (r, tbl)" and n: "now \<in> nows"
    and disp: "dispatchBatch owner (\<lambda>_. True) now r tbl = (r', tbl', k)"
  shows "drainOk nows bound (r', tbl')" "length (unpublished tbl') = length (unpublished tbl) - 50"
    "map payloadOf tbl' = map payloadOf tbl"
proof -
  have d: "distinct (map ob_id tbl)" and g: "genOk r" and w: "\<forall>e\<in>set tbl. deliverable nows e"
    and cov: "\<And>e. e \<in> set tbl \<Longrightarrow> reflected r e" using ok by (auto simp: drainOk_def)
  define cs where "cs = outboxCandidates now tbl"
  have sub: "set cs \<subseteq> set tbl" using candidates_sub [of now tbl] by (auto simp: cs_def)
  have cdel: "\<forall>e\<in>set cs. deliverable nows e" using sub w by blast
  have tbl': "tbl' = map (\<lambda>e. if e \<in> set cs then settledRow (\<lambda>_. True) now e else e) tbl" and r': "r' = fst (dispatchBatch owner (\<lambda>_. True) now r tbl)"
    using dispatchBatch_eq [OF d, of owner "\<lambda>_. True" now r] disp by (simp_all add: cs_def)
  have g': "genOk r'" unfolding r' by (rule dispatchBatch_generation(1) [OF d g])
  have gen: "getGeneration True r' 0 x = Max (insert (getGeneration True r 0 x) {v. (x, v) \<in> payloadOf ` set cs})" for x
    using dispatchBatch_generation(2) [OF d g, of owner "\<lambda>_. True" now x] settledUpdates_all [OF cdel]
      getGeneration_time [OF g', of now x 0] getGeneration_time [OF g, of now x 0]
    by (simp add: r' [symmetric] cs_def)
  have fin: "finite {v. (x, v) \<in> payloadOf ` set cs}" for x
  proof (rule finite_subset)
    show "{v. (x, v) \<in> payloadOf ` set cs} \<subseteq> snd ` payloadOf ` set cs"
    proof
      fix v assume "v \<in> {v. (x, v) \<in> payloadOf ` set cs}"
      then have "snd (x, v) \<in> snd ` payloadOf ` set cs" by (intro imageI) simp
      then show "v \<in> snd ` payloadOf ` set cs" by simp
    qed
  qed simp
  have refl: "reflected r' e'" if e': "e' \<in> set tbl'" for e'
  proof -
    obtain e where e: "e \<in> set tbl" "e' = (if e \<in> set cs then settledRow (\<lambda>_. True) now e else e)" using e' unfolding tbl' set_map by blast
    show ?thesis
    proof (cases "e \<in> set cs")
      case True
      then have "(fst (payloadOf e), snd (payloadOf e)) \<in> payloadOf ` set cs" by simp
      then show ?thesis using True e fin by (auto simp: reflected_def gen intro!: Max_ge)
    next
      case False
      have "getGeneration True r 0 x \<le> getGeneration True r' 0 x" for x unfolding gen using fin by (intro Max_ge) auto
      then show ?thesis using False e cov [OF e(1)] by (auto simp: reflected_def intro: order_trans)
    qed
  qed
  have pay: "map payloadOf tbl' = map payloadOf tbl" by (simp add: tbl')
  have "deliverable nows e'" if e': "e' \<in> set tbl'" for e'
  proof -
    obtain e where e: "e \<in> set tbl" "e' = (if e \<in> set cs then settledRow (\<lambda>_. True) now e else e)" using e' unfolding tbl' set_map by blast
    then show ?thesis using w cdel settledRow_published [OF deliverError_None, of nows e now]
      by (auto simp: deliverable_def)
  qed
  moreover have "map ob_id tbl' = map ob_id tbl" by (simp add: tbl')
  moreover have "getGeneration True r' 0 x \<le> bound x" for x
    unfolding gen
  proof (rule Max.boundedI)
    fix v assume v: "v \<in> insert (getGeneration True r 0 x) {v. (x, v) \<in> payloadOf ` set cs}"
    have b: "\<forall>p\<in>payloadOf ` set tbl. snd p \<le> bound (fst p)" "getGeneration True r 0 x \<le> bound x"
      using ok by (auto simp: drainOk_def)
    show "v \<le> bound x"
    proof (cases "v = getGeneration True r 0 x")
      case False
      then have "(x, v) \<in> payloadOf ` set tbl" using v sub by blast
      from bspec [OF b(1) this] show ?thesis by simp
    qed (simp add: b(2))
  qed (use fin in simp_all)
  moreover have "payloadOf ` set tbl' = payloadOf ` set tbl" using arg_cong [OF pay, of set] by (simp only: set_map)
  ultimately show "drainOk nows bound (r', tbl')" using g' refl d ok by (simp add: drainOk_def del: ball_simps)
  show "map payloadOf tbl' = map payloadOf tbl" by (rule pay)
  have "unpublished tbl' = filter (\<lambda>e. e \<notin> set cs) (unpublished tbl)"
  proof -
    have "filter (\<lambda>e. ob_publishedAt e = None) (map (\<lambda>e. if e \<in> set cs then settledRow (\<lambda>_. True) now e else e) xs)
        = filter (\<lambda>e. e \<notin> set cs) (unpublished xs)" for xs
      using cdel settledRow_published [OF deliverError_None] by (induction xs) (auto simp: unpublished_def)
    then show ?thesis by (simp add: tbl' unpublished_def)
  qed
  moreover have "length (filter (\<lambda>e. e \<in> set cs) (unpublished tbl)) = length cs"
  proof -
    have c: "cs = take 50 (sort_key ob_createdAt (unpublished tbl))" unfolding cs_def by (rule candidates_all [OF w n])
    have du: "distinct (unpublished tbl)" using d by (auto simp: unpublished_def distinct_map)
    have "set (filter (\<lambda>e. e \<in> set cs) (unpublished tbl)) = set cs"
      using set_take_subset [of 50 "sort_key ob_createdAt (unpublished tbl)"] by (auto simp: c)
    moreover have "distinct cs" using du by (simp add: c)
    ultimately show ?thesis using du by (metis distinct_card distinct_filter)
  qed
  moreover have "length cs = min 50 (length (unpublished tbl))"
    unfolding cs_def candidates_all [OF w n] by (simp add: min.commute)
  ultimately show "length (unpublished tbl') = length (unpublished tbl) - 50"
    using sum_length_filter_compl [of "\<lambda>e. e \<in> set cs" "unpublished tbl"] by simp
qed

lemma drain_rounds:
  assumes "drainOk nows bound (r, tbl)" "snd ` set rounds \<subseteq> nows" "dispatchRounds rounds (r, tbl) = (r', tbl')"
  shows "drainOk nows bound (r', tbl') \<and> length (unpublished tbl') = length (unpublished tbl) - 50 * length rounds
    \<and> map payloadOf tbl' = map payloadOf tbl"
  using assms
proof (induction rounds arbitrary: r tbl)
  case (Cons x rounds)
  obtain owner now where x: "x = (owner, now)" by force
  obtain r1 tbl1 k where b: "dispatchBatch owner (\<lambda>_. True) now r tbl = (r1, tbl1, k)" by (metis prod_cases3)
  have "now \<in> nows" using Cons.prems(2) x by simp
  note r = drain_round [OF Cons.prems(1) this b]
  have "dispatchRounds rounds (r1, tbl1) = (r', tbl')" using Cons.prems(3) x b by (simp add: dispatchRounds_def)
  then show ?case using Cons.IH [OF r(1)] Cons.prems(2) r(2,3) by simp
qed (simp add: dispatchRounds_def)

lemma payloadOf_generations:
  assumes "\<forall>e\<in>set tbl. cachePayload (ob_payload e) \<noteq> None"
  shows "(d, g) \<in> payloadOf ` set tbl \<longleftrightarrow> g \<in> set (generationsOf d tbl)"
  using assms
proof (induction tbl)
  case (Cons e tbl)
  obtain d' s where "cachePayload (ob_payload e) = Some (d', s)" using Cons.prems by auto
  then show ?case using Cons by (auto simp: generationsOf_def payloadOf_def List.map_filter_simps)
qed (simp add: generationsOf_def List.map_filter_simps)

text \<open>C13. The outbox drains: once the dispatcher reaches Redis again, \<open>k\<close> rounds publish the whole backlog of up to \<open>50 k\<close>
  due events of any reachable database, and the cache then holds, for every token, exactly the generation of the database,
  so that no listing can be answered from an older one.\<close>

theorem outbox_drains:
  assumes "commentReachable db" and "genOk r"
    and "\<forall>d. getGeneration True r 0 d \<le> dbGeneration db d"
    and "\<forall>e\<in>set (db_outbox db). deliverable (snd ` set rounds) e \<and> reflected r e"
    and "length (unpublished (db_outbox db)) \<le> 50 * length rounds"
    and "dispatchRounds rounds (r, db_outbox db) = (r', tbl)"
  shows "unpublished tbl = [] \<and> getGeneration True r' 0 (commentCacheDomain t) = dbGeneration db (commentCacheDomain t)"
proof -
  define bound where "bound = dbGeneration db"
  have ob: "outboxOk db" using commentReachable_ok [OF assms(1)] by (simp add: commentDbOk_def)
  have wf: "\<forall>e\<in>set (db_outbox db). cachePayload (ob_payload e) \<noteq> None" using ob by (simp add: outboxOk_def list_all_iff)
  have gens: "(d, g) \<in> payloadOf ` set (db_outbox db) \<longleftrightarrow> 1 \<le> g \<and> g \<le> dbGeneration db d" for d g
    using payloadOf_generations [OF wf, of d g] ob by (auto simp: outboxOk_def)
  have le: "\<forall>p\<in>payloadOf ` set (db_outbox db). snd p \<le> bound (fst p)"
  proof
    fix p assume "p \<in> payloadOf ` set (db_outbox db)"
    then show "snd p \<le> bound (fst p)" using gens [of "fst p" "snd p"] by (simp add: bound_def)
  qed
  have "drainOk (snd ` set rounds) bound (r, db_outbox db)"
    using assms(2,3,4) ob le by (simp add: drainOk_def outboxOk_def bound_def)
  from drain_rounds [OF this order_refl assms(6)]
  have ok: "drainOk (snd ` set rounds) bound (r', tbl)" and len: "length (unpublished tbl) = 0"
    and pay: "map payloadOf tbl = map payloadOf (db_outbox db)" using assms(5) by auto
  let ?d = "commentCacheDomain t"
  have up: "getGeneration True r' 0 ?d \<le> dbGeneration db ?d" using ok by (simp add: drainOk_def bound_def)
  have "dbGeneration db ?d \<le> getGeneration True r' 0 ?d"
  proof (cases "1 \<le> dbGeneration db ?d")
    case True
    then have "(?d, dbGeneration db ?d) \<in> payloadOf ` set tbl" using gens pay by (metis image_set order_refl)
    then obtain e where e: "e \<in> set tbl" "payloadOf e = (?d, dbGeneration db ?d)" by (metis imageE)
    then have "ob_publishedAt e \<noteq> None" "reflected r' e" using len ok by (auto simp: unpublished_def drainOk_def filter_empty_conv)
    then show ?thesis using e(2) by (simp add: reflected_def)
  next
    case False
    have "0 \<le> getGeneration True r' 0 ?d" by (simp add: getGeneration_def split: option.split)
    then show ?thesis using False by linarith
  qed
  then show ?thesis using up len by simp
qed

theorem outbox_drains_witness:
  "unpublished (snd (dispatchRounds [(''w'', 100)] (Map.empty, db_outbox exampleThread))) = []
    \<and> getGeneration True (fst (dispatchRounds [(''w'', 100)] (Map.empty, db_outbox exampleThread))) 0 (commentCacheDomain ''t'') = 3"
proof -
  let ?rs = "[(''w'', 100)]"
  obtain r' tbl where d: "dispatchRounds ?rs (Map.empty, db_outbox exampleThread) = (r', tbl)" by fastforce
  have ok: "commentDbOk exampleThread" by (rule commentReachable_ok [OF exampleThread_reachable])
  have "genOk Map.empty" by (simp add: genOk_def)
  moreover have "\<forall>d. getGeneration True Map.empty 0 d \<le> dbGeneration exampleThread d"
    using ok by (simp add: getGeneration_absent commentDbOk_def outboxOk_def)
  moreover have "list_all (\<lambda>e. ob_topic e = COMMENT_CACHE_EVENT \<and> cachePayload (ob_payload e) \<noteq> None \<and> ob_publishedAt e = None
      \<and> leaseFree 100 e \<and> ob_availableAt e \<le> 100) (db_outbox exampleThread)" by code_simp
  then have "\<forall>e\<in>set (db_outbox exampleThread). deliverable (snd ` set ?rs) e \<and> reflected Map.empty e"
    by (auto simp: list_all_iff deliverable_def reflected_def)
  moreover have "length (unpublished (db_outbox exampleThread)) \<le> 50 * length ?rs" by code_simp
  moreover have "dbGeneration exampleThread (commentCacheDomain ''t'') = 3" by code_simp
  ultimately show ?thesis using outbox_drains [OF exampleThread_reachable _ _ _ _ d, of "''t''"] d by simp
qed

end
