(* ===== verification/Json.thy ===== *)
theory Json
  imports Common
begin

text \<open>
  \<open>JSON.stringify\<close> and \<open>JSON.parse\<close> of ECMAScript, as far as the sources use them (session claims and client frames).
  Numbers are exact rationals, strings are code points up to 255 (an escape beyond that range does not parse here), and
  of two members of one name the last counts, as in the language. The parser recurses on a depth bound; one more than
  the length of the text is enough, since every level consumes a character.
\<close>

datatype json = NullJ | BoolJ bool | NumJ rat | StrJ string | ArrJ "json list" | ObjJ "(string \<times> json) list"

definition jsonField :: "json \<Rightarrow> string \<Rightarrow> json option" where
  "jsonField v k = (case v of ObjJ ms \<Rightarrow> map_of (rev ms) k | _ \<Rightarrow> None)"

section \<open>Printing\<close>

definition hexDigit :: "nat \<Rightarrow> char" where
  "hexDigit n = (char_of (if n < 10 then 48 + n else 87 + n) :: char)"

definition escapeChar :: "char \<Rightarrow> string" where
  "escapeChar c = (let n = of_char c :: nat in
     if n = 34 then [CHR 0x5C, CHR 0x22] else if n = 92 then [CHR 0x5C, CHR 0x5C]
     else if n = 8 then [CHR 0x5C, CHR ''b''] else if n = 9 then [CHR 0x5C, CHR ''t'']
     else if n = 10 then [CHR 0x5C, CHR ''n''] else if n = 12 then [CHR 0x5C, CHR ''f'']
     else if n = 13 then [CHR 0x5C, CHR ''r'']
     else if n < 32 then [CHR 0x5C, CHR ''u'', CHR ''0'', CHR ''0'', hexDigit (n div 16), hexDigit (n mod 16)]
     else [c])"

definition quote :: "string \<Rightarrow> string" where
  "quote s = CHR 0x22 # concat (map escapeChar s) @ [CHR 0x22]"

fun joinWith :: "string \<Rightarrow> string list \<Rightarrow> string" where
  "joinWith _ [] = []"
| "joinWith _ [x] = x"
| "joinWith sep (x # y # r) = x @ sep @ joinWith sep (y # r)"

text \<open>An object from the printed values of its members.\<close>

definition printObject :: "(string \<times> string) list \<Rightarrow> string" where
  "printObject ms = ''{'' @ joinWith '','' (map (\<lambda>(k, v). quote k @ '':'' @ v) ms) @ ''}''"

section \<open>Parsing\<close>

definition skipWs :: "string \<Rightarrow> string" where
  "skipWs = dropWhile (\<lambda>c. (of_char c :: nat) \<in> {9, 10, 13, 32})"

definition hexValue :: "char \<Rightarrow> nat option" where
  "hexValue c = (let n = of_char c :: nat in
     if 48 \<le> n \<and> n \<le> 57 then Some (n - 48) else if 97 \<le> n \<and> n \<le> 102 then Some (n - 87)
     else if 65 \<le> n \<and> n \<le> 70 then Some (n - 55) else None)"

definition hex4 :: "char \<Rightarrow> char \<Rightarrow> char \<Rightarrow> char \<Rightarrow> char option" where
  "hex4 a b c d = (case (hexValue a, hexValue b, hexValue c, hexValue d) of
     (Some w, Some x, Some y, Some z) \<Rightarrow>
       let n = ((w * 16 + x) * 16 + y) * 16 + z in if n < 256 then Some (char_of n) else None
   | _ \<Rightarrow> None)"

definition simpleEscape :: "char \<Rightarrow> char option" where
  "simpleEscape c = map_of [(CHR 0x22, CHR 0x22), (CHR 0x5C, CHR 0x5C), (CHR ''/'', CHR ''/''),
     (CHR ''b'', CHR 0x08), (CHR ''f'', CHR 0x0C), (CHR ''n'', CHR 0x0A), (CHR ''r'', CHR 0x0D), (CHR ''t'', CHR 0x09)] c"

definition consTo :: "'a \<Rightarrow> ('a list \<times> 'b) option \<Rightarrow> ('a list \<times> 'b) option" where
  "consTo x r = map_option (\<lambda>(xs, t). (x # xs, t)) r"

text \<open>The rest of a string literal, after its opening quote.\<close>

fun strBody :: "string \<Rightarrow> (string \<times> string) option" where
  "strBody [] = None"
| "strBody (c # s) =
     (if c = CHR 0x22 then Some ([], s)
      else if c = CHR 0x5C then
        (case s of
           [] \<Rightarrow> None
         | e # t \<Rightarrow> (case simpleEscape e of
              Some x \<Rightarrow> consTo x (strBody t)
            | None \<Rightarrow> if e = CHR ''u'' then
                (case t of
                   h1 # h2 # h3 # h4 # u \<Rightarrow>
                     (case hex4 h1 h2 h3 h4 of Some x \<Rightarrow> consTo x (strBody u) | None \<Rightarrow> None)
                 | _ \<Rightarrow> None)
              else None))
      else if (of_char c :: nat) < 32 then None
      else consTo c (strBody s))"

text \<open>\<open>int frac? exp?\<close> after an optional minus sign; the integer part has no leading zero.\<close>

definition numberFrac :: "string \<Rightarrow> (rat \<times> string) option" where
  "numberFrac s =
     (if take 1 s = ''.'' then
        let ds = takeWhile isDigit (drop 1 s) in
        if ds = [] then None else Some (of_nat (parseDec ds) / 10 ^ length ds, dropWhile isDigit (drop 1 s))
      else Some (0, s))"

definition numberExp :: "string \<Rightarrow> (rat \<times> string) option" where
  "numberExp s = (case s of
     e # r \<Rightarrow> if e = CHR ''e'' \<or> e = CHR ''E'' then
         let neg = (take 1 r = ''-''); u = (if neg \<or> take 1 r = ''+'' then drop 1 r else r);
             ds = takeWhile isDigit u
         in if ds = [] then None
            else Some ((if neg then 1 / 10 ^ parseDec ds else 10 ^ parseDec ds), dropWhile isDigit u)
       else Some (1, s)
   | [] \<Rightarrow> Some (1, s))"

definition numberBody :: "string \<Rightarrow> (rat \<times> string) option" where
  "numberBody s =
     (let ds = takeWhile isDigit s; r = dropWhile isDigit s in
      if ds = [] \<or> (hd ds = CHR ''0'' \<and> length ds > 1) then None
      else case numberFrac r of
        None \<Rightarrow> None
      | Some (f, t) \<Rightarrow> (case numberExp t of
           None \<Rightarrow> None
         | Some (x, u) \<Rightarrow> Some ((of_nat (parseDec ds) + f) * x, u)))"

definition literal :: "string \<Rightarrow> (json \<times> string) option" where
  "literal s =
     (if startsWith ''null'' s then Some (NullJ, drop 4 s)
      else if startsWith ''true'' s then Some (BoolJ True, drop 4 s)
      else if startsWith ''false'' s then Some (BoolJ False, drop 5 s)
      else if take 1 s = ''-'' then map_option (\<lambda>(x, t). (NumJ (- x), t)) (numberBody (drop 1 s))
      else map_option (\<lambda>(x, t). (NumJ x, t)) (numberBody s))"

fun jsonValue :: "nat \<Rightarrow> string \<Rightarrow> (json \<times> string) option"
  and jsonElements :: "nat \<Rightarrow> string \<Rightarrow> (json list \<times> string) option"
  and jsonMembers :: "nat \<Rightarrow> string \<Rightarrow> ((string \<times> json) list \<times> string) option" where
  "jsonValue 0 _ = None"
| "jsonValue (Suc n) s = (case skipWs s of
     [] \<Rightarrow> None
   | c # r \<Rightarrow>
       if c = CHR 0x22 then map_option (\<lambda>(x, t). (StrJ x, t)) (strBody r)
       else if c = CHR ''['' then
         (if take 1 (skipWs r) = '']'' then Some (ArrJ [], drop 1 (skipWs r))
          else map_option (\<lambda>(xs, t). (ArrJ xs, t)) (jsonElements n r))
       else if c = CHR ''{'' then
         (if take 1 (skipWs r) = ''}'' then Some (ObjJ [], drop 1 (skipWs r))
          else map_option (\<lambda>(ms, t). (ObjJ ms, t)) (jsonMembers n r))
       else literal (c # r))"
| "jsonElements 0 _ = None"
| "jsonElements (Suc n) s = (case jsonValue n s of
     None \<Rightarrow> None
   | Some (v, t) \<Rightarrow>
       if take 1 (skipWs t) = '','' then consTo v (jsonElements n (drop 1 (skipWs t)))
       else if take 1 (skipWs t) = '']'' then Some ([v], drop 1 (skipWs t)) else None)"
| "jsonMembers 0 _ = None"
| "jsonMembers (Suc n) s =
     (if take 1 (skipWs s) \<noteq> [CHR 0x22] then None
      else case strBody (drop 1 (skipWs s)) of
        None \<Rightarrow> None
      | Some (k, t) \<Rightarrow>
          if take 1 (skipWs t) \<noteq> '':'' then None
          else case jsonValue n (drop 1 (skipWs t)) of
            None \<Rightarrow> None
          | Some (v, u) \<Rightarrow>
              if take 1 (skipWs u) = '','' then consTo (k, v) (jsonMembers n (drop 1 (skipWs u)))
              else if take 1 (skipWs u) = ''}'' then Some ([(k, v)], drop 1 (skipWs u)) else None)"

definition jsonParse :: "string \<Rightarrow> json option" where
  "jsonParse s = (case jsonValue (Suc (length s)) s of
     Some (v, t) \<Rightarrow> if skipWs t = [] then Some v else None
   | None \<Rightarrow> None)"

section \<open>\<open>BigInt\<close> of a text\<close>

fun radixValue :: "int \<Rightarrow> string \<Rightarrow> int \<Rightarrow> int option" where
  "radixValue b [] acc = Some acc"
| "radixValue b (c # s) acc = (case hexValue c of
     Some d \<Rightarrow> if int d < b then radixValue b s (acc * b + int d) else None
   | None \<Rightarrow> None)"

definition literalValue :: "int \<Rightarrow> string \<Rightarrow> int result" where
  "literalValue b s = (if s = [] then Inl SyntaxError
     else case radixValue b s 0 of Some n \<Rightarrow> Inr n | None \<Rightarrow> Inl SyntaxError)"

definition bigIntText :: "string \<Rightarrow> int result" where
  "bigIntText raw =
     (let s = trim raw in
      if s = [] then Inr 0
      else if take 2 s \<in> {''0x'', ''0X''} then literalValue 16 (drop 2 s)
      else if take 2 s \<in> {''0o'', ''0O''} then literalValue 8 (drop 2 s)
      else if take 2 s \<in> {''0b'', ''0B''} then literalValue 2 (drop 2 s)
      else if take 1 s = ''-'' then bindR (literalValue 10 (drop 1 s)) (\<lambda>n. Inr (- n))
      else if take 1 s = ''+'' then literalValue 10 (drop 1 s)
      else literalValue 10 s)"

section \<open>Parsing what was printed\<close>

lemma skipWs_Cons: "(of_char c :: nat) \<notin> {9, 10, 13, 32} \<Longrightarrow> skipWs (c # s) = c # s"
  by (simp add: skipWs_def)

lemma hexValue_hexDigit [simp]: "n < 16 \<Longrightarrow> hexValue (hexDigit n) = Some n"
  by (cases "n < 10") (simp_all add: hexValue_def hexDigit_def)

lemma escaped_chars:
  "char_of (34::nat) = CHR 0x22" "char_of (92::nat) = CHR 0x5C" "char_of (8::nat) = CHR 0x08" "char_of (9::nat) = CHR 0x09"
  "char_of (10::nat) = CHR 0x0A" "char_of (12::nat) = CHR 0x0C" "char_of (13::nat) = CHR 0x0D"
  by code_simp+

lemma strBody_escapeChar: "strBody (escapeChar c @ s) = consTo c (strBody s)"
proof -
  define n where "n = (of_char c :: nat)"
  have c: "c = char_of n" by (simp add: n_def)
  consider "n \<in> {34, 92, 8, 9, 10, 12, 13}" | "n \<notin> {34, 92, 8, 9, 10, 12, 13}" "n < 32" | "n \<notin> {34, 92}" "n \<ge> 32"
    by fastforce
  then show ?thesis
  proof cases
    case 1
    then have "c \<in> {CHR 0x22, CHR 0x5C, CHR 0x08, CHR 0x09, CHR 0x0A, CHR 0x0C, CHR 0x0D}"
      unfolding c by (auto simp only: escaped_chars insert_iff)
    then show ?thesis by (auto simp: escapeChar_def simpleEscape_def)
  next
    case 2
    have u: "simpleEscape CHR ''u'' = None" by (simp add: simpleEscape_def)
    have z: "hexValue CHR ''0'' = Some 0" by (simp add: hexValue_def)
    have "n div 16 * 16 + n mod 16 = n" by simp
    then have "hex4 CHR ''0'' CHR ''0'' (hexDigit (n div 16)) (hexDigit (n mod 16)) = Some c"
      using 2 by (simp add: hex4_def z c Let_def)
    moreover have "escapeChar c = [CHR 0x5C, CHR ''u'', CHR ''0'', CHR ''0'', hexDigit (n div 16), hexDigit (n mod 16)]"
      using 2 by (simp add: escapeChar_def Let_def n_def [symmetric])
    ultimately show ?thesis using u by simp
  next
    case 3
    have "c \<noteq> CHR 0x22" "c \<noteq> CHR 0x5C" using 3(1) by (auto simp: n_def)
    then show ?thesis using 3 by (simp add: escapeChar_def Let_def n_def)
  qed
qed

lemma strBody_quote: "strBody (concat (map escapeChar s) @ CHR 0x22 # t) = Some (s, t)"
  by (induction s) (simp_all add: strBody_escapeChar consTo_def)

lemma jsonValue_quote: "jsonValue (Suc n) (quote s @ t) = Some (StrJ s, t)"
  by (simp add: quote_def skipWs_Cons strBody_quote)

lemma decDigits_no_leading_zero: "hd (decDigits n) = CHR ''0'' \<Longrightarrow> n = 0"
proof (induction n rule: decDigits.induct)
  case (1 n)
  show ?case
  proof (cases "n < 10")
    case True
    then have "digitVal (digitChar n) = digitVal CHR ''0''" using 1(2) by (simp add: decDigits.simps [of n])
    then show ?thesis using True by simp
  next
    case False
    then have "hd (decDigits (n div 10)) = CHR ''0''" using 1(2) by (simp add: decDigits.simps [of n] hd_append)
    then have "n div 10 = 0" using 1(1) False by blast
    then show ?thesis using False by simp
  qed
qed

text \<open>A number ends where a comma or a closing bracket stands.\<close>

definition endsNumber :: "string \<Rightarrow> bool" where
  "endsNumber t \<longleftrightarrow> take 1 t \<in> {[], '','', ''}'', '']''}"

lemma numberBody_decDigits:
  assumes "endsNumber t"
  shows "numberBody (decDigits n @ t) = Some (of_nat n, t)"
proof -
  have d: "\<forall>c\<in>set (decDigits n). isDigit c" by (rule isDigit_decDigits)
  have t: "takeWhile isDigit t = []" "dropWhile isDigit t = t" "numberFrac t = Some (0, t)" "numberExp t = Some (1, t)"
    using assms by (cases t; auto simp: endsNumber_def isDigit_def numberFrac_def numberExp_def)+
  have "\<not> (hd (decDigits n) = CHR ''0'' \<and> length (decDigits n) > 1)"
    using decDigits_no_leading_zero [of n] by (auto simp: decDigits.simps [of 0])
  then show ?thesis using d t by (simp add: numberBody_def Let_def takeWhile_append2 dropWhile_append2)
qed

lemma jsonValue_number:
  assumes "endsNumber t"
  shows "jsonValue (Suc k) (decDigits n @ t) = Some (NumJ (of_nat n), t)"
proof -
  obtain c r where cr: "decDigits n = c # r" by (metis decDigits_nonempty list.exhaust)
  have c: "isDigit c" using isDigit_decDigits [of n] cr by simp
  then have "c \<notin> {CHR 0x22, CHR ''['', CHR ''{'', CHR ''n'', CHR ''t'', CHR ''f'', CHR ''-''}"
    by (auto simp: isDigit_def)
  then show ?thesis using numberBody_decDigits [OF assms, of n] c cr
    by (auto simp: skipWs_Cons isDigit_def literal_def startsWith_def)
qed

lemma jsonMembers_one:
  assumes "jsonValue n (v @ t) = Some (x, t)" and "take 1 t = '','' \<or> take 1 t = ''}''"
  shows "jsonMembers (Suc n) (quote k @ '':'' @ v @ t) =
    (if take 1 t = '','' then consTo (k, x) (jsonMembers n (drop 1 t)) else Some ([(k, x)], drop 1 t))"
proof -
  have t: "skipWs t = t" using assms(2) by (cases t) (auto simp: skipWs_def)
  have s: "strBody (concat (map escapeChar k) @ CHR 0x22 # CHR '':'' # v @ t) = Some (k, CHR '':'' # v @ t)"
    using strBody_quote [of k "CHR '':'' # v @ t"] by simp
  show ?thesis using assms t by (auto simp: quote_def skipWs_Cons s)
qed

end
