(* ===== verification/Auth.thy ===== *)
theory Auth
  imports Cache Json
begin

text \<open>
  Model of \<open>src/src/infrastructure/auth/\<close>: the HS256 session tokens of \<open>jwt.ts\<close>, the sign-in of \<open>wallet-auth.service.ts\<close>
  and the guard. Outside the repository, and so arguments: \<open>hmac\<close> (key, data) is \<open>createHmac('sha256', key)\<close>, \<open>decode\<close> is
  \<open>Buffer.from(text, 'base64')\<close>, \<open>verifyMessage\<close> is viem's (\<open>None\<close> when it throws). Byte buffers and texts are both
  \<open>string\<close>, times are seconds, and the random nonce and the printed date of a request are arguments.
\<close>

section \<open>Base 64\<close>

definition b64Char :: "nat \<Rightarrow> char" where
  "b64Char n = (char_of (if n < 26 then 65 + n else if n < 52 then 71 + n else if n < 62 then n - 4
     else if n = 62 then 43 else 47) :: char)"

text \<open>\<open>toString('base64')\<close>: three bytes become four characters, the last group is padded.\<close>

fun base64 :: "nat list \<Rightarrow> string" where
  "base64 [] = []"
| "base64 [a] = [b64Char (a div 4), b64Char (a mod 4 * 16), CHR ''='', CHR ''='']"
| "base64 [a, b] = [b64Char (a div 4), b64Char (a mod 4 * 16 + b div 16), b64Char (b mod 16 * 4), CHR ''='']"
| "base64 (a # b # c # r) = b64Char (a div 4) # b64Char (a mod 4 * 16 + b div 16)
     # b64Char (b mod 16 * 4 + c div 64) # b64Char (c mod 64) # base64 r"

definition toBase64 :: "string \<Rightarrow> string" where
  "toBase64 s = base64 (map of_char s)"

definition replaceChar :: "char \<Rightarrow> char \<Rightarrow> string \<Rightarrow> string" where
  "replaceChar a b = map (\<lambda>c. if c = a then b else c)"

definition stripEquals :: "string \<Rightarrow> string" where
  "stripEquals s = rev (dropWhile (\<lambda>c. c = CHR ''='') (rev s))"

definition b64url :: "string \<Rightarrow> string" where
  "b64url input = stripEquals (replaceChar CHR ''/'' CHR ''_'' (replaceChar CHR ''+'' CHR ''-'' (toBase64 input)))"

definition fromB64url :: "(string \<Rightarrow> string) \<Rightarrow> string \<Rightarrow> string" where
  "fromB64url decode input =
     (let pad = (if length input mod 4 = 0 then [] else replicate (4 - length input mod 4) CHR ''='') in
      decode (replaceChar CHR ''_'' CHR ''/'' (replaceChar CHR ''-'' CHR ''+'' input) @ pad))"

section \<open>Session tokens\<close>

fun splitChar :: "char \<Rightarrow> string \<Rightarrow> string list" where
  "splitChar d [] = [[]]"
| "splitChar d (c # s) = (if c = d then [] # splitChar d s
     else (case splitChar d s of p # ps \<Rightarrow> (c # p) # ps | [] \<Rightarrow> [[c]]))"

definition jwtHeader :: string where
  "jwtHeader = b64url (printObject [(''alg'', quote ''HS256''), (''typ'', quote ''JWT'')])"

text \<open>The claims are \<open>{ sub, exp }\<close>; \<open>now\<close> is \<open>Math.floor(Date.now() / 1000)\<close>.\<close>

definition signSession :: "(string \<Rightarrow> string \<Rightarrow> string) \<Rightarrow> int \<Rightarrow> string \<Rightarrow> int \<Rightarrow> string \<Rightarrow> string" where
  "signSession hmac now sub expiry secret =
     (let payload = b64url (printObject [(''sub'', quote sub), (''exp'', toString expiry), (''iat'', toString now)]);
          signingInput = jwtHeader @ ''.'' @ payload;
          sig = b64url (hmac secret signingInput)
      in signingInput @ ''.'' @ sig)"

definition verifySession :: "(string \<Rightarrow> string \<Rightarrow> string) \<Rightarrow> (string \<Rightarrow> string) \<Rightarrow> int \<Rightarrow> string \<Rightarrow> string \<Rightarrow> json option" where
  "verifySession hmac decode now token secret = (case splitChar CHR ''.'' token of
     [header, payload, sig] \<Rightarrow>
       let expected = hmac secret (header @ ''.'' @ payload); provided = fromB64url decode sig in
       if length provided \<noteq> length expected \<or> provided \<noteq> expected then None
       else (case jsonParse (fromB64url decode payload) of
          None \<Rightarrow> None
        | Some claims \<Rightarrow> (case (jsonField claims ''sub'', jsonField claims ''exp'') of
             (Some (StrJ _), Some (NumJ expiry)) \<Rightarrow> if expiry \<le> of_int now then None else Some claims
           | _ \<Rightarrow> None))
   | _ \<Rightarrow> None)"

section \<open>Signing in\<close>

definition NONCE_TTL_SECONDS :: int where [model_defs]: "NONCE_TTL_SECONDS = 600"
definition SESSION_TTL_SECONDS :: int where [model_defs]: "SESSION_TTL_SECONDS = 60 * 60 * 24 * 7"

definition sessionSecret :: "string option \<Rightarrow> string" where
  "sessionSecret configured = (case configured of Some s \<Rightarrow> s | None \<Rightarrow> ''spawn-dev-session-secret-change-me'')"

definition nonceKey :: "string \<Rightarrow> string \<Rightarrow> string" where
  "nonceKey wallet nonce = ''auth:nonce:'' @ wallet @ '':'' @ nonce"

definition nonceMessage :: "string \<Rightarrow> string \<Rightarrow> string \<Rightarrow> string" where
  "nonceMessage wallet nonce issuedAt = joinWith [CHR 0x0A]
     [''Spawn wants you to sign in.'', [], ''Address: '' @ wallet, ''Nonce: '' @ nonce, ''Issued: '' @ issuedAt, [],
      ''This signature only proves wallet ownership. It is free and grants no permission to move funds.'']"

definition issueNonce :: "bool \<Rightarrow> int \<Rightarrow> rat \<Rightarrow> string \<Rightarrow> string \<Rightarrow> string \<Rightarrow> string timed
    \<Rightarrow> (string \<times> string) result \<times> string timed" where
  "issueNonce up now u nonce issuedAt walletAddress st =
     (let wallet = toLowerCase walletAddress in
      if \<not> isNonzeroAddress wallet then (Inl (DomainException 400 ''INVALID_WALLET_ADDRESS''), st)
      else let message = nonceMessage wallet nonce issuedAt in
        (Inr (nonce, message), timedSet up st now u (nonceKey wallet nonce) message NONCE_TTL_SECONDS))"

definition isNonce :: "string \<Rightarrow> bool" where
  "isNonce s \<longleftrightarrow> length s = 32 \<and> list_all isHexLower s"

text \<open>\<open>verify\<close> up to the cache read, and from the deletion on: other requests run between the two.\<close>

definition verifyLookup :: "bool \<Rightarrow> int \<Rightarrow> string \<Rightarrow> string \<Rightarrow> string timed \<Rightarrow> string result" where
  "verifyLookup up now walletAddress nonce st =
     (let wallet = toLowerCase walletAddress in
      if \<not> isNonzeroAddress wallet then Inl (DomainException 400 ''INVALID_WALLET_ADDRESS'')
      else if \<not> isNonce nonce then Inl (DomainException 400 ''INVALID_NONCE'')
      else case timedGet up st now (nonceKey wallet nonce) of
        None \<Rightarrow> Inl (DomainException 401 ''NONCE_EXPIRED'')
      | Some stored \<Rightarrow> Inr stored)"

record session_grant =
  sg_token :: string
  sg_wallet :: string
  sg_expiresIn :: int

definition verifyFinish :: "(string \<Rightarrow> string \<Rightarrow> string \<Rightarrow> bool option) \<Rightarrow> (string \<Rightarrow> string \<Rightarrow> string) \<Rightarrow> string
    \<Rightarrow> bool \<Rightarrow> int \<Rightarrow> string \<Rightarrow> string \<Rightarrow> string \<Rightarrow> string \<Rightarrow> string \<Rightarrow> string timed \<Rightarrow> session_grant result \<times> string timed" where
  "verifyFinish verifyMessage hmac secret up now walletAddress nonce signature message stored st =
     (let wallet = toLowerCase walletAddress; st' = timedDelete up st (nonceKey wallet nonce) in
      if message \<noteq> stored then (Inl (DomainException 401 ''MESSAGE_MISMATCH''), st')
      else let valid = (case verifyMessage wallet message signature of Some b \<Rightarrow> b | None \<Rightarrow> False) in
        if \<not> valid then (Inl (DomainException 401 ''SIGNATURE_INVALID''), st')
        else (Inr \<lparr>sg_token = signSession hmac now wallet (now + SESSION_TTL_SECONDS) secret, sg_wallet = wallet,
                sg_expiresIn = SESSION_TTL_SECONDS\<rparr>, st'))"

definition verify :: "(string \<Rightarrow> string \<Rightarrow> string \<Rightarrow> bool option) \<Rightarrow> (string \<Rightarrow> string \<Rightarrow> string) \<Rightarrow> string
    \<Rightarrow> bool \<Rightarrow> int \<Rightarrow> string \<Rightarrow> string \<Rightarrow> string \<Rightarrow> string \<Rightarrow> string timed \<Rightarrow> session_grant result \<times> string timed" where
  "verify verifyMessage hmac secret up now walletAddress nonce signature message st =
     (case verifyLookup up now walletAddress nonce st of
        Inl e \<Rightarrow> (Inl e, st)
      | Inr stored \<Rightarrow> verifyFinish verifyMessage hmac secret up now walletAddress nonce signature message stored st)"

definition authenticate :: "(string \<Rightarrow> string \<Rightarrow> string) \<Rightarrow> (string \<Rightarrow> string) \<Rightarrow> string \<Rightarrow> int \<Rightarrow> string \<Rightarrow> json result" where
  "authenticate hmac decode secret now token = (case verifySession hmac decode now token secret of
     None \<Rightarrow> Inl (DomainException 401 ''SESSION_INVALID'')
   | Some claims \<Rightarrow> Inr claims)"

text \<open>The guard: the value of the header, and the wallet it attaches to the request (\<open>None\<close>: the guard answers false).\<close>

datatype header = NoHeader | OneHeader string | ManyHeaders "string list"

definition walletGuard :: "(string \<Rightarrow> string \<Rightarrow> string) \<Rightarrow> (string \<Rightarrow> string) \<Rightarrow> string \<Rightarrow> int \<Rightarrow> header \<Rightarrow> json option result" where
  "walletGuard hmac decode secret now header =
     (let raw = (case header of NoHeader \<Rightarrow> None | OneHeader h \<Rightarrow> Some h | ManyHeaders [] \<Rightarrow> None | ManyHeaders (h # _) \<Rightarrow> Some h) in
      case raw of
        None \<Rightarrow> Inr None
      | Some h \<Rightarrow>
          if \<not> startsWith ''Bearer '' h then Inr None
          else bindR (authenticate hmac decode secret now (trim (drop 7 h))) (\<lambda>claims. Inr (jsonField claims ''sub'')))"

section \<open>The encodings invert\<close>

definition b64Alphabet :: "char set" where
  "b64Alphabet = b64Char ` {..<64}"

lemma b64Char_mem [simp]: "n < 64 \<Longrightarrow> b64Char n \<in> b64Alphabet"
  by (simp add: b64Alphabet_def)

lemma b64Alphabet_codes:
  assumes "c \<in> b64Alphabet"
  shows "(of_char c :: nat) \<in> {43, 47} \<union> {48..57} \<union> {65..90} \<union> {97..122}"
proof -
  obtain n where n: "n < 64" "c = b64Char n" using assms by (auto simp: b64Alphabet_def)
  consider "n < 26" | "26 \<le> n" "n < 52" | "52 \<le> n" "n < 62" | "n = 62" | "n = 63" using n(1) by linarith
  then show ?thesis by cases (simp_all add: n(2) b64Char_def, linarith)
qed

lemma sextets:
  fixes a b c :: nat
  assumes "a < 256" "b < 256" "c < 256"
  shows "a div 4 < 64" "a mod 4 * 16 < 64" "a mod 4 * 16 + b div 16 < 64" "b mod 16 * 4 < 64" "b mod 16 * 4 + c div 64 < 64"
proof -
  have q: "a div 4 < 64" "b div 16 < 16" "c div 64 < 4" using assms by (simp_all add: less_mult_imp_div_less)
  have r: "a mod 4 < 4" "b mod 16 < 16" by simp_all
  show "a div 4 < 64" by (rule q)
  show "a mod 4 * 16 < 64" "a mod 4 * 16 + b div 16 < 64" "b mod 16 * 4 < 64" "b mod 16 * 4 + c div 64 < 64"
    using q r by linarith+
qed

lemma base64_shape:
  assumes "\<forall>b\<in>set bs. b < 256"
  shows "\<exists>body k. base64 bs = body @ replicate k CHR ''='' \<and> k \<le> 2 \<and> (length body + k) mod 4 = 0 \<and> set body \<subseteq> b64Alphabet"
  using assms
proof (induction bs rule: base64.induct)
  case (2 a)
  then have "a div 4 < 64" "a mod 4 * 16 < 64" using sextets [of a a a] by simp_all
  then show ?case
    by (intro exI [of _ "[b64Char (a div 4), b64Char (a mod 4 * 16)]"] exI [of _ 2]) (simp add: numeral_2_eq_2)
next
  case (3 a b)
  then have "a div 4 < 64" "a mod 4 * 16 + b div 16 < 64" "b mod 16 * 4 < 64" using sextets [of a b b] by simp_all
  then show ?case
    by (intro exI [of _ "[b64Char (a div 4), b64Char (a mod 4 * 16 + b div 16), b64Char (b mod 16 * 4)]"] exI [of _ 1]) simp
next
  case (4 a b c r)
  then obtain body k where "base64 r = body @ replicate k CHR ''=''" "k \<le> 2" "(length body + k) mod 4 = 0" "set body \<subseteq> b64Alphabet"
    by auto
  moreover have "a div 4 < 64" "a mod 4 * 16 + b div 16 < 64" "b mod 16 * 4 + c div 64 < 64" "c mod 64 < 64"
    using sextets [of a b c] 4(2) by simp_all
  ultimately show ?case
    by (intro exI [of _ "b64Char (a div 4) # b64Char (a mod 4 * 16 + b div 16)
      # b64Char (b mod 16 * 4 + c div 64) # b64Char (c mod 64) # body"] exI [of _ k]) auto
qed simp

lemma replaceChar_append [simp]: "replaceChar a b (s @ t) = replaceChar a b s @ replaceChar a b t"
  by (simp add: replaceChar_def)

lemma replaceChar_none: "a \<notin> set s \<Longrightarrow> replaceChar a b s = s"
  by (induction s) (auto simp: replaceChar_def)

lemma replaceChar_back: "b \<notin> set s \<Longrightarrow> replaceChar b a (replaceChar a b s) = s"
  by (induction s) (auto simp: replaceChar_def)

lemma set_replaceChar: "c \<in> set (replaceChar a b s) \<Longrightarrow> c = b \<or> (c \<in> set s \<and> c \<noteq> a)"
  by (auto simp: replaceChar_def split: if_splits)

lemma stripEquals_pad: "CHR ''='' \<notin> set s \<Longrightarrow> stripEquals (s @ replicate k CHR ''='') = s"
  by (cases s rule: rev_cases) (auto simp: stripEquals_def dropWhile_append)

text \<open>The characters of a token: neither a dot, nor white space, nor padding.\<close>

definition tokenChar :: "char \<Rightarrow> bool" where
  "tokenChar c \<longleftrightarrow> \<not> isSpace c \<and> c \<noteq> CHR ''.'' \<and> c \<noteq> CHR ''=''"

lemma b64url_spec:
  "list_all tokenChar (b64url s) \<and> fromB64url decode (b64url s) = decode (toBase64 s)"
proof -
  obtain body k where b: "toBase64 s = body @ replicate k CHR ''=''" "k \<le> 2" "(length body + k) mod 4 = 0" "set body \<subseteq> b64Alphabet"
    using base64_shape [of "map of_char s"] by (auto simp: toBase64_def)
  have codes: "(of_char c :: nat) \<in> {43, 47} \<union> {48..57} \<union> {65..90} \<union> {97..122}" if "c \<in> set body" for c
    using b64Alphabet_codes b(4) that by blast
  define swap where "swap = replaceChar CHR ''/'' CHR ''_'' (replaceChar CHR ''+'' CHR ''-'' body)"
  have mem: "c = CHR ''_'' \<or> c = CHR ''-'' \<or> c \<in> set body" if "c \<in> set swap" for c
    using set_replaceChar that unfolding swap_def by metis
  have no: "CHR ''='' \<notin> set body" "CHR ''-'' \<notin> set body" "CHR ''_'' \<notin> set body" using codes by fastforce+
  have pads: "replaceChar CHR ''/'' CHR ''_'' (replaceChar CHR ''+'' CHR ''-'' (replicate k CHR ''='')) = replicate k CHR ''=''"
    by (simp add: replaceChar_def)
  have url: "b64url s = swap"
    unfolding b64url_def b(1) replaceChar_append pads swap_def [symmetric]
    by (rule stripEquals_pad) (use mem no in auto)
  have "replaceChar CHR ''_'' CHR ''/'' (replaceChar CHR ''-'' CHR ''+'' swap) = body"
    unfolding swap_def replaceChar_def map_map by (rule map_idI) (use no in auto)
  moreover have "(if length swap mod 4 = 0 then [] else replicate (4 - length swap mod 4) CHR ''='') = replicate k CHR ''=''"
  proof -
    have l: "length swap = length body" by (simp add: swap_def replaceChar_def)
    have "k = 0 \<or> k = 1 \<or> k = 2" using b(2) by linarith
    then have "(if length body mod 4 = 0 then 0 else 4 - length body mod 4) = k" using b(3) by (elim disjE) presburger+
    then show ?thesis unfolding l by (metis replicate_0)
  qed
  ultimately have "fromB64url decode (b64url s) = decode (toBase64 s)"
    unfolding fromB64url_def url b(1) by (simp add: Let_def)
  moreover have "tokenChar c" if "c \<in> set swap" for c
    using mem [OF that] codes [of c] by (auto simp: tokenChar_def isSpace_def)
  then have "list_all tokenChar (b64url s)" unfolding url list_all_iff by blast
  ultimately show ?thesis by blast
qed

section \<open>Tokens are accepted until they expire\<close>

lemma splitChar_append: "d \<notin> set p \<Longrightarrow> splitChar d (p @ d # s) = p # splitChar d s"
  by (induction p) auto

lemma splitChar_plain: "d \<notin> set p \<Longrightarrow> splitChar d p = [p]"
  by (induction p) auto

lemma trim_plain: "list_all (\<lambda>c. \<not> isSpace c) s \<Longrightarrow> trim s = s"
  unfolding trim_def by (subst (1 2) dropWhile_eq_self_iff [THEN iffD2]) (auto simp: list_all_iff hd_rev)

definition sessionClaims :: "string \<Rightarrow> int \<Rightarrow> int \<Rightarrow> json" where
  "sessionClaims wallet expiry issued =
     ObjJ [(''sub'', StrJ wallet), (''exp'', NumJ (of_int expiry)), (''iat'', NumJ (of_int issued))]"

lemma claims_parse:
  assumes "0 \<le> expiry" "0 \<le> issued"
  shows "jsonParse (printObject [(''sub'', quote wallet), (''exp'', toString expiry), (''iat'', toString issued)])
    = Some (sessionClaims wallet expiry issued)"
proof -
  define ds where "ds = decDigits (nat expiry)"
  define es where "es = decDigits (nat issued)"
  define t3 where "t3 = quote ''iat'' @ '':'' @ es @ ''}''"
  define t2 where "t2 = quote ''exp'' @ '':'' @ ds @ '','' @ t3"
  define t1 where "t1 = quote ''sub'' @ '':'' @ quote wallet @ '','' @ t2"
  have printed: "printObject [(''sub'', quote wallet), (''exp'', toString expiry), (''iat'', toString issued)] = CHR ''{'' # t1"
    using assms by (simp add: printObject_def t1_def t2_def t3_def ds_def es_def toString_nonneg)
  have "length t1 = 3 + (length t1 - 3)" by (simp add: t1_def quote_def)
  then obtain m where m: "length t1 = Suc (Suc (Suc m))" by (simp only: eval_nat_numeral) auto
  have v3: "jsonMembers (Suc (Suc m)) t3 = Some ([(''iat'', NumJ (of_int issued))], [])"
    unfolding t3_def using jsonMembers_one [where n = "Suc m" and v = es and t = "''}''" and k = "''iat''"]
      jsonValue_number [of "''}''" m "nat issued"] assms by (simp add: es_def endsNumber_def)
  have v2: "jsonMembers (Suc (Suc (Suc m))) t2 = Some ([(''exp'', NumJ (of_int expiry)), (''iat'', NumJ (of_int issued))], [])"
    unfolding t2_def using jsonMembers_one [where n = "Suc (Suc m)" and v = ds and t = "'','' @ t3" and k = "''exp''"]
      jsonValue_number [of "'','' @ t3" "Suc m" "nat expiry"] assms v3 by (simp add: ds_def endsNumber_def consTo_def)
  have v1: "jsonMembers (Suc (Suc (Suc (Suc m)))) t1
    = Some ([(''sub'', StrJ wallet), (''exp'', NumJ (of_int expiry)), (''iat'', NumJ (of_int issued))], [])"
    unfolding t1_def using jsonMembers_one [where n = "Suc (Suc (Suc m))" and v = "quote wallet" and t = "'','' @ t2" and k = "''sub''"]
      jsonValue_quote [of "Suc (Suc m)" wallet "'','' @ t2"] v2 by (simp add: consTo_def)
  have "take 1 (skipWs t1) \<noteq> ''}''" by (simp add: t1_def quote_def skipWs_Cons)
  then have "jsonValue (Suc (Suc (length t1))) (CHR ''{'' # t1) = map_option (\<lambda>(ms, t). (ObjJ ms, t)) (jsonMembers (Suc (length t1)) t1)"
    by (simp add: skipWs_Cons)
  then show ?thesis using v1 m by (simp add: jsonParse_def printed skipWs_def sessionClaims_def)
qed

lemma verifySession_signed:
  assumes "\<And>s. decode (toBase64 s) = s" and "0 \<le> expiry" "0 \<le> issued"
  shows "verifySession hmac decode now (signSession hmac issued wallet expiry secret) secret
    = (if now < expiry then Some (sessionClaims wallet expiry issued) else None)"
proof -
  define payload where "payload = printObject [(''sub'', quote wallet), (''exp'', toString expiry), (''iat'', toString issued)]"
  have plain: "CHR ''.'' \<notin> set (b64url s)" for s
    using b64url_spec [of s decode] by (auto simp: list_all_iff tokenChar_def)
  have decoded: "fromB64url decode (b64url s) = s" for s using b64url_spec [of s decode] assms(1) by simp
  have "splitChar CHR ''.'' (signSession hmac issued wallet expiry secret)
    = [jwtHeader, b64url payload, b64url (hmac secret (jwtHeader @ ''.'' @ b64url payload))]"
    using plain [of payload] plain [of "hmac secret (jwtHeader @ ''.'' @ b64url payload)"]
      plain [of "printObject [(''alg'', quote ''HS256''), (''typ'', quote ''JWT'')]"]
    by (simp add: signSession_def Let_def payload_def [symmetric] jwtHeader_def [symmetric] splitChar_append splitChar_plain)
  then show ?thesis using claims_parse [OF assms(2,3), of wallet]
    by (simp add: verifySession_def decoded Let_def payload_def [symmetric] sessionClaims_def jsonField_def)
qed

lemma signSession_plain: "list_all (\<lambda>c. \<not> isSpace c) (signSession hmac issued wallet expiry secret)"
proof -
  have "list_all (\<lambda>c. \<not> isSpace c) (b64url s)" for s
    using b64url_spec [of s id] by (auto simp: list_all_iff tokenChar_def)
  then show ?thesis by (simp add: signSession_def jwtHeader_def Let_def isSpace_def)
qed

section \<open>Sign-in under interleaving\<close>

text \<open>
  The system: a clock, the nonces in Redis, what was issued, the \<open>verify\<close> requests between their two halves (with the
  time of their read), and the sessions granted. Redis may drop keys, and may or may not answer each call.
\<close>

record verify_call =
  vc_wallet :: string
  vc_nonce :: string
  vc_signature :: string
  vc_message :: string
  vc_stored :: string
  vc_time :: int

record auth_state =
  au_now :: int
  au_store :: "string timed"
  au_issued :: "(string \<times> string \<times> string \<times> int) list"
  au_pending :: "verify_call list"
  au_sessions :: "(verify_call \<times> session_grant \<times> int) list"

inductive authReachable :: "(string \<Rightarrow> string \<Rightarrow> string \<Rightarrow> bool option) \<Rightarrow> (string \<Rightarrow> string \<Rightarrow> string) \<Rightarrow> string \<Rightarrow> auth_state \<Rightarrow> bool"
  for verifyMessage hmac secret where
  start: "0 \<le> now \<Longrightarrow> authReachable verifyMessage hmac secret
    \<lparr>au_now = now, au_store = Map.empty, au_issued = [], au_pending = [], au_sessions = []\<rparr>"
| clock: "authReachable verifyMessage hmac secret s \<Longrightarrow> au_now s \<le> now
    \<Longrightarrow> authReachable verifyMessage hmac secret (s\<lparr>au_now := now\<rparr>)"
| evict: "authReachable verifyMessage hmac secret s
    \<Longrightarrow> authReachable verifyMessage hmac secret (s\<lparr>au_store := (au_store s)(key := None)\<rparr>)"
| issue: "authReachable verifyMessage hmac secret s \<Longrightarrow> 0 \<le> u \<Longrightarrow> u < 1
    \<Longrightarrow> issueNonce up (au_now s) u nonce issuedAt walletAddress (au_store s) = (Inr (nonce, message), store)
    \<Longrightarrow> authReachable verifyMessage hmac secret (s\<lparr>au_store := store,
          au_issued := (toLowerCase walletAddress, nonce, message, au_now s) # au_issued s\<rparr>)"
| lookup: "authReachable verifyMessage hmac secret s
    \<Longrightarrow> verifyLookup up (au_now s) walletAddress nonce (au_store s) = Inr stored
    \<Longrightarrow> authReachable verifyMessage hmac secret (s\<lparr>au_pending :=
          \<lparr>vc_wallet = walletAddress, vc_nonce = nonce, vc_signature = signature, vc_message = message,
            vc_stored = stored, vc_time = au_now s\<rparr> # au_pending s\<rparr>)"
| finish: "authReachable verifyMessage hmac secret s \<Longrightarrow> c \<in> set (au_pending s)
    \<Longrightarrow> verifyFinish verifyMessage hmac secret up (au_now s) (vc_wallet c) (vc_nonce c) (vc_signature c) (vc_message c)
          (vc_stored c) (au_store s) = (outcome, store)
    \<Longrightarrow> authReachable verifyMessage hmac secret (s\<lparr>au_store := store, au_pending := remove1 c (au_pending s),
          au_sessions := (case outcome of Inr g \<Rightarrow> [(c, g, au_now s)] | Inl _ \<Rightarrow> []) @ au_sessions s\<rparr>)"

text \<open>A message was issued to a wallet for a nonce, less than ten minutes before a given time.\<close>

definition freshlyIssued :: "auth_state \<Rightarrow> string \<Rightarrow> string \<Rightarrow> string \<Rightarrow> int \<Rightarrow> bool" where
  "freshlyIssued s wallet nonce message time \<longleftrightarrow>
     (\<exists>t0. (wallet, nonce, message, t0) \<in> set (au_issued s) \<and> t0 \<le> time \<and> time < t0 + NONCE_TTL_SECONDS)"

definition authOk :: "(string \<Rightarrow> string \<Rightarrow> string \<Rightarrow> bool option) \<Rightarrow> (string \<Rightarrow> string \<Rightarrow> string) \<Rightarrow> string \<Rightarrow> auth_state \<Rightarrow> bool" where
  "authOk verifyMessage hmac secret s \<longleftrightarrow> 0 \<le> au_now s \<and>
     (\<forall>(w, n, m, t) \<in> set (au_issued s). isNonzeroAddress w \<and> t \<le> au_now s \<and> (\<exists>issuedAt. m = nonceMessage w n issuedAt))
   \<and> (\<forall>w n m t. isNonzeroAddress w \<longrightarrow> au_store s (nonceKey w n) = Some (m, t)
        \<longrightarrow> (\<exists>t0. (w, n, m, t0) \<in> set (au_issued s) \<and> t \<le> t0 + NONCE_TTL_SECONDS))
   \<and> (\<forall>c \<in> set (au_pending s). vc_time c \<le> au_now s \<and> freshlyIssued s (toLowerCase (vc_wallet c)) (vc_nonce c) (vc_stored c) (vc_time c))
   \<and> (\<forall>(c, g, t) \<in> set (au_sessions s). sg_wallet g = toLowerCase (vc_wallet c) \<and> 0 \<le> t \<and> vc_time c \<le> t \<and> t \<le> au_now s
        \<and> freshlyIssued s (sg_wallet g) (vc_nonce c) (vc_message c) (vc_time c)
        \<and> verifyMessage (sg_wallet g) (vc_message c) (vc_signature c) = Some True
        \<and> sg_token g = signSession hmac t (sg_wallet g) (t + SESSION_TTL_SECONDS) secret)"

lemma nonceKey_inject: "isNonzeroAddress w \<Longrightarrow> isNonzeroAddress w' \<Longrightarrow> nonceKey w n = nonceKey w' n' \<longleftrightarrow> w = w' \<and> n = n'"
  by (auto simp: nonceKey_def isNonzeroAddress_def)

lemma freshlyIssued_mono: "set (au_issued s) \<subseteq> set (au_issued s') \<Longrightarrow> freshlyIssued s w n m t \<Longrightarrow> freshlyIssued s' w n m t"
  by (auto simp: freshlyIssued_def)

lemma issueNonce_Inr:
  assumes "issueNonce up now u nonce issuedAt walletAddress st = (Inr (nonce', message), st')"
  shows "isNonzeroAddress (toLowerCase walletAddress)" "message = nonceMessage (toLowerCase walletAddress) nonce issuedAt"
    "st' = timedSet up st now u (nonceKey (toLowerCase walletAddress) nonce) message NONCE_TTL_SECONDS"
  using assms by (auto simp: issueNonce_def Let_def split: if_splits)

lemma verifyLookup_Inr:
  assumes "verifyLookup up now walletAddress nonce st = Inr stored"
  shows "isNonzeroAddress (toLowerCase walletAddress)"
    and "\<exists>t. st (nonceKey (toLowerCase walletAddress) nonce) = Some (stored, t) \<and> now < t"
  using assms by (auto simp: verifyLookup_def Let_def timedGet_def split: if_splits option.splits)

lemma verifyFinish_Inr:
  assumes "verifyFinish verifyMessage hmac secret up now walletAddress nonce signature message stored st = (Inr g, st')"
  shows "message = stored" "sg_wallet g = toLowerCase walletAddress" "verifyMessage (sg_wallet g) message signature = Some True"
    "sg_token g = signSession hmac now (sg_wallet g) (now + SESSION_TTL_SECONDS) secret"
  using assms by (auto simp: verifyFinish_def Let_def split: if_splits option.splits)

lemma verifyFinish_store:
  assumes "verifyFinish verifyMessage hmac secret up now walletAddress nonce signature message stored st = (r, st')"
  shows "st' = timedDelete up st (nonceKey (toLowerCase walletAddress) nonce)"
  using assms by (auto simp: verifyFinish_def Let_def split: if_splits)

lemma timedDelete_Some: "timedDelete up st k' k = Some v \<Longrightarrow> st k = Some v"
  by (auto simp: timedDelete_def split: if_splits)

lemma issue_store:
  assumes ok: "\<And>w n m t. isNonzeroAddress w \<Longrightarrow> st (nonceKey w n) = Some (m, t) \<Longrightarrow> \<exists>t0. (w, n, m, t0) \<in> I \<and> t \<le> t0 + NONCE_TTL_SECONDS"
    and u: "0 \<le> u" "u < 1" and a: "isNonzeroAddress v"
    and w: "isNonzeroAddress w" and at: "timedSet up st now u (nonceKey v k) x NONCE_TTL_SECONDS (nonceKey w n) = Some (m, t)"
  shows "\<exists>t0. (w, n, m, t0) \<in> insert (v, k, x, now) I \<and> t \<le> t0 + NONCE_TTL_SECONDS"
proof (cases "up \<and> v = w \<and> k = n")
  case True
  then have "x = m" "t = now + subtractiveJitter NONCE_TTL_SECONDS u" using at by (auto simp: timedSet_def)
  moreover have "subtractiveJitter NONCE_TTL_SECONDS u \<le> NONCE_TTL_SECONDS"
    using subtractiveJitter_bounds [OF u, of NONCE_TTL_SECONDS] by (simp add: NONCE_TTL_SECONDS_def)
  ultimately show ?thesis using True by auto
next
  case False
  then have "st (nonceKey w n) = Some (m, t)" using at nonceKey_inject [OF a w, of k n]
    by (auto simp: timedSet_def split: if_splits)
  then show ?thesis using ok [OF w] by blast
qed

lemma authReachable_ok:
  assumes "authReachable verifyMessage hmac secret s"
  shows "authOk verifyMessage hmac secret s"
  using assms
proof (induction rule: authReachable.induct)
  case (start now)
  then show ?case by (simp add: authOk_def)
next
  case (clock s now)
  have "freshlyIssued (s\<lparr>au_now := now\<rparr>) = freshlyIssued s" by (simp add: freshlyIssued_def fun_eq_iff)
  then show ?case using clock.IH clock.hyps unfolding authOk_def by fastforce
next
  case (evict s key)
  have "freshlyIssued (s\<lparr>au_store := (au_store s)(key := None)\<rparr>) = freshlyIssued s" by (simp add: freshlyIssued_def fun_eq_iff)
  then show ?case using evict.IH unfolding authOk_def by simp
next
  case (issue s u up nonce issuedAt walletAddress message store)
  note new = issueNonce_Inr [OF issue.hyps(4)]
  let ?w = "toLowerCase walletAddress"
  let ?s = "s\<lparr>au_store := store, au_issued := (?w, nonce, message, au_now s) # au_issued s\<rparr>"
  have st: "\<exists>t0. (w, n, m, t0) \<in> set (au_issued ?s) \<and> t \<le> t0 + NONCE_TTL_SECONDS"
    if "isNonzeroAddress w" "au_store ?s (nonceKey w n) = Some (m, t)" for w n m t
    using issue_store [of "au_store s" "set (au_issued s)" u ?w w up "au_now s" nonce message n m t] issue.IH issue.hyps new that
    by (simp add: authOk_def)
  have mono: "freshlyIssued s w n m t \<Longrightarrow> freshlyIssued ?s w n m t" for w n m t
    by (rule freshlyIssued_mono) auto
  show ?case unfolding authOk_def using issue.IH st new(1,2) mono unfolding authOk_def by (fastforce split: prod.split)
next
  case (lookup s up walletAddress nonce stored signature message)
  obtain t where t: "au_store s (nonceKey (toLowerCase walletAddress) nonce) = Some (stored, t)" "au_now s < t"
    and a: "isNonzeroAddress (toLowerCase walletAddress)" using verifyLookup_Inr [OF lookup.hyps(2)] by blast
  obtain t0 where t0: "(toLowerCase walletAddress, nonce, stored, t0) \<in> set (au_issued s)" "t \<le> t0 + NONCE_TTL_SECONDS"
    using lookup.IH a t(1) unfolding authOk_def by blast
  moreover have "t0 \<le> au_now s" using lookup.IH t0(1) unfolding authOk_def by blast
  ultimately have "freshlyIssued s (toLowerCase walletAddress) nonce stored (au_now s)"
    using t(2) unfolding freshlyIssued_def by force
  moreover have "freshlyIssued (s\<lparr>au_pending := P\<rparr>) = freshlyIssued s" for P by (simp add: freshlyIssued_def fun_eq_iff)
  ultimately show ?case using lookup.IH unfolding authOk_def by simp
next
  case (finish s c up outcome store)
  note st = verifyFinish_store [OF finish.hyps(3)]
  have same: "freshlyIssued (s\<lparr>au_store := store, au_pending := P, au_sessions := Q\<rparr>) = freshlyIssued s" for P Q
    by (simp add: freshlyIssued_def fun_eq_iff)
  have p: "vc_time c \<le> au_now s" "freshlyIssued s (toLowerCase (vc_wallet c)) (vc_nonce c) (vc_stored c) (vc_time c)"
    using finish.IH finish.hyps(2) unfolding authOk_def by blast+
  have rest: "au_store s k = Some v" if "store k = Some v" for k v using that timedDelete_Some unfolding st by metis
  have sub: "set (remove1 c (au_pending s)) \<subseteq> set (au_pending s)" by (rule set_remove1_subset)
  show ?case
  proof (cases outcome)
    case (Inl e)
    then show ?thesis using finish.IH rest sub unfolding authOk_def same by simp blast
  next
    case (Inr g)
    note g = verifyFinish_Inr [OF finish.hyps(3) [unfolded Inr]]
    show ?thesis using Inr finish.IH rest sub p g unfolding authOk_def same by simp blast
  qed
qed

text \<open>A read of the nonce and the deletion that follows, without another request between: the second attempt is refused.\<close>

lemma verify_consumes_nonce:
  assumes "verifyLookup True now walletAddress nonce st = Inr stored"
    and "verify verifyMessage hmac secret True now walletAddress nonce signature message st = (outcome, st')"
  shows "verify verifyMessage hmac secret up later walletAddress nonce signature' message' st'
    = (Inl (DomainException 401 ''NONCE_EXPIRED''), st')"
proof -
  have "st' = timedDelete True st (nonceKey (toLowerCase walletAddress) nonce)"
    using assms verifyFinish_store by (simp add: verify_def)
  then have "timedGet up st' later (nonceKey (toLowerCase walletAddress) nonce) = None"
    by (simp add: timedGet_def timedDelete_def)
  then show ?thesis using assms(1) by (auto simp: verify_def verifyLookup_def Let_def split: if_splits option.splits)
qed

text \<open>Two requests may both read before either deletes: one nonce then grants two sessions.\<close>

definition exampleWallet :: string where "exampleWallet = ''0x'' @ replicate 40 CHR ''1''"
definition exampleNonce :: string where "exampleNonce = replicate 32 CHR ''a''"
definition exampleMessage :: string where "exampleMessage = nonceMessage exampleWallet exampleNonce ''now''"

definition exampleStore :: "string timed" where
  "exampleStore = [nonceKey exampleWallet exampleNonce \<mapsto> (exampleMessage, 540)]"

definition exampleCall :: verify_call where
  "exampleCall = \<lparr>vc_wallet = exampleWallet, vc_nonce = exampleNonce, vc_signature = ''sig'', vc_message = exampleMessage,
     vc_stored = exampleMessage, vc_time = 0\<rparr>"

definition exampleGrant :: "(string \<Rightarrow> string \<Rightarrow> string) \<Rightarrow> string \<Rightarrow> session_grant" where
  "exampleGrant hmac secret = \<lparr>sg_token = signSession hmac 0 exampleWallet SESSION_TTL_SECONDS secret,
     sg_wallet = exampleWallet, sg_expiresIn = SESSION_TTL_SECONDS\<rparr>"

lemma exampleWallet_ok: "toLowerCase exampleWallet = exampleWallet" "isNonzeroAddress exampleWallet"
  unfolding exampleWallet_def by code_simp+

lemma nonce_race:
  assumes accepts: "verifyMessage exampleWallet exampleMessage ''sig'' = Some True"
  shows "authReachable verifyMessage hmac secret
    \<lparr>au_now = 0, au_store = Map.empty, au_issued = [(exampleWallet, exampleNonce, exampleMessage, 0)], au_pending = [],
      au_sessions = [(exampleCall, exampleGrant hmac secret, 0), (exampleCall, exampleGrant hmac secret, 0)]\<rparr>"
proof -
  let ?R = "authReachable verifyMessage hmac secret"
  let ?s = "\<lambda>st P Q. \<lparr>au_now = 0, au_store = st, au_issued = [(exampleWallet, exampleNonce, exampleMessage, 0)], au_pending = P, au_sessions = Q\<rparr>"
  let ?g = "exampleGrant hmac secret"
  have i: "issueNonce True 0 0 exampleNonce ''now'' exampleWallet Map.empty = (Inr (exampleNonce, exampleMessage), exampleStore)"
    by (simp add: issueNonce_def exampleWallet_ok Let_def exampleMessage_def exampleStore_def timedSet_def subtractiveJitter_def NONCE_TTL_SECONDS_def)
  have l: "verifyLookup True 0 exampleWallet exampleNonce exampleStore = Inr exampleMessage"
    by (simp add: verifyLookup_def exampleWallet_ok Let_def exampleStore_def timedGet_def)
      (simp add: isNonce_def exampleNonce_def list_all_iff isHexLower_def isDigit_def)
  have f: "verifyFinish verifyMessage hmac secret True 0 exampleWallet exampleNonce ''sig'' exampleMessage exampleMessage st
    = (Inr ?g, st(nonceKey exampleWallet exampleNonce := None))" for st
    using accepts by (simp add: verifyFinish_def exampleWallet_ok Let_def exampleGrant_def timedDelete_def)
  have "?R (?s exampleStore [] [])"
    using authReachable.issue [OF authReachable.start [of 0] _ _, of 0 True exampleNonce "''now''" exampleWallet exampleMessage exampleStore] i
    by (simp add: exampleWallet_ok)
  from authReachable.lookup [OF this, of True exampleWallet exampleNonce exampleMessage "''sig''" exampleMessage] l
  have one: "?R (?s exampleStore [exampleCall] [])" by (simp add: exampleCall_def)
  from authReachable.lookup [OF this, of True exampleWallet exampleNonce exampleMessage "''sig''" exampleMessage] l
  have "?R (?s exampleStore [exampleCall, exampleCall] [])" by (simp add: exampleCall_def)
  from authReachable.finish [OF this, of exampleCall True "Inr ?g" Map.empty] f [of exampleStore]
  have "?R (?s Map.empty [exampleCall] [(exampleCall, ?g, 0)])" by (simp add: exampleCall_def exampleStore_def)
  from authReachable.finish [OF this, of exampleCall True "Inr ?g" Map.empty] f [of Map.empty]
  show ?thesis by (simp add: exampleCall_def)
qed

section \<open>A decoder\<close>

definition b64Value :: "char \<Rightarrow> nat" where
  "b64Value c = (let n = of_char c in
     if 65 \<le> n \<and> n \<le> 90 then n - 65 else if 97 \<le> n \<and> n \<le> 122 then n - 71 else if 48 \<le> n \<and> n \<le> 57 then n + 4
     else if n = 43 then 62 else 63)"

fun unbase64 :: "string \<Rightarrow> nat list" where
  "unbase64 (a # b # c # d # r) =
     (let x = b64Value a * 4 + b64Value b div 16; y = b64Value b mod 16 * 16 + b64Value c div 4;
          z = b64Value c mod 4 * 64 + b64Value d
      in if d = CHR ''='' then (if c = CHR ''='' then [x] else [x, y]) else x # y # z # unbase64 r)"
| "unbase64 _ = []"

lemma b64Value_b64Char [simp]: "n < 64 \<Longrightarrow> b64Value (b64Char n) = n"
proof -
  assume "n < 64"
  then consider "n < 26" | "26 \<le> n" "n < 52" | "52 \<le> n" "n < 62" | "n = 62" | "n = 63" by linarith
  then show ?thesis by cases (auto simp: b64Char_def b64Value_def Let_def)
qed

lemma b64Char_not_pad [simp]: "n < 64 \<Longrightarrow> b64Char n \<noteq> CHR ''=''"
  using b64Alphabet_codes [OF b64Char_mem] by fastforce

lemma unbase64_base64:
  assumes "\<forall>b\<in>set bs. b < 256"
  shows "unbase64 (base64 bs) = bs"
  using assms
proof (induction bs rule: base64.induct)
  case (2 a)
  have "a div 4 < 64" "a mod 4 * 16 < 64" using sextets [of a a a] 2 by simp_all
  then show ?case by (simp add: Let_def)
next
  case (3 a b)
  have "a div 4 < 64" "a mod 4 * 16 + b div 16 < 64" "b mod 16 * 4 < 64" "b div 16 < 16" using sextets [of a b b] 3 by auto
  then show ?case by (simp add: Let_def)
next
  case (4 a b c r)
  have "a div 4 < 64" "a mod 4 * 16 + b div 16 < 64" "b mod 16 * 4 + c div 64 < 64" "c mod 64 < 64" "b div 16 < 16" "c div 64 < 4"
    using sextets [of a b c] 4(2) by auto
  then show ?case using 4 by (simp add: Let_def)
qed simp

definition fromBase64 :: "string \<Rightarrow> string" where
  "fromBase64 s = map char_of (unbase64 s)"

lemma fromBase64_toBase64: "fromBase64 (toBase64 s) = s"
  unfolding fromBase64_def toBase64_def by (subst unbase64_base64) (auto simp: comp_def)

section \<open>Properties\<close>

text \<open>C6. Sign-in is sound under every interleaving of requests, Redis failures and evictions: a session was granted only
  for a wallet to which a message naming that wallet and the nonce was issued less than ten minutes before the nonce was
  read, and only with a signature over that message which verifies for that wallet. The guard then attaches exactly this
  wallet to requests that carry the token, from the grant until seven days later, and refuses the token with
  \<open>SESSION_INVALID\<close> from then on.\<close>

theorem sign_in_sound:
  assumes "authReachable verifyMessage hmac secret s" and "(c, g, t) \<in> set (au_sessions s)"
    and "\<forall>b. decode (toBase64 b) = b"
  shows "(\<exists>issuedAt t0. (sg_wallet g, vc_nonce c, nonceMessage (sg_wallet g) (vc_nonce c) issuedAt, t0) \<in> set (au_issued s)
      \<and> t0 \<le> vc_time c \<and> vc_time c < t0 + 600
      \<and> verifyMessage (sg_wallet g) (nonceMessage (sg_wallet g) (vc_nonce c) issuedAt) (vc_signature c) = Some True)
    \<and> isNonzeroAddress (sg_wallet g)
    \<and> walletGuard hmac decode secret now (OneHeader (''Bearer '' @ sg_token g))
      = (if now < t + 7 * 86400 then Inr (Some (StrJ (sg_wallet g))) else Inl (DomainException 401 ''SESSION_INVALID''))"
proof -
  note ok = authReachable_ok [OF assms(1), unfolded authOk_def]
  from ok assms(2) have c: "0 \<le> t" "freshlyIssued s (sg_wallet g) (vc_nonce c) (vc_message c) (vc_time c)"
      "verifyMessage (sg_wallet g) (vc_message c) (vc_signature c) = Some True"
      "sg_token g = signSession hmac t (sg_wallet g) (t + SESSION_TTL_SECONDS) secret" by fast+
  obtain t0 where t0: "(sg_wallet g, vc_nonce c, vc_message c, t0) \<in> set (au_issued s)" "t0 \<le> vc_time c" "vc_time c < t0 + 600"
    using c(2) by (auto simp: freshlyIssued_def NONCE_TTL_SECONDS_def)
  with ok obtain issuedAt where m: "vc_message c = nonceMessage (sg_wallet g) (vc_nonce c) issuedAt" and a: "isNonzeroAddress (sg_wallet g)"
    by blast
  have "walletGuard hmac decode secret now (OneHeader (''Bearer '' @ sg_token g))
      = (if now < t + 7 * 86400 then Inr (Some (StrJ (sg_wallet g))) else Inl (DomainException 401 ''SESSION_INVALID''))"
    using c(1) assms(3) unfolding c(4)
    by (simp add: walletGuard_def startsWith_def trim_plain signSession_plain authenticate_def verifySession_signed
        SESSION_TTL_SECONDS_def sessionClaims_def jsonField_def)
  moreover have "verifyMessage (sg_wallet g) (nonceMessage (sg_wallet g) (vc_nonce c) issuedAt) (vc_signature c) = Some True"
    using c(3) m by simp
  ultimately show ?thesis using t0 a unfolding m by blast
qed

theorem sign_in_sound_witness:
  "walletGuard (\<lambda>key data. rev key) fromBase64 ''secret'' 100
     (OneHeader (''Bearer '' @ signSession (\<lambda>key data. rev key) 0 exampleWallet SESSION_TTL_SECONDS ''secret''))
   = Inr (Some (StrJ exampleWallet))"
proof -
  have "authReachable (\<lambda>_ _ _. Some True) (\<lambda>key data. rev key) ''secret'' \<lparr>au_now = 0, au_store = Map.empty,
      au_issued = [(exampleWallet, exampleNonce, exampleMessage, 0)], au_pending = [],
      au_sessions = [(exampleCall, exampleGrant (\<lambda>key data. rev key) ''secret'', 0),
        (exampleCall, exampleGrant (\<lambda>key data. rev key) ''secret'', 0)]\<rparr>"
    by (rule nonce_race) simp
  from sign_in_sound [OF this, of exampleCall "exampleGrant (\<lambda>key data. rev key) ''secret''" 0 fromBase64 100]
  show ?thesis by (simp add: fromBase64_toBase64 exampleGrant_def)
qed

end
