(* ===== verification/RateLimit.thy ===== *)
theory RateLimit
  imports Auth
begin

text \<open>
  Model of \<open>src/src/infrastructure/rate-limit/\<close>: the Lua script over a Redis counter, the limiter and the guard. A counter is a
  value with an optional expiry; \<open>hmacHex\<close> is the keyed hash of a bucket name. The clock is in seconds.
\<close>

section \<open>The limiter\<close>

record rate_policy =
  rp_ipLimit :: int
  rp_walletLimit :: int
  rp_windowSeconds :: int

datatype policy_name = general | tokenCreate | commentPolicy | commentLike | profileUpdate | rpcProxy

definition RATE_LIMIT_POLICIES :: "policy_name \<Rightarrow> rate_policy" where
  "RATE_LIMIT_POLICIES p = (case p of
     general \<Rightarrow> \<lparr>rp_ipLimit = 60, rp_walletLimit = 30, rp_windowSeconds = 60\<rparr>
   | tokenCreate \<Rightarrow> \<lparr>rp_ipLimit = 5, rp_walletLimit = 3, rp_windowSeconds = 3600\<rparr>
   | commentPolicy \<Rightarrow> \<lparr>rp_ipLimit = 20, rp_walletLimit = 10, rp_windowSeconds = 60\<rparr>
   | commentLike \<Rightarrow> \<lparr>rp_ipLimit = 120, rp_walletLimit = 60, rp_windowSeconds = 60\<rparr>
   | profileUpdate \<Rightarrow> \<lparr>rp_ipLimit = 20, rp_walletLimit = 10, rp_windowSeconds = 3600\<rparr>
   | rpcProxy \<Rightarrow> \<lparr>rp_ipLimit = 600, rp_walletLimit = 600, rp_windowSeconds = 60\<rparr>)"

type_synonym counters = "string \<rightharpoonup> int \<times> int option"

text \<open>\<open>INCR\<close> creates a missing or expired counter at 1, without expiry; \<open>EXPIRE\<close> sets one; \<open>TTL\<close> is -1 without one.\<close>

definition redisIncr :: "counters \<Rightarrow> int \<Rightarrow> string \<Rightarrow> int \<times> counters" where
  "redisIncr r now key = (case r key of
     Some (n, Some t) \<Rightarrow> if now < t then (n + 1, r(key \<mapsto> (n + 1, Some t))) else (1, r(key \<mapsto> (1, None)))
   | Some (n, None) \<Rightarrow> (n + 1, r(key \<mapsto> (n + 1, None)))
   | None \<Rightarrow> (1, r(key \<mapsto> (1, None))))"

definition redisExpire :: "counters \<Rightarrow> int \<Rightarrow> string \<Rightarrow> int \<Rightarrow> counters" where
  "redisExpire r now key seconds = (case r key of Some (n, _) \<Rightarrow> r(key \<mapsto> (n, Some (now + seconds))) | None \<Rightarrow> r)"

definition redisTtl :: "counters \<Rightarrow> int \<Rightarrow> string \<Rightarrow> int" where
  "redisTtl r now key = (case r key of Some (_, Some t) \<Rightarrow> t - now | Some (_, None) \<Rightarrow> -1 | None \<Rightarrow> -2)"

definition limitScript :: "counters \<Rightarrow> int \<Rightarrow> string \<Rightarrow> int \<Rightarrow> (int \<times> int) \<times> counters" where
  "limitScript r now key seconds =
     (let (c, r1) = redisIncr r now key;
          r2 = (if c = 1 then redisExpire r1 now key seconds else r1)
      in ((c, redisTtl r2 now key), r2))"

record rate_check =
  rc_allowed :: bool
  rc_limit :: int
  rc_remaining :: int
  rc_resetSeconds :: int

definition normalizeBucket :: "(string \<Rightarrow> string) \<Rightarrow> string \<Rightarrow> string" where
  "normalizeBucket hmacHex value = hmacHex (toLowerCase (trim value))"

definition checkLimit :: "(string \<Rightarrow> string) \<Rightarrow> bool \<Rightarrow> bool \<Rightarrow> int \<Rightarrow> string \<Rightarrow> int \<Rightarrow> int \<Rightarrow> counters \<Rightarrow> rate_check result \<times> counters" where
  "checkLimit hmacHex production up now key limit windowSeconds r =
     (if up then
        let ((c, ttl), r') = limitScript r now (''rate:'' @ normalizeBucket hmacHex key) windowSeconds;
            resetSeconds = max 1 ttl
        in (Inr \<lparr>rc_allowed = (c \<le> limit), rc_limit = limit, rc_remaining = max 0 (limit - c), rc_resetSeconds = resetSeconds\<rparr>, r')
      else if production then (Inl (HttpException 503 ''RATE_LIMIT_DEPENDENCY_UNAVAILABLE''), r)
      else (Inr \<lparr>rc_allowed = True, rc_limit = limit, rc_remaining = limit, rc_resetSeconds = windowSeconds\<rparr>, r))"

section \<open>The guard\<close>

record http_request =
  hr_method :: string
  hr_ip :: string
  hr_body :: "string \<Rightarrow> jsv option"
  hr_params :: "string \<Rightarrow> jsv option"
  hr_query :: "string \<Rightarrow> jsv option"

text \<open>\<open>a ?? b\<close>: absent, \<open>undefined\<close> and \<open>null\<close> fall through.\<close>

definition nullish :: "jsv option \<Rightarrow> jsv option \<Rightarrow> jsv option" where
  "nullish a b = (case a of Some JNull \<Rightarrow> b | Some JUndefined \<Rightarrow> b | Some v \<Rightarrow> Some v | None \<Rightarrow> b)"

definition requestWallet :: "http_request \<Rightarrow> string option" where
  "requestWallet req =
     (let value = nullish (hr_body req ''walletAddress'') (nullish (hr_body req ''creatorWalletAddress'')
            (nullish (hr_params req ''walletAddress'') (hr_query req ''walletAddress'')))
      in case value of Some (JStr s) \<Rightarrow> Some (toLowerCase s) | _ \<Rightarrow> None)"

text \<open>The outcome: the response headers in order, and the exception or the activation.\<close>

definition rateHeaders :: "rate_check \<Rightarrow> (string \<times> int) list" where
  "rateHeaders c = [(''RateLimit-Limit'', rc_limit c), (''RateLimit-Remaining'', rc_remaining c), (''RateLimit-Reset'', rc_resetSeconds c)]"

definition rateGuard :: "(string \<Rightarrow> string) \<Rightarrow> bool \<Rightarrow> bool \<Rightarrow> int \<Rightarrow> rate_policy option \<Rightarrow> http_request \<Rightarrow> counters
    \<Rightarrow> (string \<times> int) list \<times> bool result \<times> counters" where
  "rateGuard hmacHex production up now declared req r =
     (if hr_method req \<notin> {''POST'', ''PUT'', ''DELETE'', ''PATCH''} then ([], Inr True, r)
      else
        let policy = (case declared of Some p \<Rightarrow> p | None \<Rightarrow> RATE_LIMIT_POLICIES general);
            wallet = requestWallet req;
            (ipCheck, r1) = checkLimit hmacHex production up now (''ip:'' @ hr_ip req) (rp_ipLimit policy) (rp_windowSeconds policy) r;
            (walletCheck, r2) = (case wallet of
                Some w \<Rightarrow> if w = [] then (Inr None, r1)
                  else (let (c, q) = checkLimit hmacHex production up now (''wallet:'' @ w) (rp_walletLimit policy) (rp_windowSeconds policy) r1
                        in (bindR c (\<lambda>x. Inr (Some x)), q))
              | None \<Rightarrow> (Inr None, r1))
        in case bindR ipCheck (\<lambda>i. bindR walletCheck (\<lambda>w. Inr (i, w))) of
             Inl e \<Rightarrow> ([], Inl e, r2)
           | Inr (i, w) \<Rightarrow>
               let failed = (if \<not> rc_allowed i then Some i
                     else case w of Some x \<Rightarrow> if \<not> rc_allowed x then Some x else None | None \<Rightarrow> None);
                   effective = (case failed of Some f \<Rightarrow> f | None \<Rightarrow> (case w of Some x \<Rightarrow> x | None \<Rightarrow> i))
               in case failed of
                    Some f \<Rightarrow> (rateHeaders effective @ [(''Retry-After'', rc_resetSeconds f)], Inl (HttpException 429 ''RATE_LIMITED''), r2)
                  | None \<Rightarrow> (rateHeaders effective, Inr True, r2))"

section \<open>The specification: fixed windows\<close>

text \<open>What a bucket promises, per bucket: the start of its window and the requests counted in it.\<close>

definition windowStep :: "int \<Rightarrow> (int \<times> int) option \<Rightarrow> int \<Rightarrow> int \<times> int" where
  "windowStep W s now = (case s of
     Some (start, c) \<Rightarrow> if now < start + W then (start, c + 1) else (now, 1)
   | None \<Rightarrow> (now, 1))"

fun windowAllowed :: "int \<Rightarrow> int \<Rightarrow> (int \<times> int) option \<Rightarrow> int list \<Rightarrow> (int \<times> bool) list" where
  "windowAllowed limit W s [] = []"
| "windowAllowed limit W s (t # ts) =
     (t, snd (windowStep W s t) \<le> limit) # windowAllowed limit W (Some (windowStep W s t)) ts"

definition inInterval :: "int \<Rightarrow> int \<Rightarrow> (int \<times> bool) list \<Rightarrow> (int \<times> bool) list" where
  "inInterval a W history = filter (\<lambda>(t, ok). ok \<and> a \<le> t \<and> t < a + W) history"

definition windowBudget :: "int \<Rightarrow> int \<Rightarrow> int \<Rightarrow> (int \<times> int) option \<Rightarrow> int" where
  "windowBudget limit W a s = (case s of
     None \<Rightarrow> 2 * limit
   | Some (start, c) \<Rightarrow>
       if start + W \<le> a then 2 * limit
       else if start < a then max 0 (limit - c) + limit
       else if start < a + W then max 0 (limit - c) else 0)"

lemma budget_step:
  assumes L: "0 \<le> limit" and W: "0 < W" and s: "case s of None \<Rightarrow> True | Some (start, c) \<Rightarrow> start \<le> t \<and> 0 \<le> c"
  shows "(if snd (windowStep W s t) \<le> limit \<and> a \<le> t \<and> t < a + W then 1 else 0) + windowBudget limit W a (Some (windowStep W s t))
    \<le> windowBudget limit W a s"
proof (cases s)
  case None
  then show ?thesis using L W by (simp add: windowStep_def windowBudget_def)
next
  case (Some p)
  obtain start c where p: "p = (start, c)" by force
  then have c: "start \<le> t" "0 \<le> c" using s Some by simp_all
  show ?thesis
  proof (cases "t < start + W")
    case True
    then show ?thesis using L W c Some p by (simp add: windowStep_def windowBudget_def)
  next
    case False
    then show ?thesis using L W c Some p by (simp add: windowStep_def windowBudget_def)
  qed
qed

lemma window_budget:
  assumes "0 \<le> limit" "0 < W" "sorted ts" "\<forall>start c. s = Some (start, c) \<longrightarrow> 0 \<le> c \<and> (\<forall>t\<in>set ts. start \<le> t)"
  shows "int (length (inInterval a W (windowAllowed limit W s ts))) \<le> windowBudget limit W a s"
  using assms(3,4)
proof (induction ts arbitrary: s)
  case Nil
  then show ?case using assms(1) by (auto simp: inInterval_def windowBudget_def split: option.split)
next
  case (Cons t ts)
  obtain start c where st: "windowStep W s t = (start, c)" by force
  have "(\<forall>u\<in>set ts. start \<le> u) \<and> 0 \<le> c"
    using st Cons.prems by (cases s) (auto simp: windowStep_def split: if_splits)
  then have "int (length (inInterval a W (windowAllowed limit W (Some (start, c)) ts))) \<le> windowBudget limit W a (Some (start, c))"
    using Cons by simp
  moreover have "(if c \<le> limit \<and> a \<le> t \<and> t < a + W then 1 else 0) + windowBudget limit W a (Some (start, c)) \<le> windowBudget limit W a s"
    using budget_step [OF assms(1,2), where s = s and t = t and a = a] Cons.prems st by (auto split: option.split)
  ultimately show ?case using st by (auto simp: inInterval_def split: if_splits)
qed

section \<open>Redis implements the windows\<close>

text \<open>The windows of the buckets of one policy: a counter with its expiry is a window with its start.\<close>

definition bucketWindow :: "int \<Rightarrow> counters \<Rightarrow> string \<Rightarrow> (int \<times> int) option" where
  "bucketWindow W r key = (case r key of Some (n, Some t) \<Rightarrow> Some (t - W, n) | _ \<Rightarrow> None)"

definition countersOk :: "counters \<Rightarrow> bool" where
  "countersOk r \<longleftrightarrow> (\<forall>k n e. r k = Some (n, e) \<longrightarrow> 1 \<le> n \<and> e \<noteq> None)"

lemma limitScript_refines:
  assumes "countersOk r" and "limitScript r now key W = ((c, ttl), r')"
  shows "bucketWindow W r' key = Some (windowStep W (bucketWindow W r key) now)"
    and "c = snd (windowStep W (bucketWindow W r key) now)"
    and "ttl = fst (windowStep W (bucketWindow W r key) now) + W - now"
    and "key' \<noteq> key \<Longrightarrow> r' key' = r key'" and "countersOk r'"
proof -
  consider "r key = None" | n t where "r key = Some (n, Some t)" "1 \<le> n"
    using assms(1) unfolding countersOk_def by (metis not_None_eq surj_pair)
  then have "bucketWindow W r' key = Some (windowStep W (bucketWindow W r key) now) \<and> c = snd (windowStep W (bucketWindow W r key) now)
    \<and> ttl = fst (windowStep W (bucketWindow W r key) now) + W - now \<and> (key' \<noteq> key \<longrightarrow> r' key' = r key') \<and> countersOk r'"
  proof cases
    case 1
    then show ?thesis using assms
      by (auto simp: limitScript_def redisIncr_def redisExpire_def redisTtl_def bucketWindow_def windowStep_def countersOk_def split: if_splits)
  next
    case 2
    then show ?thesis using assms
      by (cases "now < t")
        (auto simp: limitScript_def redisIncr_def redisExpire_def redisTtl_def bucketWindow_def windowStep_def countersOk_def
           split: if_splits, use 2(2) in linarith)
  qed
  then show "bucketWindow W r' key = Some (windowStep W (bucketWindow W r key) now)"
    "c = snd (windowStep W (bucketWindow W r key) now)" "ttl = fst (windowStep W (bucketWindow W r key) now) + W - now"
    "key' \<noteq> key \<Longrightarrow> r' key' = r key'" "countersOk r'" by blast+
qed

text \<open>A history of checks: the time, the key, the limit and the window of each, and its outcome.\<close>

type_synonym limit_request = "int \<times> string \<times> int \<times> int"

fun runChecks :: "(string \<Rightarrow> string) \<Rightarrow> bool \<Rightarrow> limit_request list \<Rightarrow> counters \<Rightarrow> (limit_request \<times> rate_check result) list" where
  "runChecks hmacHex production [] r = []"
| "runChecks hmacHex production ((now, key, limit, W) # reqs) r =
     (let (outcome, r') = checkLimit hmacHex production True now key limit W r
      in ((now, key, limit, W), outcome) # runChecks hmacHex production reqs r')"

definition bucketOfKey :: "(string \<Rightarrow> string) \<Rightarrow> limit_request \<Rightarrow> string" where
  "bucketOfKey hmacHex q = normalizeBucket hmacHex (fst (snd q))"

definition isAllowed :: "rate_check result \<Rightarrow> bool" where
  "isAllowed x = (case x of Inr c \<Rightarrow> rc_allowed c | Inl _ \<Rightarrow> False)"


definition bucketLog :: "(string \<Rightarrow> string) \<Rightarrow> string \<Rightarrow> (limit_request \<times> rate_check result) list \<Rightarrow> (int \<times> bool) list" where
  "bucketLog hmacHex b history = map (\<lambda>(q, x). (fst q, isAllowed x)) (filter (\<lambda>(q, x). bucketOfKey hmacHex q = b) history)"

lemma checkLimit_up:
  assumes "countersOk r" and "checkLimit hmacHex production True now key limit W r = (outcome, r')"
  shows "isAllowed outcome \<longleftrightarrow> snd (windowStep W (bucketWindow W r (''rate:'' @ normalizeBucket hmacHex key)) now) \<le> limit"
    and "bucketWindow W r' (''rate:'' @ normalizeBucket hmacHex key)
      = Some (windowStep W (bucketWindow W r (''rate:'' @ normalizeBucket hmacHex key)) now)"
    and "b \<noteq> normalizeBucket hmacHex key \<Longrightarrow> bucketWindow V r' (''rate:'' @ b) = bucketWindow V r (''rate:'' @ b)"
    and "countersOk r'"
proof -
  obtain c ttl where s: "limitScript r now (''rate:'' @ normalizeBucket hmacHex key) W = ((c, ttl), r')"
    using assms(2) by (auto simp: checkLimit_def split: prod.splits)
  note s' = limitScript_refines [OF assms(1) s]
  show "isAllowed outcome \<longleftrightarrow> snd (windowStep W (bucketWindow W r (''rate:'' @ normalizeBucket hmacHex key)) now) \<le> limit"
    using assms(2) s s'(2) by (auto simp: checkLimit_def isAllowed_def Let_def)
  show "bucketWindow W r' (''rate:'' @ normalizeBucket hmacHex key)
      = Some (windowStep W (bucketWindow W r (''rate:'' @ normalizeBucket hmacHex key)) now)" by (rule s'(1))
  show "bucketWindow V r' (''rate:'' @ b) = bucketWindow V r (''rate:'' @ b)" if "b \<noteq> normalizeBucket hmacHex key"
    using s'(4) [of "''rate:'' @ b"] that by (simp add: bucketWindow_def)
  show "countersOk r'" by (rule s'(5))
qed

lemma runChecks_refines:
  assumes "countersOk r" and "\<forall>(now, key, l, w)\<in>set reqs. normalizeBucket hmacHex key = b \<longrightarrow> l = limit \<and> w = W"
  shows "bucketLog hmacHex b (runChecks hmacHex production reqs r)
    = windowAllowed limit W (bucketWindow W r (''rate:'' @ b)) (map fst (filter (\<lambda>q. bucketOfKey hmacHex q = b) reqs))"
  using assms
proof (induction reqs arbitrary: r)
  case (Cons q reqs)
  obtain now key l w where q: "q = (now, key, l, w)" by (cases q) auto
  obtain outcome r' where c: "checkLimit hmacHex production True now key l w r = (outcome, r')" by force
  note step = checkLimit_up [OF Cons.prems(1) c]
  have IH: "bucketLog hmacHex b (runChecks hmacHex production reqs r')
    = windowAllowed limit W (bucketWindow W r' (''rate:'' @ b)) (map fst (filter (\<lambda>q. bucketOfKey hmacHex q = b) reqs))"
    using Cons step(4) by simp
  have run: "runChecks hmacHex production (q # reqs) r = (q, outcome) # runChecks hmacHex production reqs r'" using c q by simp
  show ?case
  proof (cases "normalizeBucket hmacHex key = b")
    case True
    then have "l = limit" "w = W" using Cons.prems(2) q by simp_all
    then show ?thesis using True IH step(1,2) q unfolding run by (simp add: bucketLog_def bucketOfKey_def)
  next
    case False
    then show ?thesis using IH step(3) [of b W] q unfolding run by (simp add: bucketLog_def bucketOfKey_def)
  qed
qed (simp add: bucketLog_def)

section \<open>Properties\<close>

text \<open>C17. The Redis limiter implements fixed windows: among any traffic over any keys, the checks of one bucket (whose requests
  all carry one limit and one window) are admitted exactly as the specification says, where a window opens at the first
  request after the previous one closed and admits the first \<open>limit\<close> requests. Hence no interval of the window's length,
  wherever it starts, admits more than twice the limit.\<close>

theorem rate_limit_windows:
  assumes "sorted (map fst reqs)" and "0 \<le> limit" and "0 < W"
    and "\<forall>(now, key, l, w)\<in>set reqs. normalizeBucket hmacHex key = b \<longrightarrow> l = limit \<and> w = W"
  shows "bucketLog hmacHex b (runChecks hmacHex production reqs Map.empty)
      = windowAllowed limit W None (map fst (filter (\<lambda>q. bucketOfKey hmacHex q = b) reqs))
    \<and> int (length (inInterval a W (bucketLog hmacHex b (runChecks hmacHex production reqs Map.empty)))) \<le> 2 * limit"
proof -
  have ref: "bucketLog hmacHex b (runChecks hmacHex production reqs Map.empty)
      = windowAllowed limit W None (map fst (filter (\<lambda>q. bucketOfKey hmacHex q = b) reqs))"
    using runChecks_refines [OF _ assms(4), of Map.empty production] by (simp add: countersOk_def bucketWindow_def)
  have "sorted (map fst (filter (\<lambda>q. bucketOfKey hmacHex q = b) reqs))"
    using sorted_filter [OF assms(1)] by simp
  from window_budget [OF assms(2,3) this, of None a] ref show ?thesis by (simp add: windowBudget_def)
qed

theorem rate_limit_windows_witness:
  "bucketLog id ''ip:1'' (runChecks id True [(0, ''ip:1'', 2, 60), (1, ''ip:2'', 2, 60), (2, ''IP:1 '', 2, 60), (3, ''ip:1'', 2, 60), (60, ''ip:1'', 2, 60)] Map.empty)
     = [(0, True), (2, True), (3, False), (60, True)]"
proof -
  have "sorted (map fst [(0, ''ip:1'', 2, 60), (1, ''ip:2'', 2, 60), (2, ''IP:1 '', 2, 60), (3, ''ip:1'', 2, 60), (60, ''ip:1'', 2, 60 :: int)] :: int list)"
    by simp
  moreover have "normalizeBucket id ''ip:1'' = ''ip:1''" "normalizeBucket id ''ip:2'' = ''ip:2''" "normalizeBucket id ''IP:1 '' = ''ip:1''"
    by code_simp+
  ultimately show ?thesis
    using rate_limit_windows [of "[(0, ''ip:1'', 2, 60), (1, ''ip:2'', 2, 60), (2, ''IP:1 '', 2, 60), (3, ''ip:1'', 2, 60), (60, ''ip:1'', 2, 60)]"
      2 60 id "''ip:1''" True 0]
    by (simp add: bucketOfKey_def windowStep_def)
qed

text \<open>The bucket of an address does not name the policy, so policies share counters and windows: a first token creation opens
  an hour-long window, and a request of a one-minute policy later in that hour counts as its second and waits for its end.\<close>

lemma policies_share_bucket:
  assumes "0 \<le> now" "now < 3600"
    and "limitScript Map.empty 0 (''rate:'' @ k) (rp_windowSeconds (RATE_LIMIT_POLICIES tokenCreate)) = (x, r)"
  shows "fst (fst (limitScript r now (''rate:'' @ k) (rp_windowSeconds (RATE_LIMIT_POLICIES general)))) = 2"
    and "snd (fst (limitScript r now (''rate:'' @ k) (rp_windowSeconds (RATE_LIMIT_POLICIES general)))) = 3600 - now"
  using assms by (auto simp: limitScript_def redisIncr_def redisExpire_def redisTtl_def RATE_LIMIT_POLICIES_def Let_def)

end
