(* ===== verification/Broadcaster.thy ===== *)
theory Broadcaster
  imports Trading Auth
begin

text \<open>
  Model of \<open>src/src/modules/trading/broadcaster.ts\<close>: the hub that turns database notifications into ticks and one-minute bars
  for WebSocket clients. A bar carries an identity, since its timer compares objects; a timer is the identity and the pool
  it closes, with the time it is due. Of a socket the model keeps what the hub reads (whether it is open, the bytes
  buffered, the liveness mark) and the messages handed to it. \<open>number\<close> is \<open>Number(text)\<close> (\<open>None\<close>: not a number) and
  \<open>numberText\<close> the text of a number. The clock is in milliseconds.
\<close>

section \<open>Values of a notification\<close>

definition str :: "(rat \<Rightarrow> string) \<Rightarrow> json option \<Rightarrow> string" where
  "str numberText v = (case v of Some (StrJ s) \<Rightarrow> s | Some (NumJ q) \<Rightarrow> numberText q | _ \<Rightarrow> ''0'')"

text \<open>\<open>Boolean(v)\<close>.\<close>

definition truthy :: "json option \<Rightarrow> bool" where
  "truthy v = (case v of None \<Rightarrow> False | Some NullJ \<Rightarrow> False | Some (BoolJ b) \<Rightarrow> b | Some (NumJ q) \<Rightarrow> q \<noteq> 0
     | Some (StrJ s) \<Rightarrow> s \<noteq> [] | Some (ArrJ _) \<Rightarrow> True | Some (ObjJ _) \<Rightarrow> True)"

section \<open>State\<close>

record bar =
  bb_id :: nat
  bb_start :: "rat option"
  bb_open :: int
  bb_close :: int
  bb_highSqrt :: int
  bb_lowSqrt :: int
  bb_buyEth :: int
  bb_sellEth :: int
  bb_trades :: int
  bb_lastPushAt :: int
  bb_timer :: bool

datatype message =
    TickMessage string bool "string option" "json option" "json option" "json option" "json option" "json option" "json option"
  | BarMessage bool string "int option" "string option" "string option" "string option" "string option" int int int int
  | PoolMessage json
  | CommentMessage string "json option"
  | HarvestMessage string "rat option" string "json option"

record client =
  cl_subs :: "string set"
  cl_open :: bool
  cl_bufferedAmount :: int
  cl_isAlive :: "bool option"
  cl_sent :: "message list"

record broadcaster =
  bc_bars :: "string \<rightharpoonup> bar"
  bc_clients :: "(nat \<times> client) list"
  bc_recentTicks :: "string \<rightharpoonup> message list"
  bc_timers :: "(nat \<times> string \<times> int) list"
  bc_nextId :: nat

definition MINUTE_MS :: int where [model_defs]: "MINUTE_MS = 60000"
definition BAR_THROTTLE_MS :: int where [model_defs]: "BAR_THROTTLE_MS = 250"

section \<open>Sending\<close>

definition barMessage :: "string \<Rightarrow> bar \<Rightarrow> bool \<Rightarrow> message" where
  "barMessage pool b final = BarMessage final pool (map_option (\<lambda>t. \<lfloor>t / 1000\<rfloor>) (bb_start b))
     (sqrtToEthString (bb_open b)) (sqrtToEthString (bb_lowSqrt b)) (sqrtToEthString (bb_highSqrt b)) (sqrtToEthString (bb_close b))
     (bb_buyEth b + bb_sellEth b) (bb_buyEth b) (bb_sellEth b) (bb_trades b)"

text \<open>One socket's share of a broadcast: \<open>None\<close> when it is terminated.\<close>

definition deliverTo :: "message \<Rightarrow> string option \<Rightarrow> client \<Rightarrow> client option" where
  "deliverTo message onlyPool c =
     (if (case onlyPool of Some p \<Rightarrow> p \<noteq> [] \<and> p \<notin> cl_subs c | None \<Rightarrow> False) then Some c
      else if \<not> cl_open c then Some c
      else if cl_bufferedAmount c > 8000000 then None
      else if cl_bufferedAmount c > 1000000 then Some c
      else Some (c\<lparr>cl_sent := cl_sent c @ [message]\<rparr>))"

definition broadcast :: "message \<Rightarrow> string option \<Rightarrow> broadcaster \<Rightarrow> broadcaster" where
  "broadcast message onlyPool s =
     s\<lparr>bc_clients := List.map_filter (\<lambda>(i, c). map_option (Pair i) (deliverTo message onlyPool c)) (bc_clients s)\<rparr>"

section \<open>Trades\<close>

record trade_note =
  tn_pool :: string
  tn_sqrt :: int
  tn_isBuy :: bool
  tn_eth :: int
  tn_tsSec :: "rat option"

definition parseTradeNote :: "(string \<Rightarrow> rat option) \<Rightarrow> (rat \<Rightarrow> string) \<Rightarrow> json \<Rightarrow> trade_note result" where
  "parseTradeNote number numberText t =
     (let text = (\<lambda>k. str numberText (jsonField t k)) in
      bindR (bigIntText (text ''sqrt'')) (\<lambda>sqrtP.
      bindR (bigIntText (text ''eth'')) (\<lambda>eth.
      Inr \<lparr>tn_pool = toLowerCase (text ''pool_id''), tn_sqrt = sqrtP, tn_isBuy = truthy (jsonField t ''is_buy''), tn_eth = eth,
        tn_tsSec = number (text ''ts'')\<rparr>)))"

definition tickMessage :: "json \<Rightarrow> trade_note \<Rightarrow> message" where
  "tickMessage t n = TickMessage (tn_pool n) (tn_isBuy n) (if tn_sqrt n > 0 then sqrtToEthString (tn_sqrt n) else None)
     (jsonField t ''sqrt'') (jsonField t ''eth'') (jsonField t ''tokens'') (jsonField t ''ts'') (jsonField t ''block'') (jsonField t ''tx'')"

definition pushTick :: "string \<Rightarrow> message \<Rightarrow> (string \<rightharpoonup> message list) \<Rightarrow> (string \<rightharpoonup> message list)" where
  "pushTick pool tick rings = (case rings pool of
     Some ring \<Rightarrow> rings(pool \<mapsto> (if length (ring @ [tick]) > 30 then tl (ring @ [tick]) else ring @ [tick]))
   | None \<Rightarrow> rings(pool \<mapsto> [tick]))"

text \<open>The remainder of \<open>%\<close> truncates towards zero.\<close>

definition jsRem :: "rat \<Rightarrow> rat \<Rightarrow> rat" where
  "jsRem q m = q - m * of_int (if q / m < 0 then \<lceil>q / m\<rceil> else \<lfloor>q / m\<rfloor>)"

definition bucketMs :: "rat option \<Rightarrow> rat option" where
  "bucketMs tsSec = map_option (\<lambda>t. t * 1000 - jsRem (t * 1000) (of_int MINUTE_MS)) tsSec"

text \<open>\<open>!==\<close> on numbers: not-a-number differs from everything.\<close>

definition differs :: "rat option \<Rightarrow> rat option \<Rightarrow> bool" where
  "differs a b = (case (a, b) of (Some x, Some y) \<Rightarrow> x \<noteq> y | _ \<Rightarrow> True)"

definition newBar :: "nat \<Rightarrow> trade_note \<Rightarrow> bar" where
  "newBar i n = \<lparr>bb_id = i, bb_start = bucketMs (tn_tsSec n), bb_open = tn_sqrt n, bb_close = tn_sqrt n, bb_highSqrt = tn_sqrt n,
     bb_lowSqrt = tn_sqrt n, bb_buyEth = 0, bb_sellEth = 0, bb_trades = 0, bb_lastPushAt = 0, bb_timer = False\<rparr>"

definition addTrade :: "trade_note \<Rightarrow> bar \<Rightarrow> bar" where
  "addTrade n b = b\<lparr>bb_close := tn_sqrt n,
     bb_highSqrt := (if tn_sqrt n > bb_highSqrt b then tn_sqrt n else bb_highSqrt b),
     bb_lowSqrt := (if tn_sqrt n < bb_lowSqrt b then tn_sqrt n else bb_lowSqrt b),
     bb_buyEth := (if tn_isBuy n then bb_buyEth b + tn_eth n else bb_buyEth b),
     bb_sellEth := (if tn_isBuy n then bb_sellEth b else bb_sellEth b + tn_eth n),
     bb_trades := bb_trades b + 1\<rparr>"

text \<open>The bar a trade falls in: the open one, or a new one after announcing the end of the old and clearing its timer.\<close>

definition barFor :: "trade_note \<Rightarrow> broadcaster \<Rightarrow> bar \<times> broadcaster" where
  "barFor n s = (case bc_bars s (tn_pool n) of
     None \<Rightarrow> (newBar (bc_nextId s) n, s\<lparr>bc_nextId := Suc (bc_nextId s)\<rparr>)
   | Some b \<Rightarrow>
       if differs (bb_start b) (bucketMs (tn_tsSec n)) then
         let s' = broadcast (barMessage (tn_pool n) b True) (Some (tn_pool n)) s
         in (newBar (bc_nextId s) n, s'\<lparr>bc_timers := filter (\<lambda>(i, _). i \<noteq> bb_id b) (bc_timers s'), bc_nextId := Suc (bc_nextId s)\<rparr>)
       else (b, s))"

definition timerDelay :: "rat option \<Rightarrow> int \<Rightarrow> int" where
  "timerDelay start now = (case start of None \<Rightarrow> 1 | Some t \<Rightarrow> max (\<lceil>t\<rceil> + MINUTE_MS - now + 50) 100)"

definition applyTradeNote :: "int \<Rightarrow> message \<Rightarrow> trade_note \<Rightarrow> broadcaster \<Rightarrow> broadcaster" where
  "applyTradeNote now tick n s =
     (let pool = tn_pool n;
          s1 = broadcast tick (Some pool) (s\<lparr>bc_recentTicks := pushTick pool tick (bc_recentTicks s)\<rparr>);
          (b0, s2) = barFor n s1;
          b1 = addTrade n b0;
          push = (now - bb_lastPushAt b1 \<ge> BAR_THROTTLE_MS);
          b2 = (if push then b1\<lparr>bb_lastPushAt := now\<rparr> else b1);
          s3 = (if push then broadcast (barMessage pool b2 False) (Some pool) s2 else s2);
          timers = (if bb_timer b2 then bc_timers s3 else bc_timers s3 @ [(bb_id b2, pool, now + timerDelay (bb_start b2) now)])
      in s3\<lparr>bc_bars := (bc_bars s3)(pool \<mapsto> b2\<lparr>bb_timer := True\<rparr>), bc_timers := timers\<rparr>)"

definition onTrade :: "(string \<Rightarrow> rat option) \<Rightarrow> (rat \<Rightarrow> string) \<Rightarrow> int \<Rightarrow> json \<Rightarrow> broadcaster \<Rightarrow> broadcaster result" where
  "onTrade number numberText now t s =
     bindR (parseTradeNote number numberText t) (\<lambda>n. Inr (applyTradeNote now (tickMessage t n) n s))"

text \<open>A timer fires: it closes its bar unless the pool has another one by now.\<close>

definition onTimer :: "nat \<Rightarrow> string \<Rightarrow> broadcaster \<Rightarrow> broadcaster" where
  "onTimer i pool s =
     (let s' = s\<lparr>bc_timers := filter (\<lambda>(j, _). j \<noteq> i) (bc_timers s)\<rparr> in
      case bc_bars s' pool of
        Some b \<Rightarrow> if bb_id b = i
          then (broadcast (barMessage pool b True) (Some pool) s')\<lparr>bc_bars := (bc_bars s')(pool := None)\<rparr> else s'
      | None \<Rightarrow> s')"

section \<open>Notifications and sockets\<close>

definition onNotification :: "(string \<Rightarrow> rat option) \<Rightarrow> (rat \<Rightarrow> string) \<Rightarrow> int \<Rightarrow> string \<Rightarrow> string \<Rightarrow> broadcaster \<Rightarrow> broadcaster result" where
  "onNotification number numberText now channel payload s =
     (if payload = [] then Inr s
      else case jsonParse payload of
        None \<Rightarrow> Inr s
      | Some data \<Rightarrow>
          if data = NullJ \<and> channel \<in> {''spawn_trades'', ''spawn_comments'', ''spawn_harvests''} then Inl (JsError ''TypeError'')
          else if channel = ''spawn_trades'' then onTrade number numberText now data s
          else if channel = ''spawn_pools'' then Inr (broadcast (PoolMessage data) None s)
          else if channel = ''spawn_comments'' then
            Inr (broadcast (CommentMessage (str numberText (jsonField data ''token_db_id'')) (jsonField data ''ts'')) None s)
          else if channel = ''spawn_harvests'' then
            Inr (broadcast (HarvestMessage (toLowerCase (str numberText (jsonField data ''pool_id'')))
              (case jsonField data ''band_index'' of None \<Rightarrow> Some 0 | Some NullJ \<Rightarrow> Some 0 | Some (NumJ q) \<Rightarrow> Some q
                | Some (StrJ t) \<Rightarrow> number t | Some (BoolJ b) \<Rightarrow> Some (if b then 1 else 0) | Some _ \<Rightarrow> None)
              (str numberText (jsonField data ''gross_quote'')) (jsonField data ''ts'')) None s)
          else Inr s)"

text \<open>What a subscription sends at once: the open bar and the recent ticks of the pool.\<close>

definition snapshot :: "broadcaster \<Rightarrow> string \<Rightarrow> message list" where
  "snapshot s pool = (case bc_bars s pool of Some b \<Rightarrow> [barMessage pool b False] | None \<Rightarrow> [])
     @ (case bc_recentTicks s pool of Some ring \<Rightarrow> ring | None \<Rightarrow> [])"

definition onConnection :: "nat \<Rightarrow> string option \<Rightarrow> broadcaster \<Rightarrow> broadcaster" where
  "onConnection i poolParam s =
     (let legacy = map_option toLowerCase poolParam;
          chosen = (case legacy of Some p \<Rightarrow> p \<noteq> [] | None \<Rightarrow> False);
          first = (case legacy of Some p \<Rightarrow> if chosen then (case bc_bars s p of Some b \<Rightarrow> [barMessage p b False] | None \<Rightarrow> []) else [] | None \<Rightarrow> []);
          c = \<lparr>cl_subs = (case legacy of Some p \<Rightarrow> if chosen then {p} else {} | None \<Rightarrow> {}), cl_open = True, cl_bufferedAmount = 0,
                cl_isAlive = None, cl_sent = first\<rparr>
      in s\<lparr>bc_clients := bc_clients s @ [(i, c)]\<rparr>)"

definition poolsOf :: "json \<Rightarrow> string list" where
  "poolsOf msg = (case jsonField msg ''pools'' of
     Some (ArrJ vs) \<Rightarrow> List.map_filter (\<lambda>v. case v of StrJ p \<Rightarrow> Some (toLowerCase p) | _ \<Rightarrow> None) vs
   | _ \<Rightarrow> [])"

definition updateClient :: "nat \<Rightarrow> (client \<Rightarrow> client) \<Rightarrow> broadcaster \<Rightarrow> broadcaster" where
  "updateClient i f s = s\<lparr>bc_clients := map (\<lambda>(j, c). if j = i then (j, f c) else (j, c)) (bc_clients s)\<rparr>"

text \<open>A frame that is the text \<open>null\<close> parses, and reading a property of it throws outside the \<open>try\<close>.\<close>

definition onMessage :: "nat \<Rightarrow> string \<Rightarrow> broadcaster \<Rightarrow> broadcaster result" where
  "onMessage i raw s = (case jsonParse raw of
     None \<Rightarrow> Inr s
   | Some msg \<Rightarrow>
       if msg = NullJ then Inl (JsError ''TypeError'')
       else
         let pools = poolsOf msg in
         if jsonField msg ''op'' = Some (StrJ ''sub'') then
           Inr (updateClient i (\<lambda>c. c\<lparr>cl_subs := cl_subs c \<union> set pools, cl_sent := cl_sent c @ concat (map (snapshot s) pools)\<rparr>) s)
         else if jsonField msg ''op'' = Some (StrJ ''unsub'') then
           Inr (updateClient i (\<lambda>c. c\<lparr>cl_subs := cl_subs c - set pools\<rparr>) s)
         else Inr s)"

definition onClose :: "nat \<Rightarrow> broadcaster \<Rightarrow> broadcaster" where
  "onClose i s = s\<lparr>bc_clients := filter (\<lambda>(j, _). j \<noteq> i) (bc_clients s)\<rparr>"

definition onPong :: "nat \<Rightarrow> broadcaster \<Rightarrow> broadcaster" where
  "onPong i = updateClient i (\<lambda>c. c\<lparr>cl_isAlive := Some True\<rparr>)"

definition heartbeat :: "broadcaster \<Rightarrow> broadcaster" where
  "heartbeat s = s\<lparr>bc_clients := List.map_filter (\<lambda>(i, c). if cl_isAlive c = Some False then None
     else Some (i, c\<lparr>cl_isAlive := Some False\<rparr>)) (bc_clients s)\<rparr>"

definition reconnectDelay :: "nat \<Rightarrow> int" where
  "reconnectDelay attempt = min (1000 * 2 ^ min attempt 5) 30000"


section \<open>Specification: the delta algebra of one bar\<close>

text \<open>Abstractly, a pool has the trades of its open bar; a trade of the same minute joins them, any other starts anew.\<close>

definition specTrade :: "trade_note \<Rightarrow> trade_note list \<Rightarrow> trade_note list" where
  "specTrade n ts = (if ts \<noteq> [] \<and> \<not> differs (bucketMs (tn_tsSec (hd ts))) (bucketMs (tn_tsSec n)) then ts @ [n] else [n])"

definition aggregates :: "string \<Rightarrow> trade_note list \<Rightarrow> bar \<Rightarrow> bool" where
  "aggregates pool ts b \<longleftrightarrow> ts \<noteq> []
     \<and> (\<forall>t\<in>set ts. tn_pool t = pool \<and> bucketMs (tn_tsSec t) = bb_start b)
     \<and> bb_open b = tn_sqrt (hd ts) \<and> bb_close b = tn_sqrt (last ts)
     \<and> bb_highSqrt b = Max (tn_sqrt ` set ts) \<and> bb_lowSqrt b = Min (tn_sqrt ` set ts)
     \<and> bb_buyEth b = sum_list (map tn_eth (filter tn_isBuy ts))
     \<and> bb_sellEth b = sum_list (map tn_eth (filter (\<lambda>t. \<not> tn_isBuy t) ts))
     \<and> bb_trades b = int (length ts)"

lemma aggregates_new: "aggregates (tn_pool n) [n] (addTrade n (newBar i n))"
  by (simp add: aggregates_def addTrade_def newBar_def)

lemma aggregates_add:
  assumes "aggregates pool ts b" "tn_pool n = pool" "bucketMs (tn_tsSec n) = bb_start b"
  shows "aggregates pool (ts @ [n]) (addTrade n b)"
proof -
  have "ts \<noteq> []" using assms(1) by (simp add: aggregates_def)
  then have "Max (insert (tn_sqrt n) (tn_sqrt ` set ts)) = max (tn_sqrt n) (Max (tn_sqrt ` set ts))"
    "Min (insert (tn_sqrt n) (tn_sqrt ` set ts)) = min (tn_sqrt n) (Min (tn_sqrt ` set ts))"
    by (simp_all add: Max_insert Min_insert)
  note ends = this
  have b: "ts \<noteq> []" "\<forall>t\<in>set ts. tn_pool t = pool \<and> bucketMs (tn_tsSec t) = bb_start b"
    "bb_open b = tn_sqrt (hd ts)" "bb_highSqrt b = Max (tn_sqrt ` set ts)" "bb_lowSqrt b = Min (tn_sqrt ` set ts)"
    "bb_buyEth b = sum_list (map tn_eth (filter tn_isBuy ts))"
    "bb_sellEth b = sum_list (map tn_eth (filter (\<lambda>t. \<not> tn_isBuy t) ts))" "bb_trades b = int (length ts)"
    using assms(1) by (simp_all add: aggregates_def)
  have high: "bb_highSqrt (addTrade n b) = Max (tn_sqrt ` set (ts @ [n]))" "bb_lowSqrt (addTrade n b) = Min (tn_sqrt ` set (ts @ [n]))"
    using b(4,5) ends by (simp_all add: addTrade_def max_def min_def)
  show ?thesis unfolding aggregates_def high using assms(2,3) b(1,2,3,6,7,8) by (simp add: addTrade_def)
qed

lemma aggregates_cong:
  "aggregates pool ts (b\<lparr>bb_lastPushAt := x\<rparr>) = aggregates pool ts b" "aggregates pool ts (b\<lparr>bb_timer := y\<rparr>) = aggregates pool ts b"
  by (simp_all add: aggregates_def)

lemma broadcast_simps [simp]:
  "bc_bars (broadcast m p s) = bc_bars s" "bc_timers (broadcast m p s) = bc_timers s"
  "bc_recentTicks (broadcast m p s) = bc_recentTicks s" "bc_nextId (broadcast m p s) = bc_nextId s"
  by (simp_all add: broadcast_def)

lemma updateClient_simps [simp]:
  "bc_bars (updateClient i f s) = bc_bars s" "bc_timers (updateClient i f s) = bc_timers s"
  "bc_recentTicks (updateClient i f s) = bc_recentTicks s" "bc_nextId (updateClient i f s) = bc_nextId s"
  by (simp_all add: updateClient_def)

text \<open>Bars are the aggregates of their trades, each under its own identity with its timer pending.\<close>

definition hubOk :: "broadcaster \<Rightarrow> (string \<Rightarrow> trade_note list) \<Rightarrow> (string \<Rightarrow> message list) \<Rightarrow> bool" where
  "hubOk s h k \<longleftrightarrow>
     (\<forall>p. bc_bars s p = None \<longrightarrow> h p = [])
   \<and> (\<forall>p b. bc_bars s p = Some b \<longrightarrow> aggregates p (h p) b \<and> bb_timer b \<and> bb_id b < bc_nextId s
        \<and> (\<exists>due. (bb_id b, p, due) \<in> set (bc_timers s)))
   \<and> (\<forall>p q b c. bc_bars s p = Some b \<longrightarrow> bc_bars s q = Some c \<longrightarrow> bb_id b = bb_id c \<longrightarrow> p = q)
   \<and> (\<forall>i q due. (i, q, due) \<in> set (bc_timers s) \<longrightarrow> i < bc_nextId s \<and> (\<forall>p b. bc_bars s p = Some b \<longrightarrow> bb_id b = i \<longrightarrow> p = q))
   \<and> (\<forall>p. (case bc_recentTicks s p of None \<Rightarrow> [] | Some ring \<Rightarrow> ring) = drop (length (k p) - 30) (k p))"

lemma pushTick_ring:
  assumes "(case rings p of None \<Rightarrow> [] | Some ring \<Rightarrow> ring) = drop (length ticks - 30) ticks"
  shows "(case pushTick p t rings p of None \<Rightarrow> [] | Some ring \<Rightarrow> ring) = drop (length (ticks @ [t]) - 30) (ticks @ [t])"
proof (cases "rings p")
  case None
  from arg_cong [OF assms, of length] have "0 = length ticks - (length ticks - 30)"
    by (simp only: None option.case list.size length_drop)
  then have "length ticks = 0" by arith
  then have "ticks = []" by simp
  then show ?thesis using None by (simp add: pushTick_def)
next
  case (Some ring)
  then have r: "ring = drop (length ticks - 30) ticks" using assms by simp
  show ?thesis
  proof (cases "length ticks < 30")
    case True
    then show ?thesis using Some r by (simp add: pushTick_def)
  next
    case False
    then have "length ring = 30" using r by simp
    then have "ring \<noteq> []" by auto
    moreover have "tl ring = drop (Suc (length ticks - 30)) ticks" using r by (simp add: drop_Suc tl_drop)
    moreover have "length (ticks @ [t]) - 30 = Suc (length ticks - 30)" using False by simp
    ultimately show ?thesis using Some \<open>length ring = 30\<close> False by (simp add: pushTick_def)
  qed
qed

lemma pushTick_other: "q \<noteq> p \<Longrightarrow> pushTick p t rings q = rings q"
  by (simp add: pushTick_def split: option.split)

lemma barFor_cases:
  obtains b where "bc_bars s (tn_pool n) = Some b" "\<not> differs (bb_start b) (bucketMs (tn_tsSec n))" "barFor n s = (b, s)"
  | s' where "barFor n s = (newBar (bc_nextId s) n, s')" "bc_bars s' = bc_bars s" "bc_recentTicks s' = bc_recentTicks s"
      "bc_nextId s' = Suc (bc_nextId s)" "set (bc_timers s') \<subseteq> set (bc_timers s)"
      "\<forall>i q due. (\<forall>b. bc_bars s (tn_pool n) = Some b \<longrightarrow> bb_id b \<noteq> i) \<longrightarrow> (i, q, due) \<in> set (bc_timers s) \<longrightarrow> (i, q, due) \<in> set (bc_timers s')"
      "\<forall>b. bc_bars s (tn_pool n) = Some b \<longrightarrow> differs (bb_start b) (bucketMs (tn_tsSec n))"
proof (cases "bc_bars s (tn_pool n)")
  case None
  then show ?thesis by (intro that(2) [of "s\<lparr>bc_nextId := Suc (bc_nextId s)\<rparr>"]) (simp_all add: barFor_def)
next
  case (Some b)
  show ?thesis
  proof (cases "differs (bb_start b) (bucketMs (tn_tsSec n))")
    case True
    let ?s = "(broadcast (barMessage (tn_pool n) b True) (Some (tn_pool n)) s)\<lparr>bc_timers := filter (\<lambda>(i, _). i \<noteq> bb_id b) (bc_timers s),
      bc_nextId := Suc (bc_nextId s)\<rparr>"
    from True show ?thesis using Some by (intro that(2) [of ?s]) (auto simp: barFor_def Let_def)
  next
    case False
    then show ?thesis using Some by (intro that(1)) (simp_all add: barFor_def)
  qed
qed

lemma not_differs: "\<not> differs a b \<Longrightarrow> a = b"
  by (simp add: differs_def split: option.splits)

text \<open>What a trade leaves: the bar of its pool, the other bars, the timers, the rings.\<close>

lemma applyTradeNote_state:
  assumes "barFor n (broadcast tick (Some (tn_pool n)) (s\<lparr>bc_recentTicks := pushTick (tn_pool n) tick (bc_recentTicks s)\<rparr>)) = (b0, s2)"
  obtains b push where "bc_bars (applyTradeNote now tick n s) = (bc_bars s2)(tn_pool n \<mapsto> b)"
    "b = (addTrade n b0)\<lparr>bb_lastPushAt := push, bb_timer := True\<rparr>"
    "bc_nextId (applyTradeNote now tick n s) = bc_nextId s2" "bc_recentTicks (applyTradeNote now tick n s) = bc_recentTicks s2"
    "set (bc_timers s2) \<subseteq> set (bc_timers (applyTradeNote now tick n s))"
    "\<forall>i q due. (i, q, due) \<in> set (bc_timers (applyTradeNote now tick n s)) \<longrightarrow> (i, q, due) \<in> set (bc_timers s2) \<or> (i = bb_id b0 \<and> q = tn_pool n)"
    "bb_timer b0 \<or> (\<exists>due. (bb_id b0, tn_pool n, due) \<in> set (bc_timers (applyTradeNote now tick n s)))"
proof -
  define b1 where "b1 = addTrade n b0"
  have ids: "bb_id b1 = bb_id b0" "bb_timer b1 = bb_timer b0" by (simp_all add: b1_def addTrade_def)
  show thesis
  proof (cases "now - bb_lastPushAt b1 \<ge> BAR_THROTTLE_MS")
    case True
    show thesis by (rule that [of "b1\<lparr>bb_lastPushAt := now, bb_timer := True\<rparr>" now])
      (use True ids in \<open>auto simp: applyTradeNote_def Let_def assms b1_def [symmetric]\<close>)
  next
    case False
    show thesis by (rule that [of "b1\<lparr>bb_timer := True\<rparr>" "bb_lastPushAt b1"])
      (use False ids in \<open>auto simp: applyTradeNote_def Let_def assms b1_def [symmetric]\<close>)
  qed
qed

lemma hubOk_trade:
  assumes ok: "hubOk s h k"
  shows "hubOk (applyTradeNote now tick n s) (h(tn_pool n := specTrade n (h (tn_pool n)))) (k(tn_pool n := k (tn_pool n) @ [tick]))"
proof -
  let ?p = "tn_pool n" and ?s' = "applyTradeNote now tick n s"
  from ok have o: "\<forall>p. bc_bars s p = None \<longrightarrow> h p = []"
      "\<forall>p b. bc_bars s p = Some b \<longrightarrow> aggregates p (h p) b \<and> bb_timer b \<and> bb_id b < bc_nextId s \<and> (\<exists>due. (bb_id b, p, due) \<in> set (bc_timers s))"
      "\<forall>p q b c. bc_bars s p = Some b \<longrightarrow> bc_bars s q = Some c \<longrightarrow> bb_id b = bb_id c \<longrightarrow> p = q"
    unfolding hubOk_def by blast+
  define s1 where "s1 = broadcast tick (Some ?p) (s\<lparr>bc_recentTicks := pushTick ?p tick (bc_recentTicks s)\<rparr>)"
  have s1: "bc_bars s1 = bc_bars s" "bc_timers s1 = bc_timers s" "bc_nextId s1 = bc_nextId s"
    "bc_recentTicks s1 = pushTick ?p tick (bc_recentTicks s)" by (simp_all add: s1_def)
  obtain b0 s2 where f: "barFor n s1 = (b0, s2)" by force
  obtain b push where st: "bc_bars ?s' = (bc_bars s2)(?p \<mapsto> b)" "b = (addTrade n b0)\<lparr>bb_lastPushAt := push, bb_timer := True\<rparr>"
    "bc_nextId ?s' = bc_nextId s2" "bc_recentTicks ?s' = bc_recentTicks s2" "set (bc_timers s2) \<subseteq> set (bc_timers ?s')"
    "\<forall>i q due. (i, q, due) \<in> set (bc_timers ?s') \<longrightarrow> (i, q, due) \<in> set (bc_timers s2) \<or> (i = bb_id b0 \<and> q = ?p)"
    "bb_timer b0 \<or> (\<exists>due. (bb_id b0, ?p, due) \<in> set (bc_timers ?s'))"
    using applyTradeNote_state [OF f [unfolded s1_def], of now] by metis
  have agg0: "aggregates ?p (specTrade n (h ?p)) (addTrade n b0)" and bars2: "bc_bars s2 = bc_bars s" and ticks2: "bc_recentTicks s2 = bc_recentTicks s1"
    and idb: "bb_id b0 < bc_nextId s2" "bc_nextId s \<le> bc_nextId s2" "\<forall>q c. bc_bars s q = Some c \<longrightarrow> q \<noteq> ?p \<longrightarrow> bb_id c \<noteq> bb_id b0"
    and sub2: "set (bc_timers s2) \<subseteq> set (bc_timers s)"
    and tmap: "\<forall>i q due. (i, q, due) \<in> set (bc_timers s) \<longrightarrow> i = bb_id b0 \<longrightarrow> q = ?p"
    and tim: "\<exists>due. (bb_id b0, ?p, due) \<in> set (bc_timers ?s')"
    and oth: "\<forall>q c due. bc_bars s q = Some c \<longrightarrow> q \<noteq> ?p \<longrightarrow> (bb_id c, q, due) \<in> set (bc_timers s) \<longrightarrow> (bb_id c, q, due) \<in> set (bc_timers s2)"
  proof -
    show "bc_bars s2 = bc_bars s" "bc_recentTicks s2 = bc_recentTicks s1" "bc_nextId s \<le> bc_nextId s2"
      "set (bc_timers s2) \<subseteq> set (bc_timers s)"
      by (rule barFor_cases [of s1 n]; use f s1 in simp)+
    show "aggregates ?p (specTrade n (h ?p)) (addTrade n b0)"
    proof (rule barFor_cases [of s1 n])
      fix b assume b: "bc_bars s1 ?p = Some b" "\<not> differs (bb_start b) (bucketMs (tn_tsSec n))" "barFor n s1 = (b, s1)"
      then have a: "aggregates ?p (h ?p) b" using ok s1(1) unfolding hubOk_def by simp
      then have "bucketMs (tn_tsSec (hd (h ?p))) = bb_start b" "h ?p \<noteq> []" by (auto simp: aggregates_def)
      then have "specTrade n (h ?p) = h ?p @ [n]" using b(2) by (simp add: specTrade_def)
      then show ?thesis using aggregates_add [OF a refl] not_differs [OF b(2)] b(3) f by simp
    next
      fix s' assume b: "barFor n s1 = (newBar (bc_nextId s1) n, s')"
        "\<forall>b. bc_bars s1 ?p = Some b \<longrightarrow> differs (bb_start b) (bucketMs (tn_tsSec n))"
      have "specTrade n (h ?p) = [n]"
      proof (cases "bc_bars s ?p")
        case None
        then have "h ?p = []" using ok unfolding hubOk_def by blast
        then show ?thesis by (simp add: specTrade_def)
      next
        case (Some b)
        then have "aggregates ?p (h ?p) b" using ok unfolding hubOk_def by blast
        then have "h ?p \<noteq> []" "bucketMs (tn_tsSec (hd (h ?p))) = bb_start b" by (auto simp: aggregates_def)
        then show ?thesis using b Some s1(1) by (simp add: specTrade_def)
      qed
      then show ?thesis using aggregates_new b(1) f by simp
    qed
    have kinds: "(bc_bars s ?p = Some b0 \<and> s2 = s1) \<or> (bb_id b0 = bc_nextId s \<and> \<not> bb_timer b0 \<and> bc_nextId s2 = Suc (bc_nextId s))"
      by (rule barFor_cases [of s1 n]) (use f s1 in \<open>simp_all add: newBar_def\<close>)
    have idlt: "\<forall>p b. bc_bars s p = Some b \<longrightarrow> bb_id b < bc_nextId s"
      and inj: "\<forall>p q b c. bc_bars s p = Some b \<longrightarrow> bc_bars s q = Some c \<longrightarrow> bb_id b = bb_id c \<longrightarrow> p = q"
      and due: "\<forall>p b. bc_bars s p = Some b \<longrightarrow> (\<exists>due. (bb_id b, p, due) \<in> set (bc_timers s))"
      using ok unfolding hubOk_def by blast+
    have own: "\<forall>i q due. (i, q, due) \<in> set (bc_timers s) \<longrightarrow> i < bc_nextId s \<and> (\<forall>p b. bc_bars s p = Some b \<longrightarrow> bb_id b = i \<longrightarrow> p = q)"
      using ok unfolding hubOk_def by blast
    show "\<forall>i q due. (i, q, due) \<in> set (bc_timers s) \<longrightarrow> i = bb_id b0 \<longrightarrow> q = ?p"
      using kinds own by (metis less_irrefl)
    show "bb_id b0 < bc_nextId s2" using kinds idlt s1(3) by auto
    show "\<forall>q c. bc_bars s q = Some c \<longrightarrow> q \<noteq> ?p \<longrightarrow> bb_id c \<noteq> bb_id b0"
      using kinds idlt inj by (metis less_irrefl)
    show "\<exists>due. (bb_id b0, ?p, due) \<in> set (bc_timers ?s')"
      using kinds due st(5,7) unfolding s1(2) [symmetric] by fastforce
    show "\<forall>q c due. bc_bars s q = Some c \<longrightarrow> q \<noteq> ?p \<longrightarrow> (bb_id c, q, due) \<in> set (bc_timers s) \<longrightarrow> (bb_id c, q, due) \<in> set (bc_timers s2)"
    proof (rule barFor_cases [of s1 n])
      fix s' assume b: "barFor n s1 = (newBar (bc_nextId s1) n, s')"
        "\<forall>i q due. (\<forall>b. bc_bars s1 ?p = Some b \<longrightarrow> bb_id b \<noteq> i) \<longrightarrow> (i, q, due) \<in> set (bc_timers s1) \<longrightarrow> (i, q, due) \<in> set (bc_timers s')"
      have "\<forall>q c b. bc_bars s q = Some c \<longrightarrow> q \<noteq> ?p \<longrightarrow> bc_bars s1 ?p = Some b \<longrightarrow> bb_id b \<noteq> bb_id c"
        using ok s1(1) unfolding hubOk_def by metis
      moreover have "s' = s2" using b(1) f by simp
      ultimately show ?thesis using b(2) s1(2) by auto
    qed (use f s1 in auto)
  qed
  have aggb: "aggregates ?p (specTrade n (h ?p)) b" "bb_id b = bb_id b0" "bb_timer b"
    using agg0 unfolding st(2) by (simp_all add: aggregates_cong addTrade_def)
  show ?thesis unfolding hubOk_def
  proof (intro conjI allI impI)
    fix p assume "bc_bars ?s' p = None"
    then show "(h(?p := specTrade n (h ?p))) p = []" using o(1) st(1) bars2 by (simp split: if_splits)
  next
    fix p c assume c: "bc_bars ?s' p = Some c"
    have "p = ?p \<and> c = b \<or> p \<noteq> ?p \<and> bc_bars s p = Some c" using c st(1) bars2 by (simp split: if_splits)
    then consider "p = ?p" "c = b" | "p \<noteq> ?p" "aggregates p (h p) c" "bb_timer c" "bb_id c < bc_nextId s" using o(2) by blast
    then have "aggregates p ((h(?p := specTrade n (h ?p))) p) c \<and> bb_timer c \<and> bb_id c < bc_nextId ?s'"
      by cases (use aggb idb(1,2) st(3) in simp_all)
    then show "aggregates p ((h(?p := specTrade n (h ?p))) p) c" "bb_timer c" "bb_id c < bc_nextId ?s'" by blast+
    show "\<exists>due. (bb_id c, p, due) \<in> set (bc_timers ?s')"
    proof (cases "p = ?p")
      case True
      then show ?thesis using c st(1) tim aggb(2) by auto
    next
      case False
      then have "bc_bars s p = Some c" using c st(1) bars2 by simp
      then show ?thesis using ok oth False st(5) unfolding hubOk_def by blast
    qed
  next
    fix p q c d assume a: "bc_bars ?s' p = Some c" "bc_bars ?s' q = Some d" "bb_id c = bb_id d"
    have "p = ?p \<and> c = b \<or> p \<noteq> ?p \<and> bc_bars s p = Some c" "q = ?p \<and> d = b \<or> q \<noteq> ?p \<and> bc_bars s q = Some d"
      using a(1,2) st(1) bars2 by (simp_all split: if_splits)
    then show "p = q" using a(3) o(3) aggb(2) idb(3) by metis
  next
    fix i q due assume "(i, q, due) \<in> set (bc_timers ?s')"
    then consider "(i, q, due) \<in> set (bc_timers s)" | "i = bb_id b0" "q = ?p" using st(6) sub2 by blast
    then have "i < bc_nextId ?s' \<and> (\<forall>p c. bc_bars ?s' p = Some c \<longrightarrow> bb_id c = i \<longrightarrow> p = q)"
    proof cases
      case 1
      then have "i < bc_nextId s" "\<forall>p b. bc_bars s p = Some b \<longrightarrow> bb_id b = i \<longrightarrow> p = q" using ok unfolding hubOk_def by blast+
      then show ?thesis using 1 tmap idb(2) aggb(2) unfolding st(1,3) bars2 by auto
    next
      case 2
      then show ?thesis using idb(1,3) unfolding st(1,3) bars2 by auto
    qed
    then show "i < bc_nextId ?s'" "\<And>p c. bc_bars ?s' p = Some c \<Longrightarrow> bb_id c = i \<Longrightarrow> p = q" by blast+
  next
    fix p
    show "(case bc_recentTicks ?s' p of None \<Rightarrow> [] | Some ring \<Rightarrow> ring)
      = drop (length ((k(?p := k ?p @ [tick])) p) - 30) ((k(?p := k ?p @ [tick])) p)"
      using ok pushTick_ring [of "bc_recentTicks s" ?p "k ?p" tick] pushTick_other [of p ?p tick "bc_recentTicks s"]
      unfolding st(4) ticks2 s1(4) hubOk_def by (cases "p = ?p") simp_all
  qed
qed


lemma applyTradeNote_bar: "\<exists>b. bc_bars (applyTradeNote now tick n s) (tn_pool n) = Some b"
proof -
  obtain b0 s2 where f: "barFor n (broadcast tick (Some (tn_pool n)) (s\<lparr>bc_recentTicks := pushTick (tn_pool n) tick (bc_recentTicks s)\<rparr>)) = (b0, s2)"
    by force
  obtain b where "bc_bars (applyTradeNote now tick n s) = (bc_bars s2)(tn_pool n \<mapsto> b)"
    by (rule applyTradeNote_state [OF f])
  then show ?thesis by simp
qed

lemma hubOk_timer:
  assumes "hubOk s h k" and member: "(i, pool, due) \<in> set (bc_timers s)"
  shows "hubOk (onTimer i pool s) (\<lambda>p. if bc_bars (onTimer i pool s) p = None then [] else h p) k"
proof -
  let ?s = "onTimer i pool s"
  have bars: "bc_bars ?s p = (if p = pool \<and> (\<exists>b. bc_bars s pool = Some b \<and> bb_id b = i) then None else bc_bars s p)" for p
    by (simp add: onTimer_def Let_def split: option.split)
  have rest: "bc_nextId ?s = bc_nextId s" "bc_recentTicks ?s = bc_recentTicks s"
    "bc_timers ?s = filter (\<lambda>(j, _). j \<noteq> i) (bc_timers s)"
    by (simp_all add: onTimer_def Let_def split: option.split)
  from assms have ok: "\<forall>p. bc_bars s p = None \<longrightarrow> h p = []"
      "\<forall>p b. bc_bars s p = Some b \<longrightarrow> aggregates p (h p) b \<and> bb_timer b \<and> bb_id b < bc_nextId s \<and> (\<exists>due. (bb_id b, p, due) \<in> set (bc_timers s))"
      "\<forall>p q b c. bc_bars s p = Some b \<longrightarrow> bc_bars s q = Some c \<longrightarrow> bb_id b = bb_id c \<longrightarrow> p = q"
      "\<forall>i q due. (i, q, due) \<in> set (bc_timers s) \<longrightarrow> i < bc_nextId s \<and> (\<forall>p b. bc_bars s p = Some b \<longrightarrow> bb_id b = i \<longrightarrow> p = q)"
      "\<forall>p. (case bc_recentTicks s p of None \<Rightarrow> [] | Some ring \<Rightarrow> ring) = drop (length (k p) - 30) (k p)"
    unfolding hubOk_def by blast+
  have kept: "bc_bars s p = Some b" if "bc_bars ?s p = Some b" for p b using that bars by (simp split: if_splits)
  have other: "bb_id b \<noteq> i" if "bc_bars ?s p = Some b" for p b
  proof
    assume i: "bb_id b = i"
    then have "p = pool" using ok(4) member kept [OF that] by blast
    then have "bc_bars ?s p = None" using kept [OF that] i by (subst bars) simp
    then show False using that by simp
  qed
  show ?thesis unfolding hubOk_def rest
  proof (intro conjI allI impI)
    fix p b assume b: "bc_bars ?s p = Some b"
    note ok(2) [rule_format, OF kept [OF b]]
    then show "aggregates p (if bc_bars ?s p = None then [] else h p) b" "bb_timer b" "bb_id b < bc_nextId s"
      "\<exists>due. (bb_id b, p, due) \<in> set (filter (\<lambda>(j, _). j \<noteq> i) (bc_timers s))"
      using b other [OF b] by auto
  next
    fix p q b c assume "bc_bars ?s p = Some b" "bc_bars ?s q = Some c" "bb_id b = bb_id c"
    then show "p = q" using kept ok(3) by blast
  next
    fix j q d assume "(j, q, d) \<in> set (filter (\<lambda>(j, _). j \<noteq> i) (bc_timers s))"
    then have j: "(j, q, d) \<in> set (bc_timers s)" by simp
    show "j < bc_nextId s" using j ok(4) by blast
    fix p b assume "bc_bars ?s p = Some b" "bb_id b = j"
    then show "p = q" using j ok(4) kept by blast
  next
    fix p
    show "(case bc_recentTicks s p of None \<Rightarrow> [] | Some ring \<Rightarrow> ring) = drop (length (k p) - 30) (k p)" using ok(5) by blast
  qed simp
qed

inductive hubReachable :: "(string \<Rightarrow> rat option) \<Rightarrow> (rat \<Rightarrow> string) \<Rightarrow> broadcaster \<Rightarrow> (string \<Rightarrow> trade_note list) \<Rightarrow> (string \<Rightarrow> message list) \<Rightarrow> bool"
  for number numberText where
  start: "hubReachable number numberText
    \<lparr>bc_bars = Map.empty, bc_clients = [], bc_recentTicks = Map.empty, bc_timers = [], bc_nextId = 0\<rparr> (\<lambda>_. []) (\<lambda>_. [])"
| trade: "hubReachable number numberText s h k \<Longrightarrow> payload \<noteq> [] \<Longrightarrow> jsonParse payload = Some t \<Longrightarrow> parseTradeNote number numberText t = Inr n
    \<Longrightarrow> onNotification number numberText now ''spawn_trades'' payload s = Inr s'
    \<Longrightarrow> hubReachable number numberText s' (h(tn_pool n := specTrade n (h (tn_pool n)))) (k(tn_pool n := k (tn_pool n) @ [tickMessage t n]))"
| other: "hubReachable number numberText s h k \<Longrightarrow> channel \<noteq> ''spawn_trades''
    \<Longrightarrow> onNotification number numberText now channel payload s = Inr s' \<Longrightarrow> hubReachable number numberText s' h k"
| timer: "hubReachable number numberText s h k \<Longrightarrow> (i, pool, due) \<in> set (bc_timers s)
    \<Longrightarrow> hubReachable number numberText (onTimer i pool s) (\<lambda>p. if bc_bars (onTimer i pool s) p = None then [] else h p) k"
| connection: "hubReachable number numberText s h k \<Longrightarrow> hubReachable number numberText (onConnection i poolParam s) h k"
| message: "hubReachable number numberText s h k \<Longrightarrow> onMessage i raw s = Inr s' \<Longrightarrow> hubReachable number numberText s' h k"
| close: "hubReachable number numberText s h k \<Longrightarrow> hubReachable number numberText (onClose i s) h k"
| pong: "hubReachable number numberText s h k \<Longrightarrow> hubReachable number numberText (onPong i s) h k"
| beat: "hubReachable number numberText s h k \<Longrightarrow> hubReachable number numberText (heartbeat s) h k"
| network: "hubReachable number numberText s h k
    \<Longrightarrow> hubReachable number numberText (updateClient i (\<lambda>c. c\<lparr>cl_open := b, cl_bufferedAmount := x\<rparr>) s) h k"


lemma hubOk_clients: "hubOk (s\<lparr>bc_clients := cs\<rparr>) h k = hubOk s h k"
  by (simp add: hubOk_def)

lemma client_events:
  "hubOk (broadcast m p s) h k = hubOk s h k" "hubOk (updateClient i f s) h k = hubOk s h k"
  "hubOk (onConnection i q s) h k = hubOk s h k" "hubOk (onClose i s) h k = hubOk s h k"
  "hubOk (onPong i s) h k = hubOk s h k" "hubOk (heartbeat s) h k = hubOk s h k"
  by (simp_all add: broadcast_def updateClient_def onConnection_def onClose_def onPong_def heartbeat_def Let_def hubOk_clients)

lemma hubReachable_ok: "hubReachable number numberText s h k \<Longrightarrow> hubOk s h k"
proof (induction rule: hubReachable.induct)
  case start
  then show ?case by (simp add: hubOk_def)
next
  case (trade s h k payload t n now s')
  then have "s' = applyTradeNote now (tickMessage t n) n s"
    by (simp add: onNotification_def onTrade_def split: if_splits)
  then show ?case by (simp only: hubOk_trade [OF trade.IH])
next
  case (other s h k channel now payload s')
  then show ?case
    by (cases "payload = []"; cases "jsonParse payload") (auto simp: onNotification_def client_events split: if_splits)
next
  case (timer s h k i pool due)
  then show ?case using hubOk_timer by blast
next
  case (message s h k i raw s')
  then show ?case by (cases "jsonParse raw") (auto simp: onMessage_def client_events Let_def split: if_splits)
qed (simp_all add: client_events)

text \<open>One frame ends the process: the text \<open>null\<close> from any client throws outside the \<open>try\<close> of the message handler.\<close>

lemma null_frame_throws: "onMessage i ''null'' s = Inl (JsError ''TypeError'')"
proof -
  have "jsonParse ''null'' = Some NullJ" by code_simp
  then show ?thesis by (simp add: onMessage_def)
qed

section \<open>Properties\<close>

text \<open>C9. The hub keeps the sink's delta algebra: whatever notifications, client frames, disconnections, heartbeats, network
  stalls and timers interleave, the open bar of a pool has the open of its first trade, the close of its last, the extreme
  square roots, the buy and sell volumes and the number of the trades of its minute since the bar opened, all of that
  minute and pool; its closing timer is pending; and the ring of the pool holds the last thirty ticks in order.\<close>

theorem bars_aggregate:
  assumes "hubReachable number numberText s h k" and "bc_bars s pool = Some b"
  shows "h pool \<noteq> [] \<and> (\<forall>t\<in>set (h pool). tn_pool t = pool \<and> bucketMs (tn_tsSec t) = bb_start b)
    \<and> bb_open b = tn_sqrt (hd (h pool)) \<and> bb_close b = tn_sqrt (last (h pool))
    \<and> bb_highSqrt b = Max (tn_sqrt ` set (h pool)) \<and> bb_lowSqrt b = Min (tn_sqrt ` set (h pool))
    \<and> bb_buyEth b = sum_list (map tn_eth (filter tn_isBuy (h pool)))
    \<and> bb_sellEth b = sum_list (map tn_eth (filter (\<lambda>t. \<not> tn_isBuy t) (h pool)))
    \<and> bb_trades b = int (length (h pool))
    \<and> (\<exists>due. (bb_id b, pool, due) \<in> set (bc_timers s))
    \<and> (case bc_recentTicks s pool of None \<Rightarrow> [] | Some ring \<Rightarrow> ring) = drop (length (k pool) - 30) (k pool)"
proof -
  note ok = hubReachable_ok [OF assms(1)]
  then have "aggregates pool (h pool) b" "\<exists>due. (bb_id b, pool, due) \<in> set (bc_timers s)"
    "(case bc_recentTicks s pool of None \<Rightarrow> [] | Some ring \<Rightarrow> ring) = drop (length (k pool) - 30) (k pool)"
    using assms(2) unfolding hubOk_def by blast+
  then show ?thesis unfolding aggregates_def by blast
qed

definition exampleTrade :: string where
  "exampleTrade = printObject [(''pool_id'', quote ''0xAb''), (''is_buy'', ''true''), (''eth'', quote ''5''), (''sqrt'', quote ''7''), (''ts'', ''90'')]"

definition exampleHub :: broadcaster where
  "exampleHub = (case onNotification (\<lambda>_. Some 90) (\<lambda>_. ''90'') 1000 ''spawn_trades'' exampleTrade
     \<lparr>bc_bars = Map.empty, bc_clients = [], bc_recentTicks = Map.empty, bc_timers = [], bc_nextId = 0\<rparr> of Inr s \<Rightarrow> s)"


lemma exampleTrade_note:
  "map_option (parseTradeNote (\<lambda>_. Some 90) (\<lambda>_. ''90'')) (jsonParse exampleTrade)
    = Some (Inr \<lparr>tn_pool = ''0xab'', tn_sqrt = 7, tn_isBuy = True, tn_eth = 5, tn_tsSec = Some 90\<rparr>)"
  by code_simp

theorem bars_aggregate_witness:
  "bc_bars exampleHub ''0xab'' \<noteq> None \<and> bb_buyEth (the (bc_bars exampleHub ''0xab'')) = 5
    \<and> bb_open (the (bc_bars exampleHub ''0xab'')) = 7"
proof -
  let ?n = "\<lparr>tn_pool = ''0xab'', tn_sqrt = 7, tn_isBuy = True, tn_eth = 5, tn_tsSec = Some 90\<rparr>"
  let ?s0 = "\<lparr>bc_bars = Map.empty, bc_clients = [], bc_recentTicks = Map.empty, bc_timers = [], bc_nextId = 0\<rparr>"
  obtain t where t: "jsonParse exampleTrade = Some t" "parseTradeNote (\<lambda>_. Some 90) (\<lambda>_. ''90'') t = Inr ?n"
    using exampleTrade_note by (cases "jsonParse exampleTrade") simp_all
  have "t \<noteq> NullJ" using t(2) by (auto simp: parseTradeNote_def jsonField_def str_def truthy_def bindR_eq_Inr_iff)
  moreover have p: "exampleTrade \<noteq> []" by (simp add: exampleTrade_def printObject_def)
  ultimately have s: "onNotification (\<lambda>_. Some 90) (\<lambda>_. ''90'') 1000 ''spawn_trades'' exampleTrade ?s0 = Inr (applyTradeNote 1000 (tickMessage t ?n) ?n ?s0)"
    using t by (simp add: onNotification_def onTrade_def)
  then have e: "exampleHub = applyTradeNote 1000 (tickMessage t ?n) ?n ?s0" by (simp add: exampleHub_def)
  have r: "hubReachable (\<lambda>_. Some 90) (\<lambda>_. ''90'') exampleHub ((\<lambda>_. [])(''0xab'' := specTrade ?n [])) ((\<lambda>_. [])(''0xab'' := [tickMessage t ?n]))"
    using hubReachable.trade [OF hubReachable.start p t s] e by simp
  obtain b where b: "bc_bars exampleHub ''0xab'' = Some b" unfolding e using applyTradeNote_bar [of 1000 "tickMessage t ?n" ?n ?s0] by auto
  from bars_aggregate [OF r b] b show ?thesis by (simp add: specTrade_def)
qed

end
