(* ===== verification/Environment.thy ===== *)
theory Environment
  imports Auth
begin

text \<open>
  Model of \<open>src/src/config/environment.ts\<close>: the schema of the process environment and the checks that depend on the role and on
  production. Of zod, outside the repository, \<open>isUrl\<close> is the test behind \<open>url()\<close>; a failing schema is the one exception
  \<open>ZodError\<close>. \<open>number\<close> is \<open>Number(text)\<close>, \<open>None\<close> for \<open>NaN\<close> and the infinities.
\<close>

section \<open>Fields\<close>

definition zodError :: "'a result" where "zodError = Inl (JsError ''ZodError'')"

definition withDefault :: "'a \<Rightarrow> (string \<Rightarrow> 'a result) \<Rightarrow> string option \<Rightarrow> 'a result" where
  "withDefault d p v = (case v of None \<Rightarrow> Inr d | Some s \<Rightarrow> p s)"

definition optionalField :: "(string \<Rightarrow> 'a result) \<Rightarrow> string option \<Rightarrow> 'a option result" where
  "optionalField p v = (case v of None \<Rightarrow> Inr None | Some s \<Rightarrow> bindR (p s) (\<lambda>x. Inr (Some x)))"

definition required :: "(string \<Rightarrow> 'a result) \<Rightarrow> string option \<Rightarrow> 'a result" where
  "required p v = (case v of None \<Rightarrow> zodError | Some s \<Rightarrow> p s)"

definition enumOf :: "string list \<Rightarrow> string \<Rightarrow> string result" where
  "enumOf xs s = (if s \<in> set xs then Inr s else zodError)"

definition intBetween :: "(string \<Rightarrow> rat option) \<Rightarrow> int \<Rightarrow> int option \<Rightarrow> string \<Rightarrow> int result" where
  "intBetween number lo hi s = (case number s of
     None \<Rightarrow> zodError
   | Some q \<Rightarrow> if of_int \<lfloor>q\<rfloor> = q \<and> \<bar>\<lfloor>q\<rfloor>\<bar> < 2 ^ 53 \<and> lo \<le> \<lfloor>q\<rfloor> \<and> (case hi of None \<Rightarrow> True | Some h \<Rightarrow> \<lfloor>q\<rfloor> \<le> h) then Inr \<lfloor>q\<rfloor> else zodError)"

definition isHex :: "char \<Rightarrow> bool" where
  "isHex c \<longleftrightarrow> isHexLower c \<or> (65 \<le> (of_char c :: nat) \<and> (of_char c :: nat) \<le> 70)"

definition hexOf :: "nat \<Rightarrow> string \<Rightarrow> string result" where
  "hexOf n s = (if startsWith ''0x'' s \<and> length s = 2 + n \<and> list_all isHex (drop 2 s) then Inr s else zodError)"

definition urlWith :: "(string \<Rightarrow> bool) \<Rightarrow> string \<Rightarrow> string \<Rightarrow> string result" where
  "urlWith isUrl prefix s = (if isUrl s \<and> startsWith prefix s then Inr s else zodError)"

definition atLeastChars :: "nat \<Rightarrow> string \<Rightarrow> string result" where
  "atLeastChars n s = (if n \<le> length s then Inr s else zodError)"

section \<open>The schema\<close>

record env_values =
  ev_NODE_ENV :: string
  ev_PROCESS_ROLE :: string
  ev_PORT :: int
  ev_DATABASE_URL :: string
  ev_REDIS_URL :: string
  ev_CORS_ORIGINS :: string
  ev_TRUSTED_PROXY :: string
  ev_LOG_LEVEL :: string
  ev_CHAIN_STALE_AFTER_SECONDS :: int
  ev_DEFAULT_CHAIN_ID :: int
  ev_CHAIN_RPC_URLS :: string
  ev_addresses :: "(string \<times> string option) list"
  ev_INDEXER_START_BLOCK :: "int option"
  ev_INDEXER_CONFIRMATION_BLOCKS :: int
  ev_INDEXER_BLOCK_BATCH :: int
  ev_INDEXER_POLL_MS :: int
  ev_INDEXER_MAX_REORG_DEPTH :: int
  ev_TRUSTED_OPERATOR_PRIVATE_KEY :: "string option"
  ev_BROADCASTER_WS_PORT :: int
  ev_METADATA_STORAGE_DRIVER :: string
  ev_PINATA_JWT :: "string option"
  ev_PINATA_GATEWAY :: string
  ev_THIRDWEB_SECRET_KEY :: "string option"
  ev_RATE_LIMIT_HMAC_KEY :: "string option"
  ev_APP_JWT_SECRET :: "string option"

definition ADDRESS_FIELDS :: "string list" where
  "ADDRESS_FIELDS = [''SPAWN_HOOK_ADDRESS'', ''SPAWN_LAUNCH_SUPPORT_ADDRESS'', ''SPAWN_REVENUE_NFT_ADDRESS'',
     ''SPAWN_REGISTRY_ADDRESS'', ''SPAWN_CONTROLLER_ADDRESS'', ''POOL_MANAGER_ADDRESS'', ''STATE_VIEW_ADDRESS'',
     ''V4_QUOTER_ADDRESS'', ''MULTICALL3_ADDRESS'']"

fun addressFields :: "(string \<Rightarrow> string option) \<Rightarrow> string list \<Rightarrow> (string \<times> string option) list result" where
  "addressFields input [] = Inr []"
| "addressFields input (f # fs) = bindR (optionalField (hexOf 40) (input f)) (\<lambda>a.
     bindR (addressFields input fs) (\<lambda>r. Inr ((f, a) # r)))"

definition baseSchema :: "(string \<Rightarrow> bool) \<Rightarrow> (string \<Rightarrow> rat option) \<Rightarrow> (string \<Rightarrow> string option) \<Rightarrow> env_values result" where
  "baseSchema isUrl number input =
    bindR (withDefault ''development'' (enumOf [''development'', ''test'', ''production'']) (input ''NODE_ENV'')) (\<lambda>nodeEnv.
    bindR (withDefault ''api'' (enumOf [''api'', ''worker'', ''indexer'', ''broadcaster'', ''seed'']) (input ''PROCESS_ROLE'')) (\<lambda>role.
    bindR (withDefault 3000 (intBetween number 1 (Some 65535)) (input ''PORT'')) (\<lambda>port.
    bindR (required (urlWith isUrl ''postgresql://'') (input ''DATABASE_URL'')) (\<lambda>db.
    bindR (required (urlWith isUrl ''redis://'') (input ''REDIS_URL'')) (\<lambda>redis.
    bindR (withDefault ''http://localhost:3001'' Inr (input ''CORS_ORIGINS'')) (\<lambda>cors.
    bindR (withDefault [] Inr (input ''TRUSTED_PROXY'')) (\<lambda>proxy.
    bindR (withDefault ''info'' (enumOf [''fatal'', ''error'', ''warn'', ''info'', ''debug'', ''trace'', ''silent'']) (input ''LOG_LEVEL'')) (\<lambda>level.
    bindR (withDefault 30 (intBetween number 1 None) (input ''CHAIN_STALE_AFTER_SECONDS'')) (\<lambda>stale.
    bindR (withDefault 8453 (intBetween number 1 None) (input ''DEFAULT_CHAIN_ID'')) (\<lambda>chain.
    bindR (withDefault [] Inr (input ''CHAIN_RPC_URLS'')) (\<lambda>rpc.
    bindR (addressFields input ADDRESS_FIELDS) (\<lambda>addrs.
    bindR (optionalField (intBetween number 0 None) (input ''INDEXER_START_BLOCK'')) (\<lambda>startBlock.
    bindR (withDefault 32 (intBetween number 1 (Some 1000)) (input ''INDEXER_CONFIRMATION_BLOCKS'')) (\<lambda>confirmations.
    bindR (withDefault 50 (intBetween number 1 (Some 500)) (input ''INDEXER_BLOCK_BATCH'')) (\<lambda>batch.
    bindR (withDefault 3000 (intBetween number 250 None) (input ''INDEXER_POLL_MS'')) (\<lambda>poll.
    bindR (withDefault 256 (intBetween number 1 (Some 10000)) (input ''INDEXER_MAX_REORG_DEPTH'')) (\<lambda>reorg.
    bindR (optionalField (hexOf 64) (input ''TRUSTED_OPERATOR_PRIVATE_KEY'')) (\<lambda>operator.
    bindR (withDefault 3001 (intBetween number 1 (Some 65535)) (input ''BROADCASTER_WS_PORT'')) (\<lambda>wsPort.
    bindR (withDefault ''pinata'' (enumOf [''pinata'', ''thirdweb'']) (input ''METADATA_STORAGE_DRIVER'')) (\<lambda>driver.
    bindR (optionalField (\<lambda>s. atLeastChars 1 (trim s)) (input ''PINATA_JWT'')) (\<lambda>pinataJwt.
    bindR (withDefault ''https://gateway.pinata.cloud/ipfs'' (\<lambda>s. urlWith isUrl [] (trim s)) (input ''PINATA_GATEWAY'')) (\<lambda>gateway.
    bindR (optionalField (\<lambda>s. atLeastChars 1 (trim s)) (input ''THIRDWEB_SECRET_KEY'')) (\<lambda>thirdweb.
    bindR (optionalField (atLeastChars 32) (input ''RATE_LIMIT_HMAC_KEY'')) (\<lambda>hmacKey.
    bindR (optionalField (atLeastChars 32) (input ''APP_JWT_SECRET'')) (\<lambda>jwt.
    Inr \<lparr>ev_NODE_ENV = nodeEnv, ev_PROCESS_ROLE = role, ev_PORT = port, ev_DATABASE_URL = db, ev_REDIS_URL = redis,
      ev_CORS_ORIGINS = cors, ev_TRUSTED_PROXY = proxy, ev_LOG_LEVEL = level, ev_CHAIN_STALE_AFTER_SECONDS = stale,
      ev_DEFAULT_CHAIN_ID = chain, ev_CHAIN_RPC_URLS = rpc, ev_addresses = addrs, ev_INDEXER_START_BLOCK = startBlock,
      ev_INDEXER_CONFIRMATION_BLOCKS = confirmations, ev_INDEXER_BLOCK_BATCH = batch, ev_INDEXER_POLL_MS = poll,
      ev_INDEXER_MAX_REORG_DEPTH = reorg, ev_TRUSTED_OPERATOR_PRIVATE_KEY = operator, ev_BROADCASTER_WS_PORT = wsPort,
      ev_METADATA_STORAGE_DRIVER = driver, ev_PINATA_JWT = pinataJwt, ev_PINATA_GATEWAY = gateway,
      ev_THIRDWEB_SECRET_KEY = thirdweb, ev_RATE_LIMIT_HMAC_KEY = hmacKey, ev_APP_JWT_SECRET = jwt\<rparr>)))))))))))))))))))))))))"

section \<open>Validation\<close>

datatype trusted_proxy = ProxyOff | ProxyHops nat | ProxyList "string list"

text \<open>\<open>split(',').map(trim).filter(Boolean)\<close>.\<close>

definition commaList :: "string \<Rightarrow> string list" where
  "commaList s = filter (\<lambda>x. x \<noteq> []) (map trim (splitChar CHR '','' s))"

definition parseTrustedProxy :: "string \<Rightarrow> trusted_proxy" where
  "parseTrustedProxy value =
     (let trimmed = trim value in
      if trimmed = [] then ProxyOff
      else if list_all isDigit trimmed then ProxyHops (parseDec trimmed)
      else ProxyList (commaList trimmed))"

record environment =
  en_values :: env_values
  en_corsOrigins :: "string list"
  en_chainRpcUrls :: "string list"
  en_trustedProxy :: trusted_proxy

definition validateEnvironment :: "(string \<Rightarrow> bool) \<Rightarrow> (string \<Rightarrow> rat option) \<Rightarrow> (string \<Rightarrow> string option) \<Rightarrow> environment result" where
  "validateEnvironment isUrl number input =
     bindR (baseSchema isUrl number input) (\<lambda>values.
       let corsOrigins = commaList (ev_CORS_ORIGINS values) in
       if ev_NODE_ENV values = ''production'' \<and> (corsOrigins = [] \<or> ''*'' \<in> set corsOrigins)
       then Inl (JsError ''Production CORS_ORIGINS must contain explicit origins'')
       else if ev_NODE_ENV values = ''production'' \<and> ev_RATE_LIMIT_HMAC_KEY values \<in> {None, Some []}
       then Inl (JsError ''Production requires RATE_LIMIT_HMAC_KEY'')
       else
         let chainRpcUrls = commaList (ev_CHAIN_RPC_URLS values) in
         if ev_PROCESS_ROLE values = ''indexer'' \<and> chainRpcUrls = []
         then Inl (JsError ''The indexer process requires CHAIN_RPC_URLS'')
         else Inr \<lparr>en_values = values, en_corsOrigins = corsOrigins, en_chainRpcUrls = chainRpcUrls,
                en_trustedProxy = parseTrustedProxy (ev_TRUSTED_PROXY values)\<rparr>)"

section \<open>What an accepted environment guarantees\<close>

lemma commaList_items: "x \<in> set (commaList s) \<Longrightarrow> x \<noteq> []"
  by (auto simp: commaList_def)

lemma withDefault_Inr: "withDefault d p v = Inr x \<longleftrightarrow> (v = None \<and> x = d) \<or> (\<exists>s. v = Some s \<and> p s = Inr x)"
  by (cases v) (auto simp: withDefault_def)

lemma optionalField_Inr:
  "optionalField p v = Inr x \<longleftrightarrow> (v = None \<and> x = None) \<or> (\<exists>s y. v = Some s \<and> p s = Inr y \<and> x = Some y)"
  by (cases v) (auto simp: optionalField_def bindR_eq_Inr_iff)

lemma intBetween_Inr: "intBetween number lo hi s = Inr x \<Longrightarrow> lo \<le> x \<and> (case hi of None \<Rightarrow> True | Some h \<Rightarrow> x \<le> h)"
  by (auto simp: intBetween_def zodError_def split: option.splits if_splits)

lemma atLeastChars_Inr: "atLeastChars n s = Inr x \<Longrightarrow> x = s \<and> n \<le> length x"
  by (auto simp: atLeastChars_def zodError_def split: if_splits)

lemma baseSchema_Inr:
  assumes "baseSchema isUrl number input = Inr v"
  shows "withDefault ''development'' (enumOf [''development'', ''test'', ''production'']) (input ''NODE_ENV'') = Inr (ev_NODE_ENV v)"
    "withDefault 3000 (intBetween number 1 (Some 65535)) (input ''PORT'') = Inr (ev_PORT v)"
    "withDefault 8453 (intBetween number 1 None) (input ''DEFAULT_CHAIN_ID'') = Inr (ev_DEFAULT_CHAIN_ID v)"
    "optionalField (atLeastChars 32) (input ''RATE_LIMIT_HMAC_KEY'') = Inr (ev_RATE_LIMIT_HMAC_KEY v)"
    "optionalField (atLeastChars 32) (input ''APP_JWT_SECRET'') = Inr (ev_APP_JWT_SECRET v)"
  using assms unfolding baseSchema_def by (auto elim!: bindR_InrE)


lemma validateEnvironment_guarantees:
  assumes "validateEnvironment isUrl number input = Inr env"
  shows "1 \<le> ev_PORT (en_values env)" "ev_PORT (en_values env) \<le> 65535" "1 \<le> ev_DEFAULT_CHAIN_ID (en_values env)"
    and "ev_NODE_ENV (en_values env) = ''production'' \<Longrightarrow> en_corsOrigins env \<noteq> [] \<and> ''*'' \<notin> set (en_corsOrigins env)"
    and "ev_NODE_ENV (en_values env) = ''production'' \<Longrightarrow> \<exists>k. ev_RATE_LIMIT_HMAC_KEY (en_values env) = Some k \<and> 32 \<le> length k"
    and "ev_PROCESS_ROLE (en_values env) = ''indexer'' \<Longrightarrow> en_chainRpcUrls env \<noteq> []"
proof -
  obtain v where b: "baseSchema isUrl number input = Inr v" using assms by (auto simp: validateEnvironment_def elim: bindR_InrE)
  note f = baseSchema_Inr [OF b]
  have env: "env = \<lparr>en_values = v, en_corsOrigins = commaList (ev_CORS_ORIGINS v), en_chainRpcUrls = commaList (ev_CHAIN_RPC_URLS v),
      en_trustedProxy = parseTrustedProxy (ev_TRUSTED_PROXY v)\<rparr>"
    and checks: "ev_NODE_ENV v = ''production'' \<Longrightarrow> commaList (ev_CORS_ORIGINS v) \<noteq> [] \<and> ''*'' \<notin> set (commaList (ev_CORS_ORIGINS v))
        \<and> ev_RATE_LIMIT_HMAC_KEY v \<noteq> None"
      "ev_PROCESS_ROLE v = ''indexer'' \<Longrightarrow> commaList (ev_CHAIN_RPC_URLS v) \<noteq> []"
    using assms by (auto simp: validateEnvironment_def b Let_def split: if_splits)
  show "1 \<le> ev_PORT (en_values env)" "ev_PORT (en_values env) \<le> 65535"
    using f(2) by (auto simp: env withDefault_Inr dest!: intBetween_Inr)
  show "1 \<le> ev_DEFAULT_CHAIN_ID (en_values env)" using f(3) by (auto simp: env withDefault_Inr dest!: intBetween_Inr)
  show "en_corsOrigins env \<noteq> [] \<and> ''*'' \<notin> set (en_corsOrigins env)" if "ev_NODE_ENV (en_values env) = ''production''"
    using checks(1) that by (simp add: env)
  show "\<exists>k. ev_RATE_LIMIT_HMAC_KEY (en_values env) = Some k \<and> 32 \<le> length k" if "ev_NODE_ENV (en_values env) = ''production''"
    using checks(1) that f(4) by (auto simp: env optionalField_Inr dest!: atLeastChars_Inr)
  show "en_chainRpcUrls env \<noteq> []" if "ev_PROCESS_ROLE (en_values env) = ''indexer''"
    using checks(2) that by (simp add: env)
qed

text \<open>Production does not require \<open>APP_JWT_SECRET\<close>: this environment is accepted, and sessions are then signed with the
  constant that stands in the source.\<close>

definition exampleEnvironment :: "string \<Rightarrow> string option" where
  "exampleEnvironment = map_of [(''NODE_ENV'', ''production''), (''DATABASE_URL'', ''postgresql://db''), (''REDIS_URL'', ''redis://r''),
     (''CORS_ORIGINS'', ''https://spawn.example''), (''RATE_LIMIT_HMAC_KEY'', replicate 32 CHR ''k'')]"

lemma production_default_secret:
  "case validateEnvironment (\<lambda>_. True) (\<lambda>_. None) exampleEnvironment of
     Inr env \<Rightarrow> ev_NODE_ENV (en_values env) = ''production''
       \<and> sessionSecret (ev_APP_JWT_SECRET (en_values env)) = ''spawn-dev-session-secret-change-me''
   | Inl _ \<Rightarrow> False"
  by code_simp

end
