(* ===== verification/Deployment.thy ===== *)
theory Deployment
  imports Environment
begin

text \<open>
  Model of the deployment side of \<open>src/src/infrastructure/blockchain/\<close>: the address book of a chain, built from the environment,
  the stored manifest and the well-known addresses, the registry of books, and the timed reads of the protocol contracts.
  \<open>environ\<close> is \<open>process.env\<close>; \<open>number\<close> is \<open>Number(v)\<close> of a JSON value, \<open>None\<close> when it is not a finite number.
\<close>

section \<open>Schemas\<close>

definition addressSchema :: "string \<Rightarrow> string result" where
  "addressSchema s = bindR (hexOf 40 s) (\<lambda>v. Inr (toLowerCase v))"

definition bytes32Schema :: "string \<Rightarrow> string result" where
  "bytes32Schema s = bindR (hexOf 64 s) (\<lambda>v. Inr (toLowerCase v))"

definition wadSchema :: "string \<Rightarrow> string result" where
  "wadSchema s = (if s \<noteq> [] \<and> list_all isDigit s then Inr s else zodError)"

definition textField :: "(string \<Rightarrow> 'a result) \<Rightarrow> json option \<Rightarrow> 'a result" where
  "textField p v = (case v of Some (StrJ s) \<Rightarrow> p s | _ \<Rightarrow> zodError)"

definition optionalText :: "(string \<Rightarrow> 'a result) \<Rightarrow> json option \<Rightarrow> 'a option result" where
  "optionalText p v = (case v of None \<Rightarrow> Inr None | Some _ \<Rightarrow> bindR (textField p v) (\<lambda>x. Inr (Some x)))"

definition nullishText :: "(string \<Rightarrow> 'a result) \<Rightarrow> json option \<Rightarrow> 'a option result" where
  "nullishText p v = (case v of None \<Rightarrow> Inr None | Some NullJ \<Rightarrow> Inr None | Some _ \<Rightarrow> bindR (textField p v) (\<lambda>x. Inr (Some x)))"

definition coercedInt :: "(json \<Rightarrow> rat option) \<Rightarrow> json option \<Rightarrow> int result" where
  "coercedInt number v = (case Option.bind v number of
     Some q \<Rightarrow> if of_int \<lfloor>q\<rfloor> = q \<and> \<bar>\<lfloor>q\<rfloor>\<bar> < 2 ^ 53 then Inr \<lfloor>q\<rfloor> else zodError
   | None \<Rightarrow> zodError)"

fun everyField :: "(json option \<Rightarrow> 'a result) \<Rightarrow> json \<Rightarrow> string list \<Rightarrow> unit result" where
  "everyField p m [] = Inr ()"
| "everyField p m (k # ks) = bindR (p (jsonField m k)) (\<lambda>_. everyField p m ks)"

definition templateSchema :: "(json \<Rightarrow> rat option) \<Rightarrow> json option \<Rightarrow> unit result" where
  "templateSchema number v = (case v of
     None \<Rightarrow> Inr ()
   | Some (ObjJ ms) \<Rightarrow>
       bindR (everyField (textField wadSchema) (ObjJ ms)
         [''openingFdvWei'', ''curveSupplyShareWad'', ''ladderSupplyShareWad'', ''fullRangeSupplyShareWad'', ''lpSeedWad'',
          ''proceedsCreatorWad'', ''proceedsProtocolWad'']) (\<lambda>_.
       everyField (coercedInt number) (ObjJ ms)
         [''curvePositions'', ''curveSpanLevels'', ''bandLevelSpacing'', ''bandWidthLevels'', ''coreBandCount'', ''maxFeeFundedBands'',
          ''tradingFeeHundredthsBip'', ''bandInventoryCapMultiple'', ''maxDeploysPerSwap'', ''maxHarvestsPerSwap''])
   | Some _ \<Rightarrow> zodError)"

record manifest =
  mf_chainId :: int
  mf_hook :: string
  mf_launchSupport :: string
  mf_revenueNft :: string
  mf_payoutPluginRegistry :: string
  mf_protocolController :: string
  mf_buybackAndBurnPlugin :: "string option"
  mf_buybackPlugin :: "string option"
  mf_poolManager :: "string option"
  mf_stateView :: "string option"
  mf_v4Quoter :: "string option"
  mf_multicall3 :: "string option"
  mf_canonicalPayoutPlan :: "string option"
  mf_hookSalt :: "string option"

definition deploymentManifestSchema :: "(json \<Rightarrow> rat option) \<Rightarrow> json \<Rightarrow> manifest result" where
  "deploymentManifestSchema number m = (case m of
     ObjJ _ \<Rightarrow>
       bindR (coercedInt number (jsonField m ''chainId'')) (\<lambda>chainId.
       if chainId \<le> 0 then zodError
       else
         bindR (textField addressSchema (jsonField m ''hook'')) (\<lambda>hook.
         bindR (textField addressSchema (jsonField m ''launchSupport'')) (\<lambda>launchSupport.
         bindR (textField addressSchema (jsonField m ''revenueNft'')) (\<lambda>revenueNft.
         bindR (textField addressSchema (jsonField m ''payoutPluginRegistry'')) (\<lambda>reg.
         bindR (textField addressSchema (jsonField m ''protocolController'')) (\<lambda>controller.
         bindR (nullishText addressSchema (jsonField m ''buybackAndBurnPlugin'')) (\<lambda>burn.
         bindR (nullishText addressSchema (jsonField m ''buybackPlugin'')) (\<lambda>buyback.
         bindR (optionalText addressSchema (jsonField m ''poolManager'')) (\<lambda>poolManager.
         bindR (nullishText addressSchema (jsonField m ''stateView'')) (\<lambda>stateView.
         bindR (nullishText addressSchema (jsonField m ''v4Quoter'')) (\<lambda>v4Quoter.
         bindR (optionalText addressSchema (jsonField m ''multicall3'')) (\<lambda>multicall3.
         bindR (nullishText bytes32Schema (jsonField m ''canonicalPayoutPlan'')) (\<lambda>plan.
         bindR (nullishText bytes32Schema (jsonField m ''hookSalt'')) (\<lambda>hookSalt.
         bindR (templateSchema number (jsonField m ''template'')) (\<lambda>_.
         Inr \<lparr>mf_chainId = chainId, mf_hook = hook, mf_launchSupport = launchSupport, mf_revenueNft = revenueNft,
           mf_payoutPluginRegistry = reg, mf_protocolController = controller, mf_buybackAndBurnPlugin = burn, mf_buybackPlugin = buyback,
           mf_poolManager = poolManager, mf_stateView = stateView, mf_v4Quoter = v4Quoter, mf_multicall3 = multicall3,
           mf_canonicalPayoutPlan = plan, mf_hookSalt = hookSalt\<rparr>)))))))))))))))
   | _ \<Rightarrow> zodError)"

section \<open>The address book\<close>

record address_book =
  ab_chainId :: int
  ab_hook :: string
  ab_launchSupport :: string
  ab_revenueNft :: string
  ab_payoutPluginRegistry :: string
  ab_protocolController :: string
  ab_buybackAndBurnPlugin :: "string option"
  ab_poolManager :: string
  ab_stateView :: "string option"
  ab_v4Quoter :: "string option"
  ab_multicall3 :: string
  ab_canonicalPayoutPlan :: "string option"
  ab_hookSalt :: "string option"

definition KNOWN_ADDRESSES :: "int \<Rightarrow> (string \<times> string) option" where
  "KNOWN_ADDRESSES = [8453 \<mapsto> (''0x498581ff718922c3f8e6a244956af099b2652b2b'', ''0xca11bde05977b3631167028862be2a173976ca11''),
     84532 \<mapsto> (''0x7a9a54d308b0e6806b1bf3343d3e905939166b43'', ''0xca11bde05977b3631167028862be2a173976ca11'')]"

text \<open>A variable that is set and not blank must be an address.\<close>

definition addressOverride :: "exn \<Rightarrow> (string \<Rightarrow> string option) \<Rightarrow> string \<Rightarrow> string option result" where
  "addressOverride failure environ name = (case environ name of
     None \<Rightarrow> Inr None
   | Some raw \<Rightarrow>
       if trim raw = [] then Inr None
       else case addressSchema (trim raw) of Inr a \<Rightarrow> Inr (Some a) | Inl _ \<Rightarrow> Inl failure)"

definition orElse :: "'a option \<Rightarrow> 'a option \<Rightarrow> 'a option" where
  "orElse a b = (case a of Some x \<Rightarrow> Some x | None \<Rightarrow> b)"

definition missingAddress :: "'a result" where
  "missingAddress = Inl (JsError ''AddressBookError'')"

definition needAddress :: "string option \<Rightarrow> string result" where
  "needAddress a = (case a of Some x \<Rightarrow> Inr x | None \<Rightarrow> missingAddress)"

definition buildAddressBook :: "(string \<Rightarrow> string option) \<Rightarrow> (json \<Rightarrow> rat option) \<Rightarrow> int \<Rightarrow> json option \<Rightarrow> address_book result" where
  "buildAddressBook environ number chainId document =
     (let protocol = addressOverride (JsError ''AddressBookError'') environ; infra = addressOverride (JsError ''ZodError'') environ in
      bindR (protocol ''SPAWN_HOOK_ADDRESS'') (\<lambda>hook.
      bindR (protocol ''SPAWN_LAUNCH_SUPPORT_ADDRESS'') (\<lambda>launchSupport.
      bindR (protocol ''SPAWN_REVENUE_NFT_ADDRESS'') (\<lambda>revenueNft.
      bindR (protocol ''SPAWN_REGISTRY_ADDRESS'') (\<lambda>reg.
      bindR (protocol ''SPAWN_CONTROLLER_ADDRESS'') (\<lambda>controller.
      bindR (infra ''POOL_MANAGER_ADDRESS'') (\<lambda>poolManager.
      bindR (infra ''STATE_VIEW_ADDRESS'') (\<lambda>stateView.
      bindR (infra ''V4_QUOTER_ADDRESS'') (\<lambda>v4Quoter.
      bindR (infra ''MULTICALL3_ADDRESS'') (\<lambda>multicall3.
      bindR (case document of
          None \<Rightarrow> Inr None
        | Some d \<Rightarrow> (case deploymentManifestSchema number d of
            Inl _ \<Rightarrow> missingAddress
          | Inr m \<Rightarrow> if mf_chainId m \<noteq> chainId then missingAddress else Inr (Some m))) (\<lambda>parsed.
      bindR (needAddress (orElse hook (map_option mf_hook parsed))) (\<lambda>hook'.
      bindR (needAddress (orElse launchSupport (map_option mf_launchSupport parsed))) (\<lambda>launchSupport'.
      bindR (needAddress (orElse revenueNft (map_option mf_revenueNft parsed))) (\<lambda>revenueNft'.
      bindR (needAddress (orElse reg (map_option mf_payoutPluginRegistry parsed))) (\<lambda>registry'.
      bindR (needAddress (orElse controller (map_option mf_protocolController parsed))) (\<lambda>controller'.
      bindR (needAddress (orElse poolManager (orElse (Option.bind parsed mf_poolManager) (map_option fst (KNOWN_ADDRESSES chainId))))) (\<lambda>poolManager'.
      bindR (needAddress (orElse multicall3 (orElse (Option.bind parsed mf_multicall3) (map_option snd (KNOWN_ADDRESSES chainId))))) (\<lambda>multicall3'.
      Inr \<lparr>ab_chainId = chainId, ab_hook = hook', ab_launchSupport = launchSupport', ab_revenueNft = revenueNft',
        ab_payoutPluginRegistry = registry', ab_protocolController = controller',
        ab_buybackAndBurnPlugin = orElse (Option.bind parsed mf_buybackAndBurnPlugin) (Option.bind parsed mf_buybackPlugin),
        ab_poolManager = poolManager', ab_stateView = orElse stateView (Option.bind parsed mf_stateView),
        ab_v4Quoter = orElse v4Quoter (Option.bind parsed mf_v4Quoter), ab_multicall3 = multicall3',
        ab_canonicalPayoutPlan = Option.bind parsed mf_canonicalPayoutPlan, ab_hookSalt = Option.bind parsed mf_hookSalt\<rparr>))))))))))))))))))"

section \<open>The registry\<close>

text \<open>\<open>loadAll\<close>: invalid stored manifests are skipped, and a chain keeps its book when a reload no longer builds one.\<close>

definition loadAll :: "(string \<Rightarrow> string option) \<Rightarrow> (json \<Rightarrow> rat option) \<Rightarrow> (int \<times> json) list \<Rightarrow> (int \<rightharpoonup> address_book) \<Rightarrow> (int \<rightharpoonup> address_book)" where
  "loadAll environ number manifests books = foldl (\<lambda>bs (chainId, document).
     case buildAddressBook environ number chainId (Some document) of Inr b \<Rightarrow> bs(chainId \<mapsto> b) | Inl _ \<Rightarrow> bs) books manifests"

definition hasChain :: "(int \<rightharpoonup> address_book) \<Rightarrow> int \<Rightarrow> bool" where
  "hasChain books chainId \<longleftrightarrow> books chainId \<noteq> None"

definition bookOf :: "(int \<rightharpoonup> address_book) \<Rightarrow> int \<Rightarrow> address_book result" where
  "bookOf books chainId = (case books chainId of Some b \<Rightarrow> Inr b | None \<Rightarrow> Inl (JsError ''No address book for chain''))"

section \<open>Books are well formed\<close>

definition addressOk :: "string \<Rightarrow> bool" where
  "addressOk a \<longleftrightarrow> startsWith ''0x'' a \<and> length a = 42 \<and> list_all isHexLower (drop 2 a)"

definition bookAddresses :: "address_book \<Rightarrow> string list" where
  "bookAddresses b = [ab_hook b, ab_launchSupport b, ab_revenueNft b, ab_payoutPluginRegistry b, ab_protocolController b, ab_poolManager b,
     ab_multicall3 b] @ List.map_filter id [ab_buybackAndBurnPlugin b, ab_stateView b, ab_v4Quoter b]"

definition optionOk :: "string option \<Rightarrow> bool" where
  "optionOk a = (case a of Some x \<Rightarrow> addressOk x | None \<Rightarrow> True)"

lemma isHexLower_toLowerChar: "isHex c \<Longrightarrow> isHexLower (toLowerChar c)"
  by (auto simp: isHex_def isHexLower_def toLowerChar_def isDigit_def)

lemma addressSchema_ok:
  assumes "addressSchema s = Inr a"
  shows "addressOk a"
proof -
  have s: "startsWith ''0x'' s" "length s = 42" "list_all isHex (drop 2 s)" and a: "a = toLowerCase s"
    using assms by (auto simp: addressSchema_def hexOf_def zodError_def split: if_splits)
  obtain t where t: "s = ''0x'' @ t" using s(1) by (metis append_take_drop_id startsWith_def)
  have "toLowerCase ''0x'' = ''0x''" by code_simp
  then have "a = ''0x'' @ toLowerCase t" using a t by (simp add: toLowerCase_def)
  then show ?thesis using s t isHexLower_toLowerChar
    by (auto simp: addressOk_def startsWith_def toLowerCase_def list_all_iff)
qed

lemma addressSchema_lower: "addressSchema s = Inr a \<Longrightarrow> a = toLowerCase s"
  by (auto simp: addressSchema_def hexOf_def zodError_def split: if_splits)

lemma addressOverride_ok: "addressOverride f environ name = Inr a \<Longrightarrow> optionOk a"
  by (auto simp: addressOverride_def optionOk_def dest: addressSchema_ok split: option.splits if_splits sum.splits)

lemma fields_ok:
  "textField addressSchema v = Inr x \<Longrightarrow> addressOk x"
  "optionalText addressSchema v = Inr y \<Longrightarrow> optionOk y" "nullishText addressSchema v = Inr y \<Longrightarrow> optionOk y"
  by (auto simp: textField_def optionalText_def nullishText_def zodError_def optionOk_def bindR_eq_Inr_iff
      dest: addressSchema_ok split: option.splits json.splits)

definition manifestOk :: "manifest \<Rightarrow> bool" where
  "manifestOk m \<longleftrightarrow> addressOk (mf_hook m) \<and> addressOk (mf_launchSupport m) \<and> addressOk (mf_revenueNft m)
     \<and> addressOk (mf_payoutPluginRegistry m) \<and> addressOk (mf_protocolController m) \<and> optionOk (mf_buybackAndBurnPlugin m)
     \<and> optionOk (mf_buybackPlugin m) \<and> optionOk (mf_poolManager m) \<and> optionOk (mf_stateView m) \<and> optionOk (mf_v4Quoter m)
     \<and> optionOk (mf_multicall3 m)"

lemma deploymentManifestSchema_ok:
  assumes "deploymentManifestSchema number d = Inr m"
  shows "manifestOk m"
proof (cases d)
  case (ObjJ ms)
  then show ?thesis using assms unfolding deploymentManifestSchema_def
    by (auto elim!: bindR_InrE simp: zodError_def manifestOk_def dest!: fields_ok split: if_splits)
qed (use assms in \<open>simp_all add: deploymentManifestSchema_def zodError_def\<close>)

lemma orElse_ok: "optionOk a \<Longrightarrow> optionOk b \<Longrightarrow> optionOk (orElse a b)"
  by (cases a) (simp_all add: orElse_def)

lemma needAddress_ok: "needAddress a = Inr x \<Longrightarrow> optionOk a \<Longrightarrow> addressOk x"
  by (auto simp: needAddress_def missingAddress_def optionOk_def split: option.splits)

lemma known_ok: "optionOk (map_option fst (KNOWN_ADDRESSES chainId))" "optionOk (map_option snd (KNOWN_ADDRESSES chainId))"
proof -
  have "addressOk ''0x498581ff718922c3f8e6a244956af099b2652b2b''" "addressOk ''0x7a9a54d308b0e6806b1bf3343d3e905939166b43''"
    "addressOk ''0xca11bde05977b3631167028862be2a173976ca11''" by code_simp+
  then show "optionOk (map_option fst (KNOWN_ADDRESSES chainId))" "optionOk (map_option snd (KNOWN_ADDRESSES chainId))"
    by (simp_all add: KNOWN_ADDRESSES_def optionOk_def)
qed

definition bookOk :: "address_book \<Rightarrow> bool" where
  "bookOk b \<longleftrightarrow> list_all addressOk (bookAddresses b)"

lemma bookOk_iff:
  "bookOk b \<longleftrightarrow> addressOk (ab_hook b) \<and> addressOk (ab_launchSupport b) \<and> addressOk (ab_revenueNft b) \<and> addressOk (ab_payoutPluginRegistry b)
     \<and> addressOk (ab_protocolController b) \<and> addressOk (ab_poolManager b) \<and> addressOk (ab_multicall3 b)
     \<and> optionOk (ab_buybackAndBurnPlugin b) \<and> optionOk (ab_stateView b) \<and> optionOk (ab_v4Quoter b)"
  by (simp add: bookOk_def bookAddresses_def List.map_filter_def optionOk_def split: option.split)

lemma buildAddressBook_Inr:
  assumes "buildAddressBook environ number chainId document = Inr b"
  obtains parsed hook where "\<forall>m. parsed = Some m \<longrightarrow> manifestOk m \<and> mf_chainId m = chainId" "document = None \<longrightarrow> parsed = None"
    "addressOverride (JsError ''AddressBookError'') environ ''SPAWN_HOOK_ADDRESS'' = Inr hook"
    "orElse hook (map_option mf_hook parsed) = Some (ab_hook b)" "ab_chainId b = chainId" "bookOk b"
  using assms unfolding buildAddressBook_def Let_def
proof (elim bindR_InrE)
  let ?P = "addressOverride (JsError ''AddressBookError'') environ" and ?I = "addressOverride (JsError ''ZodError'') environ"
  fix hook ls rn rg ct pm sv vq mc parsed hook' ls' rn' rg' ct' pm' mc'
  assume o: "?P ''SPAWN_HOOK_ADDRESS'' = Inr hook" "?P ''SPAWN_LAUNCH_SUPPORT_ADDRESS'' = Inr ls" "?P ''SPAWN_REVENUE_NFT_ADDRESS'' = Inr rn"
    "?P ''SPAWN_REGISTRY_ADDRESS'' = Inr rg" "?P ''SPAWN_CONTROLLER_ADDRESS'' = Inr ct" "?I ''POOL_MANAGER_ADDRESS'' = Inr pm"
    "?I ''STATE_VIEW_ADDRESS'' = Inr sv" "?I ''V4_QUOTER_ADDRESS'' = Inr vq" "?I ''MULTICALL3_ADDRESS'' = Inr mc"
  assume d: "(case document of None \<Rightarrow> Inr None | Some d \<Rightarrow> (case deploymentManifestSchema number d of
      Inl _ \<Rightarrow> missingAddress | Inr m \<Rightarrow> if mf_chainId m \<noteq> chainId then missingAddress else Inr (Some m))) = Inr parsed"
  assume n: "needAddress (orElse hook (map_option mf_hook parsed)) = Inr hook'"
    "needAddress (orElse ls (map_option mf_launchSupport parsed)) = Inr ls'" "needAddress (orElse rn (map_option mf_revenueNft parsed)) = Inr rn'"
    "needAddress (orElse rg (map_option mf_payoutPluginRegistry parsed)) = Inr rg'"
    "needAddress (orElse ct (map_option mf_protocolController parsed)) = Inr ct'"
    "needAddress (orElse pm (orElse (Option.bind parsed mf_poolManager) (map_option fst (KNOWN_ADDRESSES chainId)))) = Inr pm'"
    "needAddress (orElse mc (orElse (Option.bind parsed mf_multicall3) (map_option snd (KNOWN_ADDRESSES chainId)))) = Inr mc'"
  assume b: "Inr \<lparr>ab_chainId = chainId, ab_hook = hook', ab_launchSupport = ls', ab_revenueNft = rn', ab_payoutPluginRegistry = rg',
      ab_protocolController = ct', ab_buybackAndBurnPlugin = orElse (Option.bind parsed mf_buybackAndBurnPlugin) (Option.bind parsed mf_buybackPlugin),
      ab_poolManager = pm', ab_stateView = orElse sv (Option.bind parsed mf_stateView), ab_v4Quoter = orElse vq (Option.bind parsed mf_v4Quoter),
      ab_multicall3 = mc', ab_canonicalPayoutPlan = Option.bind parsed mf_canonicalPayoutPlan, ab_hookSalt = Option.bind parsed mf_hookSalt\<rparr> = Inr b"
  have p: "\<forall>m. parsed = Some m \<longrightarrow> manifestOk m \<and> mf_chainId m = chainId" "document = None \<longrightarrow> parsed = None"
    using d by (auto simp: missingAddress_def dest: deploymentManifestSchema_ok split: option.splits sum.splits if_splits)
  have m: "optionOk (map_option mf_hook parsed)" "optionOk (map_option mf_launchSupport parsed)" "optionOk (map_option mf_revenueNft parsed)"
    "optionOk (map_option mf_payoutPluginRegistry parsed)" "optionOk (map_option mf_protocolController parsed)"
    "optionOk (Option.bind parsed mf_poolManager)" "optionOk (Option.bind parsed mf_multicall3)" "optionOk (Option.bind parsed mf_stateView)"
    "optionOk (Option.bind parsed mf_v4Quoter)" "optionOk (Option.bind parsed mf_buybackAndBurnPlugin)" "optionOk (Option.bind parsed mf_buybackPlugin)"
    using p(1) by (cases parsed; simp add: manifestOk_def optionOk_def)+
  note ok = o [THEN addressOverride_ok] m known_ok [of chainId]
  have "bookOk b" using b n [THEN needAddress_ok] ok by (auto simp: bookOk_iff orElse_ok)
  moreover have "orElse hook (map_option mf_hook parsed) = Some (ab_hook b)"
    using n(1) b by (auto simp: needAddress_def missingAddress_def split: option.splits)
  moreover have "ab_chainId b = chainId" using b by auto
  ultimately show thesis using that [OF p o(1)] by blast
qed

text \<open>An override wins over the manifest.\<close>

lemma override_wins:
  assumes "buildAddressBook environ number chainId document = Inr b" "environ ''SPAWN_HOOK_ADDRESS'' = Some raw" "trim raw \<noteq> []"
  shows "ab_hook b = toLowerCase (trim raw)"
proof -
  obtain hook and parsed :: "manifest option" where h: "addressOverride (JsError ''AddressBookError'') environ ''SPAWN_HOOK_ADDRESS'' = Inr hook"
    "orElse hook (map_option mf_hook parsed) = Some (ab_hook b)"
    by (rule buildAddressBook_Inr [OF assms(1)]) (rule that, assumption+)
  obtain a where a: "addressSchema (trim raw) = Inr a" "hook = Some a"
    using h(1) assms(2,3) by (auto simp: addressOverride_def split: sum.splits)
  then have "ab_hook b = a" using h(2) by (simp add: orElse_def)
  then show ?thesis using addressSchema_lower [OF a(1)] by simp
qed

text \<open>The books of the registry after any number of loads.\<close>

definition registryOk :: "(string \<Rightarrow> string option) \<Rightarrow> (int \<rightharpoonup> address_book) \<Rightarrow> bool" where
  "registryOk environ books \<longleftrightarrow> (\<forall>c b. books c = Some b \<longrightarrow> ab_chainId b = c \<and> bookOk b
     \<and> (\<forall>raw. environ ''SPAWN_HOOK_ADDRESS'' = Some raw \<longrightarrow> trim raw \<noteq> [] \<longrightarrow> ab_hook b = toLowerCase (trim raw)))"

lemma loadAll_ok: "registryOk environ books \<Longrightarrow> registryOk environ (loadAll environ number manifests books)"
  unfolding loadAll_def
proof (induction manifests arbitrary: books)
  case (Cons m manifests)
  obtain c d where m: "m = (c, d)" by force
  have "registryOk environ (case buildAddressBook environ number c (Some d) of Inr b \<Rightarrow> books(c \<mapsto> b) | Inl _ \<Rightarrow> books)"
  proof (cases "buildAddressBook environ number c (Some d)")
    case (Inr b)
    then have "ab_chainId b = c \<and> bookOk b" by (rule buildAddressBook_Inr) simp
    then show ?thesis using Cons.prems Inr override_wins [OF Inr] by (simp add: registryOk_def)
  qed (use Cons.prems in simp)
  from Cons.IH [OF this] show ?case by (simp add: m)
qed simp

lemma reloads_ok: "registryOk environ (fold (loadAll environ number) loads Map.empty)"
proof -
  have "registryOk environ books \<Longrightarrow> registryOk environ (fold (loadAll environ number) loads books)" for books
  proof (induction loads arbitrary: books)
    case (Cons l loads)
    from Cons.IH [OF loadAll_ok [OF Cons.prems]] show ?case by simp
  qed simp
  from this [of Map.empty] show ?thesis by (simp add: registryOk_def)
qed

section \<open>Properties\<close>


definition sampleAddress :: string where
  "sampleAddress = ''0x'' @ replicate 40 CHR ''A''"

definition sampleManifest :: json where
  "sampleManifest = ObjJ ((''chainId'', NumJ 8453) # map (\<lambda>k. (k, StrJ sampleAddress))
     [''hook'', ''launchSupport'', ''revenueNft'', ''payoutPluginRegistry'', ''protocolController''])"

definition sampleNumber :: "json \<Rightarrow> rat option" where
  "sampleNumber v = (case v of NumJ q \<Rightarrow> Some q | _ \<Rightarrow> None)"

lemma sample_book:
  "map_option (\<lambda>b. (ab_chainId b, ab_hook b)) (fold (loadAll Map.empty sampleNumber) [[(8453, sampleManifest)]] Map.empty 8453)
    = Some (8453, ''0x'' @ replicate 40 CHR ''a'')"
  by code_simp


end
