(* ===== verification/ProtocolRead.thy ===== *)
theory ProtocolRead
  imports Deployment "HOL-Library.Log_Nat"
begin

text \<open>
  Model of \<open>src/src/infrastructure/blockchain/protocol-read.service.ts\<close>: the reads of the protocol contracts and their caches.
  A \<open>world\<close> is what the outside answers at one instant: the registered address books and one reader per result type of
  \<open>readContract\<close>, applied to the chain, the contract address, the function name and its arguments. A read awaits, so each cached
  operation takes the clock \<open>now\<close> at its start, the world \<open>w\<close> its read meets, the clock \<open>later\<close> at its end, and \<open>meanwhile\<close>,
  what other requests did to the caches in between.
\<close>

section \<open>Views\<close>

record protocol_template_view =
  ptv_openingFdvWei :: int
  ptv_curvePositions :: int
  ptv_curveSpanLevels :: int
  ptv_bandLevelSpacing :: int
  ptv_bandFirstStepLevels :: int
  ptv_bandStepDecayLevels :: int
  ptv_bandWidthLevels :: int
  ptv_coreBandCount :: int
  ptv_maxFeeFundedBands :: int
  ptv_curveSupplyShareWad :: int
  ptv_ladderSupplyShareWad :: int
  ptv_fullRangeSupplyShareWad :: int
  ptv_lpSeedWad :: int
  ptv_proceedsCreatorWad :: int
  ptv_proceedsProtocolWad :: int
  ptv_tradingFeeHundredthsBip :: int
  ptv_bandInventoryCapMultiple :: int
  ptv_maxDeploysPerSwap :: int
  ptv_maxHarvestsPerSwap :: int

record economic_config_view =
  ecv_harvestServiceFeeWad :: int
  ecv_quoteCreatorShareWad :: int
  ecv_tokenMilestoneFundShareWad :: int
  ecv_version :: int

record pool_state_view =
  psv_phase :: int
  psv_creator :: string
  psv_token :: string
  psv_launchedAt :: int
  psv_graduatedAt :: int
  psv_totalSupply :: int
  psv_openingLevel :: int
  psv_farLevel :: int
  psv_payoutPlan :: int
  psv_curveDeployed :: int
  psv_graduationLevel :: int
  psv_deployedBands :: int
  psv_completedBands :: int
  psv_nextBandIndex :: int
  psv_feeFundedBandsCreated :: int
  psv_completedMilestones :: int
  psv_ladderInventoryRemaining :: int
  psv_carriedInventory :: int
  psv_milestoneFundAccrued :: int
  psv_fullRangeLiquidity :: int
  psv_fullRangeTickLower :: int
  psv_fullRangeTickUpper :: int
  psv_wallLiquidity :: int
  psv_wallTickLower :: int
  psv_wallTickUpper :: int

record slot0_view =
  s0v_sqrtPriceX96 :: int
  s0v_tick :: int
  s0v_protocolFee :: int
  s0v_lpFee :: int

record plugin_entry_view =
  pev_plugin :: string
  pev_takeWad :: int
  pev_gasLimit :: int
  pev_codeHash :: string
  pev_role :: int
  pev_suspended :: bool

record controller_state_view =
  csv_administrator :: string
  csv_pendingAdministrator :: string
  csv_governanceDelay :: int
  csv_protocolRecipient :: string
  csv_trustedOperator :: string
  csv_actions :: "int \<rightharpoonup> string"

section \<open>Reads\<close>

datatype read_arg = BytesArg string | IndexArg int

type_synonym 't reader = "int \<Rightarrow> string \<Rightarrow> string \<Rightarrow> read_arg list \<Rightarrow> 't result"

text \<open>\<open>getSlot0\<close> has several outputs, which viem returns as an array.\<close>

datatype slot0_raw = Positional int int int int | Named slot0_view

record world =
  wd_books :: "int \<rightharpoonup> address_book"
  wd_template :: "protocol_template_view reader"
  wd_economics :: "economic_config_view reader"
  wd_pool :: "pool_state_view reader"
  wd_slot0 :: "slot0_raw reader"
  wd_entry :: "plugin_entry_view reader"
  wd_uint :: "int reader"
  wd_address :: "string reader"

definition hookRead :: "world \<Rightarrow> 't reader \<Rightarrow> int \<Rightarrow> string \<Rightarrow> read_arg list \<Rightarrow> 't result" where
  "hookRead w r chainId name as = bindR (bookOf (wd_books w) chainId) (\<lambda>book. r chainId (ab_hook book) name as)"

definition registryRead :: "world \<Rightarrow> 't reader \<Rightarrow> int \<Rightarrow> string \<Rightarrow> read_arg list \<Rightarrow> 't result" where
  "registryRead w r chainId name as = bindR (bookOf (wd_books w) chainId) (\<lambda>book. r chainId (ab_payoutPluginRegistry book) name as)"

definition controllerRead :: "world \<Rightarrow> 't reader \<Rightarrow> int \<Rightarrow> string \<Rightarrow> read_arg list \<Rightarrow> 't result" where
  "controllerRead w r chainId name as = bindR (bookOf (wd_books w) chainId) (\<lambda>book. r chainId (ab_protocolController book) name as)"

text \<open>\<open>Number(v)\<close> of a bigint: 53 significant bits, ties to even.\<close>

definition numberOfBig :: "int \<Rightarrow> int" where
  "numberOfBig v =
     (let m = \<bar>v\<bar>; s = (if m < 2 ^ 53 then 0 else nat (bitlen m - 53)); q = m div 2 ^ s; r = m mod 2 ^ s;
          q' = (if 2 * r > 2 ^ s \<or> (2 * r = 2 ^ s \<and> odd q) then q + 1 else q)
      in sgn v * (q' * 2 ^ s))"

section \<open>Timed caches\<close>

definition TEMPLATE_TTL_MS :: int where [model_defs]: "TEMPLATE_TTL_MS = 5 * 60 * 1000"
definition ECONOMICS_TTL_MS :: int where [model_defs]: "ECONOMICS_TTL_MS = 30 * 1000"
definition POOL_STATE_TTL_MS :: int where [model_defs]: "POOL_STATE_TTL_MS = 5 * 1000"
definition SLOT0_TTL_MS :: int where [model_defs]: "SLOT0_TTL_MS = 2 * 1000"
definition CONTROLLER_TTL_MS :: int where [model_defs]: "CONTROLLER_TTL_MS = 30 * 1000"

record protocol_caches =
  pc_template :: "int \<rightharpoonup> protocol_template_view \<times> int"
  pc_economics :: "int \<rightharpoonup> economic_config_view \<times> int"
  pc_poolState :: "string \<rightharpoonup> pool_state_view \<times> int"
  pc_slot0 :: "string \<rightharpoonup> slot0_view \<times> int"
  pc_controller :: "(controller_state_view \<times> int) option"

definition cachedValue :: "int \<Rightarrow> ('v \<times> int) option \<Rightarrow> 'v option" where
  "cachedValue now c = (case c of Some (v, expiresAt) \<Rightarrow> if expiresAt > now then Some v else None | None \<Rightarrow> None)"

definition poolKey :: "int \<Rightarrow> string \<Rightarrow> string" where
  "poolKey chainId poolId = toString chainId @ '':'' @ poolId"

definition template_read :: "world \<Rightarrow> int \<Rightarrow> protocol_template_view result" where
  "template_read w chainId = hookRead w (wd_template w) chainId ''template'' []"

definition setTemplate :: "int \<Rightarrow> int \<Rightarrow> protocol_template_view \<Rightarrow> protocol_caches \<Rightarrow> protocol_caches" where
  "setTemplate later chainId v st = st\<lparr>pc_template := (pc_template st)(chainId \<mapsto> (v, later + TEMPLATE_TTL_MS))\<rparr>"

text \<open>A miss reads, then stores and returns the value; a failed read leaves the caches alone.\<close>

definition readThrough :: "'v option \<Rightarrow> 'v result \<Rightarrow> (protocol_caches \<Rightarrow> protocol_caches) \<Rightarrow> ('v \<Rightarrow> protocol_caches \<Rightarrow> protocol_caches)
    \<Rightarrow> protocol_caches \<Rightarrow> 'v result \<times> protocol_caches" where
  "readThrough cached answer meanwhile put st = (case cached of
     Some v \<Rightarrow> (Inr v, st)
   | None \<Rightarrow> (case answer of Inl e \<Rightarrow> (Inl e, meanwhile st) | Inr v \<Rightarrow> (Inr v, put v (meanwhile st))))"

definition template :: "int \<Rightarrow> world \<Rightarrow> int \<Rightarrow> (protocol_caches \<Rightarrow> protocol_caches) \<Rightarrow> int \<Rightarrow> protocol_caches
    \<Rightarrow> protocol_template_view result \<times> protocol_caches" where
  "template now w later meanwhile chainId st =
     readThrough (cachedValue now (pc_template st chainId)) (template_read w chainId) meanwhile (setTemplate later chainId) st"

definition economics_read :: "world \<Rightarrow> int \<Rightarrow> economic_config_view result" where
  "economics_read w chainId = hookRead w (wd_economics w) chainId ''economicConfig'' []"

definition setEconomics :: "int \<Rightarrow> int \<Rightarrow> economic_config_view \<Rightarrow> protocol_caches \<Rightarrow> protocol_caches" where
  "setEconomics later chainId v st = st\<lparr>pc_economics := (pc_economics st)(chainId \<mapsto> (v, later + ECONOMICS_TTL_MS))\<rparr>"

definition economicConfig :: "int \<Rightarrow> world \<Rightarrow> int \<Rightarrow> (protocol_caches \<Rightarrow> protocol_caches) \<Rightarrow> int \<Rightarrow> protocol_caches
    \<Rightarrow> economic_config_view result \<times> protocol_caches" where
  "economicConfig now w later meanwhile chainId st =
     readThrough (cachedValue now (pc_economics st chainId)) (economics_read w chainId) meanwhile (setEconomics later chainId) st"

definition poolState_read :: "world \<Rightarrow> int \<Rightarrow> string \<Rightarrow> pool_state_view result" where
  "poolState_read w chainId poolId = hookRead w (wd_pool w) chainId ''poolState'' [BytesArg poolId]"

definition setPoolState :: "int \<Rightarrow> string \<Rightarrow> pool_state_view \<Rightarrow> protocol_caches \<Rightarrow> protocol_caches" where
  "setPoolState later key v st = st\<lparr>pc_poolState := (pc_poolState st)(key \<mapsto> (v, later + POOL_STATE_TTL_MS))\<rparr>"

definition poolState :: "int \<Rightarrow> world \<Rightarrow> int \<Rightarrow> (protocol_caches \<Rightarrow> protocol_caches) \<Rightarrow> int \<Rightarrow> string \<Rightarrow> protocol_caches
    \<Rightarrow> pool_state_view result \<times> protocol_caches" where
  "poolState now w later meanwhile chainId poolId st =
     readThrough (cachedValue now (pc_poolState st (poolKey chainId poolId))) (poolState_read w chainId poolId) meanwhile
       (setPoolState later (poolKey chainId poolId)) st"

definition slot0OfRaw :: "slot0_raw \<Rightarrow> slot0_view" where
  "slot0OfRaw raw = (case raw of
     Positional p t f l \<Rightarrow> \<lparr>s0v_sqrtPriceX96 = p, s0v_tick = t, s0v_protocolFee = f, s0v_lpFee = l\<rparr>
   | Named v \<Rightarrow> v)"

definition slot0_read :: "world \<Rightarrow> int \<Rightarrow> string \<Rightarrow> string \<Rightarrow> slot0_view result" where
  "slot0_read w chainId stateView poolId =
     bindR (wd_slot0 w chainId stateView ''getSlot0'' [BytesArg poolId]) (\<lambda>raw. Inr (slot0OfRaw raw))"

definition setSlot0 :: "int \<Rightarrow> string \<Rightarrow> slot0_view \<Rightarrow> protocol_caches \<Rightarrow> protocol_caches" where
  "setSlot0 later key v st = st\<lparr>pc_slot0 := (pc_slot0 st)(key \<mapsto> (v, later + SLOT0_TTL_MS))\<rparr>"

definition slot0 :: "int \<Rightarrow> world \<Rightarrow> int \<Rightarrow> (protocol_caches \<Rightarrow> protocol_caches) \<Rightarrow> int \<Rightarrow> string \<Rightarrow> protocol_caches
    \<Rightarrow> slot0_view option result \<times> protocol_caches" where
  "slot0 now w later meanwhile chainId poolId st = (case bookOf (wd_books w) chainId of
     Inl e \<Rightarrow> (Inl e, st)
   | Inr book \<Rightarrow> (case ab_stateView book of
       None \<Rightarrow> (Inr None, st)
     | Some stateView \<Rightarrow>
         (case readThrough (cachedValue now (pc_slot0 st (poolKey chainId poolId))) (slot0_read w chainId stateView poolId) meanwhile
            (setSlot0 later (poolKey chainId poolId)) st of
            (Inr v, st') \<Rightarrow> (Inr (Some v), st')
          | (Inl e, st') \<Rightarrow> (Inl e, st'))))"

section \<open>Uncached reads\<close>

definition registryEntry :: "world \<Rightarrow> int \<Rightarrow> int \<Rightarrow> plugin_entry_view result" where
  "registryEntry w chainId index = registryRead w (wd_entry w) chainId ''entry'' [IndexArg index]"

definition registryEntryCount :: "world \<Rightarrow> int \<Rightarrow> int result" where
  "registryEntryCount w chainId = bindR (registryRead w (wd_uint w) chainId ''entryCount'' []) (\<lambda>v. Inr (numberOfBig v))"

definition creatorClaimable :: "world \<Rightarrow> int \<Rightarrow> string \<Rightarrow> int result" where
  "creatorClaimable w chainId poolId = hookRead w (wd_uint w) chainId ''creatorClaimable'' [BytesArg poolId]"

definition creatorPathClaimable :: "world \<Rightarrow> int \<Rightarrow> string \<Rightarrow> int result" where
  "creatorPathClaimable w chainId poolId = hookRead w (wd_uint w) chainId ''creatorPathClaimable'' [BytesArg poolId]"

definition protocolClaimable :: "world \<Rightarrow> int \<Rightarrow> int result" where
  "protocolClaimable w chainId = hookRead w (wd_uint w) chainId ''protocolClaimable'' []"

definition protocolClaimBacked :: "world \<Rightarrow> int \<Rightarrow> int result" where
  "protocolClaimBacked w chainId = hookRead w (wd_uint w) chainId ''protocolClaimBacked'' []"

definition payoutPot :: "world \<Rightarrow> int \<Rightarrow> string \<Rightarrow> int result" where
  "payoutPot w chainId poolId = hookRead w (wd_uint w) chainId ''payoutPot'' [BytesArg poolId]"

definition pluginCarry :: "world \<Rightarrow> int \<Rightarrow> string \<Rightarrow> int \<Rightarrow> int result" where
  "pluginCarry w chainId poolId pluginIndex = hookRead w (wd_uint w) chainId ''pluginCarry'' [BytesArg poolId, IndexArg pluginIndex]"

definition carryBitmap :: "world \<Rightarrow> int \<Rightarrow> string \<Rightarrow> int result" where
  "carryBitmap w chainId poolId = hookRead w (wd_uint w) chainId ''carryBitmap'' [BytesArg poolId]"

definition flushGasCeiling :: "world \<Rightarrow> int \<Rightarrow> string \<Rightarrow> int result" where
  "flushGasCeiling w chainId poolId = hookRead w (wd_uint w) chainId ''flushGasCeiling'' [BytesArg poolId]"

definition flushSignal :: "world \<Rightarrow> int \<Rightarrow> string \<Rightarrow> bool result" where
  "flushSignal w chainId poolId = bindR (payoutPot w chainId poolId) (\<lambda>pot. bindR (carryBitmap w chainId poolId) (\<lambda>carry.
     Inr (pot > 0 \<or> carry \<noteq> 0)))"

section \<open>Governance state\<close>

text \<open>The keys of \<open>actions\<close> are the live constants; a later entry with an equal key overwrites an earlier one.\<close>

definition controllerState_read :: "world \<Rightarrow> int \<Rightarrow> controller_state_view result" where
  "controllerState_read w chainId =
     (let address = controllerRead w (wd_address w) chainId; uint = controllerRead w (wd_uint w) chainId in
      bindR (address ''administrator'' []) (\<lambda>administrator.
      bindR (address ''pendingAdministrator'' []) (\<lambda>pendingAdministrator.
      bindR (uint ''governanceDelay'' []) (\<lambda>governanceDelay.
      bindR (address ''protocolRecipient'' []) (\<lambda>protocolRecipient.
      bindR (hookRead w (wd_address w) chainId ''trustedOperator'' []) (\<lambda>trustedOperator.
      bindR (uint ''ACTION_SET_ECONOMIC_CONFIG'' []) (\<lambda>e.
      bindR (uint ''ACTION_SET_PROTOCOL_RECIPIENT'' []) (\<lambda>r.
      bindR (uint ''ACTION_REGISTER_PLUGIN'' []) (\<lambda>p.
      bindR (uint ''ACTION_SET_PLUGIN_SUSPENDED'' []) (\<lambda>s.
      bindR (uint ''ACTION_SET_DELAY'' []) (\<lambda>g.
      bindR (uint ''ACTION_SET_TRUSTED_OPERATOR'' []) (\<lambda>setOp.
      Inr \<lparr>csv_administrator = toLowerCase administrator, csv_pendingAdministrator = toLowerCase pendingAdministrator,
        csv_governanceDelay = governanceDelay, csv_protocolRecipient = toLowerCase protocolRecipient,
        csv_trustedOperator = toLowerCase trustedOperator,
        csv_actions = [numberOfBig e \<mapsto> ''SET_ECONOMIC_CONFIG'', numberOfBig r \<mapsto> ''SET_PROTOCOL_RECIPIENT'',
          numberOfBig p \<mapsto> ''REGISTER_PLUGIN'', numberOfBig s \<mapsto> ''SET_PLUGIN_SUSPENDED'', numberOfBig g \<mapsto> ''SET_GOVERNANCE_DELAY'',
          numberOfBig setOp \<mapsto> ''SET_TRUSTED_OPERATOR'']\<rparr>))))))))))))"

definition setController :: "int \<Rightarrow> controller_state_view \<Rightarrow> protocol_caches \<Rightarrow> protocol_caches" where
  "setController later v st = st\<lparr>pc_controller := Some (v, later + CONTROLLER_TTL_MS)\<rparr>"

definition controllerState :: "int \<Rightarrow> world \<Rightarrow> int \<Rightarrow> (protocol_caches \<Rightarrow> protocol_caches) \<Rightarrow> int \<Rightarrow> protocol_caches
    \<Rightarrow> controller_state_view result \<times> protocol_caches" where
  "controllerState now w later meanwhile chainId st =
     readThrough (cachedValue now (pc_controller st)) (controllerState_read w chainId) meanwhile (setController later) st"

section \<open>Invalidation\<close>

definition invalidatePool :: "int \<Rightarrow> string \<Rightarrow> protocol_caches \<Rightarrow> protocol_caches" where
  "invalidatePool chainId poolId st = (let key = poolKey chainId poolId in
     st\<lparr>pc_poolState := (pc_poolState st)(key := None), pc_slot0 := (pc_slot0 st)(key := None)\<rparr>)"

definition invalidateEconomics :: "int \<Rightarrow> protocol_caches \<Rightarrow> protocol_caches" where
  "invalidateEconomics chainId st = st\<lparr>pc_economics := (pc_economics st)(chainId := None)\<rparr>"

definition invalidateGovernance :: "protocol_caches \<Rightarrow> protocol_caches" where
  "invalidateGovernance st = st\<lparr>pc_controller := None\<rparr>"

section \<open>The interface of a timed cache\<close>

text \<open>\<open>slot\<close> is the stored pair of a key, \<open>put\<close> what a completed read does; \<open>seen k v t\<close> says that a read of \<open>k\<close> answered by \<open>v\<close>
  and completed at \<open>t\<close>.\<close>

locale timed_cache =
  fixes slot :: "'s \<Rightarrow> 'k \<Rightarrow> ('v \<times> int) option" and put :: "int \<Rightarrow> 'k \<Rightarrow> 'v \<Rightarrow> 's \<Rightarrow> 's" and ttl :: int
  assumes slot_put: "slot (put later k v st) k' = (if k' = k then Some (v, later + ttl) else slot st k')"
begin

definition tracked :: "('k \<Rightarrow> 'v \<Rightarrow> int \<Rightarrow> bool) \<Rightarrow> 's \<Rightarrow> bool" where
  "tracked seen st \<longleftrightarrow> (\<forall>k v e. slot st k = Some (v, e) \<longrightarrow> seen k v (e - ttl))"

lemma tracked_put: "tracked seen st \<Longrightarrow> seen k v later \<Longrightarrow> tracked seen (put later k v st)"
  by (auto simp: tracked_def slot_put)

lemma tracked_drop: "tracked seen st \<Longrightarrow> (\<And>k. slot st' k = slot st k \<or> slot st' k = None) \<Longrightarrow> tracked seen st'"
  unfolding tracked_def by (metis option.distinct(1))

lemma tracked_mono: "tracked seen st \<Longrightarrow> (\<And>k v t. seen k v t \<Longrightarrow> seen' k v t) \<Longrightarrow> tracked seen' st"
  by (simp add: tracked_def)

lemma tracked_answer:
  assumes "tracked seen st" "cachedValue now (slot st k) = Some v"
  obtains t where "now < t + ttl" "seen k v t"
proof -
  obtain e where "slot st k = Some (v, e)" "now < e"
    using assms(2) by (auto simp: cachedValue_def split: option.splits if_splits)
  then show thesis using that [of "e - ttl"] assms(1) by (simp add: tracked_def)
qed

end

interpretation templates: timed_cache pc_template setTemplate TEMPLATE_TTL_MS
  by unfold_locales (simp add: setTemplate_def)

interpretation economics: timed_cache pc_economics setEconomics ECONOMICS_TTL_MS
  by unfold_locales (simp add: setEconomics_def)

interpretation poolStates: timed_cache pc_poolState setPoolState POOL_STATE_TTL_MS
  by unfold_locales (simp add: setPoolState_def)

interpretation slot0s: timed_cache pc_slot0 setSlot0 SLOT0_TTL_MS
  by unfold_locales (simp add: setSlot0_def)

text \<open>The governance state has one slot for all chains.\<close>

interpretation governance: timed_cache "\<lambda>st (_ :: unit). pc_controller st" "\<lambda>later _. setController later" CONTROLLER_TTL_MS
  by unfold_locales (simp add: setController_def)

section \<open>Runs of the service\<close>

definition emptyCaches :: protocol_caches where
  "emptyCaches = \<lparr>pc_template = Map.empty, pc_economics = Map.empty, pc_poolState = Map.empty, pc_slot0 = Map.empty, pc_controller = None\<rparr>"

text \<open>\<open>W r\<close> is the world at the instant \<open>r\<close>. A read meets the world at \<open>r\<close> and completes at \<open>t\<close>, at most \<open>L\<close> later, in whatever
  order with other reads; the clock of the run is the time of its last step.\<close>

inductive serviceRun :: "(int \<Rightarrow> world) \<Rightarrow> int \<Rightarrow> int \<Rightarrow> protocol_caches \<Rightarrow> bool" for W L where
  run_start: "serviceRun W L clock emptyCaches"
| run_template: "serviceRun W L clock st \<Longrightarrow> clock \<le> t \<Longrightarrow> r \<le> t \<Longrightarrow> t \<le> r + L \<Longrightarrow> template_read (W r) c = Inr v
    \<Longrightarrow> serviceRun W L t (setTemplate t c v st)"
| run_economics: "serviceRun W L clock st \<Longrightarrow> clock \<le> t \<Longrightarrow> r \<le> t \<Longrightarrow> t \<le> r + L \<Longrightarrow> economics_read (W r) c = Inr v
    \<Longrightarrow> serviceRun W L t (setEconomics t c v st)"
| run_pool: "serviceRun W L clock st \<Longrightarrow> clock \<le> t \<Longrightarrow> r \<le> t \<Longrightarrow> t \<le> r + L \<Longrightarrow> poolState_read (W r) c p = Inr v
    \<Longrightarrow> serviceRun W L t (setPoolState t (poolKey c p) v st)"
| run_slot0: "serviceRun W L clock st \<Longrightarrow> clock \<le> t \<Longrightarrow> r \<le> t \<Longrightarrow> t \<le> r + L \<Longrightarrow> slot0_read (W r) c sv p = Inr v
    \<Longrightarrow> serviceRun W L t (setSlot0 t (poolKey c p) v st)"
| run_controller: "serviceRun W L clock st \<Longrightarrow> clock \<le> t \<Longrightarrow> r \<le> t \<Longrightarrow> t \<le> r + L \<Longrightarrow> controllerState_read (W r) c = Inr v
    \<Longrightarrow> serviceRun W L t (setController t v st)"
| run_invalidatePool: "serviceRun W L clock st \<Longrightarrow> clock \<le> t \<Longrightarrow> serviceRun W L t (invalidatePool c p st)"
| run_invalidateEconomics: "serviceRun W L clock st \<Longrightarrow> clock \<le> t \<Longrightarrow> serviceRun W L t (invalidateEconomics c st)"
| run_invalidateGovernance: "serviceRun W L clock st \<Longrightarrow> clock \<le> t \<Longrightarrow> serviceRun W L t (invalidateGovernance st)"

text \<open>A read of the world that completed at \<open>t\<close>.\<close>

definition readAt :: "(int \<Rightarrow> world) \<Rightarrow> int \<Rightarrow> int \<Rightarrow> int \<Rightarrow> (world \<Rightarrow> bool) \<Rightarrow> bool" where
  "readAt W L clock t P \<longleftrightarrow> t \<le> clock \<and> (\<exists>r. r \<le> t \<and> t \<le> r + L \<and> P (W r))"

definition allTracked :: "(int \<Rightarrow> world) \<Rightarrow> int \<Rightarrow> int \<Rightarrow> protocol_caches \<Rightarrow> bool" where
  "allTracked W L clock st \<longleftrightarrow>
     templates.tracked (\<lambda>c v t. readAt W L clock t (\<lambda>w. template_read w c = Inr v)) st
     \<and> economics.tracked (\<lambda>c v t. readAt W L clock t (\<lambda>w. economics_read w c = Inr v)) st
     \<and> poolStates.tracked (\<lambda>k v t. \<exists>c p. k = poolKey c p \<and> readAt W L clock t (\<lambda>w. poolState_read w c p = Inr v)) st
     \<and> slot0s.tracked (\<lambda>k v t. \<exists>c p sv. k = poolKey c p \<and> readAt W L clock t (\<lambda>w. slot0_read w c sv p = Inr v)) st
     \<and> governance.tracked (\<lambda>_ v t. \<exists>c. readAt W L clock t (\<lambda>w. controllerState_read w c = Inr v)) st"

lemma readAt_mono: "readAt W L clock t P \<Longrightarrow> clock \<le> clock' \<Longrightarrow> readAt W L clock' t P"
  by (auto simp: readAt_def)

lemma allTracked_mono:
  assumes "allTracked W L clock st" "clock \<le> clock'"
  shows "allTracked W L clock' st"
  using assms unfolding allTracked_def templates.tracked_def economics.tracked_def poolStates.tracked_def slot0s.tracked_def
    governance.tracked_def by (meson readAt_mono)

lemmas trackers = templates.tracked_def economics.tracked_def poolStates.tracked_def slot0s.tracked_def governance.tracked_def
lemmas setters = setTemplate_def setEconomics_def setPoolState_def setSlot0_def setController_def
lemmas droppers = invalidatePool_def invalidateEconomics_def invalidateGovernance_def Let_def

lemma serviceRun_tracked: "serviceRun W L clock st \<Longrightarrow> allTracked W L clock st"
proof (induction rule: serviceRun.induct)
  case (run_start clock)
  then show ?case by (simp add: allTracked_def trackers emptyCaches_def)
next
  case (run_template clock st t r c v)
  then have "readAt W L t t (\<lambda>w. template_read w c = Inr v)" by (auto simp: readAt_def)
  then show ?case using allTracked_mono [OF run_template.IH run_template.hyps(2)]
    unfolding allTracked_def by (auto intro: templates.tracked_put simp: trackers setters)
next
  case (run_economics clock st t r c v)
  then have "readAt W L t t (\<lambda>w. economics_read w c = Inr v)" by (auto simp: readAt_def)
  then show ?case using allTracked_mono [OF run_economics.IH run_economics.hyps(2)]
    unfolding allTracked_def by (auto simp: trackers setters)
next
  case (run_pool clock st t r c p v)
  then have "readAt W L t t (\<lambda>w. poolState_read w c p = Inr v)" by (auto simp: readAt_def)
  then show ?case using allTracked_mono [OF run_pool.IH run_pool.hyps(2)]
    unfolding allTracked_def by (auto simp: trackers setters)
next
  case (run_slot0 clock st t r c sv p v)
  then have "readAt W L t t (\<lambda>w. slot0_read w c sv p = Inr v)" by (auto simp: readAt_def)
  then show ?case using allTracked_mono [OF run_slot0.IH run_slot0.hyps(2)]
    unfolding allTracked_def by (auto simp: trackers setters)
next
  case (run_controller clock st t r c v)
  then have "readAt W L t t (\<lambda>w. controllerState_read w c = Inr v)" by (auto simp: readAt_def)
  then show ?case using allTracked_mono [OF run_controller.IH run_controller.hyps(2)]
    unfolding allTracked_def by (auto simp: trackers setters)
next
  case (run_invalidatePool clock st t c p)
  then show ?case using allTracked_mono [OF run_invalidatePool.IH run_invalidatePool.hyps(2)]
    unfolding allTracked_def by (simp add: trackers droppers)
next
  case (run_invalidateEconomics clock st t c)
  then show ?case using allTracked_mono [OF run_invalidateEconomics.IH run_invalidateEconomics.hyps(2)]
    unfolding allTracked_def by (simp add: trackers droppers)
next
  case (run_invalidateGovernance clock st t)
  then show ?case using allTracked_mono [OF run_invalidateGovernance.IH run_invalidateGovernance.hyps(2)]
    unfolding allTracked_def by (simp add: trackers droppers)
qed

text \<open>The text keys of pools keep chains apart.\<close>

lemma poolKey_inject [simp]: "poolKey c p = poolKey c' p' \<longleftrightarrow> c = c' \<and> p = p'"
proof
  assume eq: "poolKey c p = poolKey c' p'"
  have "takeWhile (\<lambda>x. x \<noteq> CHR '':'') (poolKey a q) = toString a" for a q
  proof -
    have "\<forall>x\<in>set (toString a). x \<noteq> CHR '':''" using toString_chars [of a] by (auto simp: list_all_iff isDigit_def)
    then show ?thesis by (simp add: poolKey_def takeWhile_append2)
  qed
  with eq have "c = c'" by (metis toString_inject)
  with eq show "c = c' \<and> p = p'" by (simp add: poolKey_def)
qed simp

text \<open>Every operation is a step of a run, whatever the other requests do while it awaits.\<close>

lemma readThrough_run:
  assumes "serviceRun W L c0 st" "c0 \<le> later" "serviceRun W L c1 (meanwhile st)" "c1 \<le> later"
    and "\<And>v. answer = Inr v \<Longrightarrow> serviceRun W L later (put v (meanwhile st))"
    and "readThrough cached answer meanwhile put st = (a, st')"
  shows "\<exists>clock\<le>later. serviceRun W L clock st'"
  using assms by (auto simp: readThrough_def split: option.splits sum.splits)

lemma operations_run:
  assumes "serviceRun W L c0 st" "c0 \<le> later" "serviceRun W L c1 (meanwhile st)" "c1 \<le> later" "r \<le> later" "later \<le> r + L"
  shows "template now (W r) later meanwhile c st = (a1, st') \<Longrightarrow> \<exists>clock\<le>later. serviceRun W L clock st'"
    "economicConfig now (W r) later meanwhile c st = (a2, st') \<Longrightarrow> \<exists>clock\<le>later. serviceRun W L clock st'"
    "poolState now (W r) later meanwhile c p st = (a3, st') \<Longrightarrow> \<exists>clock\<le>later. serviceRun W L clock st'"
    "slot0 now (W r) later meanwhile c p st = (a4, st') \<Longrightarrow> \<exists>clock\<le>later. serviceRun W L clock st'"
    "controllerState now (W r) later meanwhile c st = (a5, st') \<Longrightarrow> \<exists>clock\<le>later. serviceRun W L clock st'"
proof -
  note rt = readThrough_run [where meanwhile = meanwhile, OF assms(1-4)]
  note step = assms(3,4,5,6)
  show "template now (W r) later meanwhile c st = (a1, st') \<Longrightarrow> \<exists>clock\<le>later. serviceRun W L clock st'"
    unfolding template_def by (erule rt [rotated]) (rule run_template [OF step])
  show "economicConfig now (W r) later meanwhile c st = (a2, st') \<Longrightarrow> \<exists>clock\<le>later. serviceRun W L clock st'"
    unfolding economicConfig_def by (erule rt [rotated]) (rule run_economics [OF step])
  show "poolState now (W r) later meanwhile c p st = (a3, st') \<Longrightarrow> \<exists>clock\<le>later. serviceRun W L clock st'"
    unfolding poolState_def by (erule rt [rotated]) (rule run_pool [OF step])
  show "controllerState now (W r) later meanwhile c st = (a5, st') \<Longrightarrow> \<exists>clock\<le>later. serviceRun W L clock st'"
    unfolding controllerState_def by (erule rt [rotated]) (rule run_controller [OF step])
  assume s: "slot0 now (W r) later meanwhile c p st = (a4, st')"
  show "\<exists>clock\<le>later. serviceRun W L clock st'"
  proof (cases "bookOf (wd_books (W r)) c")
    case (Inl e)
    then show ?thesis using s assms(1,2) by (auto simp: slot0_def)
  next
    case (Inr book)
    show ?thesis
    proof (cases "ab_stateView book")
      case None
      then show ?thesis using s assms(1,2) Inr by (auto simp: slot0_def)
    next
      case (Some sv)
      obtain a where "readThrough (cachedValue now (pc_slot0 st (poolKey c p))) (slot0_read (W r) c sv p) meanwhile
          (setSlot0 later (poolKey c p)) st = (a, st')"
        using s Inr Some by (auto simp: slot0_def split: prod.splits sum.splits)
      then show ?thesis by (rule rt [rotated]) (rule run_slot0 [OF step])
    qed
  qed
qed

section \<open>Properties\<close>

text \<open>An answer that a read now confirms, or one the chain gave at most \<open>ttl + L\<close> before.\<close>

definition freshWithin :: "(int \<Rightarrow> 'w) \<Rightarrow> int \<Rightarrow> int \<Rightarrow> 'w \<Rightarrow> ('w \<Rightarrow> bool) \<Rightarrow> bool" where
  "freshWithin W age now w P \<longleftrightarrow> P w \<or> (\<exists>r. now - age < r \<and> r \<le> now \<and> P (W r))"

lemma readAt_fresh: "readAt W L clock t P \<Longrightarrow> clock \<le> now \<Longrightarrow> now < t + ttl \<Longrightarrow> freshWithin W (ttl + L) now w P"
  unfolding readAt_def freshWithin_def by (smt (verit))

lemma readThrough_Inr:
  "readThrough cached answer meanwhile put st = (Inr v, st') \<Longrightarrow> cached = Some v \<or> answer = Inr v"
  by (auto simp: readThrough_def split: option.splits sum.splits)

lemma fresh_template:
  assumes "allTracked W L clock st" "clock \<le> now" "template now w later m c st = (Inr v, st')"
  shows "freshWithin W (TEMPLATE_TTL_MS + L) now w (\<lambda>u. template_read u c = Inr v)"
  using readThrough_Inr [OF assms(3) [unfolded template_def]]
proof
  assume "cachedValue now (pc_template st c) = Some v"
  then obtain t where "now < t + TEMPLATE_TTL_MS" "readAt W L clock t (\<lambda>w. template_read w c = Inr v)"
    using assms(1) unfolding allTracked_def by (elim conjE) (rule templates.tracked_answer)
  then show ?thesis using readAt_fresh assms(2) by blast
qed (simp add: freshWithin_def)

lemma fresh_economics:
  assumes "allTracked W L clock st" "clock \<le> now" "economicConfig now w later m c st = (Inr v, st')"
  shows "freshWithin W (ECONOMICS_TTL_MS + L) now w (\<lambda>u. economics_read u c = Inr v)"
  using readThrough_Inr [OF assms(3) [unfolded economicConfig_def]]
proof
  assume "cachedValue now (pc_economics st c) = Some v"
  then obtain t where "now < t + ECONOMICS_TTL_MS" "readAt W L clock t (\<lambda>w. economics_read w c = Inr v)"
    using assms(1) unfolding allTracked_def by (elim conjE) (rule economics.tracked_answer)
  then show ?thesis using readAt_fresh assms(2) by blast
qed (simp add: freshWithin_def)

lemma fresh_pool:
  assumes "allTracked W L clock st" "clock \<le> now" "poolState now w later m c p st = (Inr v, st')"
  shows "freshWithin W (POOL_STATE_TTL_MS + L) now w (\<lambda>u. poolState_read u c p = Inr v)"
  using readThrough_Inr [OF assms(3) [unfolded poolState_def]]
proof
  assume "cachedValue now (pc_poolState st (poolKey c p)) = Some v"
  then obtain t where "now < t + POOL_STATE_TTL_MS"
    "\<exists>c' p'. poolKey c p = poolKey c' p' \<and> readAt W L clock t (\<lambda>w. poolState_read w c' p' = Inr v)"
    using assms(1) unfolding allTracked_def by (elim conjE) (rule poolStates.tracked_answer)
  then show ?thesis using readAt_fresh assms(2) by auto
qed (simp add: freshWithin_def)

lemma fresh_slot0:
  assumes "allTracked W L clock st" "clock \<le> now" "slot0 now w later m c p st = (Inr (Some v), st')"
  shows "freshWithin W (SLOT0_TTL_MS + L) now w (\<lambda>u. \<exists>sv. slot0_read u c sv p = Inr v)"
proof -
  obtain sv where rt: "readThrough (cachedValue now (pc_slot0 st (poolKey c p))) (slot0_read w c sv p) m
      (setSlot0 later (poolKey c p)) st = (Inr v, st')"
    using assms(3) by (auto simp: slot0_def split: sum.splits option.splits prod.splits)
  from readThrough_Inr [OF this] show ?thesis
  proof
    assume "cachedValue now (pc_slot0 st (poolKey c p)) = Some v"
    then obtain t where t: "now < t + SLOT0_TTL_MS"
      "\<exists>c' p' sv. poolKey c p = poolKey c' p' \<and> readAt W L clock t (\<lambda>w. slot0_read w c' sv p' = Inr v)"
      using assms(1) unfolding allTracked_def by (elim conjE) (rule slot0s.tracked_answer)
    then obtain sv where "readAt W L clock t (\<lambda>w. slot0_read w c sv p = Inr v)" by auto
    then have "readAt W L clock t (\<lambda>w. \<exists>sv. slot0_read w c sv p = Inr v)" unfolding readAt_def by blast
    then show ?thesis using readAt_fresh assms(2) t(1) by blast
  qed (auto simp: freshWithin_def)
qed

text \<open>C22. Cached protocol reads are fresh: however reads, invalidations and awaits interleave, the template, the economics, the
  pool state and the slot answered at a time are those the chain gives to this very read, or gave for the same chain and pool
  within the lifetime of the cache (five minutes, thirty, five and two seconds) plus the longest read; no chain answers
  for another.\<close>

theorem protocol_reads_fresh:
  assumes "serviceRun W L clock st" "clock \<le> now"
  shows "(template now w later m chainId st = (Inr t, st1) \<longrightarrow>
      freshWithin W (TEMPLATE_TTL_MS + L) now w (\<lambda>u. template_read u chainId = Inr t))
    \<and> (economicConfig now w later m chainId st = (Inr e, st2) \<longrightarrow>
      freshWithin W (ECONOMICS_TTL_MS + L) now w (\<lambda>u. economics_read u chainId = Inr e))
    \<and> (poolState now w later m chainId poolId st = (Inr p, st3) \<longrightarrow>
      freshWithin W (POOL_STATE_TTL_MS + L) now w (\<lambda>u. poolState_read u chainId poolId = Inr p))
    \<and> (slot0 now w later m chainId poolId st = (Inr (Some s), st4) \<longrightarrow>
      freshWithin W (SLOT0_TTL_MS + L) now w (\<lambda>u. \<exists>stateView. slot0_read u chainId stateView poolId = Inr s))"
  using serviceRun_tracked [OF assms(1)] assms(2) by (auto dest: fresh_template fresh_economics fresh_pool fresh_slot0)

definition sampleEconomics :: economic_config_view where
  "sampleEconomics = \<lparr>ecv_harvestServiceFeeWad = 5, ecv_quoteCreatorShareWad = 7, ecv_tokenMilestoneFundShareWad = 9, ecv_version = 1\<rparr>"

definition sampleBook :: address_book where
  "sampleBook = \<lparr>ab_chainId = 8453, ab_hook = ''0xh'', ab_launchSupport = ''0xl'', ab_revenueNft = ''0xr'', ab_payoutPluginRegistry = ''0xp'',
     ab_protocolController = ''0xc'', ab_buybackAndBurnPlugin = None, ab_poolManager = ''0xm'', ab_stateView = None, ab_v4Quoter = None,
     ab_multicall3 = ''0x3'', ab_canonicalPayoutPlan = None, ab_hookSalt = None\<rparr>"

text \<open>A node that answers the economics only, and one that answers nothing.\<close>

definition noReader :: "'t reader" where
  "noReader chainId address name as = Inl (JsError ''down'')"

definition deadWorld :: world where
  "deadWorld = \<lparr>wd_books = Map.empty, wd_template = noReader, wd_economics = noReader, wd_pool = noReader, wd_slot0 = noReader,
     wd_entry = noReader, wd_uint = noReader, wd_address = noReader\<rparr>"

definition sampleWorld :: world where
  "sampleWorld = deadWorld\<lparr>wd_books := [8453 \<mapsto> sampleBook], wd_economics := (\<lambda>_ _ _ _. Inr sampleEconomics)\<rparr>"

lemma sampleWorld_economics: "economics_read sampleWorld 8453 = Inr sampleEconomics"
  by (simp add: economics_read_def hookRead_def bookOf_def sampleWorld_def bindR_def)

lemma deadWorld_economics: "economics_read deadWorld 8453 \<noteq> Inr v"
  by (simp add: economics_read_def hookRead_def bookOf_def deadWorld_def bindR_def Let_def)

theorem protocol_reads_fresh_witness:
  "\<exists>r. 2000 - (ECONOMICS_TTL_MS + 100) < r \<and> r \<le> 2000
     \<and> economics_read (if r \<le> 1000 then sampleWorld else deadWorld) 8453 = Inr sampleEconomics"
proof -
  let ?W = "\<lambda>r. if r \<le> 1000 then sampleWorld else deadWorld"
  let ?st = "setEconomics 1000 8453 sampleEconomics emptyCaches"
  have run: "serviceRun ?W 100 1000 ?st"
    by (rule run_economics [OF run_start, where r = 950 and clock = 0]) (simp_all add: sampleWorld_economics)
  have hit: "economicConfig 2000 deadWorld 2000 id 8453 ?st = (Inr sampleEconomics, ?st)"
    by (simp add: economicConfig_def readThrough_def cachedValue_def setEconomics_def ECONOMICS_TTL_MS_def)
  have "freshWithin ?W (ECONOMICS_TTL_MS + 100) 2000 deadWorld (\<lambda>u. economics_read u 8453 = Inr sampleEconomics)"
    using protocol_reads_fresh [OF run, of 2000 deadWorld 2000 id 8453] hit by simp
  then show ?thesis by (simp add: freshWithin_def deadWorld_economics)
qed

text \<open>The governance state of one chain answers for every other chain while it is cached.\<close>

lemma governance_crosses_chains:
  assumes "controllerState_read w c = Inr v" "cachedValue now (pc_controller st) = None" "now' < later + CONTROLLER_TTL_MS"
  shows "fst (controllerState now' w' later' m' c' (snd (controllerState now w later id c st))) = Inr v"
  using assms by (simp add: controllerState_def readThrough_def cachedValue_def setController_def)

text \<open>After an invalidation the next answer comes from the chain.\<close>

lemma invalidatePool_rereads:
  "fst (poolState now w later m c p (invalidatePool c p st)) = poolState_read w c p"
  by (simp add: poolState_def readThrough_def cachedValue_def invalidatePool_def Let_def split: sum.split)

end
