(* ===== verification/LaunchSignature.thy ===== *)
theory LaunchSignature
  imports Common
begin

text \<open>
  Model of the EIP-712 part of \<open>src/src/protocol/protocol-math.ts\<close> (lines 348 to 457).
  The functions of the \<open>viem\<close> package are the fields of a record \<open>viem\<close> that the definitions take as an
  argument; hexadecimal values are of an arbitrary type \<open>'h\<close>. The hypotheses of the binding lemmas are
  collision freedom of \<open>keccak256\<close> and the documented injectivity of the encodings; the ABI encoding of an
  address ignores the letter case of its text.
\<close>

datatype 'h abi_value =
    Abi_address string
  | Abi_bytes32 'h
  | Abi_uint256 int
  | Abi_uint64 int

record 'h viem =
  keccak256 :: "'h \<Rightarrow> 'h"
  toHex :: "string \<Rightarrow> 'h"
  encodeAbiParameters :: "'h abi_value list \<Rightarrow> 'h result"
  concatHex :: "'h list \<Rightarrow> 'h"
  hexLiteral :: "string \<Rightarrow> 'h"

record launch_config_input =
  cfg_creator :: string
  cfg_name :: string
  cfg_symbol :: string
  cfg_uri :: string
  cfg_totalSupply :: int
  cfg_devBuyShareWad :: int
  cfg_payoutPlan :: int
  cfg_deadline :: int

definition LAUNCH_CONFIG_TYPEHASH_STRING :: string where
  "LAUNCH_CONFIG_TYPEHASH_STRING =
     ''LaunchConfig(address creator,string name,string symbol,string uri,uint256 totalSupply,uint64 devBuyShareWad,uint256 payoutPlan,uint256 deadline)''"

definition EIP712_DOMAIN_TYPE :: string where
  "EIP712_DOMAIN_TYPE = ''EIP712Domain(string name,string version,uint256 chainId,address verifyingContract)''"

definition keccakUtf8 :: "'h viem \<Rightarrow> string \<Rightarrow> 'h" where
  "keccakUtf8 V value = keccak256 V (toHex V value)"

definition launchConfigHash :: "'h viem \<Rightarrow> launch_config_input \<Rightarrow> 'h result" where
  "launchConfigHash V config =
     bindR (encodeAbiParameters V
       [Abi_address (cfg_creator config),
        Abi_bytes32 (keccakUtf8 V (cfg_name config)),
        Abi_bytes32 (keccakUtf8 V (cfg_symbol config)),
        Abi_bytes32 (keccakUtf8 V (cfg_uri config)),
        Abi_uint256 (cfg_totalSupply config),
        Abi_uint64 (cfg_devBuyShareWad config),
        Abi_uint256 (cfg_payoutPlan config)]) (\<lambda>h. Inr (keccak256 V h))"

definition launchTokenSalt :: "'h viem \<Rightarrow> 'h \<Rightarrow> string \<Rightarrow> 'h result" where
  "launchTokenSalt V configHash creator =
     bindR (encodeAbiParameters V [Abi_bytes32 configHash, Abi_address creator]) (\<lambda>h. Inr (keccak256 V h))"

definition launchDigest :: "'h viem \<Rightarrow> launch_config_input \<Rightarrow> string \<Rightarrow> int \<Rightarrow> 'h result" where
  "launchDigest V config hookAddress chainId =
     bindR (encodeAbiParameters V
       [Abi_bytes32 (keccak256 V (toHex V EIP712_DOMAIN_TYPE)),
        Abi_bytes32 (keccak256 V (toHex V ''SpawnLaunchpad'')),
        Abi_bytes32 (keccak256 V (toHex V ''1'')),
        Abi_uint256 chainId,
        Abi_address hookAddress]) (\<lambda>domain.
     bindR (encodeAbiParameters V
       [Abi_bytes32 (keccak256 V (toHex V LAUNCH_CONFIG_TYPEHASH_STRING)),
        Abi_address (cfg_creator config),
        Abi_bytes32 (keccakUtf8 V (cfg_name config)),
        Abi_bytes32 (keccakUtf8 V (cfg_symbol config)),
        Abi_bytes32 (keccakUtf8 V (cfg_uri config)),
        Abi_uint256 (cfg_totalSupply config),
        Abi_uint64 (cfg_devBuyShareWad config),
        Abi_uint256 (cfg_payoutPlan config),
        Abi_uint256 (cfg_deadline config)]) (\<lambda>struct.
     Inr (keccak256 V (concatHex V [hexLiteral V ''0x1901'', keccak256 V domain, keccak256 V struct]))))"

section \<open>Binding\<close>

fun abiEquiv :: "'h abi_value \<Rightarrow> 'h abi_value \<Rightarrow> bool" where
  "abiEquiv (Abi_address a) (Abi_address b) = (toLowerCase a = toLowerCase b)"
| "abiEquiv x y = (x = y)"

text \<open>What the binding lemmas rely on of \<open>viem\<close>.\<close>

definition collisionFree :: "'h viem \<Rightarrow> bool" where
  "collisionFree V \<longleftrightarrow> inj (keccak256 V) \<and> inj (toHex V)
     \<and> (\<forall>xs ys h. encodeAbiParameters V xs = Inr h \<longrightarrow> encodeAbiParameters V ys = Inr h
          \<longrightarrow> length xs = length ys \<longrightarrow> list_all2 abiEquiv xs ys)
     \<and> (\<forall>p a b c d. concatHex V [p, keccak256 V a, keccak256 V b] = concatHex V [p, keccak256 V c, keccak256 V d]
          \<longrightarrow> keccak256 V a = keccak256 V c \<and> keccak256 V b = keccak256 V d)"

definition sameIdentity :: "launch_config_input \<Rightarrow> launch_config_input \<Rightarrow> bool" where
  "sameIdentity c d \<longleftrightarrow> toLowerCase (cfg_creator c) = toLowerCase (cfg_creator d) \<and> cfg_name c = cfg_name d \<and> cfg_symbol c = cfg_symbol d
     \<and> cfg_uri c = cfg_uri d \<and> cfg_totalSupply c = cfg_totalSupply d \<and> cfg_devBuyShareWad c = cfg_devBuyShareWad d
     \<and> cfg_payoutPlan c = cfg_payoutPlan d"

lemma collisionFree_keccak:
  assumes "collisionFree V"
  shows "keccak256 V a = keccak256 V b \<longleftrightarrow> a = b"
proof -
  have "inj (keccak256 V)" using assms unfolding collisionFree_def by blast
  then show ?thesis by (rule inj_eq)
qed

lemma collisionFree_utf8:
  assumes "collisionFree V"
  shows "keccakUtf8 V a = keccakUtf8 V b \<longleftrightarrow> a = b"
proof -
  have "inj (toHex V)" using assms unfolding collisionFree_def by blast
  then show ?thesis unfolding keccakUtf8_def collisionFree_keccak [OF assms] by (rule inj_eq)
qed

lemma collisionFree_encode:
  "collisionFree V \<Longrightarrow> encodeAbiParameters V xs = Inr h \<Longrightarrow> encodeAbiParameters V ys = Inr h \<Longrightarrow> length xs = length ys
   \<Longrightarrow> list_all2 abiEquiv xs ys"
  unfolding collisionFree_def by blast

lemma configHash_binds:
  assumes "collisionFree V" "launchConfigHash V c = Inr h" "launchConfigHash V d = Inr h"
  shows "sameIdentity c d"
proof -
  let ?S = "\<lambda>c. [Abi_address (cfg_creator c),
        Abi_bytes32 (keccakUtf8 V (cfg_name c)), Abi_bytes32 (keccakUtf8 V (cfg_symbol c)),
        Abi_bytes32 (keccakUtf8 V (cfg_uri c)), Abi_uint256 (cfg_totalSupply c), Abi_uint64 (cfg_devBuyShareWad c),
        Abi_uint256 (cfg_payoutPlan c)]"
  obtain x y where e: "encodeAbiParameters V (?S c) = Inr x" "encodeAbiParameters V (?S d) = Inr y"
    and h: "keccak256 V x = keccak256 V y"
    using assms(2,3) unfolding launchConfigHash_def bindR_eq_Inr_iff sum.inject by metis
  have "encodeAbiParameters V (?S d) = Inr x" using e(2) h collisionFree_keccak [OF assms(1)] by simp
  from collisionFree_encode [OF assms(1) e(1) this] have "list_all2 abiEquiv (?S c) (?S d)" by simp
  then show ?thesis using collisionFree_utf8 [OF assms(1)] by (simp add: sameIdentity_def)
qed

lemma digest_binds:
  assumes "collisionFree V" "launchDigest V c hook chain = Inr h" "launchDigest V d hook' chain' = Inr h"
  shows "sameIdentity c d \<and> cfg_deadline c = cfg_deadline d \<and> chain = chain' \<and> toLowerCase hook = toLowerCase hook'"
proof -
  let ?D = "\<lambda>chain hook. [Abi_bytes32 (keccak256 V (toHex V EIP712_DOMAIN_TYPE)),
        Abi_bytes32 (keccak256 V (toHex V ''SpawnLaunchpad'')), Abi_bytes32 (keccak256 V (toHex V ''1'')),
        Abi_uint256 chain, Abi_address hook]"
  let ?S = "\<lambda>c. [Abi_bytes32 (keccak256 V (toHex V LAUNCH_CONFIG_TYPEHASH_STRING)), Abi_address (cfg_creator c),
        Abi_bytes32 (keccakUtf8 V (cfg_name c)), Abi_bytes32 (keccakUtf8 V (cfg_symbol c)),
        Abi_bytes32 (keccakUtf8 V (cfg_uri c)), Abi_uint256 (cfg_totalSupply c), Abi_uint64 (cfg_devBuyShareWad c),
        Abi_uint256 (cfg_payoutPlan c), Abi_uint256 (cfg_deadline c)]"
  obtain x y x' y' where e: "encodeAbiParameters V (?D chain hook) = Inr x" "encodeAbiParameters V (?S c) = Inr y"
    "encodeAbiParameters V (?D chain' hook') = Inr x'" "encodeAbiParameters V (?S d) = Inr y'"
    and h: "concatHex V [hexLiteral V ''0x1901'', keccak256 V x, keccak256 V y]
      = concatHex V [hexLiteral V ''0x1901'', keccak256 V x', keccak256 V y']"
    using assms(2,3) collisionFree_keccak [OF assms(1)]
    unfolding launchDigest_def bindR_eq_Inr_iff sum.inject by metis
  have "keccak256 V x = keccak256 V x'" "keccak256 V y = keccak256 V y'"
    using assms(1) h unfolding collisionFree_def by blast+
  then have "x = x'" "y = y'" using collisionFree_keccak [OF assms(1)] by simp_all
  then have "list_all2 abiEquiv (?D chain hook) (?D chain' hook')" "list_all2 abiEquiv (?S c) (?S d)"
    using collisionFree_encode [OF assms(1) e(1), of "?D chain' hook'"] e(3)
      collisionFree_encode [OF assms(1) e(2), of "?S d"] e(4) by simp_all
  then show ?thesis using collisionFree_utf8 [OF assms(1)] by (simp add: sameIdentity_def)
qed

text \<open>A free term algebra satisfies the hypotheses.\<close>

datatype hex_term =
    Keccak hex_term
  | Hex string
  | Encoded "hex_term abi_value list"
  | Cat "hex_term list"
  | Literal string

definition symbolicViem :: "hex_term viem" where
  "symbolicViem = \<lparr>keccak256 = Keccak, toHex = Hex, encodeAbiParameters = (\<lambda>xs. Inr (Encoded xs)),
     concatHex = Cat, hexLiteral = Literal\<rparr>"

lemma abiEquiv_refl: "abiEquiv x x"
  by (cases x) simp_all

lemma symbolicViem_collisionFree: "collisionFree symbolicViem"
  unfolding collisionFree_def
proof (intro conjI allI impI)
  show "inj (keccak256 symbolicViem)" "inj (toHex symbolicViem)" by (simp_all add: symbolicViem_def inj_def)
  fix xs ys h
  assume "encodeAbiParameters symbolicViem xs = Inr h" "encodeAbiParameters symbolicViem ys = Inr h"
  then have "xs = ys" by (auto simp: symbolicViem_def)
  then show "list_all2 abiEquiv xs ys" by (simp add: list_all2_refl abiEquiv_refl)
qed (simp_all add: symbolicViem_def)

section \<open>Properties\<close>

text \<open>C33. The launch identity and the signed digest bind what they should: under collision freedom of the hash and
  of the encodings, equal config hashes (the CREATE2 salt input) mean configurations equal in every field but the
  deadline, which the hash ignores, and equal digests mean equal configurations, deadline included, signed for the
  same chain and the same hook contract.\<close>

theorem launch_signature_binding:
  assumes "collisionFree V"
  shows "(\<forall>h. launchConfigHash V c = Inr h \<and> launchConfigHash V d = Inr h \<longrightarrow> sameIdentity c d)
    \<and> launchConfigHash V (c\<lparr>cfg_deadline := t\<rparr>) = launchConfigHash V c
    \<and> (\<forall>h. launchDigest V c hook chain = Inr h \<and> launchDigest V d hook' chain' = Inr h
         \<longrightarrow> sameIdentity c d \<and> cfg_deadline c = cfg_deadline d \<and> chain = chain'
           \<and> toLowerCase hook = toLowerCase hook')"
proof (intro conjI allI impI)
  show "sameIdentity c d" if "launchConfigHash V c = Inr h \<and> launchConfigHash V d = Inr h" for h
    using configHash_binds [OF assms] that by blast
  show "launchConfigHash V (c\<lparr>cfg_deadline := t\<rparr>) = launchConfigHash V c" by (simp add: launchConfigHash_def)
  fix h assume "launchDigest V c hook chain = Inr h \<and> launchDigest V d hook' chain' = Inr h"
  with digest_binds [OF assms, of c hook chain h d hook' chain'] show "sameIdentity c d"
    "cfg_deadline c = cfg_deadline d" "chain = chain'" "toLowerCase hook = toLowerCase hook'" by simp_all
qed

definition sampleConfig :: launch_config_input where
  "sampleConfig = \<lparr>cfg_creator = ''0xabc'', cfg_name = ''Spawn'', cfg_symbol = ''SPN'', cfg_uri = ''ipfs://x'',
     cfg_totalSupply = 10 ^ 27, cfg_devBuyShareWad = 0, cfg_payoutPlan = 0, cfg_deadline = 1\<rparr>"

theorem launch_signature_binding_witness:
  "collisionFree symbolicViem
   \<and> launchConfigHash symbolicViem (sampleConfig\<lparr>cfg_deadline := 2\<rparr>) = launchConfigHash symbolicViem sampleConfig
   \<and> launchDigest symbolicViem (sampleConfig\<lparr>cfg_deadline := 2\<rparr>) ''0xa'' 1 \<noteq> launchDigest symbolicViem sampleConfig ''0xa'' 1"
proof -
  note b = launch_signature_binding [OF symbolicViem_collisionFree, of sampleConfig "sampleConfig\<lparr>cfg_deadline := 2\<rparr>"]
  obtain h where "launchDigest symbolicViem sampleConfig ''0xa'' 1 = Inr h"
    by (simp add: launchDigest_def symbolicViem_def)
  with b [of _ "''0xa''" 1 "''0xa''" 1] show ?thesis
    using symbolicViem_collisionFree by (auto simp: sampleConfig_def)
qed

end
