(* ===== verification/Launch.thy ===== *)
theory Launch
  imports SwapMath LaunchSignature CommentStore Auth
begin

text \<open>
  Model of \<open>src/src/modules/launch/\<close>: preparing a launch record, relaying it under the operator's key, watching the receipt,
  and the record queries. Arguments stand for what lies outside: viem (\<open>V\<close>), the registry of address books, the plugin
  registry and template read from the chain, the metadata storage, the address prediction, and the outcome of signing and
  broadcasting. Decimal columns are rationals with 18 fractional digits, which hold every share that \<open>prepare\<close> stores.
\<close>

section \<open>Validation of the request\<close>

definition MAX_DEV_BUY_SHARE_WAD :: int where [model_defs]: "MAX_DEV_BUY_SHARE_WAD = 100000000000000000"
definition FIXED_TOTAL_SUPPLY :: int where [model_defs]: "FIXED_TOTAL_SUPPLY = 1000000000000000000000000000"

text \<open>\<open>[whole, fraction = ''] = value.split('.')\<close>.\<close>

definition parseWad :: "string \<Rightarrow> int result" where
  "parseWad value =
     (let parts = splitChar CHR ''.'' value;
          fraction = (case parts of _ # f # _ \<Rightarrow> f | _ \<Rightarrow> []);
          fractionPadded = take 18 (fraction @ replicate 18 CHR ''0'')
      in bigIntText (hd parts @ fractionPadded))"

definition mulDivWad :: "int \<Rightarrow> int \<Rightarrow> int" where
  "mulDivWad a wad = (a * wad) sdiv 10 ^ 18"

definition wadDecimal :: "int \<Rightarrow> rat" where
  "wadDecimal value = of_int value / 10 ^ 18"

definition safeOpeningLevel :: "int \<Rightarrow> int \<Rightarrow> int result" where
  "safeOpeningLevel totalSupply openingFdvWei = (case openingLevel totalSupply openingFdvWei of
     Inr l \<Rightarrow> Inr l | Inl _ \<Rightarrow> Inl (DomainException 400 ''OPENING_LEVEL_OUT_OF_RANGE''))"

definition safeFarLevel :: "int \<Rightarrow> int \<Rightarrow> int result" where
  "safeFarLevel opening spanLevels = (case farLevel opening spanLevels of
     Inr l \<Rightarrow> Inr l | Inl _ \<Rightarrow> Inl (DomainException 400 ''FAR_LEVEL_OUT_OF_RANGE''))"

record plugin_entry =
  pg_takeWad :: int
  pg_role :: int
  pg_suspended :: bool

text \<open>The loop stops once nine bits are found.\<close>

fun planBits :: "int \<Rightarrow> nat list \<Rightarrow> nat list \<Rightarrow> nat list" where
  "planBits plan bits [] = bits"
| "planBits plan bits (i # is) =
     (if length bits > 8 then bits
      else planBits plan (if and (drop_bit i plan) 1 \<noteq> 0 then bits @ [i] else bits) is)"

fun checkEntries :: "(nat \<Rightarrow> plugin_entry result) \<Rightarrow> nat list \<Rightarrow> int \<Rightarrow> int result" where
  "checkEntries entry [] takesSum = Inr takesSum"
| "checkEntries entry (i # is) takesSum = bindR (entry i) (\<lambda>e.
     if pg_suspended e then Inl (DomainException 400 ''PAYOUT_PLAN_ENTRY_SUSPENDED'')
     else if pg_role e \<noteq> 1 then Inl (DomainException 400 ''PAYOUT_PLAN_ENTRY_NOT_SELECTABLE'')
     else checkEntries entry is (takesSum + pg_takeWad e))"

definition validatePayoutPlan :: "(nat \<Rightarrow> plugin_entry result) \<Rightarrow> int \<Rightarrow> unit result" where
  "validatePayoutPlan entry payoutPlan =
     (if payoutPlan = 0 then Inr ()
      else
        let bits = planBits payoutPlan [] [0..<256] in
        if length bits > 8 then Inl (DomainException 400 ''PAYOUT_PLAN_TOO_MANY_PLUGINS'')
        else bindR (checkEntries entry bits 0) (\<lambda>takesSum.
          if takesSum > 10 ^ 18 then Inl (DomainException 400 ''PAYOUT_TAKES_ABOVE_WAD'') else Inr ()))"

section \<open>Records\<close>

datatype launch_state = PENDING_RELAY | SUBMITTED | CONFIRMED | REORGED | LAUNCH_FAILED

record 'h launch_record =
  lr_id :: string
  lr_chainId :: int
  lr_creatorWallet :: string
  lr_name :: string
  lr_symbol :: string
  lr_uri :: string
  lr_description :: string
  lr_imageUri :: string
  lr_ipfsUri :: string
  lr_gatewayUrl :: string
  lr_socials :: "string option"
  lr_totalSupply :: rat
  lr_devBuyShareWad :: rat
  lr_payoutPlan :: rat
  lr_deadline :: int
  lr_configHash :: 'h
  lr_predictedToken :: string
  lr_digest :: 'h
  lr_state :: launch_state
  lr_transactionHash :: "string option"
  lr_blockNumber :: "int option"
  lr_failureReason :: "string option"
  lr_tokenDbId :: "string option"
  lr_createdAt :: int

record 'h launch_db =
  ld_records :: "'h launch_record list"
  ld_idempotency :: "string \<times> string \<times> string \<rightharpoonup> idempotency_row"

definition findLaunch :: "'h launch_db \<Rightarrow> string \<Rightarrow> 'h launch_record option" where
  "findLaunch db i = List.find (\<lambda>r. lr_id r = i) (ld_records db)"

definition findByConfig :: "'h launch_db \<Rightarrow> int \<Rightarrow> 'h \<Rightarrow> string \<Rightarrow> 'h launch_record option" where
  "findByConfig db chainId configHash creator =
     List.find (\<lambda>r. lr_chainId r = chainId \<and> lr_configHash r = configHash \<and> lr_creatorWallet r = creator) (ld_records db)"

definition updateLaunch :: "string \<Rightarrow> ('h launch_record \<Rightarrow> 'h launch_record) \<Rightarrow> 'h launch_db \<Rightarrow> 'h launch_db" where
  "updateLaunch i f db = db\<lparr>ld_records := map (\<lambda>r. if lr_id r = i then f r else r) (ld_records db)\<rparr>"

section \<open>Preparing\<close>

record launch_input =
  li_creatorWalletAddress :: string
  li_name :: string
  li_symbol :: string
  li_description :: string
  li_imageUri :: string
  li_socials :: "string option"
  li_totalSupply :: string
  li_devBuyShareWad :: string
  li_payoutPlan :: string
  li_deadline :: int

record template_view =
  tv_openingFdvWei :: int
  tv_curvePositions :: int
  tv_curveSpanLevels :: int
  tv_curveSupplyShareWad :: int
  tv_tradingFeeHundredthsBip :: int

text \<open>What one request sees: \<open>pe_books\<close> the hook of each known chain, \<open>pe_upload\<close> the URIs of the uploaded metadata.\<close>

record prepare_env =
  pe_chainId :: int
  pe_books :: "int \<Rightarrow> string option"
  pe_entry :: "nat \<Rightarrow> plugin_entry result"
  pe_upload :: "launch_input \<Rightarrow> (string \<times> string) result"
  pe_template :: "template_view result"
  pe_predictToken :: "launch_config_input \<Rightarrow> string result"
  pe_newId :: string
  pe_now :: int

record 'h prepare_response =
  pr_launchId :: string
  pr_config :: launch_config_input
  pr_configHash :: 'h
  pr_digest :: 'h
  pr_predictedToken :: string
  pr_openingLevel :: int
  pr_farLevel :: int
  pr_devBuyQuote :: "(int \<times> int \<times> int \<times> int) option"
  pr_metadata :: "string \<times> string"

text \<open>Tokens out, cost, suggested value (five percent above the cost) and end level.\<close>

definition presentQuote :: "dev_buy_quote \<Rightarrow> int \<times> int \<times> int \<times> int" where
  "presentQuote q = (tokensOut q, ethCost q, (ethCost q * 105) sdiv 100, endLevel q)"

definition upsertLaunch :: "string \<Rightarrow> int \<Rightarrow> int \<Rightarrow> launch_input \<Rightarrow> launch_config_input \<Rightarrow> string \<times> string \<Rightarrow> 'h \<Rightarrow> 'h \<Rightarrow> string
    \<Rightarrow> 'h launch_db \<Rightarrow> string \<times> 'h launch_db" where
  "upsertLaunch newId now chainId input config metadata configHash digest predictedToken db =
     (case findByConfig db chainId configHash (cfg_creator config) of
        Some existing \<Rightarrow> (lr_id existing, updateLaunch (lr_id existing) (\<lambda>r. r\<lparr>lr_name := li_name input, lr_symbol := li_symbol input,
          lr_uri := cfg_uri config, lr_description := li_description input, lr_imageUri := li_imageUri input, lr_ipfsUri := fst metadata,
          lr_gatewayUrl := snd metadata, lr_socials := li_socials input, lr_deadline := li_deadline input, lr_digest := digest,
          lr_predictedToken := predictedToken\<rparr>) db)
      | None \<Rightarrow> (newId, db\<lparr>ld_records := ld_records db @ [\<lparr>lr_id = newId, lr_chainId = chainId, lr_creatorWallet = cfg_creator config,
          lr_name = li_name input, lr_symbol = li_symbol input, lr_uri = cfg_uri config, lr_description = li_description input,
          lr_imageUri = li_imageUri input, lr_ipfsUri = fst metadata, lr_gatewayUrl = snd metadata, lr_socials = li_socials input,
          lr_totalSupply = of_int (cfg_totalSupply config), lr_devBuyShareWad = wadDecimal (cfg_devBuyShareWad config),
          lr_payoutPlan = of_int (cfg_payoutPlan config), lr_deadline = li_deadline input, lr_configHash = configHash,
          lr_predictedToken = predictedToken, lr_digest = digest, lr_state = PENDING_RELAY, lr_transactionHash = None,
          lr_blockNumber = None, lr_failureReason = None, lr_tokenDbId = None, lr_createdAt = now\<rparr>]\<rparr>))"

definition prepare :: "'h viem \<Rightarrow> prepare_env \<Rightarrow> launch_input \<Rightarrow> 'h launch_db \<Rightarrow> ('h prepare_response \<times> 'h launch_db) result" where
  "prepare V env input db =
     (let chainId = pe_chainId env in
      case pe_books env chainId of
        None \<Rightarrow> Inl (DomainException 503 ''PROTOCOL_NOT_DEPLOYED'')
      | Some hook \<Rightarrow>
          let creator = toLowerCase (li_creatorWalletAddress input) in
          bindR (bigIntText (li_totalSupply input)) (\<lambda>totalSupply.
          bindR (parseWad (li_devBuyShareWad input)) (\<lambda>devBuyShareWad.
          bindR (bigIntText (li_payoutPlan input)) (\<lambda>payoutPlan.
          if totalSupply \<noteq> FIXED_TOTAL_SUPPLY then Inl (DomainException 400 ''SUPPLY_NOT_FIXED'')
          else if devBuyShareWad > MAX_DEV_BUY_SHARE_WAD then Inl (DomainException 400 ''DEV_BUY_ABOVE_CAP'')
          else
            bindR (validatePayoutPlan (pe_entry env) payoutPlan) (\<lambda>_.
            case pe_upload env input of
              Inl _ \<Rightarrow> Inl (DomainException 503 ''METADATA_UPLOAD_FAILED'')
            | Inr metadata \<Rightarrow>
                bindR (pe_template env) (\<lambda>template.
                bindR (safeOpeningLevel totalSupply (tv_openingFdvWei template)) (\<lambda>opening.
                bindR (safeFarLevel opening (tv_curveSpanLevels template)) (\<lambda>far.
                bindR (if devBuyShareWad > 0
                    then bindR (devBuyQuote totalSupply devBuyShareWad opening far (tv_curvePositions template)
                        (mulDivWad totalSupply (tv_curveSupplyShareWad template)) (tv_tradingFeeHundredthsBip template))
                      (\<lambda>q. Inr (Some (presentQuote q)))
                    else Inr None) (\<lambda>devBuy.
                let config = \<lparr>cfg_creator = creator, cfg_name = li_name input, cfg_symbol = li_symbol input, cfg_uri = snd metadata,
                      cfg_totalSupply = totalSupply, cfg_devBuyShareWad = devBuyShareWad, cfg_payoutPlan = payoutPlan,
                      cfg_deadline = li_deadline input\<rparr> in
                bindR (launchConfigHash V config) (\<lambda>configHash.
                bindR (launchDigest V config hook chainId) (\<lambda>digest.
                bindR (pe_predictToken env config) (\<lambda>address.
                let predictedToken = toLowerCase address;
                    (launchId, db') = upsertLaunch (pe_newId env) (pe_now env) chainId input config metadata configHash digest predictedToken db
                in Inr (\<lparr>pr_launchId = launchId, pr_config = config, pr_configHash = configHash, pr_digest = digest,
                     pr_predictedToken = predictedToken, pr_openingLevel = opening, pr_farLevel = far, pr_devBuyQuote = devBuy,
                     pr_metadata = metadata\<rparr>, db')))))))))))))"

section \<open>Relaying\<close>

text \<open>\<open>decimalToBig\<close>: a column with a fractional part throws.\<close>

definition decimalToBig :: "rat \<Rightarrow> int result" where
  "decimalToBig value = (if of_int \<lfloor>value\<rfloor> = value then Inr \<lfloor>value\<rfloor> else Inl (JsError ''non-integer decimal''))"

definition wadToBig :: "rat \<Rightarrow> int result" where
  "wadToBig share = (let x = share * 10 ^ 18 in if of_int \<lfloor>x\<rfloor> = x then Inr \<lfloor>x\<rfloor> else Inl SyntaxError)"

definition relayConfig :: "'h launch_record \<Rightarrow> launch_config_input result" where
  "relayConfig r =
     bindR (decimalToBig (lr_totalSupply r)) (\<lambda>totalSupply.
     bindR (wadToBig (lr_devBuyShareWad r)) (\<lambda>devBuyShareWad.
     bindR (decimalToBig (lr_payoutPlan r)) (\<lambda>payoutPlan.
     Inr \<lparr>cfg_creator = toLowerCase (lr_creatorWallet r), cfg_name = lr_name r, cfg_symbol = lr_symbol r, cfg_uri = lr_uri r,
       cfg_totalSupply = totalSupply, cfg_devBuyShareWad = devBuyShareWad, cfg_payoutPlan = payoutPlan, cfg_deadline = lr_deadline r\<rparr>)))"

record 'h relay_response =
  rr_launchId :: string
  rr_state :: launch_state
  rr_transactionHash :: "string option"
  rr_predictedToken :: string
  rr_configHash :: 'h

definition presentRelay :: "'h launch_record \<Rightarrow> 'h relay_response" where
  "presentRelay r = \<lparr>rr_launchId = lr_id r, rr_state = lr_state r, rr_transactionHash = lr_transactionHash r,
     rr_predictedToken = lr_predictedToken r, rr_configHash = lr_configHash r\<rparr>"

text \<open>\<open>re_send\<close> signs and broadcasts a configuration to a hook on a chain; \<open>re_trustedOperator\<close> is the stored protocol state.
  \<open>re_hash\<close> is \<open>requestHash(JSON.stringify({ launchId }))\<close>, \<open>re_message\<close> the message of an exception.\<close>

record relay_env =
  re_now :: int
  re_operatorConfigured :: bool
  re_books :: "int \<Rightarrow> string option"
  re_trustedOperator :: "int \<Rightarrow> string option"
  re_hash :: "string \<Rightarrow> string"
  re_message :: "exn \<Rightarrow> string"
  re_send :: "launch_config_input \<Rightarrow> string \<Rightarrow> int \<Rightarrow> string result"

definition RELAY_SCOPE :: string where "RELAY_SCOPE = ''POST:/api/v1/launch/relay''"
definition ZERO_ADDRESS :: string where "ZERO_ADDRESS = ''0x'' @ replicate 40 CHR ''0''"

definition relayExisting :: "'h launch_db \<Rightarrow> idempotency_row \<Rightarrow> string \<Rightarrow> ('h relay_response \<times> bool) result" where
  "relayExisting db existing hash =
     (case (if idm_state existing = COMPLETED then Option.bind (idm_resourceId existing) (findLaunch db) else None) of
        Some completed \<Rightarrow> Inr (presentRelay completed, True)
      | None \<Rightarrow> if idm_requestHash existing \<noteq> hash then Inl (DomainException 409 ''IDEMPOTENCY_KEY_REUSED'')
          else Inl (DomainException 409 ''REQUEST_IN_PROGRESS''))"

definition markSubmitted :: "string \<Rightarrow> 'h launch_record \<Rightarrow> 'h launch_record" where
  "markSubmitted hash r = r\<lparr>lr_state := SUBMITTED, lr_transactionHash := Some hash\<rparr>"

definition markFailed :: "string \<Rightarrow> 'h launch_record \<Rightarrow> 'h launch_record" where
  "markFailed reason r = r\<lparr>lr_state := LAUNCH_FAILED, lr_failureReason := Some reason\<rparr>"

text \<open>The result, the database, and the configuration that was broadcast, if any. \<open>reserved\<close> is what other requests commit
  between the lookup of the key and its reservation, \<open>meanwhile\<close> what they commit during the broadcast.\<close>

definition relay :: "'h viem \<Rightarrow> relay_env \<Rightarrow> ('h launch_db \<Rightarrow> 'h launch_db) \<Rightarrow> ('h launch_db \<Rightarrow> 'h launch_db) \<Rightarrow> string \<Rightarrow> string \<Rightarrow> 'h launch_db
    \<Rightarrow> ('h relay_response \<times> bool) result \<times> 'h launch_db \<times> (launch_config_input \<times> string \<times> int) option" where
  "relay V env reserved meanwhile launchId idempotencyKey db = (case findLaunch db launchId of
     None \<Rightarrow> (Inl (DomainException 404 ''LAUNCH_RECORD_NOT_FOUND''), db, None)
   | Some r \<Rightarrow>
       if lr_state r = SUBMITTED \<or> lr_state r = CONFIRMED then (Inr (presentRelay r, True), db, None)
       else if \<not> re_operatorConfigured env then (Inl (DomainException 503 ''OPERATOR_NOT_CONFIGURED''), db, None)
       else
         let idem = (RELAY_SCOPE, toLowerCase (lr_creatorWallet r), idempotencyKey); hash = re_hash env launchId in
         case ld_idempotency db idem of
           Some existing \<Rightarrow> (relayExisting db existing hash, db, None)
         | None \<Rightarrow>
             let db1 = reserved db in
             if ld_idempotency db1 idem \<noteq> None then (Inl (PrismaError ''P2002''), db1, None)
             else
               let db2 = db1\<lparr>ld_idempotency := (ld_idempotency db1)(idem \<mapsto> \<lparr>idm_requestHash = hash, idm_state = IN_PROGRESS,
                     idm_responseStatus = None, idm_resourceId = None, idm_expiresAt = re_now env + 24 * 3600 * 1000\<rparr>)\<rparr> in
               case re_books env (lr_chainId r) of
                 None \<Rightarrow> (Inl (DomainException 503 ''PROTOCOL_NOT_DEPLOYED''), db2, None)
               | Some hook \<Rightarrow> (case bindR (relayConfig r) (\<lambda>config. bindR (launchConfigHash V config) (\<lambda>_. Inr config)) of
                   Inl e \<Rightarrow> (Inl e, db2, None)
                 | Inr config \<Rightarrow>
                     if re_trustedOperator env (lr_chainId r) = Some ZERO_ADDRESS then (Inl (DomainException 503 ''RELAY_DISABLED''), db2, None)
                     else case bindR (launchDigest V config hook (lr_chainId r)) (\<lambda>_. re_send env config hook (lr_chainId r)) of
                       Inr txHash \<Rightarrow>
                         let db3 = updateLaunch (lr_id r) (markSubmitted txHash) (meanwhile db2);
                             db4 = db3\<lparr>ld_idempotency := (ld_idempotency db3)(idem := map_option (\<lambda>row.
                               row\<lparr>idm_state := COMPLETED, idm_responseStatus := Some 202, idm_resourceId := Some (lr_id r)\<rparr>) (ld_idempotency db3 idem))\<rparr>
                         in (case findLaunch db3 (lr_id r) of
                               Some updated \<Rightarrow> (Inr (presentRelay updated, False), db4, Some (config, hook, lr_chainId r))
                             | None \<Rightarrow> (Inl (PrismaError ''P2025''), meanwhile db2, Some (config, hook, lr_chainId r)))
                     | Inl e \<Rightarrow> (Inl (DomainException 502 ''LAUNCH_BROADCAST_FAILED''),
                         updateLaunch (lr_id r) (markFailed (take 1000 (re_message env e))) (meanwhile db2), None)))"

text \<open>The receipt: a block number on success, a failed record on a revert; errors of the wait are only logged.\<close>

definition watchReceipt :: "string \<Rightarrow> (bool \<times> int) result \<Rightarrow> 'h launch_db \<Rightarrow> 'h launch_db" where
  "watchReceipt launchId receipt db = (case receipt of
     Inl _ \<Rightarrow> db
   | Inr (success, block) \<Rightarrow>
       if success then updateLaunch launchId (\<lambda>r. r\<lparr>lr_blockNumber := Some block\<rparr>) db
       else updateLaunch launchId (markFailed ''transaction reverted on chain'') db)"


section \<open>Queries\<close>

text \<open>\<open>joined\<close> is the token row of an id: its address, and the id and status of its pool if it has one.\<close>

definition onchainOf :: "(string \<Rightarrow> (string option \<times> (string \<times> string) option) option) \<Rightarrow> 'h launch_record \<Rightarrow> (string option \<times> string \<times> string) option" where
  "onchainOf joined r = (case Option.bind (lr_tokenDbId r) joined of
     Some (address, Some (poolId, status)) \<Rightarrow> Some (address, poolId, status)
   | _ \<Rightarrow> None)"

definition launchRecordOf :: "(string \<Rightarrow> (string option \<times> (string \<times> string) option) option) \<Rightarrow> string \<Rightarrow> 'h launch_db
    \<Rightarrow> ('h launch_record \<times> (string option \<times> string \<times> string) option) result" where
  "launchRecordOf joined launchId db = (case findLaunch db launchId of
     None \<Rightarrow> Inl (NotFoundException ''LAUNCH_RECORD_NOT_FOUND'')
   | Some r \<Rightarrow> Inr (r, onchainOf joined r))"

record launch_query =
  lq_creator :: "string option"
  lq_state :: "launch_state option"
  lq_chainId :: "int option"
  lq_page :: "int option"
  lq_limit :: "int option"

definition launchMatches :: "int \<Rightarrow> launch_query \<Rightarrow> 'h launch_record \<Rightarrow> bool" where
  "launchMatches fallback query r \<longleftrightarrow> lr_chainId r = resolveChainId fallback (lq_chainId query)
     \<and> (case lq_creator query of Some c \<Rightarrow> c = [] \<or> lr_creatorWallet r = toLowerCase c | None \<Rightarrow> True)
     \<and> (case lq_state query of Some st \<Rightarrow> lr_state r = st | None \<Rightarrow> True)"

definition launchRecords :: "(string \<Rightarrow> (string option \<times> (string \<times> string) option) option) \<Rightarrow> int \<Rightarrow> launch_query \<Rightarrow> 'h launch_db
    \<Rightarrow> ('h launch_record \<times> (string option \<times> string \<times> string) option) list \<times> page_meta" where
  "launchRecords joined fallback query db =
     (let page = max (case lq_page query of Some p \<Rightarrow> p | None \<Rightarrow> 1) 1;
          limit = min (max (case lq_limit query of Some l \<Rightarrow> l | None \<Rightarrow> 20) 1) 100;
          matching = filter (launchMatches fallback query) (ld_records db);
          rows = pageRows page limit (sort_key (\<lambda>r. - lr_createdAt r) matching)
      in (map (\<lambda>r. (r, onchainOf joined r)) rows, pageMeta page limit (int (length matching))))"

text \<open>The states that the query parameter may name: \<open>None\<close> is a text that is no state of the table, which the database refuses.\<close>

definition LAUNCH_RECORD_STATES :: "(string \<times> launch_state option) list" where
  "LAUNCH_RECORD_STATES = [(''PENDING_SIGNATURE'', None), (''SUBMITTED'', Some SUBMITTED), (''CONFIRMED'', Some CONFIRMED),
     (''REORGED'', Some REORGED), (''FAILED'', Some LAUNCH_FAILED)]"

section \<open>Records keep what was prepared\<close>

text \<open>The configuration the relay rebuilds from a record is the one whose hash and digest the record shows, and it was validated.\<close>

definition recordOk :: "'h viem \<Rightarrow> (int \<Rightarrow> string option) \<Rightarrow> 'h launch_record \<Rightarrow> bool" where
  "recordOk V books r \<longleftrightarrow> (\<exists>config hook. relayConfig r = Inr config \<and> books (lr_chainId r) = Some hook
     \<and> lr_creatorWallet r = toLowerCase (lr_creatorWallet r)
     \<and> launchConfigHash V config = Inr (lr_configHash r) \<and> launchDigest V config hook (lr_chainId r) = Inr (lr_digest r)
     \<and> cfg_totalSupply config = FIXED_TOTAL_SUPPLY \<and> cfg_devBuyShareWad config \<le> MAX_DEV_BUY_SHARE_WAD)"

definition launchDbOk :: "'h viem \<Rightarrow> (int \<Rightarrow> string option) \<Rightarrow> 'h launch_db \<Rightarrow> bool" where
  "launchDbOk V books db \<longleftrightarrow> (\<forall>r\<in>set (ld_records db). recordOk V books r) \<and> distinct (map lr_id (ld_records db))"

definition withProgress :: "launch_state \<Rightarrow> string option \<Rightarrow> int option \<Rightarrow> string option \<Rightarrow> 'h launch_record \<Rightarrow> 'h launch_record" where
  "withProgress st tx block reason r = r\<lparr>lr_state := st, lr_transactionHash := tx, lr_blockNumber := block, lr_failureReason := reason\<rparr>"

inductive launchReachable :: "'h viem \<Rightarrow> (int \<Rightarrow> string option) \<Rightarrow> 'h launch_db \<Rightarrow> bool" for V books where
  start: "launchReachable V books \<lparr>ld_records = [], ld_idempotency = keys\<rparr>"
| prepared: "launchReachable V books db \<Longrightarrow> pe_books env = books \<Longrightarrow> pe_newId env \<notin> lr_id ` set (ld_records db)
    \<Longrightarrow> prepare V env input db = Inr (response, db') \<Longrightarrow> launchReachable V books db'"
| keys: "launchReachable V books db \<Longrightarrow> launchReachable V books (db\<lparr>ld_idempotency := keys\<rparr>)"
| progress: "launchReachable V books db
    \<Longrightarrow> launchReachable V books (updateLaunch i (\<lambda>r. withProgress (st r) (tx r) (block r) (reason r) r) db)"

lemma decimalToBig_int [simp]: "decimalToBig (of_int x) = Inr x"
  by (simp add: decimalToBig_def)

lemma wadToBig_wadDecimal [simp]: "wadToBig (wadDecimal x) = Inr x"
  by (simp add: wadToBig_def wadDecimal_def)

lemma relayConfig_progress [simp]: "relayConfig (withProgress st tx block reason r) = relayConfig r"
  by (simp add: relayConfig_def withProgress_def)

lemma recordOk_progress [simp]: "recordOk V books (withProgress st tx block reason r) = recordOk V books r"
  unfolding recordOk_def relayConfig_progress by (simp add: withProgress_def)

text \<open>A successful preparation: the configuration, its validation and its hashes.\<close>

lemma prepare_Inr:
  assumes "prepare V env input db = Inr (response, db')"
  obtains config hook metadata where "pe_books env (pe_chainId env) = Some hook"
    "cfg_creator config = toLowerCase (li_creatorWalletAddress input)" "cfg_name config = li_name input" "cfg_symbol config = li_symbol input"
    "cfg_deadline config = li_deadline input"
    "cfg_totalSupply config = FIXED_TOTAL_SUPPLY" "cfg_devBuyShareWad config \<le> MAX_DEV_BUY_SHARE_WAD"
    "validatePayoutPlan (pe_entry env) (cfg_payoutPlan config) = Inr ()"
    "launchConfigHash V config = Inr (pr_configHash response)" "launchDigest V config hook (pe_chainId env) = Inr (pr_digest response)"
    "(pr_launchId response, db') = upsertLaunch (pe_newId env) (pe_now env) (pe_chainId env) input config metadata (pr_configHash response) (pr_digest response)
       (pr_predictedToken response) db"
proof -
  obtain hook where h: "pe_books env (pe_chainId env) = Some hook"
    using assms by (cases "pe_books env (pe_chainId env)") (simp_all add: prepare_def)
  obtain ts sh pl where "bigIntText (li_totalSupply input) = Inr ts" "parseWad (li_devBuyShareWad input) = Inr sh"
      "bigIntText (li_payoutPlan input) = Inr pl"
    using assms h unfolding prepare_def Let_def by (auto simp: bindR_eq_Inr_iff)
  note parsed = this
  have v: "ts = FIXED_TOTAL_SUPPLY" "sh \<le> MAX_DEV_BUY_SHARE_WAD" "validatePayoutPlan (pe_entry env) pl = Inr ()"
    using assms h parsed unfolding prepare_def Let_def by (auto simp: bindR_eq_Inr_iff split: if_splits)
  then have nv: "\<not> sh > MAX_DEV_BUY_SHARE_WAD" by simp
  obtain metadata where m: "pe_upload env input = Inr metadata"
    using assms h parsed v nv unfolding prepare_def Let_def by (cases "pe_upload env input") simp_all
  define config where "config = \<lparr>cfg_creator = toLowerCase (li_creatorWalletAddress input), cfg_name = li_name input, cfg_symbol = li_symbol input,
    cfg_uri = snd metadata, cfg_totalSupply = ts, cfg_devBuyShareWad = sh, cfg_payoutPlan = pl, cfg_deadline = li_deadline input\<rparr>"
  have "launchConfigHash V config = Inr (pr_configHash response) \<and> launchDigest V config hook (pe_chainId env) = Inr (pr_digest response)
    \<and> (pr_launchId response, db') = upsertLaunch (pe_newId env) (pe_now env) (pe_chainId env) input config metadata (pr_configHash response) (pr_digest response)
       (pr_predictedToken response) db"
    using assms h parsed v nv m unfolding prepare_def Let_def config_def
    by (auto simp: bindR_eq_Inr_iff case_prod_unfold)
  then show ?thesis using that [of hook config metadata] h v by (simp add: config_def)
qed

lemma relayConfig_Inr:
  "relayConfig r = Inr c \<longleftrightarrow> decimalToBig (lr_totalSupply r) = Inr (cfg_totalSupply c) \<and> wadToBig (lr_devBuyShareWad r) = Inr (cfg_devBuyShareWad c)
     \<and> decimalToBig (lr_payoutPlan r) = Inr (cfg_payoutPlan c) \<and> cfg_creator c = toLowerCase (lr_creatorWallet r) \<and> cfg_name c = lr_name r
     \<and> cfg_symbol c = lr_symbol r \<and> cfg_uri c = lr_uri r \<and> cfg_deadline c = lr_deadline r"
  by (cases c) (auto simp: relayConfig_def bindR_eq_Inr_iff)

lemma find_Some_mem: "List.find P xs = Some x \<Longrightarrow> x \<in> set xs \<and> P x"
  by (auto simp: find_Some_iff)

lemma updateLaunch_ids:
  "(\<And>r. lr_id (f r) = lr_id r) \<Longrightarrow> map lr_id (ld_records (updateLaunch i f db)) = map lr_id (ld_records db)"
  by (simp add: updateLaunch_def)

lemma upsertLaunch_ok:
  assumes ok: "launchDbOk V books db" and V: "collisionFree V" and fresh: "newId \<notin> lr_id ` set (ld_records db)"
    and hook: "books chainId = Some hook"
    and c: "cfg_creator config = toLowerCase w" "cfg_name config = li_name input" "cfg_symbol config = li_symbol input"
      "cfg_deadline config = li_deadline input" "cfg_totalSupply config = FIXED_TOTAL_SUPPLY" "cfg_devBuyShareWad config \<le> MAX_DEV_BUY_SHARE_WAD"
    and h: "launchConfigHash V config = Inr configHash" "launchDigest V config hook chainId = Inr digest"
  shows "launchDbOk V books (snd (upsertLaunch newId now chainId input config metadata configHash digest predictedToken db))"
proof (cases "findByConfig db chainId configHash (cfg_creator config)")
  case None
  have "recordOk V books r" if "relayConfig r = Inr config" "lr_chainId r = chainId" "lr_creatorWallet r = cfg_creator config"
      "lr_configHash r = configHash" "lr_digest r = digest" for r
    unfolding recordOk_def using that hook c h toLowerCase_idem by auto
  then show ?thesis using None ok fresh c
    by (auto simp: upsertLaunch_def launchDbOk_def relayConfig_Inr toLowerCase_idem)
next
  case (Some existing)
  then have e: "existing \<in> set (ld_records db)" "lr_chainId existing = chainId" "lr_configHash existing = configHash"
      "lr_creatorWallet existing = cfg_creator config"
    unfolding findByConfig_def using find_Some_mem by fastforce+
  obtain c0 where c0: "relayConfig existing = Inr c0" "launchConfigHash V c0 = Inr configHash"
    using ok e(1,3) unfolding launchDbOk_def recordOk_def by metis
  have same: "sameIdentity c0 config" by (rule configHash_binds [OF V c0(2) h(1)])
  define f where "f = (\<lambda>r :: 'a launch_record. r\<lparr>lr_name := li_name input, lr_symbol := li_symbol input,
          lr_uri := cfg_uri config, lr_description := li_description input, lr_imageUri := li_imageUri input, lr_ipfsUri := fst metadata,
          lr_gatewayUrl := snd metadata, lr_socials := li_socials input, lr_deadline := li_deadline input, lr_digest := digest,
          lr_predictedToken := predictedToken\<rparr>)"
  have fs: "lr_id (f r) = lr_id r" "lr_chainId (f existing) = chainId" "lr_configHash (f existing) = configHash" "lr_digest (f existing) = digest"
      "lr_creatorWallet (f existing) = cfg_creator config" for r
    using e by (simp_all add: f_def)
  have "relayConfig (f existing) = Inr config"
    using c0(1) same c e(4) toLowerCase_idem unfolding relayConfig_Inr sameIdentity_def by (simp add: f_def)
  then have new: "recordOk V books (f existing)" unfolding recordOk_def fs using hook c h toLowerCase_idem by auto
  have "recordOk V books r'" if "r' \<in> set (map (\<lambda>r. if lr_id r = lr_id existing then f r else r) (ld_records db))" for r'
  proof -
    from that have "r' \<in> (\<lambda>r. if lr_id r = lr_id existing then f r else r) ` set (ld_records db)" by simp
    then obtain r where r: "r \<in> set (ld_records db)" "r' = (if lr_id r = lr_id existing then f r else r)" by (rule imageE)
    show ?thesis
    proof (cases "lr_id r = lr_id existing")
      case True
      then have "r = existing" using r(1) e(1) ok unfolding launchDbOk_def by (meson distinct_map inj_onD)
      then show ?thesis using new r by simp
    next
      case False
      then show ?thesis using r ok unfolding launchDbOk_def by simp
    qed
  qed
  moreover have "map (lr_id \<circ> (\<lambda>r. if lr_id r = lr_id existing then f r else r)) (ld_records db) = map lr_id (ld_records db)"
    by (rule map_cong) (simp_all add: fs)
  moreover have "ld_records (snd (upsertLaunch newId now chainId input config metadata configHash digest predictedToken db))
      = map (\<lambda>r. if lr_id r = lr_id existing then f r else r) (ld_records db)"
    using Some by (simp add: upsertLaunch_def updateLaunch_def f_def)
  ultimately show ?thesis using ok unfolding launchDbOk_def by (metis map_map)
qed

lemma launchReachable_ok:
  assumes "launchReachable V books db" "collisionFree V"
  shows "launchDbOk V books db"
  using assms(1)
proof (induction rule: launchReachable.induct)
  case (start keys)
  then show ?case by (simp add: launchDbOk_def)
next
  case (prepared db env input response db')
  obtain config hook metadata where p: "pe_books env (pe_chainId env) = Some hook"
    "cfg_creator config = toLowerCase (li_creatorWalletAddress input)" "cfg_name config = li_name input" "cfg_symbol config = li_symbol input"
    "cfg_deadline config = li_deadline input"
    "cfg_totalSupply config = FIXED_TOTAL_SUPPLY" "cfg_devBuyShareWad config \<le> MAX_DEV_BUY_SHARE_WAD"
    "launchConfigHash V config = Inr (pr_configHash response)" "launchDigest V config hook (pe_chainId env) = Inr (pr_digest response)"
    "(pr_launchId response, db') = upsertLaunch (pe_newId env) (pe_now env) (pe_chainId env) input config metadata (pr_configHash response) (pr_digest response)
       (pr_predictedToken response) db"
    by (rule prepare_Inr [OF prepared.hyps(4)])
  from upsertLaunch_ok [OF prepared.IH assms(2) prepared.hyps(3) p(1) [unfolded prepared.hyps(2)] p(2-9), of "pe_now env" metadata "pr_predictedToken response"]
  show ?case using p(10) by (metis snd_conv)
next
  case (keys db keys)
  then show ?case by (simp add: launchDbOk_def)
next
  case (progress db i st tx block reason)
  have "map lr_id (ld_records (updateLaunch i (\<lambda>r. withProgress (st r) (tx r) (block r) (reason r) r) db)) = map lr_id (ld_records db)"
    by (rule updateLaunch_ids) (simp add: withProgress_def)
  moreover have "\<forall>r\<in>set (ld_records (updateLaunch i (\<lambda>r. withProgress (st r) (tx r) (block r) (reason r) r) db)). recordOk V books r"
    using progress.IH by (auto simp: launchDbOk_def updateLaunch_def)
  ultimately show ?case using progress.IH unfolding launchDbOk_def by simp
qed

lemma relay_broadcast:
  assumes "relay V env reserved meanwhile launchId key db = (outcome, db', Some (config, hook, chainId))"
  obtains r tx where "findLaunch db launchId = Some r" "relayConfig r = Inr config" "re_books env (lr_chainId r) = Some hook"
    "chainId = lr_chainId r" "re_send env config hook chainId = Inr tx" "lr_state r \<notin> {SUBMITTED, CONFIRMED}"
    "ld_idempotency db (RELAY_SCOPE, toLowerCase (lr_creatorWallet r), key) = None"
  using assms unfolding relay_def Let_def
  by (auto simp: bindR_eq_Inr_iff split: option.splits if_splits sum.splits)

lemma findLaunch_mem: "findLaunch db i = Some r \<Longrightarrow> r \<in> set (ld_records db) \<and> lr_id r = i"
  unfolding findLaunch_def by (rule find_Some_mem)

text \<open>The relay itself moves between reachable databases, if the requests around it do.\<close>

lemma markSubmitted_progress: "markSubmitted tx = (\<lambda>r. withProgress SUBMITTED (Some tx) (lr_blockNumber r) (lr_failureReason r) r)"
  by (rule ext) (simp add: markSubmitted_def withProgress_def)

lemma markFailed_progress: "markFailed w = (\<lambda>r. withProgress LAUNCH_FAILED (lr_transactionHash r) (lr_blockNumber r) (Some w) r)"
  by (rule ext) (simp add: markFailed_def withProgress_def)

lemmas launchReachable_marks =
  launchReachable.progress [where st = "\<lambda>_. SUBMITTED" and tx = "\<lambda>_. Some h" and block = lr_blockNumber and reason = lr_failureReason for h,
    folded markSubmitted_progress]
  launchReachable.progress [where st = "\<lambda>_. LAUNCH_FAILED" and tx = lr_transactionHash and block = lr_blockNumber and reason = "\<lambda>_. Some w" for w,
    folded markFailed_progress]

lemma relay_reachable:
  assumes "launchReachable V books db" and "\<And>db. launchReachable V books db \<Longrightarrow> launchReachable V books (reserved db)"
    and "\<And>db. launchReachable V books db \<Longrightarrow> launchReachable V books (meanwhile db)"
  shows "launchReachable V books (fst (snd (relay V env reserved meanwhile launchId key db)))"
  unfolding relay_def Let_def using assms
  by (auto intro!: launchReachable.keys launchReachable_marks split: option.split sum.split)

section \<open>Payout plans\<close>

lemma planBit: "and (drop_bit i plan) 1 \<noteq> 0 \<longleftrightarrow> bit (plan :: int) i"
  by (simp add: and_one_eq bit_iff_odd_drop_bit odd_iff_mod_2_eq_one)

lemma planBits_filter:
  "(if length (bits @ filter (bit plan) is) \<le> 8 then planBits plan bits is = bits @ filter (bit plan) is
    else length (planBits plan bits is) > 8)"
proof (induction "is" arbitrary: bits)
  case (Cons i "is")
  show ?case
  proof (cases "length bits > 8")
    case False
    then show ?thesis using Cons.IH [of bits] Cons.IH [of "bits @ [i]"] unfolding planBits.simps planBit by auto
  qed simp
qed simp

definition selected :: "int \<Rightarrow> nat list" where
  "selected plan = filter (bit plan) [0..<256]"

definition selectable :: "(nat \<Rightarrow> plugin_entry result) \<Rightarrow> nat \<Rightarrow> bool" where
  "selectable entry i = (case entry i of Inr e \<Rightarrow> \<not> pg_suspended e \<and> pg_role e = 1 | Inl _ \<Rightarrow> False)"

definition takeOf :: "(nat \<Rightarrow> plugin_entry result) \<Rightarrow> nat \<Rightarrow> int" where
  "takeOf entry i = (case entry i of Inr e \<Rightarrow> pg_takeWad e | Inl _ \<Rightarrow> 0)"

text \<open>What an entry that cannot be selected answers.\<close>

definition entryError :: "(nat \<Rightarrow> plugin_entry result) \<Rightarrow> nat \<Rightarrow> exn" where
  "entryError entry i = (case entry i of
     Inl e \<Rightarrow> e
   | Inr e \<Rightarrow> if pg_suspended e then DomainException 400 ''PAYOUT_PLAN_ENTRY_SUSPENDED''
       else DomainException 400 ''PAYOUT_PLAN_ENTRY_NOT_SELECTABLE'')"

lemma checkEntries_eq:
  "checkEntries entry is s = (case dropWhile (selectable entry) is of
     [] \<Rightarrow> Inr (s + sum_list (map (takeOf entry) is)) | i # _ \<Rightarrow> Inl (entryError entry i))"
proof (induction "is" arbitrary: s)
  case (Cons i "is")
  show ?case
  proof (cases "selectable entry i")
    case True
    then obtain e where e: "entry i = Inr e" "\<not> pg_suspended e" "pg_role e = 1" by (auto simp: selectable_def split: sum.splits)
    then have "takeOf entry i = pg_takeWad e" by (simp add: takeOf_def)
    then show ?thesis using e True Cons [of "s + pg_takeWad e"]
      by (cases "dropWhile (selectable entry) is") (simp_all add: add.assoc del: dropWhile_eq_Nil_conv)
  next
    case False
    then show ?thesis by (auto simp: selectable_def entryError_def bindR_def split: sum.split)
  qed
qed simp

lemma selected_zero: "selected 0 = []"
  by (simp add: selected_def)

section \<open>Properties\<close>

text \<open>C19. The validation of a payout plan, with every outcome: more than eight selected plugins are refused before the registry is
  read; otherwise the lowest selected index whose entry cannot be read, is suspended or has another role decides the
  exception; otherwise takes above one whole are refused; and everything else, the empty plan included, is accepted.\<close>

theorem payout_plan_outcome:
  "validatePayoutPlan entry plan =
     (if length (selected plan) > 8 then Inl (DomainException 400 ''PAYOUT_PLAN_TOO_MANY_PLUGINS'')
      else case dropWhile (selectable entry) (selected plan) of
        i # _ \<Rightarrow> Inl (entryError entry i)
      | [] \<Rightarrow> if sum_list (map (takeOf entry) (selected plan)) > 10 ^ 18 then Inl (DomainException 400 ''PAYOUT_TAKES_ABOVE_WAD'') else Inr ())"
proof (cases "plan = 0")
  case True
  then show ?thesis by (simp add: validatePayoutPlan_def selected_zero)
next
  case False
  have "if length (selected plan) \<le> 8 then planBits plan [] [0..<256] = selected plan else length (planBits plan [] [0..<256]) > 8"
    using planBits_filter [of "[]" plan "[0..<256]"] by (simp only: selected_def append_Nil)
  then show ?thesis using False unfolding validatePayoutPlan_def Let_def checkEntries_eq
    by (cases "dropWhile (selectable entry) (selected plan)") (auto split: if_splits simp del: dropWhile_eq_Nil_conv)
qed

text \<open>C2. The operator signs what was prepared: whatever preparations, relays, receipts and confirmations came before, a
  configuration that a relay broadcasts is the one whose identity hash and digest the launch record shows, on the chain and
  hook of the record, with the fixed supply and a developer share within the cap; the record was not yet submitted and
  the idempotency key was unused.\<close>

theorem relay_signs_prepared:
  assumes "launchReachable V books db" and "collisionFree V" and "re_books env = books"
    and "relay V env reserved meanwhile launchId key db = (outcome, db', Some (config, hook, chainId))"
  shows "\<exists>r\<in>set (ld_records db). lr_id r = launchId \<and> chainId = lr_chainId r \<and> books chainId = Some hook
      \<and> launchConfigHash V config = Inr (lr_configHash r) \<and> launchDigest V config hook chainId = Inr (lr_digest r)
      \<and> cfg_totalSupply config = FIXED_TOTAL_SUPPLY \<and> cfg_devBuyShareWad config \<le> MAX_DEV_BUY_SHARE_WAD
      \<and> lr_state r \<notin> {SUBMITTED, CONFIRMED} \<and> ld_idempotency db (RELAY_SCOPE, cfg_creator config, key) = None"
proof -
  obtain r tx where r: "findLaunch db launchId = Some r" "relayConfig r = Inr config" "re_books env (lr_chainId r) = Some hook"
    "chainId = lr_chainId r" "lr_state r \<notin> {SUBMITTED, CONFIRMED}"
    "ld_idempotency db (RELAY_SCOPE, toLowerCase (lr_creatorWallet r), key) = None"
    by (rule relay_broadcast [OF assms(4)])
  have mem: "r \<in> set (ld_records db)" "lr_id r = launchId" using findLaunch_mem [OF r(1)] by simp_all
  have "recordOk V books r" using launchReachable_ok [OF assms(1,2)] mem(1) unfolding launchDbOk_def by blast
  then have "launchConfigHash V config = Inr (lr_configHash r) \<and> launchDigest V config hook chainId = Inr (lr_digest r)
      \<and> cfg_totalSupply config = FIXED_TOTAL_SUPPLY \<and> cfg_devBuyShareWad config \<le> MAX_DEV_BUY_SHARE_WAD"
    using r(2,3,4) assms(3) unfolding recordOk_def by auto
  moreover have "cfg_creator config = toLowerCase (lr_creatorWallet r)" using r(2) unfolding relayConfig_Inr by blast
  ultimately show ?thesis using r(3-6) mem assms(3) by (intro bexI [of _ r]) simp_all
qed


definition sampleInput :: launch_input where
  "sampleInput = \<lparr>li_creatorWalletAddress = ''0xABC'', li_name = ''Spawn'', li_symbol = ''SPN'', li_description = ''d'', li_imageUri = ''ipfs://i'',
     li_socials = None, li_totalSupply = ''1000000000000000000000000000'', li_devBuyShareWad = ''0'', li_payoutPlan = ''0'', li_deadline = 1\<rparr>"

definition sampleBooks :: "int \<Rightarrow> string option" where
  "sampleBooks = [8453 \<mapsto> ''0xhook'']"

definition samplePrepare :: prepare_env where
  "samplePrepare = \<lparr>pe_chainId = 8453, pe_books = sampleBooks, pe_entry = (\<lambda>_. Inl RangeError), pe_upload = (\<lambda>_. Inr (''ipfs://m'', ''https://m'')),
     pe_template = Inr \<lparr>tv_openingFdvWei = 2 * 10 ^ 18, tv_curvePositions = 32, tv_curveSpanLevels = 13862,
       tv_curveSupplyShareWad = 25 * 10 ^ 16, tv_tradingFeeHundredthsBip = 10000\<rparr>, pe_predictToken = (\<lambda>_. Inr ''0xT''), pe_newId = ''l1'', pe_now = 0\<rparr>"

definition sampleRelay :: relay_env where
  "sampleRelay = \<lparr>re_now = 0, re_operatorConfigured = True, re_books = sampleBooks, re_trustedOperator = (\<lambda>_. None), re_hash = id,
     re_message = (\<lambda>_. []), re_send = (\<lambda>_ _ _. Inr ''0xtx'')\<rparr>"

definition preparedConfig :: launch_config_input where
  "preparedConfig = \<lparr>cfg_creator = ''0xabc'', cfg_name = ''Spawn'', cfg_symbol = ''SPN'', cfg_uri = ''https://m'', cfg_totalSupply = 10 ^ 27,
     cfg_devBuyShareWad = 0, cfg_payoutPlan = 0, cfg_deadline = 1\<rparr>"

definition sampleLaunch :: "hex_term launch_record" where
  "sampleLaunch = \<lparr>lr_id = ''l1'', lr_chainId = 8453, lr_creatorWallet = ''0xabc'', lr_name = ''Spawn'', lr_symbol = ''SPN'', lr_uri = ''https://m'',
     lr_description = ''d'', lr_imageUri = ''ipfs://i'', lr_ipfsUri = ''ipfs://m'', lr_gatewayUrl = ''https://m'', lr_socials = None,
     lr_totalSupply = of_int (10 ^ 27), lr_devBuyShareWad = wadDecimal 0, lr_payoutPlan = of_int 0, lr_deadline = 1,
     lr_configHash = (case launchConfigHash symbolicViem preparedConfig of Inr h \<Rightarrow> h),
     lr_predictedToken = ''0xt'', lr_digest = (case launchDigest symbolicViem preparedConfig ''0xhook'' 8453 of Inr h \<Rightarrow> h),
     lr_state = PENDING_RELAY, lr_transactionHash = None, lr_blockNumber = None, lr_failureReason = None, lr_tokenDbId = None, lr_createdAt = 0\<rparr>"

lemma sample_texts:
  "bigIntText ''1000000000000000000000000000'' = Inr (10 ^ 27)" "parseWad ''0'' = Inr 0" "bigIntText ''0'' = Inr 0"
  "toLowerCase ''0xABC'' = ''0xabc''" "toLowerCase ''0xT'' = ''0xt''" "toLowerCase ''0xabc'' = ''0xabc''"
  by code_simp+

lemma sample_levels: "safeOpeningLevel (10 ^ 27) (2 * 10 ^ 18) = Inr (- 200311)" "safeFarLevel (- 200311) 13862 = Inr (- 186449)"
  unfolding safeOpeningLevel_def openingLevel_default by (simp_all add: safeFarLevel_def farLevel_def MAX_LEVEL_def MIN_TICK_def)

lemma sample_prepared:
  "\<exists>response. prepare symbolicViem samplePrepare sampleInput \<lparr>ld_records = [], ld_idempotency = Map.empty\<rparr>
     = Inr (response, \<lparr>ld_records = [sampleLaunch], ld_idempotency = Map.empty\<rparr>)"
  by (simp only: prepare_def samplePrepare_def sampleInput_def Let_def sample_texts sample_levels sampleBooks_def validatePayoutPlan_def
      prepare_env.simps launch_input.simps template_view.simps fun_upd_same option.case bindR_Inr FIXED_TOTAL_SUPPLY_def MAX_DEV_BUY_SHARE_WAD_def)
    (simp add: launchConfigHash_def launchDigest_def symbolicViem_def upsertLaunch_def findByConfig_def sampleLaunch_def preparedConfig_def)

lemma sample_relay:
  "\<exists>outcome db'. relay symbolicViem sampleRelay id id ''l1'' ''k'' \<lparr>ld_records = [sampleLaunch], ld_idempotency = Map.empty\<rparr>
     = (outcome, db', Some (preparedConfig, ''0xhook'', 8453))"
proof -
  have c: "relayConfig sampleLaunch = Inr preparedConfig"
    unfolding relayConfig_Inr by (simp add: sampleLaunch_def preparedConfig_def sample_texts) (simp add: decimalToBig_def)
  have "findLaunch \<lparr>ld_records = [sampleLaunch], ld_idempotency = Map.empty\<rparr> ''l1'' = Some sampleLaunch"
    by (simp add: findLaunch_def sampleLaunch_def)
  moreover have "lr_state sampleLaunch = PENDING_RELAY" "lr_chainId sampleLaunch = 8453" "lr_id sampleLaunch = ''l1''" by (simp_all add: sampleLaunch_def)
  ultimately show ?thesis
    by (simp add: relay_def sampleRelay_def sampleBooks_def c launchConfigHash_def launchDigest_def symbolicViem_def Let_def updateLaunch_def findLaunch_def
        markSubmitted_def)
qed

theorem relay_signs_prepared_witness:
  "launchDigest symbolicViem preparedConfig ''0xhook'' 8453 = Inr (lr_digest sampleLaunch) \<and> cfg_totalSupply preparedConfig = FIXED_TOTAL_SUPPLY"
proof -
  let ?db = "\<lparr>ld_records = [sampleLaunch], ld_idempotency = Map.empty\<rparr>"
  obtain response where p: "prepare symbolicViem samplePrepare sampleInput \<lparr>ld_records = [], ld_idempotency = Map.empty\<rparr> = Inr (response, ?db)"
    using sample_prepared by blast
  have "launchReachable symbolicViem sampleBooks ?db"
    by (rule launchReachable.prepared [OF launchReachable.start _ _ p]) (simp_all add: samplePrepare_def)
  moreover obtain outcome db' where "relay symbolicViem sampleRelay id id ''l1'' ''k'' ?db = (outcome, db', Some (preparedConfig, ''0xhook'', 8453))"
    using sample_relay by blast
  ultimately show ?thesis
    using relay_signs_prepared [OF _ symbolicViem_collisionFree, of sampleBooks ?db sampleRelay id id "''l1''" "''k''"]
    by (auto simp: sampleRelay_def)
qed

section \<open>What a key remembers\<close>

lemma find_map_key: "(\<And>x. k (f x) = k x) \<Longrightarrow> List.find (\<lambda>x. k x = i) (map f xs) = map_option f (List.find (\<lambda>x. k x = i) xs)"
  by (induction xs) auto

lemma findLaunch_update:
  "(\<And>r. lr_id (f r) = lr_id r) \<Longrightarrow> findLaunch (updateLaunch i f db) j = map_option (\<lambda>r. if lr_id r = i then f r else r) (findLaunch db j)"
  unfolding findLaunch_def updateLaunch_def by (simp add: find_map_key [where k = lr_id])

lemma markFailed_id: "lr_id (markFailed w r) = lr_id r"
  by (simp add: markFailed_def)

text \<open>A relay whose broadcast fails leaves its reservation in progress, so that every retry with the key is refused.\<close>

lemma failed_relay_blocks_key:
  assumes "findLaunch db launchId = Some r" "lr_state r \<notin> {SUBMITTED, CONFIRMED}" "re_operatorConfigured env"
    and "ld_idempotency db (RELAY_SCOPE, toLowerCase (lr_creatorWallet r), key) = None"
    and "re_books env (lr_chainId r) = Some hook" "relayConfig r = Inr config" "launchConfigHash V config = Inr ch"
    and "re_trustedOperator env (lr_chainId r) \<noteq> Some ZERO_ADDRESS" "launchDigest V config hook (lr_chainId r) = Inr dg"
    and "re_send env config hook (lr_chainId r) = Inl e"
    and "relay V env id id launchId key db = (outcome, db', sent)"
  shows "outcome = Inl (DomainException 502 ''LAUNCH_BROADCAST_FAILED'')"
    and "fst (relay V env id id launchId key db') = Inl (DomainException 409 ''REQUEST_IN_PROGRESS'')"
proof -
  let ?idem = "(RELAY_SCOPE, toLowerCase (lr_creatorWallet r), key)"
  let ?row = "\<lparr>idm_requestHash = re_hash env launchId, idm_state = IN_PROGRESS, idm_responseStatus = None, idm_resourceId = None,
    idm_expiresAt = re_now env + 24 * 3600 * 1000\<rparr>"
  have e: "relay V env id id launchId key db = (Inl (DomainException 502 ''LAUNCH_BROADCAST_FAILED''),
      updateLaunch (lr_id r) (markFailed (take 1000 (re_message env e))) (db\<lparr>ld_idempotency := (ld_idempotency db)(?idem \<mapsto> ?row)\<rparr>), None)"
    using assms(1-10) by (simp add: relay_def Let_def)
  then show "outcome = Inl (DomainException 502 ''LAUNCH_BROADCAST_FAILED'')" using assms(11) by simp
  have db': "ld_idempotency db' ?idem = Some ?row" using e assms(11) by (auto simp: updateLaunch_def)
  have "findLaunch db' launchId = Some (markFailed (take 1000 (re_message env e)) r)"
  proof -
    have keys: "findLaunch (db\<lparr>ld_idempotency := m\<rparr>) launchId = Some r" for m using assms(1) by (simp add: findLaunch_def)
    have "db' = updateLaunch (lr_id r) (markFailed (take 1000 (re_message env e))) (db\<lparr>ld_idempotency := (ld_idempotency db)(?idem \<mapsto> ?row)\<rparr>)"
      using e assms(11) by simp
    then show ?thesis by (simp only: findLaunch_update [OF markFailed_id] keys option.map if_True simp_thms)
  qed
  then show "fst (relay V env id id launchId key db') = Inl (DomainException 409 ''REQUEST_IN_PROGRESS'')"
    using db' assms(3) by (simp add: relay_def Let_def markFailed_def relayExisting_def)
qed

text \<open>A completed key answers with its first launch before the bodies are compared, whatever launch is asked for.\<close>

lemma completed_key_ignores_body:
  assumes "idm_state existing = COMPLETED" "idm_resourceId existing = Some i" "findLaunch db i = Some completed"
  shows "relayExisting db existing hash = Inr (presentRelay completed, True)"
  using assms by (simp add: relayExisting_def)

text \<open>A share given in units of \<open>1e-18\<close>, as the description of the field asks for, is scaled again.\<close>

lemma share_in_wad_units_refused: "parseWad ''50000000000000000'' = Inr (50000000000000000 * 10 ^ 18)"
  by code_simp

end
