(* ===== verification/ProtocolInfo.thy ===== *)
theory ProtocolInfo
  imports ProtocolRead Launch
begin

text \<open>
  Model of \<open>src/src/modules/protocol/protocol.service.ts\<close>: the protocol-wide reads. The tables are lists of rows, the live reads are those
  of \<open>ProtocolRead\<close>, and \<open>leaderboard\<close> and \<open>revenueRows\<close> stand for the answers of the raw queries. Share columns have 18
  decimals and are kept as WAD integers; \<open>toFixed\<close> prints them without trailing zeros. Times are passed through.
\<close>

section \<open>Presentation of shares\<close>

definition wadString :: "int \<Rightarrow> string" where
  "wadString value = (let whole = value sdiv 10 ^ 18; frac = padStart 18 (toString (value smod 10 ^ 18)) in toString whole @ ''.'' @ frac)"

definition stripZeros :: "string \<Rightarrow> string" where
  "stripZeros s = rev (dropWhile (\<lambda>c. c = CHR ''0'') (rev s))"

definition shareFixed :: "int \<Rightarrow> string" where
  "shareFixed value = (let frac = stripZeros (padStart 18 (toString (value smod 10 ^ 18))) in
     toString (value sdiv 10 ^ 18) @ (if frac = [] then [] else ''.'' @ frac))"

record economics_caps =
  cap_harvestServiceFeeWad :: string
  cap_quoteCreatorShareWad :: string
  cap_tokenMilestoneFundShareWad :: string

definition ECONOMICS_CAPS :: economics_caps where
  "ECONOMICS_CAPS = \<lparr>cap_harvestServiceFeeWad = ''200000000000000000'', cap_quoteCreatorShareWad = ''900000000000000000'',
     cap_tokenMilestoneFundShareWad = ''1000000000000000000''\<rparr>"

section \<open>Addresses and economics\<close>

definition addresses :: "int \<Rightarrow> (int \<rightharpoonup> address_book) \<Rightarrow> int option \<Rightarrow> address_book result" where
  "addresses fallback books query =
     (let chainId = resolveChainId fallback query in
      if \<not> hasChain books chainId then Inl (NotFoundException ''MANIFEST_NOT_SYNCED'')
      else bindR (bookOf books chainId) (\<lambda>book. Inr (book\<lparr>ab_chainId := chainId\<rparr>)))"

record economic_row =
  er_chainId :: int
  er_version :: int
  er_harvestServiceFeeWad :: int
  er_quoteCreatorShareWad :: int
  er_tokenMilestoneFundShareWad :: int
  er_effectiveBlock :: int
  er_effectiveAt :: int

record protocol_state =
  st_chainId :: int
  st_economicVersion :: int
  st_protocolRecipient :: "string option"
  st_trustedOperator :: "string option"
  st_trustedOperatorBlock :: "int option"
  st_administrator :: "string option"
  st_pendingAdministrator :: "string option"
  st_governanceDelaySeconds :: "int option"
  st_lastIndexedBlock :: int

datatype economics_source = LiveSource | IndexerSource

record economics_view =
  ev_chainId :: int
  ev_currentVersion :: string
  ev_harvestServiceFee :: string
  ev_quoteCreatorShare :: string
  ev_tokenMilestoneFundShare :: string
  ev_effective :: "(string \<times> int) option"
  ev_caps :: economics_caps
  ev_history :: "(string \<times> string \<times> int) list"
  ev_source :: economics_source

definition findState :: "protocol_state list \<Rightarrow> int \<Rightarrow> protocol_state option" where
  "findState states chainId = List.find (\<lambda>s. st_chainId s = chainId) states"

definition economicRows :: "economic_row list \<Rightarrow> int \<Rightarrow> economic_row list" where
  "economicRows table chainId = take 20 (sort_key (\<lambda>r. - er_version r) (filter (\<lambda>r. er_chainId r = chainId) table))"

definition currentEconomics :: "economic_row list \<Rightarrow> protocol_state option \<Rightarrow> economic_row option" where
  "currentEconomics rows state =
     (case List.find (\<lambda>r. case state of None \<Rightarrow> True | Some s \<Rightarrow> er_version r = st_economicVersion s) rows of
        Some r \<Rightarrow> Some r
      | None \<Rightarrow> (case rows of [] \<Rightarrow> None | r # _ \<Rightarrow> Some r))"

text \<open>\<open>live\<close> is the answer of \<open>protocolReads.economicConfig\<close>.\<close>

definition economics :: "int \<Rightarrow> (int \<rightharpoonup> address_book) \<Rightarrow> (int \<Rightarrow> economic_config_view result) \<Rightarrow> economic_row list \<Rightarrow> protocol_state list
    \<Rightarrow> int option \<Rightarrow> economics_view result" where
  "economics fallback books live table states query =
     (let chainId = resolveChainId fallback query; rows = economicRows table chainId in
      case currentEconomics rows (findState states chainId) of
        None \<Rightarrow>
          if hasChain books chainId then
            (case live chainId of
               Inl _ \<Rightarrow> Inl (NotFoundException ''ECONOMICS_NOT_AVAILABLE'')
             | Inr v \<Rightarrow> Inr \<lparr>ev_chainId = chainId, ev_currentVersion = toString (ecv_version v),
                 ev_harvestServiceFee = wadString (ecv_harvestServiceFeeWad v), ev_quoteCreatorShare = wadString (ecv_quoteCreatorShareWad v),
                 ev_tokenMilestoneFundShare = wadString (ecv_tokenMilestoneFundShareWad v), ev_effective = None, ev_caps = ECONOMICS_CAPS,
                 ev_history = [], ev_source = LiveSource\<rparr>)
          else Inl (NotFoundException ''ECONOMICS_NOT_AVAILABLE'')
      | Some r \<Rightarrow> Inr \<lparr>ev_chainId = chainId, ev_currentVersion = toString (er_version r),
          ev_harvestServiceFee = shareFixed (er_harvestServiceFeeWad r), ev_quoteCreatorShare = shareFixed (er_quoteCreatorShareWad r),
          ev_tokenMilestoneFundShare = shareFixed (er_tokenMilestoneFundShareWad r),
          ev_effective = Some (toString (er_effectiveBlock r), er_effectiveAt r), ev_caps = ECONOMICS_CAPS,
          ev_history = map (\<lambda>r. (toString (er_version r), toString (er_effectiveBlock r), er_effectiveAt r)) rows, ev_source = IndexerSource\<rparr>)"

section \<open>Plugins and governance\<close>

record plugin_row =
  plr_chainId :: int
  plr_registryIndex :: int
  plr_plugin :: string
  plr_takeWad :: int
  plr_gasLimit :: int
  plr_codeHash :: string
  plr_role :: string
  plr_suspended :: bool
  plr_registeredBlock :: int

record plugin_view =
  plv_registryIndex :: int
  plv_plugin :: string
  plv_takeWad :: string
  plv_gasLimit :: int
  plv_codeHash :: string
  plv_role :: string
  plv_suspended :: bool
  plv_registeredAtBlock :: string

definition plugins :: "int \<Rightarrow> plugin_row list \<Rightarrow> int option \<Rightarrow> plugin_view list \<times> page_meta" where
  "plugins fallback table query =
     (let chainId = resolveChainId fallback query; rows = sort_key plr_registryIndex (filter (\<lambda>r. plr_chainId r = chainId) table) in
      (map (\<lambda>r. \<lparr>plv_registryIndex = plr_registryIndex r, plv_plugin = plr_plugin r, plv_takeWad = shareFixed (plr_takeWad r),
         plv_gasLimit = plr_gasLimit r, plv_codeHash = plr_codeHash r, plv_role = plr_role r, plv_suspended = plr_suspended r,
         plv_registeredAtBlock = toString (plr_registeredBlock r)\<rparr>) rows,
       pageMeta 1 256 (int (length rows))))"

record governance_row =
  go_chainId :: int
  go_operationId :: string
  go_action :: string
  go_status :: string
  go_readyAt :: "int option"
  go_executedAtBlock :: "int option"
  go_cancelledAtBlock :: "int option"
  go_blockTime :: int

record governance_state =
  gs_economicVersion :: string
  gs_protocolRecipient :: "string option"
  gs_trustedOperator :: "string option"
  gs_trustedOperatorSetBlock :: "string option"
  gs_administrator :: "string option"
  gs_pendingAdministrator :: "string option"
  gs_governanceDelaySeconds :: "string option"

record governance_operation =
  gv_operationId :: string
  gv_action :: string
  gv_status :: string
  gv_readyAt :: "int option"
  gv_executedAtBlock :: "string option"
  gv_cancelledAtBlock :: "string option"
  gv_blockTime :: int

definition presentState :: "protocol_state \<Rightarrow> governance_state" where
  "presentState s = \<lparr>gs_economicVersion = toString (st_economicVersion s), gs_protocolRecipient = st_protocolRecipient s,
     gs_trustedOperator = st_trustedOperator s, gs_trustedOperatorSetBlock = map_option toString (st_trustedOperatorBlock s),
     gs_administrator = st_administrator s, gs_pendingAdministrator = st_pendingAdministrator s,
     gs_governanceDelaySeconds = map_option toString (st_governanceDelaySeconds s)\<rparr>"

text \<open>A status outside the enumeration is a Prisma validation error.\<close>

definition governance_reads :: "int \<Rightarrow> protocol_state list \<Rightarrow> governance_row list \<Rightarrow> string list \<Rightarrow> int option \<Rightarrow> string option
    \<Rightarrow> (int \<times> governance_state option \<times> governance_operation list) result" where
  "governance_reads fallback states table statuses query status =
     (let chainId = resolveChainId fallback query;
          wanted = (case status of Some s \<Rightarrow> if s = [] then None else Some s | None \<Rightarrow> None)
      in if (case wanted of Some s \<Rightarrow> s \<notin> set statuses | None \<Rightarrow> False) then Inl (PrismaError ''validation'')
         else
           let ops = take 100 (sort_key (\<lambda>o'. - go_blockTime o') (filter (\<lambda>o'. go_chainId o' = chainId
                 \<and> (case wanted of Some s \<Rightarrow> go_status o' = s | None \<Rightarrow> True)) table))
           in Inr (chainId, map_option presentState (findState states chainId),
                map (\<lambda>o'. \<lparr>gv_operationId = go_operationId o', gv_action = go_action o', gv_status = go_status o', gv_readyAt = go_readyAt o',
                  gv_executedAtBlock = map_option toString (go_executedAtBlock o'),
                  gv_cancelledAtBlock = map_option toString (go_cancelledAtBlock o'), gv_blockTime = go_blockTime o'\<rparr>) ops))"

section \<open>Revenue\<close>

record accrual_row =
  ac_chainId :: int
  ac_poolId :: string
  ac_source :: string
  ac_amount :: int
  ac_economicVersion :: int
  ac_transactionHash :: string
  ac_blockNumber :: int
  ac_timestamp :: int

record claim_row =
  clm_chainId :: int
  clm_claimType :: string
  clm_holder :: string
  clm_amount :: int
  clm_transactionHash :: string
  clm_blockNumber :: int
  clm_timestamp :: int

record revenue_totals =
  rt_chainId :: int
  rt_total :: int
  rt_curve :: int
  rt_swapFees :: int
  rt_harvest :: int
  rt_claimed :: int

record revenue_view =
  rv_chainId :: int
  rv_totals :: "(string \<times> string \<times> string \<times> string \<times> string) option"
  rv_live :: "(string \<times> string) option"
  rv_accruals :: "(string \<times> string \<times> string \<times> string \<times> string \<times> string \<times> int) list"
  rv_claims :: "(string \<times> string \<times> string \<times> string \<times> int) list"

definition liveRevenue :: "world \<Rightarrow> int \<Rightarrow> (string \<times> string) option" where
  "liveRevenue w chainId = (if \<not> hasChain (wd_books w) chainId then None
     else case bindR (protocolClaimable w chainId) (\<lambda>claimable. bindR (protocolClaimBacked w chainId) (\<lambda>backed.
       Inr (toString claimable, toString backed))) of Inr l \<Rightarrow> Some l | Inl _ \<Rightarrow> None)"

definition protocolRevenue :: "int \<Rightarrow> world \<Rightarrow> accrual_row list \<Rightarrow> claim_row list \<Rightarrow> revenue_totals list \<Rightarrow> int option \<Rightarrow> revenue_view" where
  "protocolRevenue fallback w accruals claims totals query =
     (let chainId = resolveChainId fallback query in
      \<lparr>rv_chainId = chainId,
       rv_totals = map_option (\<lambda>t. (toString (rt_total t), toString (rt_curve t), toString (rt_swapFees t), toString (rt_harvest t),
         toString (rt_claimed t))) (List.find (\<lambda>t. rt_chainId t = chainId) totals),
       rv_live = liveRevenue w chainId,
       rv_accruals = map (\<lambda>r. (ac_poolId r, ac_source r, toString (ac_amount r), toString (ac_economicVersion r), ac_transactionHash r,
         toString (ac_blockNumber r), ac_timestamp r)) (take 200 (sort_key (\<lambda>r. - ac_blockNumber r) (filter (\<lambda>r. ac_chainId r = chainId) accruals))),
       rv_claims = map (\<lambda>r. (clm_holder r, toString (clm_amount r), clm_transactionHash r, toString (clm_blockNumber r), clm_timestamp r))
         (take 50 (sort_key (\<lambda>r. - clm_blockNumber r) (filter (\<lambda>r. clm_chainId r = chainId \<and> clm_claimType r = ''protocol'') claims)))\<rparr>)"

section \<open>Statistics and watermark\<close>

record day_row =
  dy_chainId :: int
  dy_day :: int
  dy_buyVolumeEth :: int
  dy_sellVolumeEth :: int
  dy_swapCount :: int
  dy_creatorRevenueEth :: int
  dy_protocolRevenueEth :: int
  dy_harvestFeesEth :: int
  dy_graduationCount :: int
  dy_launchCount :: int

record day_view =
  dv_day :: int
  dv_buyVolumeEth :: string
  dv_sellVolumeEth :: string
  dv_swapCount :: string
  dv_creatorRevenueEth :: string
  dv_protocolRevenueEth :: string
  dv_harvestFeesEth :: string
  dv_graduationCount :: int
  dv_launchCount :: int

record leaderboard_row =
  lb_chainId :: int
  lb_poolId :: string
  lb_dailyVolumeEth :: int

definition leaderboardTop :: "leaderboard_row list \<Rightarrow> leaderboard_row list" where
  "leaderboardTop rows = take 20 (sort_key (\<lambda>r. - lb_dailyVolumeEth r) rows)"

definition stats :: "int \<Rightarrow> day_row list \<Rightarrow> leaderboard_row list \<Rightarrow> int option \<Rightarrow> int \<times> day_view list \<times> leaderboard_row list" where
  "stats fallback days leaderboard query =
     (let chainId = resolveChainId fallback query in
      (chainId,
       map (\<lambda>d. \<lparr>dv_day = dy_day d, dv_buyVolumeEth = toString (dy_buyVolumeEth d), dv_sellVolumeEth = toString (dy_sellVolumeEth d),
         dv_swapCount = toString (dy_swapCount d), dv_creatorRevenueEth = toString (dy_creatorRevenueEth d),
         dv_protocolRevenueEth = toString (dy_protocolRevenueEth d), dv_harvestFeesEth = toString (dy_harvestFeesEth d),
         dv_graduationCount = dy_graduationCount d, dv_launchCount = dy_launchCount d\<rparr>)
         (take 60 (sort_key (\<lambda>d. - dy_day d) (filter (\<lambda>d. dy_chainId d = chainId) days))),
       leaderboardTop leaderboard))"

record watermark_row =
  wr_chainId :: int
  wr_committedVersion :: int
  wr_blockNumber :: int
  wr_blockHash :: string
  wr_blockTime :: int

record watermark_view =
  wv_chainId :: int
  wv_committedVersion :: string
  wv_blockNumber :: string
  wv_blockHash :: string
  wv_blockTime :: int
  wv_lastIndexedBlock :: "string option"
  wv_trustedOperator :: "string option"

definition watermark :: "int \<Rightarrow> watermark_row list \<Rightarrow> protocol_state list \<Rightarrow> int option \<Rightarrow> watermark_view result" where
  "watermark fallback table states query =
     (let chainId = resolveChainId fallback query in
      case List.find (\<lambda>r. wr_chainId r = chainId) table of
        None \<Rightarrow> Inl (NotFoundException ''WATERMARK_NOT_FOUND'')
      | Some row \<Rightarrow> Inr \<lparr>wv_chainId = chainId, wv_committedVersion = toString (wr_committedVersion row),
          wv_blockNumber = toString (wr_blockNumber row), wv_blockHash = wr_blockHash row, wv_blockTime = wr_blockTime row,
          wv_lastIndexedBlock = map_option (\<lambda>s. toString (st_lastIndexedBlock s)) (findState states chainId),
          wv_trustedOperator = Option.bind (findState states chainId) st_trustedOperator\<rparr>)"

section \<open>Revenue history\<close>

definition PROTOCOL_REVENUE_TABLES :: "string \<rightharpoonup> string" where
  "PROTOCOL_REVENUE_TABLES = [''creator'' \<mapsto> ''creator_accruals'', ''protocol'' \<mapsto> ''protocol_accruals'', ''claims'' \<mapsto> ''claims'',
     ''tips'' \<mapsto> ''payout_tips'', ''pluginPayouts'' \<mapsto> ''plugin_payouts'', ''pots'' \<mapsto> ''payout_pot_fundings'']"

text \<open>The lookup of an object literal also finds what it inherits from \<open>Object.prototype\<close>, which prints as a native function.\<close>

definition objectPrototype :: "string \<rightharpoonup> string" where
  "objectPrototype name =
     (if name = ''constructor'' then Some ''function Object() { [native code] }''
      else if name = ''__proto__'' then Some ''[object Object]''
      else if name \<in> {''__defineGetter__'', ''__defineSetter__'', ''hasOwnProperty'', ''__lookupGetter__'', ''__lookupSetter__'',
        ''isPrototypeOf'', ''propertyIsEnumerable'', ''toString'', ''valueOf'', ''toLocaleString''}
      then Some (''function '' @ name @ ''() { [native code] }'') else None)"

definition revenueTable :: "string \<Rightarrow> string option" where
  "revenueTable kind = (case PROTOCOL_REVENUE_TABLES kind of Some t \<Rightarrow> Some t | None \<Rightarrow> objectPrototype kind)"

text \<open>The limit is the text of a clamped number; \<open>NaN\<close> survives the clamping.\<close>

definition clampedText :: "(rat \<Rightarrow> string) \<Rightarrow> rat \<Rightarrow> rat \<Rightarrow> rat option option \<Rightarrow> string" where
  "clampedText numberText dflt cap limit = (case limit of
     Some None \<Rightarrow> ''NaN''
   | None \<Rightarrow> numberText (min (max dflt 1) cap)
   | Some (Some q) \<Rightarrow> numberText (min (max q 1) cap))"

definition revenueHistorySql :: "(rat \<Rightarrow> string) \<Rightarrow> int \<Rightarrow> string \<Rightarrow> string option \<Rightarrow> rat option option \<Rightarrow> string" where
  "revenueHistorySql numberText chainId table poolId limit =
     (let conds = [[CHR 0x22] @ ''chain_id'' @ [CHR 0x22] @ '' = '' @ toString chainId]
            @ (case poolId of
                 Some p \<Rightarrow> if p = [] then [] else [[CHR 0x22] @ ''pool_id'' @ [CHR 0x22] @ '' = '' @ [CHR 0x27] @ toLowerCase p @ [CHR 0x27]]
               | None \<Rightarrow> [])
      in ''SELECT * FROM '' @ table @ '' WHERE '' @ joinWith '' AND '' conds
         @ '' ORDER BY '' @ [CHR 0x22] @ ''block_number'' @ [CHR 0x22] @ '' DESC, '' @ [CHR 0x22] @ ''log_index'' @ [CHR 0x22] @ '' DESC LIMIT ''
         @ clampedText numberText 100 500 limit)"

record history_query =
  hq_chainId :: "int option"
  hq_kind :: "string option"
  hq_poolId :: "string option"
  hq_limit :: "rat option option"

definition revenueHistory :: "int \<Rightarrow> (rat \<Rightarrow> string) \<Rightarrow> (string \<Rightarrow> 'r list result) \<Rightarrow> history_query \<Rightarrow> (int \<times> string \<times> 'r list) result" where
  "revenueHistory fallback numberText queryRaw query =
     (let chainId = resolveChainId fallback (hq_chainId query);
          kind = (case hq_kind query of Some k \<Rightarrow> k | None \<Rightarrow> ''protocol'')
      in case revenueTable kind of
           None \<Rightarrow> Inl (DomainException 400 ''INVALID_KIND'')
         | Some table \<Rightarrow> bindR (queryRaw (revenueHistorySql numberText chainId table (hq_poolId query) (hq_limit query))) (\<lambda>rows.
             Inr (chainId, kind, rows)))"

section \<open>Shares are read back\<close>

lemma digit_plain:
  assumes "isDigit c"
  shows "\<not> isSpace c" "hexValue c = Some (digitVal c)" "c \<notin> {CHR ''x'', CHR ''X'', CHR ''o'', CHR ''O'', CHR ''b'', CHR ''B'', CHR ''-'', CHR ''+''}"
  using assms by (auto simp: isDigit_def isSpace_def hexValue_def digitVal_def)

lemma trim_digits: "\<forall>c\<in>set s. isDigit c \<Longrightarrow> trim s = s"
proof -
  assume d: "\<forall>c\<in>set s. isDigit c"
  have "dropWhile isSpace t = t" if "\<forall>c\<in>set t. isDigit c" for t using that digit_plain(1) by (cases t) auto
  from this [of s] this [of "rev s"] d show ?thesis by (simp add: trim_def)
qed

lemma radixValue_digits: "\<forall>c\<in>set s. isDigit c \<Longrightarrow> radixValue 10 s acc = Some (acc * 10 ^ length s + int (parseDec s))"
proof (induction s arbitrary: acc)
  case (Cons c s)
  have "digitVal c < 10" using Cons.prems digitVal_less by simp
  moreover have "parseDec (c # s) = digitVal c * 10 ^ length s + parseDec s" using parseDec_append [of "[c]" s] parseDec_snoc [of "[]" c] by simp
  ultimately show ?case using Cons digit_plain(2) by (simp add: algebra_simps)
qed simp

lemma bigIntText_digits:
  assumes "\<forall>c\<in>set s. isDigit c" "s \<noteq> []"
  shows "bigIntText s = Inr (int (parseDec s))"
proof -
  have n: "\<not> isDigit c" if "c \<in> {CHR ''x'', CHR ''X'', CHR ''o'', CHR ''O'', CHR ''b'', CHR ''B'', CHR ''-'', CHR ''+''}" for c
    using that digit_plain(3) by blast
  have "take 2 s \<notin> {''0x'', ''0X'', ''0o'', ''0O'', ''0b'', ''0B''}" "take 1 s \<noteq> ''-''" "take 1 s \<noteq> ''+''"
    using assms(1) n in_set_takeD by (metis insertI1 insertI2 list.set_intros(1) list.set_intros(2) insertE emptyE)+
  then show ?thesis using assms by (simp add: bigIntText_def Let_def trim_digits literalValue_def radixValue_digits)
qed

lemma dot_no_digit: "\<forall>c\<in>set s. isDigit c \<Longrightarrow> CHR ''.'' \<notin> set s"
  by (auto simp: isDigit_def)

lemma stripZeros_pad:
  "\<exists>k. s = stripZeros s @ replicate k CHR ''0''"
proof -
  let ?r = "rev s"
  have "?r = takeWhile (\<lambda>c. c = CHR ''0'') ?r @ dropWhile (\<lambda>c. c = CHR ''0'') ?r" by simp
  moreover have "takeWhile (\<lambda>c. c = CHR ''0'') ?r = replicate (length (takeWhile (\<lambda>c. c = CHR ''0'') ?r)) CHR ''0''"
    by (rule replicate_eqI) (auto dest: set_takeWhileD)
  ultimately have "s = rev (replicate (length (takeWhile (\<lambda>c. c = CHR ''0'') ?r)) CHR ''0'' @ dropWhile (\<lambda>c. c = CHR ''0'') ?r)"
    by (metis rev_rev_ident)
  then show ?thesis by (auto simp: stripZeros_def)
qed

text \<open>The 18 digits of a fraction.\<close>

definition fraction18 :: "int \<Rightarrow> string" where
  "fraction18 v = padStart 18 (toString (v smod 10 ^ 18))"

lemma fraction18_facts:
  assumes "0 \<le> v"
  shows "length (fraction18 v) = 18" "\<forall>c\<in>set (fraction18 v). isDigit c" "int (parseDec (fraction18 v)) = v mod 10 ^ 18"
proof -
  define n where "n = nat (v mod 10 ^ 18)"
  have f: "fraction18 v = padStart 18 (decDigits n)" using assms by (simp add: fraction18_def n_def smod_nonneg toString_nonneg)
  have "n < 10 ^ 18" by (simp add: n_def nat_less_iff)
  then have "length (decDigits n) \<le> 18" by (intro decDigits_length_le) simp_all
  then show "length (fraction18 v) = 18" by (simp add: f)
  show "\<forall>c\<in>set (fraction18 v). isDigit c" unfolding f by (rule isDigit_padStart [OF isDigit_decDigits])
  show "int (parseDec (fraction18 v)) = v mod 10 ^ 18" by (simp add: f n_def)
qed

lemma parseWad_digits:
  assumes "0 \<le> v" and "splitChar CHR ''.'' s = [toString (v div 10 ^ 18), f] \<or> splitChar CHR ''.'' s = [toString (v div 10 ^ 18)] \<and> f = []"
    and "take 18 (f @ replicate 18 CHR ''0'') = fraction18 v"
  shows "parseWad s = Inr v"
proof -
  let ?w = "decDigits (nat (v div 10 ^ 18))"
  have w: "toString (v div 10 ^ 18) = ?w" using assms(1) by (simp add: toString_nonneg pos_imp_zdiv_nonneg_iff)
  have d: "\<forall>c\<in>set (?w @ fraction18 v). isDigit c" using isDigit_decDigits fraction18_facts(2) [OF assms(1)] by auto
  have "int (parseDec (?w @ fraction18 v)) = v"
    using fraction18_facts [OF assms(1)] assms(1) by (simp add: parseDec_append pos_imp_zdiv_nonneg_iff)
  moreover have "parseWad s = bigIntText (?w @ fraction18 v)"
    using assms(2) unfolding parseWad_def Let_def w [symmetric] assms(3) [symmetric] by auto
  ultimately show ?thesis using d bigIntText_digits [of "?w @ fraction18 v"] by simp
qed

lemma wholeText:
  assumes "0 \<le> v"
  shows "toString (v sdiv 10 ^ 18) = toString (v div 10 ^ 18)" "CHR ''.'' \<notin> set (toString (v div 10 ^ 18))"
proof -
  show "toString (v sdiv 10 ^ 18) = toString (v div 10 ^ 18)" using sdiv_nonneg [OF assms, of "10 ^ 18"] by (simp del: power_numeral)
  show "CHR ''.'' \<notin> set (toString (v div 10 ^ 18))"
    using assms dot_no_digit [OF isDigit_decDigits] by (simp add: toString_nonneg pos_imp_zdiv_nonneg_iff)
qed

text \<open>C39. Shares survive their presentation: the text of a share read live and the text of the same share read from the index are
  both read back by the parser of the launch requests as exactly that share, for every non-negative amount.\<close>

theorem shares_round_trip:
  assumes "0 \<le> v"
  shows "parseWad (wadString v) = Inr v \<and> parseWad (shareFixed v) = Inr v"
proof
  note f = fraction18_facts [OF assms] and w = wholeText [OF assms]
  have "wadString v = toString (v div 10 ^ 18) @ CHR ''.'' # fraction18 v"
    unfolding wadString_def Let_def fraction18_def w(1) by simp
  then have "splitChar CHR ''.'' (wadString v) = [toString (v div 10 ^ 18), fraction18 v]"
    using splitChar_append [OF w(2)] splitChar_plain [OF dot_no_digit [OF f(2)]] by simp
  then show "parseWad (wadString v) = Inr v" 
    by (intro parseWad_digits [OF assms, of _ "fraction18 v"] disjI1) (simp_all add: f(1))
  let ?s = "stripZeros (fraction18 v)"
  obtain k where k: "fraction18 v = ?s @ replicate k CHR ''0''" using stripZeros_pad by blast
  have l: "length ?s + k = 18" using k f(1) by (metis length_append length_replicate)
  have pad: "take 18 (?s @ replicate 18 CHR ''0'') = fraction18 v"
  proof -
    have "18 - length ?s = k" using l by simp
    then have "take 18 (?s @ replicate 18 CHR ''0'') = ?s @ replicate k CHR ''0''" using l by simp
    then show ?thesis using k by metis
  qed
  have d: "CHR ''.'' \<notin> set ?s" using f(2) k dot_no_digit by (metis UnCI set_append)
  have "shareFixed v = toString (v div 10 ^ 18) @ (if ?s = [] then [] else CHR ''.'' # ?s)"
    unfolding shareFixed_def Let_def fraction18_def w(1) by simp
  then show "parseWad (shareFixed v) = Inr v"
    using splitChar_append [OF w(2)] splitChar_plain [OF d] splitChar_plain [OF w(2)] by (intro parseWad_digits [OF assms _ pad]) auto
qed

theorem shares_round_trip_witness:
  "wadString 30 = ''0.000000000000000030'' \<and> shareFixed 30 = ''0.00000000000000003'' \<and> parseWad ''0.00000000000000003'' = Inr 30"
proof -
  have "wadString 30 = ''0.000000000000000030''" "shareFixed 30 = ''0.00000000000000003''" by code_simp+
  with shares_round_trip [of 30] show ?thesis by simp
qed

section \<open>Findings\<close>

text \<open>The caps are printed in WAD units: read like the shares beside them they are \<open>10^18\<close> times too large.\<close>

lemma caps_in_other_units: "parseWad (cap_harvestServiceFeeWad ECONOMICS_CAPS) = Inr (200000000000000000 * 10 ^ 18)"
  by code_simp

text \<open>The leaderboard does not depend on the chain.\<close>

lemma leaderboard_all_chains: "snd (snd (stats fallback days leaderboard (Some c))) = leaderboardTop leaderboard"
  by (simp add: stats_def Let_def)

text \<open>A pool id closes the literal it is spliced into.\<close>

lemma pool_id_injects:
  "revenueHistorySql numberText chainId table (Some (''x'' @ [CHR 0x27] @ '' or '' @ [CHR 0x27] @ ''1'' @ [CHR 0x27] @ '' = '' @ [CHR 0x27] @ ''1'')) limit
   = ''SELECT * FROM '' @ table @ '' WHERE '' @ [CHR 0x22] @ ''chain_id'' @ [CHR 0x22] @ '' = '' @ toString chainId @ '' AND ''
     @ [CHR 0x22] @ ''pool_id'' @ [CHR 0x22] @ '' = '' @ [CHR 0x27] @ ''x'' @ [CHR 0x27] @ '' or '' @ [CHR 0x27] @ ''1'' @ [CHR 0x27] @ '' = ''
     @ [CHR 0x27] @ ''1'' @ [CHR 0x27]
     @ '' ORDER BY '' @ [CHR 0x22] @ ''block_number'' @ [CHR 0x22] @ '' DESC, '' @ [CHR 0x22] @ ''log_index'' @ [CHR 0x22] @ '' DESC LIMIT ''
     @ clampedText numberText 100 500 limit"
proof -
  let ?p = "''x'' @ [CHR 0x27] @ '' or '' @ [CHR 0x27] @ ''1'' @ [CHR 0x27] @ '' = '' @ [CHR 0x27] @ ''1''"
  have "toLowerCase ?p = ?p" by code_simp
  then show ?thesis by (simp add: revenueHistorySql_def Let_def)
qed

text \<open>A kind that names a property of \<open>Object.prototype\<close> passes the check.\<close>

lemma prototype_kind_accepted:
  "revenueHistory 8453 (\<lambda>_. ''100'') (\<lambda>sql. Inr [sql]) \<lparr>hq_chainId = None, hq_kind = Some ''constructor'', hq_poolId = None, hq_limit = None\<rparr>
    \<noteq> Inl (DomainException 400 ''INVALID_KIND'')"
  by (simp add: revenueHistory_def Let_def revenueTable_def PROTOCOL_REVENUE_TABLES_def objectPrototype_def)

text \<open>The current configuration is the one of the recorded version, if it is among the twenty newest, and else the newest.\<close>

lemma currentEconomics_choice:
  assumes "currentEconomics rows state = Some r"
  shows "r \<in> set rows \<and> (\<forall>s. state = Some s \<longrightarrow> (\<exists>x\<in>set rows. er_version x = st_economicVersion s) \<longrightarrow> er_version r = st_economicVersion s)"
  using assms by (auto simp: currentEconomics_def find_Some_iff find_None_iff split: option.splits list.splits)

end
