(* ===== verification/EventTopics.thy ===== *)
theory EventTopics
  imports Common
begin

text \<open>
  Model of \<open>src/src/infrastructure/blockchain/event-topics.ts\<close>: the table of indexed events and its indexes. The signature
  normalisation and the hash are viem's: \<open>toEventSignature\<close> and \<open>toEventHash\<close> are arguments.
\<close>

section \<open>The table\<close>

datatype event_contract = HookEvent | RegistryEvent | ControllerEvent | RevenueNftEvent | TokenEvent | PoolManagerEvent

record event_entry =
  ee_contract :: event_contract
  ee_name :: string
  ee_params :: string

record event_topic =
  et_contract :: event_contract
  et_name :: string
  et_signature :: string
  et_topic0 :: string

definition hookEntries :: "event_entry list" where
  "hookEntries = map (\<lambda>(name, params). \<lparr>ee_contract = HookEvent, ee_name = name, ee_params = params\<rparr>)
    [(''Launched'',
      ''bytes32 indexed poolId, address indexed creator, address indexed token, string name, string symbol, string uri, uint256 totalSupply, int24 openingLevel, int24 farLevel, bytes32 configHash''),
     (''LaunchConfigured'',
      ''bytes32 indexed poolId, uint256 payoutPlan, uint64 devBuyShareWad''),
     (''DevBuyExecuted'',
      ''bytes32 indexed poolId, uint256 tokensBought, uint256 ethSpent''),
     (''DevBuySkipped'',
      ''bytes32 indexed poolId, address indexed relayer, uint256 tokensRequested''),
     (''CurvePositionsDeployed'',
      ''bytes32 indexed poolId, uint256 minted, uint32 deployed, uint256 tokenSettled''),
     (''BandDeployed'',
      ''bytes32 indexed poolId, uint32 indexed index, int24 levelLower, int24 levelUpper, uint128 liquidity, uint256 tokenInventory''),
     (''BandSkipped'',
      ''bytes32 indexed poolId, uint32 indexed index, uint256 carriedInventory''),
     (''MilestoneHarvested'',
      ''bytes32 indexed poolId, uint32 indexed index, uint256 quoteProceeds, uint256 tokenResidue, uint32 completedMilestones''),
     (''Graduated'',
      ''bytes32 indexed poolId, int24 graduationLevel, uint256 quoteProceeds, uint256 lpSeedQuote, uint256 creatorQuote, uint256 protocolQuote, uint128 fullRangeLiquidity, uint128 wallLiquidity''),
     (''PayoutPotFunded'',
      ''bytes32 indexed poolId, uint32 indexed milestoneIndex, uint256 grossQuote, uint256 serviceFee, uint256 netQuote, uint64 economicVersion''),
     (''PayoutPotRedeemed'',
      ''bytes32 indexed poolId, uint256 amount''),
     (''PayoutTipPaid'',
      ''bytes32 indexed poolId, address indexed recipient, uint256 amount''),
     (''PluginPayoutDelivered'',
      ''bytes32 indexed poolId, uint8 indexed pluginIndex, address indexed plugin, uint256 currentShare, uint256 previousCarry, uint256 delivered''),
     (''PluginPayoutCarried'',
      ''bytes32 indexed poolId, uint8 indexed pluginIndex, address indexed plugin, uint256 currentShare, uint256 previousCarry, uint256 carried''),
     (''PluginPayoutRedirected'',
      ''bytes32 indexed poolId, uint8 indexed pluginIndex, uint256 currentShare, uint256 previousCarry, uint256 redirected''),
     (''CreatorPathAccrued'',
      ''bytes32 indexed poolId, uint256 amount''),
     (''CreatorPathClaimed'',
      ''bytes32 indexed poolId, address indexed holder, uint256 amount''),
     (''CreatorPathClaimFailed'',
      ''bytes32 indexed poolId, address indexed holder, uint256 amount''),
     (''CreatorAccrued'',
      ''bytes32 indexed poolId, uint256 amount, uint8 source, uint64 economicVersion''),
     (''CreatorClaimed'',
      ''bytes32 indexed poolId, address indexed holder, uint256 amount''),
     (''ProtocolAccrued'',
      ''bytes32 indexed poolId, uint256 amount, uint8 source, uint64 economicVersion''),
     (''ProtocolClaimed'',
      ''address indexed recipient, uint256 amount''),
     (''FeesCollected'',
      ''bytes32 indexed poolId, address indexed caller, uint256 quoteFees, uint256 tokenFees''),
     (''FeesRouted'',
      ''bytes32 indexed poolId, uint256 creatorQuote, uint256 protocolQuote, uint256 divertedToNextBand, uint256 tokensBurned, uint64 economicVersion''),
     (''EconomicConfigSet'',
      ''uint64 indexed version, uint64 harvestServiceFeeWad, uint64 quoteCreatorShareWad, uint64 tokenMilestoneFundShareWad''),
     (''ProtocolRecipientSet'',
      ''address indexed recipient''),
     (''TrustedOperatorSet'',
      ''address indexed operator'')]"

definition registryEntries :: "event_entry list" where
  "registryEntries = map (\<lambda>(name, params). \<lparr>ee_contract = RegistryEvent, ee_name = name, ee_params = params\<rparr>)
    [(''PluginRegistered'',
      ''uint8 indexed index, address indexed plugin, uint64 takeWad, uint32 gasLimit, bytes32 codeHash, uint8 role''),
     (''PluginSuspensionSet'',
      ''uint8 indexed index, bool suspended''),
     (''AdministratorProposed'',
      ''address indexed administrator, address indexed pendingAdministrator''),
     (''AdministratorAccepted'',
      ''address indexed previousAdministrator, address indexed administrator'')]"

definition controllerEntries :: "event_entry list" where
  "controllerEntries = map (\<lambda>(name, params). \<lparr>ee_contract = ControllerEvent, ee_name = name, ee_params = params\<rparr>)
    [(''AdministratorProposed'',
      ''address indexed administrator, address indexed pendingAdministrator''),
     (''AdministratorAccepted'',
      ''address indexed previousAdministrator, address indexed administrator''),
     (''OperationScheduled'',
      ''bytes32 indexed operationId, uint8 indexed action, bytes32 indexed salt, uint64 readyAt''),
     (''OperationExecuted'',
      ''bytes32 indexed operationId''),
     (''OperationCancelled'',
      ''bytes32 indexed operationId''),
     (''EconomicConfigUpdated'',
      ''uint64 indexed version, uint64 harvestServiceFeeWad, uint64 quoteCreatorShareWad, uint64 tokenMilestoneFundShareWad''),
     (''ProtocolRecipientUpdated'',
      ''address indexed previousRecipient, address indexed recipient''),
     (''GovernanceDelayUpdated'',
      ''uint64 previousDelay, uint64 newDelay''),
     (''ProtocolTargetBound'',
      ''address indexed target''),
     (''TrustedOperatorUpdated'',
      ''address indexed previousOperator, address indexed operator'')]"

definition revenueNftEntries :: "event_entry list" where
  "revenueNftEntries = map (\<lambda>(name, params). \<lparr>ee_contract = RevenueNftEvent, ee_name = name, ee_params = params\<rparr>)
    [(''MinterSet'',
      ''address indexed minter''),
     (''Transfer'',
      ''address indexed from, address indexed to, uint256 indexed tokenId''),
     (''Approval'',
      ''address indexed owner, address indexed approved, uint256 indexed tokenId''),
     (''ApprovalForAll'',
      ''address indexed owner, address indexed operator, bool approved'')]"

definition tokenEntries :: "event_entry list" where
  "tokenEntries = map (\<lambda>(name, params). \<lparr>ee_contract = TokenEvent, ee_name = name, ee_params = params\<rparr>)
    [(''Transfer'',
      ''address indexed from, address indexed to, uint256 value''),
     (''Approval'',
      ''address indexed owner, address indexed spender, uint256 value'')]"

definition poolManagerEntries :: "event_entry list" where
  "poolManagerEntries = map (\<lambda>(name, params). \<lparr>ee_contract = PoolManagerEvent, ee_name = name, ee_params = params\<rparr>)
    [(''Initialize'',
      ''bytes32 indexed poolId, address indexed currency0, address indexed currency1, uint24 fee, int24 tickSpacing, address hooks, uint160 sqrtPriceX96, int24 tick''),
     (''ModifyLiquidity'',
      ''bytes32 indexed poolId, address indexed sender, int24 tickLower, int24 tickUpper, int256 liquidityDelta, bytes32 salt''),
     (''Swap'',
      ''bytes32 indexed poolId, address indexed sender, int128 amount0, int128 amount1, uint160 sqrtPriceX96, uint128 liquidity, int24 tick, uint24 lpFee'')]"

definition ENTRIES :: "event_entry list" where
  "ENTRIES = hookEntries @ registryEntries @ controllerEntries @ revenueNftEntries @ tokenEntries @ poolManagerEntries"

definition topicOf :: "(string \<Rightarrow> string) \<Rightarrow> (string \<Rightarrow> string) \<Rightarrow> event_entry \<Rightarrow> event_topic" where
  "topicOf toEventSignature toEventHash entry =
     (let canonical = toEventSignature (ee_name entry @ ''('' @ ee_params entry @ '')'') in
      \<lparr>et_contract = ee_contract entry, et_name = ee_name entry, et_signature = canonical, et_topic0 = toEventHash canonical\<rparr>)"

definition EVENT_TOPICS :: "(string \<Rightarrow> string) \<Rightarrow> (string \<Rightarrow> string) \<Rightarrow> event_topic list" where
  "EVENT_TOPICS toEventSignature toEventHash = map (topicOf toEventSignature toEventHash) ENTRIES"

section \<open>Indexes\<close>

definition indexByName :: "event_topic list \<Rightarrow> (string \<rightharpoonup> event_topic)" where
  "indexByName topics = foldl (\<lambda>m e. if m (et_name e) = None then m(et_name e \<mapsto> e) else m) Map.empty topics"

definition indexByTopic :: "event_topic list \<Rightarrow> (string \<rightharpoonup> event_topic list)" where
  "indexByTopic topics = foldl (\<lambda>m e. m(et_topic0 e \<mapsto> (case m (et_topic0 e) of Some es \<Rightarrow> es | None \<Rightarrow> []) @ [e])) Map.empty topics"

definition topicByName :: "event_topic list \<Rightarrow> string \<Rightarrow> event_topic option" where
  "topicByName topics name = indexByName topics name"

definition topicsByContract :: "event_topic list \<Rightarrow> event_contract \<Rightarrow> string list" where
  "topicsByContract topics contract = map et_topic0 (filter (\<lambda>e. et_contract e = contract) topics)"

definition entriesByTopic :: "event_topic list \<Rightarrow> string \<Rightarrow> event_topic list" where
  "entriesByTopic topics topic0 = (case indexByTopic topics (toLowerCase topic0) of Some es \<Rightarrow> es | None \<Rightarrow> [])"

section \<open>The indexes agree with the table\<close>

lemma indexByName_find: "indexByName topics name = List.find (\<lambda>e. et_name e = name) topics"
proof -
  have "foldl (\<lambda>m e. if m (et_name e) = None then m(et_name e \<mapsto> e) else m) m0 topics name
      = (case m0 name of Some e \<Rightarrow> Some e | None \<Rightarrow> List.find (\<lambda>e. et_name e = name) topics)" for m0
    by (induction topics arbitrary: m0) (auto split: option.split)
  then show ?thesis by (simp add: indexByName_def)
qed

lemma indexByTopic_filter:
  "indexByTopic topics t = (let es = filter (\<lambda>e. et_topic0 e = t) topics in if es = [] then None else Some es)"
proof -
  have "foldl (\<lambda>m e. m(et_topic0 e \<mapsto> (case m (et_topic0 e) of Some es \<Rightarrow> es | None \<Rightarrow> []) @ [e])) m0 topics t
      = (let es = filter (\<lambda>e. et_topic0 e = t) topics in if es = [] then m0 t else Some ((case m0 t of Some es \<Rightarrow> es | None \<Rightarrow> []) @ es))" for m0
    by (induction topics arbitrary: m0) (auto simp: Let_def split: option.split)
  then show ?thesis by (simp add: indexByTopic_def Let_def)
qed

lemma entriesByTopic_filter: "entriesByTopic topics t = filter (\<lambda>e. et_topic0 e = toLowerCase t) topics"
  by (auto simp: entriesByTopic_def indexByTopic_filter Let_def)

definition nameOf :: "string \<Rightarrow> string" where
  "nameOf signature = takeWhile (\<lambda>c. c \<noteq> CHR ''('') signature"

definition entryKey :: "event_entry \<Rightarrow> event_contract \<times> string" where
  "entryKey e = (ee_contract e, nameOf (ee_name e @ ''(''))"

lemma entryKeys_distinct: "distinct (map entryKey ENTRIES)"
  by code_simp

lemma nameOf_append: "nameOf (n @ ''('' @ r) = nameOf (n @ ''('')"
  unfolding nameOf_def by (induction n) simp_all

lemma topics_key:
  assumes hash: "inj_on toEventHash (et_signature ` set (EVENT_TOPICS toEventSignature toEventHash))"
    and sig: "\<And>e. e \<in> set ENTRIES \<Longrightarrow> nameOf (toEventSignature (ee_name e @ ''('' @ ee_params e @ '')'')) = nameOf (ee_name e @ ''('' @ ee_params e @ '')'')"
  shows "distinct (map (\<lambda>e. (et_contract e, et_topic0 e)) (EVENT_TOPICS toEventSignature toEventHash))"
proof -
  let ?T = "topicOf toEventSignature toEventHash" and ?S = "\<lambda>e. toEventSignature (ee_name e @ ''('' @ ee_params e @ '')'')"
  have "inj_on (\<lambda>e. (et_contract (?T e), et_topic0 (?T e))) (set ENTRIES)"
  proof (rule inj_onI)
    fix a b assume a: "a \<in> set ENTRIES" and b: "b \<in> set ENTRIES"
      and eq: "(et_contract (?T a), et_topic0 (?T a)) = (et_contract (?T b), et_topic0 (?T b))"
    from eq have h: "toEventHash (?S a) = toEventHash (?S b)" and c: "ee_contract a = ee_contract b"
      by (simp_all add: topicOf_def Let_def)
    have S: "?S x \<in> et_signature ` set (EVENT_TOPICS toEventSignature toEventHash)" if "x \<in> set ENTRIES" for x
      using that by (force simp: EVENT_TOPICS_def topicOf_def Let_def)
    have "?S a = ?S b" using inj_onD [OF hash h S [OF a] S [OF b]] .
    then have "entryKey a = entryKey b" using sig [OF a] sig [OF b] c nameOf_append by (metis entryKey_def)
    then show "a = b" using entryKeys_distinct a b by (auto simp: distinct_map dest: inj_onD)
  qed
  moreover have "distinct ENTRIES" using entryKeys_distinct by (simp add: distinct_map)
  ultimately show ?thesis by (simp add: EVENT_TOPICS_def comp_def distinct_map)
qed

lemma filter_unique:
  assumes "distinct (map f xs)" "x \<in> set xs"
  shows "filter (\<lambda>y. f y = f x) xs = [x]"
  using assms
proof (induction xs)
  case (Cons y ys)
  show ?case
  proof (cases "y = x")
    case True
    then have "filter (\<lambda>z. f z = f x) ys = []" using Cons.prems(1) by (auto simp: filter_empty_conv) (metis image_eqI)
    then show ?thesis using True by simp
  next
    case False
    then have "x \<in> set ys" using Cons.prems by simp
    moreover have "f y \<noteq> f x" using Cons.prems(1) calculation by (auto dest: imageI [of x _ f])
    ultimately show ?thesis using Cons by simp
  qed
qed simp

section \<open>Properties\<close>

text \<open>C38. Decoding a log is unambiguous: when the hash does not confuse two signatures of the table and prints in lower
  case, and the normalisation keeps the event name, the entries of a topic restricted to the emitting contract are exactly the
  one event of the table with that topic, the topics watched for a contract are distinct, and a name resolves to the first
  event of the table that has it.\<close>

theorem event_decoding_unambiguous:
  assumes "inj_on toEventHash (et_signature ` set (EVENT_TOPICS toEventSignature toEventHash))"
    and "\<And>x. toLowerCase (toEventHash x) = toEventHash x"
    and "\<And>e. e \<in> set ENTRIES \<Longrightarrow> nameOf (toEventSignature (ee_name e @ ''('' @ ee_params e @ '')'')) = nameOf (ee_name e @ ''('' @ ee_params e @ '')'')"
    and "e \<in> set (EVENT_TOPICS toEventSignature toEventHash)"
  shows "filter (\<lambda>x. et_contract x = et_contract e) (entriesByTopic (EVENT_TOPICS toEventSignature toEventHash) (et_topic0 e)) = [e]
    \<and> distinct (topicsByContract (EVENT_TOPICS toEventSignature toEventHash) c)
    \<and> topicByName (EVENT_TOPICS toEventSignature toEventHash) n = List.find (\<lambda>x. et_name x = n) (EVENT_TOPICS toEventSignature toEventHash)"
proof -
  let ?E = "EVENT_TOPICS toEventSignature toEventHash"
  note d = topics_key [OF assms(1,3)]
  have "toLowerCase (et_topic0 e) = et_topic0 e" using assms(2,4) by (auto simp: EVENT_TOPICS_def topicOf_def Let_def)
  then have "filter (\<lambda>x. et_contract x = et_contract e) (entriesByTopic ?E (et_topic0 e)) = [e]"
    using filter_unique [OF d assms(4)] by (simp add: entriesByTopic_filter conj_commute)
  moreover have "distinct (topicsByContract ?E c)"
    using d unfolding topicsByContract_def by (auto simp: distinct_map inj_on_def)
  ultimately show ?thesis by (simp add: topicByName_def indexByName_find)
qed

text \<open>An injective encoding in place of the hash.\<close>

definition charBits :: "char \<Rightarrow> string" where
  "charBits c = map (\<lambda>b. if b then CHR ''1'' else CHR ''0'') [digit0 c, digit1 c, digit2 c, digit3 c, digit4 c, digit5 c, digit6 c, digit7 c]"

definition sampleHash :: "string \<Rightarrow> string" where
  "sampleHash s = concat (map charBits s)"

lemma charBits_inj: "charBits a = charBits b \<Longrightarrow> a = b"
  by (cases a; cases b) (simp add: charBits_def split: if_splits)

lemma sampleHash_inj: "inj sampleHash"
proof (rule injI)
  fix s t assume "sampleHash s = sampleHash t"
  then show "s = t"
  proof (induction s arbitrary: t)
    case Nil
    then show ?case by (cases t) (simp_all add: sampleHash_def charBits_def)
  next
    case (Cons c s)
    then obtain d t' where t: "t = d # t'" by (cases t) (simp_all add: sampleHash_def charBits_def)
    have "length (charBits x) = 8" for x by (simp add: charBits_def)
    then have "charBits c = charBits d \<and> sampleHash s = sampleHash t'" using Cons.prems t by (simp add: sampleHash_def)
    then show ?case using Cons.IH charBits_inj t by blast
  qed
qed

lemma sampleHash_lower: "toLowerCase (sampleHash s) = sampleHash s"
proof -
  have "toLowerChar CHR ''0'' = CHR ''0''" "toLowerChar CHR ''1'' = CHR ''1''" by code_simp+
  then have "toLowerCase (charBits c) = charBits c" for c by (simp add: charBits_def toLowerCase_def)
  then show ?thesis by (induction s) (simp_all add: sampleHash_def toLowerCase_def)
qed

theorem event_decoding_unambiguous_witness:
  "map et_contract (filter (\<lambda>x. et_contract x = HookEvent) (entriesByTopic (EVENT_TOPICS id sampleHash)
     (et_topic0 (topicOf id sampleHash (hd ENTRIES))))) = [HookEvent]"
proof -
  have e: "topicOf id sampleHash (hd ENTRIES) \<in> set (EVENT_TOPICS id sampleHash)" "et_contract (topicOf id sampleHash (hd ENTRIES)) = HookEvent"
    by (simp_all add: EVENT_TOPICS_def ENTRIES_def hookEntries_def topicOf_def Let_def)
  from event_decoding_unambiguous [OF inj_on_subset [OF sampleHash_inj subset_UNIV] sampleHash_lower _ e(1)] e(2) show ?thesis by simp
qed

text \<open>The catalogue: events per contract.\<close>

lemma catalogue_sizes: "map length [hookEntries, registryEntries, controllerEntries, revenueNftEntries, tokenEntries, poolManagerEntries] = [27, 4, 10, 4, 2, 3]"
  by code_simp

end
