(* ===== verification/ChainAccess.thy ===== *)
theory ChainAccess
  imports Deployment
begin

text \<open>
  Model of \<open>src/src/infrastructure/blockchain/chain-client.ts\<close>, \<open>chain-client.factory.ts\<close>, \<open>contract-readers.ts\<close> and of the wiring
  in \<open>blockchain-registry.service.ts\<close>. A client is the chain it is for and the endpoints of its fallback transport; a contract handle
  is an address, the name of its ABI and the client. \<open>environ\<close> is \<open>process.env\<close>, \<open>number\<close> is \<open>Number(text)\<close>.
\<close>

section \<open>Clients\<close>

record chain_client =
  cl_chain :: int
  cl_urls :: "string list"

definition httpTransportsForChain :: "string list \<Rightarrow> string list" where
  "httpTransportsForChain rpcUrls = map trim (filter (\<lambda>url. trim url \<noteq> []) rpcUrls)"

definition createChainPublicClient :: "int \<Rightarrow> string list \<Rightarrow> chain_client result" where
  "createChainPublicClient chainId rpcUrls =
     (let transports = httpTransportsForChain rpcUrls in
      if transports = [] then Inl (JsError ''No RPC endpoints configured'') else Inr \<lparr>cl_chain = chainId, cl_urls = transports\<rparr>)"

definition urlList :: "string \<Rightarrow> string list" where
  "urlList raw = filter (\<lambda>url. url \<noteq> []) (map trim (splitChar CHR '','' raw))"

definition environmentDefaultUrls :: "(string \<Rightarrow> string option) \<Rightarrow> int \<Rightarrow> string list" where
  "environmentDefaultUrls environ chainId = (case environ (''RPC_URLS_'' @ toString chainId) of
     Some raw \<Rightarrow> if trim raw \<noteq> [] then urlList raw else []
   | None \<Rightarrow> [])"

record client_factory =
  cf_clients :: "int \<rightharpoonup> chain_client"
  cf_config :: "(int \<times> string list) option"

definition configureClients :: "int \<Rightarrow> string list \<Rightarrow> client_factory \<Rightarrow> client_factory" where
  "configureClients chainId rpcUrls f = f\<lparr>cf_config := Some (chainId, rpcUrls)\<rparr>"

definition clientUrls :: "(string \<Rightarrow> string option) \<Rightarrow> int \<Rightarrow> client_factory \<Rightarrow> string list" where
  "clientUrls environ chainId f =
     (let rpcUrls = (case cf_config f of Some (c, us) \<Rightarrow> if c = chainId then us else [] | None \<Rightarrow> []) in
      if rpcUrls \<noteq> [] then rpcUrls else environmentDefaultUrls environ chainId)"

definition clientFor :: "(string \<Rightarrow> string option) \<Rightarrow> int \<Rightarrow> client_factory \<Rightarrow> chain_client result \<times> client_factory" where
  "clientFor environ chainId f = (case cf_clients f chainId of
     Some c \<Rightarrow> (Inr c, f)
   | None \<Rightarrow> (case createChainPublicClient chainId (clientUrls environ chainId f) of
       Inl e \<Rightarrow> (Inl e, f)
     | Inr c \<Rightarrow> (Inr c, f\<lparr>cf_clients := (cf_clients f)(chainId \<mapsto> c)\<rparr>)))"

definition destroyClients :: "client_factory \<Rightarrow> client_factory" where
  "destroyClients f = f\<lparr>cf_clients := Map.empty\<rparr>"

section \<open>Contract handles\<close>

record contract_handle =
  ch_address :: string
  ch_abi :: string
  ch_client :: chain_client

record read_contracts =
  rcs_chainId :: int
  rcs_hook :: contract_handle
  rcs_launchSupport :: contract_handle
  rcs_revenueNft :: contract_handle
  rcs_registry :: contract_handle
  rcs_controller :: contract_handle
  rcs_stateView :: "contract_handle option"
  rcs_quoter :: "contract_handle option"

definition getContract :: "string \<Rightarrow> string \<Rightarrow> chain_client \<Rightarrow> contract_handle" where
  "getContract address abi client = \<lparr>ch_address = address, ch_abi = abi, ch_client = client\<rparr>"

definition buildReadContracts :: "chain_client \<Rightarrow> address_book \<Rightarrow> read_contracts" where
  "buildReadContracts client book =
     \<lparr>rcs_chainId = ab_chainId book,
      rcs_hook = getContract (ab_hook book) ''MILESTONE_HOOK_ABI'' client,
      rcs_launchSupport = getContract (ab_launchSupport book) ''LAUNCH_SUPPORT_ABI'' client,
      rcs_revenueNft = getContract (ab_revenueNft book) ''REVENUE_NFT_ABI'' client,
      rcs_registry = getContract (ab_payoutPluginRegistry book) ''PAYOUT_PLUGIN_REGISTRY_ABI'' client,
      rcs_controller = getContract (ab_protocolController book) ''PROTOCOL_CONTROLLER_ABI'' client,
      rcs_stateView = map_option (\<lambda>a. getContract a ''STATE_VIEW_ABI'' client) (ab_stateView book),
      rcs_quoter = map_option (\<lambda>a. getContract a ''V4_QUOTER_ABI'' client) (ab_v4Quoter book)\<rparr>"

definition tokenContract :: "chain_client \<Rightarrow> string \<Rightarrow> contract_handle" where
  "tokenContract client address = getContract address ''erc20Abi'' client"

record pool_key =
  pk_currency0 :: string
  pk_currency1 :: string
  pk_fee :: int
  pk_tickSpacing :: int
  pk_hooks :: string

definition NATIVE_ETH_PLACEHOLDER :: string where
  "NATIVE_ETH_PLACEHOLDER = ''0x0000000000000000000000000000000000000000''"

definition spawnPoolKey :: "address_book \<Rightarrow> string \<Rightarrow> pool_key" where
  "spawnPoolKey book token = \<lparr>pk_currency0 = NATIVE_ETH_PLACEHOLDER, pk_currency1 = token, pk_fee = 10000, pk_tickSpacing = 1,
     pk_hooks = ab_hook book\<rparr>"

section \<open>The registry service\<close>

record chain_registry =
  rg_books :: "int \<rightharpoonup> address_book"
  rg_contracts :: "int \<rightharpoonup> read_contracts"
  rg_configured :: bool
  rg_clients :: client_factory

definition configureRegistry :: "int \<Rightarrow> string list \<Rightarrow> chain_registry \<Rightarrow> chain_registry" where
  "configureRegistry chainId rpcUrls rg = rg\<lparr>rg_clients := configureClients chainId rpcUrls (rg_clients rg), rg_configured := True\<rparr>"

text \<open>\<open>manifests\<close> is the stored table, \<open>None\<close> when the query fails: the boot swallows that, a reload throws it.\<close>

definition defaultWiring :: "(string \<Rightarrow> string option) \<Rightarrow> (string \<Rightarrow> int) \<Rightarrow> chain_registry \<Rightarrow> chain_registry" where
  "defaultWiring environ number rg = (if rg_configured rg then rg
     else configureRegistry (case environ ''DEFAULT_CHAIN_ID'' of Some s \<Rightarrow> number s | None \<Rightarrow> 8453)
       (urlList (case environ ''CHAIN_RPC_URLS'' of Some s \<Rightarrow> s | None \<Rightarrow> [])) rg)"

definition reload :: "(string \<Rightarrow> string option) \<Rightarrow> (json \<Rightarrow> rat option) \<Rightarrow> (int \<times> json) list option \<Rightarrow> chain_registry
    \<Rightarrow> unit result \<times> chain_registry" where
  "reload environ jsonNumber manifests rg = (case manifests of
     None \<Rightarrow> (Inl (PrismaError ''P1001''), rg)
   | Some rows \<Rightarrow> (Inr (), rg\<lparr>rg_books := loadAll environ jsonNumber rows (rg_books rg)\<rparr>))"

definition onModuleInit :: "(string \<Rightarrow> string option) \<Rightarrow> (string \<Rightarrow> int) \<Rightarrow> (json \<Rightarrow> rat option) \<Rightarrow> (int \<times> json) list option
    \<Rightarrow> chain_registry \<Rightarrow> chain_registry" where
  "onModuleInit environ number jsonNumber manifests rg = snd (reload environ jsonNumber manifests (defaultWiring environ number rg))"

definition contractsFor :: "(string \<Rightarrow> string option) \<Rightarrow> int \<Rightarrow> chain_registry \<Rightarrow> read_contracts result \<times> chain_registry" where
  "contractsFor environ chainId rg = (case rg_contracts rg chainId of
     Some c \<Rightarrow> (Inr c, rg)
   | None \<Rightarrow> (case bookOf (rg_books rg) chainId of
       Inl e \<Rightarrow> (Inl e, rg)
     | Inr book \<Rightarrow> (case clientFor environ chainId (rg_clients rg) of
         (Inl e, f) \<Rightarrow> (Inl e, rg\<lparr>rg_clients := f\<rparr>)
       | (Inr client, f) \<Rightarrow>
           let built = buildReadContracts client book in
           (Inr built, rg\<lparr>rg_clients := f, rg_contracts := (rg_contracts rg)(chainId \<mapsto> built)\<rparr>))))"

section \<open>Lemmas\<close>

text \<open>Every client of the factory is for its chain and has an endpoint, none of them blank.\<close>

definition factoryOk :: "client_factory \<Rightarrow> bool" where
  "factoryOk f \<longleftrightarrow> (\<forall>c cl. cf_clients f c = Some cl \<longrightarrow> cl_chain cl = c \<and> cl_urls cl \<noteq> [] \<and> [] \<notin> set (cl_urls cl))"

lemma createChainPublicClient_ok:
  "createChainPublicClient c us = Inr cl \<Longrightarrow> cl_chain cl = c \<and> cl_urls cl \<noteq> [] \<and> [] \<notin> set (cl_urls cl)"
  by (auto simp: createChainPublicClient_def Let_def httpTransportsForChain_def split: if_splits)

lemma clientFor_ok:
  assumes "factoryOk f" "clientFor environ c f = (r, f')"
  shows "factoryOk f' \<and> (\<forall>cl. r = Inr cl \<longrightarrow> cl_chain cl = c)"
proof (cases "cf_clients f c")
  case None
  show ?thesis
  proof (cases "createChainPublicClient c (clientUrls environ c f)")
    case (Inr b)
    then have "r = Inr b" "f' = f\<lparr>cf_clients := (cf_clients f)(c \<mapsto> b)\<rparr>" using None assms(2) by (simp_all add: clientFor_def)
    then show ?thesis using assms(1) createChainPublicClient_ok [OF Inr] by (simp add: factoryOk_def)
  qed (use None assms in \<open>auto simp: clientFor_def\<close>)
qed (use assms in \<open>auto simp: clientFor_def factoryOk_def\<close>)

definition registryWired :: "chain_registry \<Rightarrow> bool" where
  "registryWired rg \<longleftrightarrow> factoryOk (rg_clients rg) \<and> (\<forall>c h. rg_contracts rg c = Some h \<longrightarrow> cl_chain (ch_client (rcs_hook h)) = c)"

lemma contractsFor_wired:
  assumes "registryWired rg" "contractsFor environ c rg = (r, rg')"
  shows "registryWired rg'"
proof (cases "rg_contracts rg c")
  case None
  show ?thesis
  proof (cases "bookOf (rg_books rg) c")
    case (Inr book)
    obtain x f where x: "clientFor environ c (rg_clients rg) = (x, f)" by force
    have ok: "factoryOk f" "\<forall>cl. x = Inr cl \<longrightarrow> cl_chain cl = c"
      using clientFor_ok [OF _ x] assms(1) by (simp_all add: registryWired_def)
    show ?thesis using assms None Inr x ok
      by (cases x) (auto simp: contractsFor_def registryWired_def Let_def buildReadContracts_def getContract_def split: if_splits)
  qed (use assms None in \<open>simp add: contractsFor_def\<close>)
qed (use assms in \<open>simp add: contractsFor_def\<close>)

text \<open>Handles built once outlive a reload that moves the contracts.\<close>

lemma reload_keeps_handles:
  assumes "contractsFor environ c rg = (Inr h, rg')" "reload environ' jsonNumber manifests rg' = (r, rg'')"
  shows "contractsFor environ'' c rg'' = (Inr h, rg'')"
proof -
  have "rg_contracts rg' c = Some h"
    using assms(1) by (auto simp: contractsFor_def Let_def split: option.splits sum.splits prod.splits)
  moreover have "rg_contracts rg'' = rg_contracts rg'" using assms(2) by (auto simp: reload_def split: option.splits)
  ultimately show ?thesis by (simp add: contractsFor_def)
qed

text \<open>Address overrides build no book unless a manifest of the chain is stored.\<close>

lemma loadAll_other:
  "c \<notin> fst ` set manifests \<Longrightarrow> loadAll environ number manifests books c = books c"
  unfolding loadAll_def
proof (induction manifests arbitrary: books)
  case (Cons m manifests)
  then show ?case by (cases m) (auto split: sum.splits)
qed simp

lemma overrides_need_manifest:
  assumes "chainId \<notin> fst ` set manifests"
  shows "hasChain (loadAll environ number manifests Map.empty) chainId = False"
  by (simp add: hasChain_def loadAll_other [OF assms])

end
