(* ===== verification/Keepers.thy ===== *)
theory Keepers
  imports Trading Deployment
begin

text \<open>
  Model of \<open>src/src/modules/keepers/keepers.service.ts\<close>: the jobs offered to keepers, computed from the indexed tables. The tables
  are lists; \<open>findMany\<close> without an order keeps the order of the table. A query limit is absent, \<open>NaN\<close> (\<open>Some None\<close>) or a number.
\<close>

section \<open>Rows\<close>

record keeper_stats =
  ks_lastPriceSqrtX96 :: int
  ks_lastSwapBlock :: int

record keeper_pool =
  kp_chainId :: int
  kp_poolId :: string
  kp_status :: pool_status
  kp_farLevel :: int
  kp_launchTime :: int
  kp_stats :: "keeper_stats option"

record pot_row =
  po_chainId :: int
  po_poolId :: string
  po_balance :: int

record fee_collection =
  fc_chainId :: int
  fc_poolId :: string
  fc_blockNumber :: int

record keeper_swap =
  sw_chainId :: int
  sw_poolId :: string
  sw_timestamp :: int
  sw_blockNumber :: int

record keeper_db =
  kd_pools :: "keeper_pool list"
  kd_pots :: "pot_row list"
  kd_collections :: "fee_collection list"
  kd_swaps :: "keeper_swap list"

datatype job_kind = FlushJob | GraduateJob | CollectFeesJob

datatype job_signal = PotBalance string | FarLevel int string | SwapsSince nat

record keeper_job =
  kj_kind :: job_kind
  kj_poolId :: string
  kj_to :: "string option"
  kj_function :: string
  kj_args :: "string list"
  kj_incentiveWei :: string
  kj_signal :: job_signal

section \<open>Jobs\<close>

definition flushJob :: "string option \<Rightarrow> pot_row \<Rightarrow> keeper_job" where
  "flushJob hook pot = \<lparr>kj_kind = FlushJob, kj_poolId = po_poolId pot, kj_to = hook, kj_function = ''flushTo(bytes32,address)'',
     kj_args = [po_poolId pot, ''<tipTo>''], kj_incentiveWei = toString (po_balance pot sdiv 100),
     kj_signal = PotBalance (toString (po_balance pot))\<rparr>"

definition flushJobs :: "string option \<Rightarrow> int \<Rightarrow> keeper_db \<Rightarrow> keeper_job list" where
  "flushJobs hook chainId db = map (flushJob hook) (filter (\<lambda>pot. po_chainId pot = chainId \<and> po_balance pot > 0) (kd_pots db))"

definition graduateJob :: "string option \<Rightarrow> keeper_pool \<Rightarrow> int \<Rightarrow> keeper_job" where
  "graduateJob hook p sqrtP = \<lparr>kj_kind = GraduateJob, kj_poolId = kp_poolId p, kj_to = hook,
     kj_function = ''graduate((address,address,uint24,int24,address))'', kj_args = [kp_poolId p], kj_incentiveWei = ''0'',
     kj_signal = FarLevel (kp_farLevel p) (toString sqrtP)\<rparr>"

text \<open>A far level outside the price axis throws out of the whole request.\<close>

fun graduateJobs :: "string option \<Rightarrow> keeper_pool list \<Rightarrow> keeper_job list result" where
  "graduateJobs hook [] = Inr []"
| "graduateJobs hook (p # ps) = (case (kp_status p, kp_stats p) of
     (Bonding, Some stats) \<Rightarrow>
       if ks_lastPriceSqrtX96 stats = 0 then graduateJobs hook ps
       else bindR (sqrtPriceAtLevel (kp_farLevel p - 1)) (\<lambda>threshold.
         bindR (graduateJobs hook ps) (\<lambda>jobs.
           Inr (if ks_lastPriceSqrtX96 stats \<le> threshold then graduateJob hook p (ks_lastPriceSqrtX96 stats) # jobs else jobs)))
   | _ \<Rightarrow> graduateJobs hook ps)"

definition lastCollection :: "keeper_db \<Rightarrow> int \<Rightarrow> string \<Rightarrow> int option" where
  "lastCollection db chainId poolId =
     (case map fc_blockNumber (filter (\<lambda>f. fc_chainId f = chainId \<and> fc_poolId f = poolId) (kd_collections db)) of
        [] \<Rightarrow> None | b # bs \<Rightarrow> Some (foldl max b bs))"

definition swapsSince :: "keeper_db \<Rightarrow> int \<Rightarrow> string \<Rightarrow> int \<Rightarrow> int \<Rightarrow> nat" where
  "swapsSince db chainId poolId since block = length (filter (\<lambda>s. sw_chainId s = chainId \<and> sw_poolId s = poolId
     \<and> sw_timestamp s \<ge> since \<and> sw_blockNumber s > block) (kd_swaps db))"

definition collectJob :: "string option \<Rightarrow> string \<Rightarrow> nat \<Rightarrow> keeper_job" where
  "collectJob hook poolId swaps = \<lparr>kj_kind = CollectFeesJob, kj_poolId = poolId, kj_to = hook,
     kj_function = ''collectFees((address,address,uint24,int24,address))'', kj_args = [poolId], kj_incentiveWei = ''0'',
     kj_signal = SwapsSince swaps\<rparr>"

definition collectable :: "keeper_pool \<Rightarrow> bool" where
  "collectable p \<longleftrightarrow> kp_status p = Graduated \<and> (case kp_stats p of Some stats \<Rightarrow> ks_lastSwapBlock stats > 0 | None \<Rightarrow> False)"

definition poolSwaps :: "keeper_db \<Rightarrow> int \<Rightarrow> int \<Rightarrow> string \<Rightarrow> nat" where
  "poolSwaps db chainId now poolId = swapsSince db chainId poolId (now - 24 * 3600 * 1000)
     (case lastCollection db chainId poolId of Some b \<Rightarrow> b | None \<Rightarrow> 0)"

definition collectJobs :: "string option \<Rightarrow> int \<Rightarrow> int \<Rightarrow> keeper_db \<Rightarrow> keeper_pool list \<Rightarrow> keeper_job list" where
  "collectJobs hook chainId now db pools = List.map_filter (\<lambda>p.
     let swaps = poolSwaps db chainId now (kp_poolId p) in
     if collectable p \<and> swaps > 0 then Some (collectJob hook (kp_poolId p) swaps) else None) pools"

definition wantsKind :: "string option \<Rightarrow> string \<Rightarrow> bool" where
  "wantsKind kind k \<longleftrightarrow> kind = None \<or> kind = Some [] \<or> kind = Some k"

text \<open>\<open>Math.min(Math.max(limit ?? d, 1), cap)\<close>, then \<open>slice(0, limit)\<close>, which reads \<open>NaN\<close> as zero.\<close>

definition sliceLimit :: "rat \<Rightarrow> rat \<Rightarrow> rat option option \<Rightarrow> nat" where
  "sliceLimit dflt cap limit = (case limit of
     None \<Rightarrow> nat \<lfloor>min (max dflt 1) cap\<rfloor>
   | Some None \<Rightarrow> 0
   | Some (Some q) \<Rightarrow> nat \<lfloor>min (max q 1) cap\<rfloor>)"

record keeper_query =
  kq_chainId :: "int option"
  kq_kind :: "string option"
  kq_limit :: "rat option option"

record keeper_view =
  kv_chainId :: int
  kv_jobs :: "keeper_job list"
  kv_multicall3 :: "string option"

definition keeperPools :: "keeper_db \<Rightarrow> int \<Rightarrow> keeper_pool list" where
  "keeperPools db chainId = take 500 (sort_key (\<lambda>p. - kp_launchTime p) (filter (\<lambda>p. kp_chainId p = chainId) (kd_pools db)))"

definition jobs :: "int \<Rightarrow> (int \<rightharpoonup> address_book) \<Rightarrow> int \<Rightarrow> keeper_query \<Rightarrow> keeper_db \<Rightarrow> keeper_view result" where
  "jobs fallback books now query db =
     (let chainId = resolveChainId fallback (kq_chainId query);
          limit = sliceLimit 50 200 (kq_limit query);
          book = books chainId;
          hook = map_option ab_hook book;
          pools = keeperPools db chainId;
          flushes = (if wantsKind (kq_kind query) ''flush'' then flushJobs hook chainId db else [])
      in bindR (if wantsKind (kq_kind query) ''graduate'' then graduateJobs hook pools else Inr []) (\<lambda>graduations.
         let collections = (if wantsKind (kq_kind query) ''collectFees'' then collectJobs hook chainId now db pools else []) in
         Inr \<lparr>kv_chainId = chainId, kv_jobs = take limit (flushes @ graduations @ collections), kv_multicall3 = map_option ab_multicall3 book\<rparr>))"

section \<open>Lemmas\<close>

lemma graduateJobs_Inr:
  assumes "graduateJobs hook ps = Inr js"
  shows "j \<in> set js \<longleftrightarrow> (\<exists>p stats threshold. p \<in> set ps \<and> kp_status p = Bonding \<and> kp_stats p = Some stats \<and> ks_lastPriceSqrtX96 stats \<noteq> 0
     \<and> sqrtPriceAtLevel (kp_farLevel p - 1) = Inr threshold \<and> ks_lastPriceSqrtX96 stats \<le> threshold
     \<and> j = graduateJob hook p (ks_lastPriceSqrtX96 stats))"
  using assms
proof (induction ps arbitrary: js)
  case (Cons p ps)
  show ?case
  proof (cases "\<exists>stats. kp_status p = Bonding \<and> kp_stats p = Some stats \<and> ks_lastPriceSqrtX96 stats \<noteq> 0")
    case True
    then obtain stats where s: "kp_status p = Bonding" "kp_stats p = Some stats" "ks_lastPriceSqrtX96 stats \<noteq> 0" by blast
    then obtain t js' where t: "sqrtPriceAtLevel (kp_farLevel p - 1) = Inr t" "graduateJobs hook ps = Inr js'"
      "js = (if ks_lastPriceSqrtX96 stats \<le> t then graduateJob hook p (ks_lastPriceSqrtX96 stats) # js' else js')"
      using Cons.prems by (auto simp: bindR_eq_Inr_iff)
    show ?thesis using Cons.IH [OF t(2)] s t by auto
  next
    case False
    then have "graduateJobs hook ps = Inr js" using Cons.prems by (auto split: pool_status.splits option.splits if_splits)
    from Cons.IH [OF this] False show ?thesis by auto
  qed
qed simp

lemma graduateJobs_defined:
  assumes "\<forall>p\<in>set ps. isValidLevel (kp_farLevel p - 1)"
  shows "\<exists>js. graduateJobs hook ps = Inr js"
  using assms
proof (induction ps)
  case (Cons p ps)
  then obtain js where "graduateJobs hook ps = Inr js" by auto
  moreover obtain t where "sqrtPriceAtLevel (kp_farLevel p - 1) = Inr t" using sqrtPriceAtLevel_defined Cons.prems by force
  ultimately show ?case by (auto split: pool_status.split option.split)
qed simp

lemma collectJobs_mem:
  "j \<in> set (collectJobs hook chainId now db pools) \<longleftrightarrow> (\<exists>p\<in>set pools. collectable p \<and> poolSwaps db chainId now (kp_poolId p) > 0
     \<and> j = collectJob hook (kp_poolId p) (poolSwaps db chainId now (kp_poolId p)))"
  by (auto simp: collectJobs_def List.map_filter_def Let_def)

lemma foldl_max_ge: "\<forall>x\<in>set (a # as). x \<le> foldl max a (as :: int list)"
proof (induction as arbitrary: a)
  case (Cons b as)
  from Cons.IH [of "max a b"] show ?case by auto
qed simp

lemma lastCollection_max:
  assumes "lastCollection db chainId poolId = Some b" "f \<in> set (kd_collections db)" "fc_chainId f = chainId" "fc_poolId f = poolId"
  shows "fc_blockNumber f \<le> b"
proof -
  have "fc_blockNumber f \<in> set (map fc_blockNumber (filter (\<lambda>f. fc_chainId f = chainId \<and> fc_poolId f = poolId) (kd_collections db)))"
    using assms(2-4) by auto
  then show ?thesis using assms(1) foldl_max_ge unfolding lastCollection_def by (auto split: list.splits simp del: set_map set_filter)
qed

lemma sliceLimit_bounds: "limit \<noteq> Some None \<Longrightarrow> 1 \<le> sliceLimit 50 200 limit \<and> sliceLimit 50 200 limit \<le> 200"
  by (auto simp: sliceLimit_def min_def max_def le_nat_iff nat_le_iff floor_le_iff le_floor_iff split: option.splits)

lemma poolSwaps_pos:
  assumes "poolSwaps db chainId now poolId > 0"
  obtains s where "s \<in> set (kd_swaps db)" "sw_chainId s = chainId" "sw_poolId s = poolId" "now - 24 * 3600 * 1000 \<le> sw_timestamp s"
    "\<forall>f\<in>set (kd_collections db). fc_chainId f = chainId \<and> fc_poolId f = poolId \<longrightarrow> fc_blockNumber f < sw_blockNumber s"
proof -
  let ?b = "case lastCollection db chainId poolId of Some b \<Rightarrow> b | None \<Rightarrow> 0"
  obtain s where s: "s \<in> set (kd_swaps db)" "sw_chainId s = chainId" "sw_poolId s = poolId" "now - 24 * 3600 * 1000 \<le> sw_timestamp s"
    "?b < sw_blockNumber s"
    using assms by (auto simp: poolSwaps_def swapsSince_def filter_empty_conv)
  have "fc_blockNumber f < sw_blockNumber s" if "f \<in> set (kd_collections db)" "fc_chainId f = chainId" "fc_poolId f = poolId" for f
  proof (cases "lastCollection db chainId poolId")
    case None
    then show ?thesis using that by (auto simp: lastCollection_def filter_empty_conv split: list.splits)
  next
    case (Some b)
    then show ?thesis using lastCollection_max [OF Some that] s(5) by simp
  qed
  then show thesis using that s by blast
qed

lemma graduate_signal:
  assumes "sqrtPriceAtLevel m = Inr p" "x \<le> p" "levelAtSqrtPrice x = Inr l"
  shows "m \<le> l"
proof (cases "MIN_LEVEL < m")
  case True
  then show ?thesis using levelAtSqrtPrice_mono [OF assms(3) levelAtSqrtPrice_price [OF assms(1)] assms(2)] by simp
next
  case False
  then show ?thesis using levelAtSqrtPrice_bounds [OF assms(3)] by simp
qed

section \<open>Properties\<close>

text \<open>What a job promises: a positive pot and its one per cent, a bonding pool whose level has reached the last one of the
  curve, or a graduated pool with a swap of the last day after every collection.\<close>

definition jobBacked :: "keeper_db \<Rightarrow> int \<Rightarrow> int \<Rightarrow> keeper_job \<Rightarrow> bool" where
  "jobBacked db chainId now j = (case kj_kind j of
     FlushJob \<Rightarrow> (\<exists>pot\<in>set (kd_pots db). po_chainId pot = chainId \<and> po_poolId pot = kj_poolId j \<and> po_balance pot > 0
       \<and> kj_incentiveWei j = toString (po_balance pot div 100))
   | GraduateJob \<Rightarrow> (\<exists>p\<in>set (kd_pools db). \<exists>stats. kp_chainId p = chainId \<and> kp_poolId p = kj_poolId j \<and> kp_status p = Bonding
       \<and> kp_stats p = Some stats \<and> (\<forall>l. levelAtSqrtPrice (ks_lastPriceSqrtX96 stats) = Inr l \<longrightarrow> kp_farLevel p - 1 \<le> l))
   | CollectFeesJob \<Rightarrow> (\<exists>p\<in>set (kd_pools db). \<exists>s\<in>set (kd_swaps db). kp_chainId p = chainId \<and> kp_poolId p = kj_poolId j \<and> kp_status p = Graduated
       \<and> sw_chainId s = chainId \<and> sw_poolId s = kj_poolId j \<and> now - 24 * 3600 * 1000 \<le> sw_timestamp s
       \<and> (\<forall>f\<in>set (kd_collections db). fc_chainId f = chainId \<and> fc_poolId f = kj_poolId j \<longrightarrow> fc_blockNumber f < sw_blockNumber s)))"

lemma keeperPools_mem: "p \<in> set (keeperPools db chainId) \<Longrightarrow> p \<in> set (kd_pools db) \<and> kp_chainId p = chainId"
  unfolding keeperPools_def by (drule in_set_takeD) simp

lemma flush_backed: "j \<in> set (flushJobs hook chainId db) \<Longrightarrow> jobBacked db chainId now j \<and> kj_to j = hook"
  by (auto simp: flushJobs_def flushJob_def jobBacked_def signed_divide_int_def)

lemma graduate_backed:
  assumes "graduateJobs hook (keeperPools db chainId) = Inr js" "j \<in> set js"
  shows "jobBacked db chainId now j \<and> kj_to j = hook"
proof -
  obtain p stats t where p: "p \<in> set (keeperPools db chainId)" "kp_status p = Bonding" "kp_stats p = Some stats"
    "sqrtPriceAtLevel (kp_farLevel p - 1) = Inr t" "ks_lastPriceSqrtX96 stats \<le> t" "j = graduateJob hook p (ks_lastPriceSqrtX96 stats)"
    using assms(2) unfolding graduateJobs_Inr [OF assms(1)] by blast
  then show ?thesis using keeperPools_mem [OF p(1)] graduate_signal [OF p(4,5)]
    by (auto simp: jobBacked_def graduateJob_def)
qed

lemma collect_backed:
  assumes "j \<in> set (collectJobs hook chainId now db (keeperPools db chainId))"
  shows "jobBacked db chainId now j \<and> kj_to j = hook"
proof -
  obtain p where p: "p \<in> set (keeperPools db chainId)" "collectable p" "poolSwaps db chainId now (kp_poolId p) > 0"
    "j = collectJob hook (kp_poolId p) (poolSwaps db chainId now (kp_poolId p))"
    using assms unfolding collectJobs_mem by blast
  obtain s where "s \<in> set (kd_swaps db)" "sw_chainId s = chainId" "sw_poolId s = kp_poolId p" "now - 24 * 3600 * 1000 \<le> sw_timestamp s"
    "\<forall>f\<in>set (kd_collections db). fc_chainId f = chainId \<and> fc_poolId f = kp_poolId p \<longrightarrow> fc_blockNumber f < sw_blockNumber s"
    using poolSwaps_pos [OF p(3)] by blast
  then show ?thesis using keeperPools_mem [OF p(1)] p(2) p(4)
    by (auto simp: jobBacked_def collectJob_def collectable_def)
qed

text \<open>C37. Every job a keeper is offered is backed by the indexed tables: a flush by a positive pot of the chain, with one per
  cent of it rounded down as its tip, a graduation by a bonding pool whose price has reached the last level of its curve, a fee
  collection by a swap of the last day later than every collection of the pool. Calls go to the hook of the chain, at most two
  hundred jobs are returned, and below the limit no positive pot is left out.\<close>

theorem keeper_jobs_backed:
  assumes "jobs fallback books now query db = Inr view" "kq_limit query \<noteq> Some None"
  shows "(\<forall>j\<in>set (kv_jobs view). jobBacked db (kv_chainId view) now j \<and> kj_to j = map_option ab_hook (books (kv_chainId view)))
    \<and> length (kv_jobs view) \<le> 200
    \<and> (length (kv_jobs view) < sliceLimit 50 200 (kq_limit query) \<and> wantsKind (kq_kind query) ''flush'' \<longrightarrow>
        (\<forall>pot\<in>set (kd_pots db). po_chainId pot = kv_chainId view \<and> po_balance pot > 0 \<longrightarrow>
          flushJob (map_option ab_hook (books (kv_chainId view))) pot \<in> set (kv_jobs view)))"
proof -
  define c where "c = resolveChainId fallback (kq_chainId query)"
  define h where "h = map_option ab_hook (books c)"
  define L where "L = sliceLimit 50 200 (kq_limit query)"
  define F where "F = (if wantsKind (kq_kind query) ''flush'' then flushJobs h c db else [])"
  define C where "C = (if wantsKind (kq_kind query) ''collectFees'' then collectJobs h c now db (keeperPools db c) else [])"
  obtain G where G: "(if wantsKind (kq_kind query) ''graduate'' then graduateJobs h (keeperPools db c) else Inr []) = Inr G"
    and v: "kv_chainId view = c" "kv_jobs view = take L (F @ G @ C)"
    using assms(1) unfolding jobs_def Let_def c_def [symmetric] h_def [symmetric] F_def [symmetric] C_def [symmetric] L_def [symmetric]
    by (auto simp: bindR_eq_Inr_iff)
  have "jobBacked db c now j \<and> kj_to j = h" if "j \<in> set (F @ G @ C)" for j
    using that G flush_backed graduate_backed collect_backed unfolding F_def C_def by (auto split: if_splits)
  then have sound: "\<forall>j\<in>set (kv_jobs view). jobBacked db c now j \<and> kj_to j = h"
    unfolding v(2) using in_set_takeD by metis
  have "L \<le> 200" using sliceLimit_bounds [OF assms(2)] by (simp add: L_def)
  then have len: "length (kv_jobs view) \<le> 200" by (simp add: v(2))
  have "flushJob h pot \<in> set (kv_jobs view)"
    if "length (kv_jobs view) < L" "wantsKind (kq_kind query) ''flush''" "pot \<in> set (kd_pots db)" "po_chainId pot = c" "po_balance pot > 0" for pot
  proof -
    have "kv_jobs view = F @ G @ C" using that(1) by (simp add: v(2))
    then show ?thesis using that by (simp add: F_def flushJobs_def)
  qed
  then show ?thesis using sound len unfolding v(1) h_def [symmetric] L_def [symmetric] by blast
qed

definition sampleKeeperDb :: keeper_db where
  "sampleKeeperDb = \<lparr>kd_pools = [], kd_pots = [\<lparr>po_chainId = 8453, po_poolId = ''0xp'', po_balance = 250\<rparr>], kd_collections = [], kd_swaps = []\<rparr>"

theorem keeper_jobs_backed_witness:
  "length (kv_jobs \<lparr>kv_chainId = 8453, kv_jobs = [flushJob None \<lparr>po_chainId = 8453, po_poolId = ''0xp'', po_balance = 250\<rparr>], kv_multicall3 = None\<rparr>) \<le> 200
   \<and> jobBacked sampleKeeperDb 8453 0 (flushJob None \<lparr>po_chainId = 8453, po_poolId = ''0xp'', po_balance = 250\<rparr>)"
proof -
  let ?q = "\<lparr>kq_chainId = None, kq_kind = None, kq_limit = None\<rparr>"
  have "jobs 8453 Map.empty 0 ?q sampleKeeperDb = Inr \<lparr>kv_chainId = 8453,
      kv_jobs = [flushJob None \<lparr>po_chainId = 8453, po_poolId = ''0xp'', po_balance = 250\<rparr>], kv_multicall3 = None\<rparr>"
    by (simp add: jobs_def Let_def resolveChainId_def sliceLimit_def wantsKind_def sampleKeeperDb_def flushJobs_def keeperPools_def
        collectJobs_def List.map_filter_def)
  from keeper_jobs_backed [OF this] show ?thesis by simp
qed

text \<open>The converse of the graduation signal fails: just above the price of a level the pool has reached that level and no job is offered.\<close>

lemma graduate_signal_strict:
  assumes "sqrtPriceAtLevel m = Inr p" "sqrtPriceAtLevel (m - 1) = Inr q" "p < x" "x < q" "levelAtSqrtPrice x = Inr l"
  shows "l = m \<and> \<not> x \<le> p"
proof -
  have "l \<le> m" using levelAtSqrtPrice_le_iff [OF assms(5,1)] assms(3) by simp
  moreover have "\<not> l \<le> m - 1" using levelAtSqrtPrice_le_iff [OF assms(5,2)] assms(4) by simp
  ultimately show ?thesis using assms(3) by simp
qed

end
