(* ===== verification/TokenCreation.thy ===== *)
theory TokenCreation
  imports CommentStore
begin

text \<open>
  Model of \<open>src/src/modules/tokens/token-creation.service.ts\<close>: registering a token off chain under an idempotency key. The request hash
  (canonical JSON and SHA-256), the metadata storage, the new row id and the outcome of committing are arguments. \<open>create\<close> is
  split where it awaits: \<open>before\<close>, \<open>uploading\<close> and \<open>after\<close> are what other requests commit meanwhile.
\<close>

section \<open>Rows\<close>

record create_input =
  ct_creatorWalletAddress :: string
  ct_name :: string
  ct_symbol :: string
  ct_description :: string
  ct_imageUri :: string
  ct_socials :: "string option"

record created_token =
  ctk_id :: string
  ctk_chainId :: int
  ctk_name :: string
  ctk_symbol :: string
  ctk_description :: "string option"
  ctk_claimedCreatorWallet :: "string option"
  ctk_imageUri :: "string option"
  ctk_socials :: "string option"
  ctk_ipfsUri :: "string option"
  ctk_gatewayUrl :: "string option"
  ctk_createdAt :: int

record creation_db =
  cd_profiles :: "string list"
  cd_tokens :: "created_token list"
  cd_idempotency :: "string \<times> string \<times> string \<rightharpoonup> idempotency_row"

record creation_env =
  ce_hash :: "create_input \<Rightarrow> string"
  ce_upload :: "create_input \<Rightarrow> (string \<times> string) result"
  ce_chainId :: int
  ce_newId :: string
  ce_now :: int
  ce_commit :: "exn option"

definition TOKEN_SCOPE :: string where
  "TOKEN_SCOPE = ''POST:/api/v1/tokens''"

section \<open>Operations\<close>

definition findCreated :: "creation_db \<Rightarrow> string \<Rightarrow> created_token result" where
  "findCreated db tokenId = (case List.find (\<lambda>t. ctk_id t = tokenId) (cd_tokens db) of
     Some t \<Rightarrow> Inr t | None \<Rightarrow> Inl (DomainException 500 ''INTERNAL_ERROR''))"

definition reserve :: "int \<Rightarrow> string \<Rightarrow> string \<Rightarrow> string \<Rightarrow> creation_db \<Rightarrow> creation_db result" where
  "reserve now creator key hash db =
     (let idem = (TOKEN_SCOPE, creator, key) in
      if cd_idempotency db idem \<noteq> None then Inl (PrismaError ''P2002'')
      else Inr (db\<lparr>cd_idempotency := (cd_idempotency db)(idem \<mapsto> \<lparr>idm_requestHash = hash, idm_state = IN_PROGRESS,
        idm_responseStatus = None, idm_resourceId = None, idm_expiresAt = now + IDEMPOTENCY_RETENTION_MS\<rparr>)\<rparr>))"

definition releaseReservation :: "string \<Rightarrow> string \<Rightarrow> string \<Rightarrow> creation_db \<Rightarrow> creation_db" where
  "releaseReservation creator key hash db =
     (let idem = (TOKEN_SCOPE, creator, key) in case cd_idempotency db idem of
        Some row \<Rightarrow> if idm_requestHash row = hash \<and> idm_state row = IN_PROGRESS
          then db\<lparr>cd_idempotency := (cd_idempotency db)(idem := None)\<rparr> else db
      | None \<Rightarrow> db)"

definition replayCreated :: "creation_db \<Rightarrow> string \<Rightarrow> string \<Rightarrow> string \<Rightarrow> created_token option result" where
  "replayCreated db creator key hash = (case cd_idempotency db (TOKEN_SCOPE, creator, key) of
     None \<Rightarrow> Inr None
   | Some existing \<Rightarrow>
       if idm_requestHash existing \<noteq> hash then Inl (DomainException 409 ''IDEMPOTENCY_KEY_REUSED'')
       else if idm_state existing \<noteq> COMPLETED then Inl (DomainException 409 ''REQUEST_IN_PROGRESS'')
       else (case idm_resourceId existing of
         None \<Rightarrow> Inl (DomainException 409 ''REQUEST_IN_PROGRESS'')
       | Some i \<Rightarrow> if i = [] then Inl (DomainException 409 ''REQUEST_IN_PROGRESS'')
           else bindR (findCreated db i) (\<lambda>t. Inr (Some t))))"

definition newToken :: "creation_env \<Rightarrow> create_input \<Rightarrow> string \<Rightarrow> string \<times> string \<Rightarrow> created_token" where
  "newToken env input creator metadata = \<lparr>ctk_id = ce_newId env, ctk_chainId = ce_chainId env, ctk_name = ct_name input,
     ctk_symbol = ct_symbol input, ctk_description = Some (ct_description input), ctk_claimedCreatorWallet = Some creator,
     ctk_imageUri = Some (ct_imageUri input), ctk_socials = ct_socials input, ctk_ipfsUri = Some (fst metadata),
     ctk_gatewayUrl = Some (snd metadata), ctk_createdAt = ce_now env\<rparr>"

text \<open>The serializable transaction: the profile, the token, the completed idempotency row; a missing row is \<open>P2025\<close>.\<close>

definition createTokenTx :: "creation_env \<Rightarrow> create_input \<Rightarrow> string \<Rightarrow> string \<Rightarrow> string \<times> string \<Rightarrow> creation_db \<Rightarrow> (creation_db \<times> string) result" where
  "createTokenTx env input creator key metadata db =
     (let idem = (TOKEN_SCOPE, creator, key);
          profiles = (if creator \<in> set (cd_profiles db) then cd_profiles db else cd_profiles db @ [creator])
      in if ce_newId env \<in> ctk_id ` set (cd_tokens db) then Inl (PrismaError ''P2002'')
         else case cd_idempotency db idem of
           None \<Rightarrow> Inl (PrismaError ''P2025'')
         | Some row \<Rightarrow> (case ce_commit env of
             Some e \<Rightarrow> Inl e
           | None \<Rightarrow> Inr (db\<lparr>cd_profiles := profiles, cd_tokens := cd_tokens db @ [newToken env input creator metadata],
               cd_idempotency := (cd_idempotency db)(idem \<mapsto> row\<lparr>idm_state := COMPLETED, idm_responseStatus := Some 201,
                 idm_resourceId := Some (ce_newId env)\<rparr>)\<rparr>, ce_newId env)))"

definition create :: "creation_env \<Rightarrow> (creation_db \<Rightarrow> creation_db) \<Rightarrow> (creation_db \<Rightarrow> creation_db) \<Rightarrow> (creation_db \<Rightarrow> creation_db)
    \<Rightarrow> create_input \<Rightarrow> string \<Rightarrow> creation_db \<Rightarrow> (created_token \<times> bool) result \<times> creation_db" where
  "create env before uploading after input key db =
     (let creator = toLowerCase (ct_creatorWalletAddress input); hash = ce_hash env input in
      case replayCreated db creator key hash of
        Inl e \<Rightarrow> (Inl e, db)
      | Inr (Some t) \<Rightarrow> (Inr (t, True), db)
      | Inr None \<Rightarrow>
          let db1 = before db in
          case reserve (ce_now env) creator key hash db1 of
            Inl e \<Rightarrow> (Inl e, db1)
          | Inr db2 \<Rightarrow>
              let db3 = uploading db2 in
              case ce_upload env input of
                Inl e \<Rightarrow> (Inl (DomainException 503 ''METADATA_UPLOAD_FAILED''), releaseReservation creator key hash db3)
              | Inr metadata \<Rightarrow>
                  case createTokenTx env input creator key metadata db3 of
                    Inr (db4, i) \<Rightarrow> let db5 = after db4 in (bindR (findCreated db5 i) (\<lambda>t. Inr (t, False)), db5)
                  | Inl e \<Rightarrow>
                      if e = PrismaError ''P2002'' then
                        (case replayCreated db3 creator key hash of
                           Inl e' \<Rightarrow> (Inl e', db3)
                         | Inr (Some t) \<Rightarrow> (Inr (t, True), db3)
                         | Inr None \<Rightarrow> (Inl e, db3))
                      else (Inl e, db3))"

section \<open>Runs\<close>

text \<open>\<open>fl\<close> holds the requests between their reservation and their end, \<open>made\<close> the committed ones: creator, key, hash and token.\<close>

inductive creationRun :: "creation_db \<Rightarrow> (string \<times> string \<times> string) list \<Rightarrow> (string \<times> string \<times> string \<times> string) list \<Rightarrow> bool" where
  run_empty: "cd_idempotency db = Map.empty \<Longrightarrow> creationRun db [] []"
| run_reserve: "creationRun db fl made \<Longrightarrow> reserve now c k h db = Inr db' \<Longrightarrow> creationRun db' ((c, k, h) # fl) made"
| run_release: "creationRun db fl made \<Longrightarrow> (c, k, h) \<in> set fl \<Longrightarrow> creationRun (releaseReservation c k h db) (remove1 (c, k, h) fl) made"
| run_commit: "creationRun db fl made \<Longrightarrow> (c, k, h) \<in> set fl \<Longrightarrow> ce_newId env \<noteq> [] \<Longrightarrow> createTokenTx env input c k m db = Inr (db', i)
    \<Longrightarrow> creationRun db' (remove1 (c, k, h) fl) ((c, k, h, i) # made)"
| run_abandon: "creationRun db fl made \<Longrightarrow> (c, k, h) \<in> set fl \<Longrightarrow> creationRun db (remove1 (c, k, h) fl) made"
| run_index: "creationRun db fl made \<Longrightarrow> creationRun (db\<lparr>cd_profiles := ps, cd_tokens := cd_tokens db @ ts\<rparr>) fl made"

definition flKey :: "string \<times> string \<times> string \<Rightarrow> string \<times> string" where
  "flKey x = (case x of (c, k, h) \<Rightarrow> (c, k))"

definition madeKey :: "string \<times> string \<times> string \<times> string \<Rightarrow> string \<times> string" where
  "madeKey x = (case x of (c, k, h, i) \<Rightarrow> (c, k))"

definition inFlight :: "creation_db \<Rightarrow> string \<times> string \<times> string \<Rightarrow> bool" where
  "inFlight db x = (case x of (c, k, h) \<Rightarrow> (\<exists>row. cd_idempotency db (TOKEN_SCOPE, c, k) = Some row \<and> idm_state row = IN_PROGRESS \<and> idm_requestHash row = h))"

definition completedAs :: "creation_db \<Rightarrow> string \<times> string \<times> string \<times> string \<Rightarrow> bool" where
  "completedAs db x = (case x of (c, k, h, i) \<Rightarrow> i \<noteq> [] \<and>
     (\<exists>row t. cd_idempotency db (TOKEN_SCOPE, c, k) = Some row \<and> idm_state row = COMPLETED \<and> idm_requestHash row = h
       \<and> idm_resourceId row = Some i \<and> List.find (\<lambda>t. ctk_id t = i) (cd_tokens db) = Some t \<and> ctk_claimedCreatorWallet t = Some c))"

definition creationOk :: "creation_db \<Rightarrow> (string \<times> string \<times> string) list \<Rightarrow> (string \<times> string \<times> string \<times> string) list \<Rightarrow> bool" where
  "creationOk db fl made \<longleftrightarrow> distinct (map flKey fl) \<and> (\<forall>x\<in>set fl. inFlight db x) \<and> distinct (map madeKey made) \<and> (\<forall>x\<in>set made. completedAs db x)"

section \<open>Invariant\<close>

lemma inFlight_cong: "cd_idempotency db' (TOKEN_SCOPE, c, k) = cd_idempotency db (TOKEN_SCOPE, c, k) \<Longrightarrow> inFlight db' (c, k, h) = inFlight db (c, k, h)"
  by (simp add: inFlight_def)

lemma find_append: "List.find P xs = Some x \<Longrightarrow> List.find P (xs @ ys) = Some x"
  by (induction xs) auto

lemma completedAs_mono:
  assumes "completedAs db (c, k, h, i)" "cd_idempotency db' (TOKEN_SCOPE, c, k) = cd_idempotency db (TOKEN_SCOPE, c, k)"
    "cd_tokens db' = cd_tokens db @ ts"
  shows "completedAs db' (c, k, h, i)"
  using assms find_append by (fastforce simp: completedAs_def)

lemma made_not_inFlight: "completedAs db (c, k, h, i) \<Longrightarrow> \<not> inFlight db (c, k, h')"
  by (auto simp: completedAs_def inFlight_def)

lemma flKey_inj:
  assumes "distinct (map flKey fl)" "(c, k, h) \<in> set fl" "(c, k, h') \<in> set fl"
  shows "h' = h"
  using assms by (auto simp: distinct_map flKey_def inj_on_def)

text \<open>A step that changes the row of one key only, and at most adds tokens.\<close>

lemma creationOk_step:
  assumes ok: "creationOk db fl made" and fl': "set fl' \<subseteq> set fl" "distinct (map flKey fl')" "\<forall>h. (c, k, h) \<notin> set fl'"
    and made: "\<forall>h i. (c, k, h, i) \<notin> set made"
    and row: "\<And>idem. idem \<noteq> (TOKEN_SCOPE, c, k) \<Longrightarrow> cd_idempotency db' idem = cd_idempotency db idem" and tokens: "cd_tokens db' = cd_tokens db @ ts"
  shows "creationOk db' fl' made"
  unfolding creationOk_def
proof (intro conjI ballI)
  show "distinct (map flKey fl')" by (rule fl'(2))
  show "distinct (map madeKey made)" using ok by (simp add: creationOk_def)
next
  fix x assume x: "x \<in> set fl'"
  obtain c' k' h' where e: "x = (c', k', h')" by (cases x)
  have "(c', k') \<noteq> (c, k)" using x e fl'(3) by auto
  then show "inFlight db' x" using ok x e fl'(1) row inFlight_cong [of db' c' k' db h'] by (auto simp: creationOk_def)
next
  fix x assume x: "x \<in> set made"
  obtain c' k' h' i' where e: "x = (c', k', h', i')" by (cases x)
  have "(c', k') \<noteq> (c, k)" using x e made by auto
  then show "completedAs db' x" using ok x e row completedAs_mono [OF _ _ tokens] by (auto simp: creationOk_def)
qed

lemma remove1_fl:
  assumes "distinct (map flKey fl)" "(c, k, h) \<in> set fl"
  shows "set (remove1 (c, k, h) fl) \<subseteq> set fl" "distinct (map flKey (remove1 (c, k, h) fl))" "\<forall>h'. (c, k, h') \<notin> set (remove1 (c, k, h) fl)"
proof -
  have d: "distinct fl" using assms(1) by (simp add: distinct_map)
  show s: "set (remove1 (c, k, h) fl) \<subseteq> set fl" by (rule set_remove1_subset)
  show "distinct (map flKey (remove1 (c, k, h) fl))" using assms(1) d s by (auto simp: distinct_map inj_on_def)
  show "\<forall>h'. (c, k, h') \<notin> set (remove1 (c, k, h) fl)" using flKey_inj [OF assms] d by auto
qed

lemma reserve_Inr:
  assumes "reserve now c k h db = Inr db'"
  shows "cd_idempotency db (TOKEN_SCOPE, c, k) = None" "inFlight db' (c, k, h)" "cd_tokens db' = cd_tokens db"
    "idem \<noteq> (TOKEN_SCOPE, c, k) \<Longrightarrow> cd_idempotency db' idem = cd_idempotency db idem"
  using assms by (auto simp: reserve_def Let_def inFlight_def split: if_splits)

lemma createTokenTx_Inr:
  assumes "createTokenTx env input c k m db = Inr (db', i)"
  shows "i = ce_newId env" "i \<notin> ctk_id ` set (cd_tokens db)" "cd_tokens db' = cd_tokens db @ [newToken env input c m]"
    "\<exists>row. cd_idempotency db (TOKEN_SCOPE, c, k) = Some row \<and> cd_idempotency db' (TOKEN_SCOPE, c, k) =
       Some (row\<lparr>idm_state := COMPLETED, idm_responseStatus := Some 201, idm_resourceId := Some i\<rparr>)"
    "idem \<noteq> (TOKEN_SCOPE, c, k) \<Longrightarrow> cd_idempotency db' idem = cd_idempotency db idem"
  using assms by (auto simp: createTokenTx_def Let_def split: if_splits option.splits)

lemma find_fresh: "i \<notin> ctk_id ` set ts \<Longrightarrow> ctk_id t = i \<Longrightarrow> List.find (\<lambda>t. ctk_id t = i) (ts @ [t]) = Some t"
  by (induction ts) auto

lemma commit_completes:
  assumes "createTokenTx env input c k m db = Inr (db', i)" "inFlight db (c, k, h)" "ce_newId env \<noteq> []"
  shows "completedAs db' (c, k, h, i)"
proof -
  note f = createTokenTx_Inr [OF assms(1)]
  have "List.find (\<lambda>t. ctk_id t = i) (cd_tokens db') = Some (newToken env input c m)"
    unfolding f(3) using f(1,2) by (intro find_fresh) (simp_all add: newToken_def)
  moreover have "ctk_claimedCreatorWallet (newToken env input c m) = Some c" by (simp add: newToken_def)
  ultimately show ?thesis using f(1,4) assms(2,3) by (auto simp: completedAs_def inFlight_def)
qed

lemma releaseReservation_effect:
  "cd_tokens (releaseReservation c k h db) = cd_tokens db"
  "idem \<noteq> (TOKEN_SCOPE, c, k) \<Longrightarrow> cd_idempotency (releaseReservation c k h db) idem = cd_idempotency db idem"
  by (auto simp: releaseReservation_def Let_def split: option.split)

lemma creationOk_made:
  assumes "creationOk db fl made" "inFlight db (c, k, h)"
  shows "(c, k, h', i) \<notin> set made"
  using assms made_not_inFlight by (auto simp: creationOk_def)

lemma creationRun_ok: "creationRun db fl made \<Longrightarrow> creationOk db fl made"
proof (induction rule: creationRun.induct)
  case (run_empty db)
  then show ?case by (simp add: creationOk_def)
next
  case (run_reserve db fl made now c k h db')
  note r = reserve_Inr [OF run_reserve.hyps(2)]
  have fl: "(c, k, h') \<notin> set fl" for h' using run_reserve.IH r(1) by (auto simp: creationOk_def inFlight_def)
  have made: "(c, k, h', i) \<notin> set made" for h' i using run_reserve.IH r(1) by (auto simp: creationOk_def completedAs_def)
  have "creationOk db' fl made"
    using run_reserve.IH fl made r(3,4) by (intro creationOk_step [of db fl made fl c k db' "[]"]) (auto simp: creationOk_def)
  then show ?case using fl r(2) by (auto simp: creationOk_def flKey_def)
next
  case (run_release db fl made c k h)
  have i: "inFlight db (c, k, h)" "distinct (map flKey fl)" using run_release by (auto simp: creationOk_def)
  show ?case
    by (rule creationOk_step [OF run_release.IH remove1_fl [OF i(2) run_release.hyps(2)], where ts = "[]"])
      (use creationOk_made [OF run_release.IH i(1)] in \<open>simp_all add: releaseReservation_effect\<close>)
next
  case (run_commit db fl made c k h env input m db' i)
  have i: "inFlight db (c, k, h)" "distinct (map flKey fl)" using run_commit by (auto simp: creationOk_def)
  note f = createTokenTx_Inr [OF run_commit.hyps(4)] and n = creationOk_made [OF run_commit.IH i(1)]
  have "creationOk db' (remove1 (c, k, h) fl) made"
    by (rule creationOk_step [OF run_commit.IH remove1_fl [OF i(2) run_commit.hyps(2)] _ _ f(3)]) (use n f(5) in auto)
  then show ?case using commit_completes [OF run_commit.hyps(4) i(1) run_commit.hyps(3)] n
    by (auto simp: creationOk_def madeKey_def)
next
  case (run_abandon db fl made c k h)
  then show ?case using remove1_fl [of fl c k h] by (auto simp: creationOk_def)
next
  case (run_index db fl made ts ps)
  then show ?case using completedAs_mono [of db _ _ _ _ "db\<lparr>cd_profiles := ps, cd_tokens := cd_tokens db @ ts\<rparr>" ts]
    by (auto simp: creationOk_def inFlight_def)
qed

text \<open>An uninterrupted request is a step sequence of a run.\<close>

lemma create_run:
  assumes "creationRun db fl made" "ce_newId env \<noteq> []"
  shows "\<exists>fl' made'. creationRun (snd (create env id id id input key db)) fl' made'"
proof -
  let ?c = "toLowerCase (ct_creatorWalletAddress input)" and ?h = "ce_hash env input"
  show ?thesis
  proof (cases "replayCreated db ?c key ?h = Inr None \<and> (\<exists>db2. reserve (ce_now env) ?c key ?h db = Inr db2)")
    case False
    then have "snd (create env id id id input key db) = db"
      by (auto simp: create_def Let_def split: sum.splits option.splits)
    then show ?thesis using assms(1) by metis
  next
    case True
    then obtain db2 where r: "replayCreated db ?c key ?h = Inr None" "reserve (ce_now env) ?c key ?h db = Inr db2" by blast
    note run = run_reserve [OF assms(1) r(2)]
    show ?thesis
    proof (cases "ce_upload env input")
      case (Inl e)
      then show ?thesis using r run_release [OF run, of ?c key ?h] by (auto simp: create_def Let_def)
    next
      case (Inr m)
      show ?thesis
      proof (cases "createTokenTx env input ?c key m db2")
        case (Inl e)
        then have "snd (create env id id id input key db) = db2"
          using r Inr by (auto simp: create_def Let_def split: sum.splits option.splits)
        then show ?thesis using run by metis
      next
        case (Inr q)
        obtain db4 i where q: "q = (db4, i)" by force
        have "snd (create env id id id input key db) = db4"
          using r \<open>ce_upload env input = Inr m\<close> Inr q by (simp add: create_def Let_def)
        then show ?thesis using run_commit [OF run _ assms(2) Inr [unfolded q], of ?h] by auto
      qed
    qed
  qed
qed

section \<open>Properties\<close>

text \<open>C14. Registering a token is idempotent under every interleaving of requests, failed uploads, failed commits and indexing:
  a creator's key creates at most one token, which belongs to that creator, and from then on a request with this key and
  body returns that token as a replay and changes nothing, while one with another body is refused.\<close>

theorem token_creation_once:
  assumes "creationRun db fl made" "(toLowerCase (ct_creatorWalletAddress input), key, hash, i) \<in> set made"
  shows "distinct (map madeKey made)
    \<and> (if ce_hash env input = hash
       then (\<exists>t. create env before uploading after input key db = (Inr (t, True), db) \<and> ctk_id t = i
              \<and> ctk_claimedCreatorWallet t = Some (toLowerCase (ct_creatorWalletAddress input)))
       else create env before uploading after input key db = (Inl (DomainException 409 ''IDEMPOTENCY_KEY_REUSED''), db))"
proof -
  let ?c = "toLowerCase (ct_creatorWalletAddress input)"
  have ok: "creationOk db fl made" by (rule creationRun_ok [OF assms(1)])
  then have "completedAs db (?c, key, hash, i)" using assms(2) by (simp add: creationOk_def)
  then obtain row t where r: "i \<noteq> []" "cd_idempotency db (TOKEN_SCOPE, ?c, key) = Some row" "idm_state row = COMPLETED"
    "idm_requestHash row = hash" "idm_resourceId row = Some i" "List.find (\<lambda>t. ctk_id t = i) (cd_tokens db) = Some t"
    "ctk_claimedCreatorWallet t = Some ?c"
    by (auto simp: completedAs_def)
  moreover have "ctk_id t = i" using r(6) by (auto simp: find_Some_iff)
  ultimately show ?thesis using ok
    by (auto simp: creationOk_def create_def Let_def replayCreated_def findCreated_def)
qed

definition sampleCreation :: creation_env where
  "sampleCreation = \<lparr>ce_hash = ct_name, ce_upload = (\<lambda>_. Inr (''ipfs://m'', ''https://g/m'')), ce_chainId = 8453, ce_newId = ''t1'', ce_now = 7,
     ce_commit = None\<rparr>"

definition sampleCreate :: create_input where
  "sampleCreate = \<lparr>ct_creatorWalletAddress = ''0xa'', ct_name = ''n'', ct_symbol = ''s'', ct_description = ''d'', ct_imageUri = ''i'',
     ct_socials = None\<rparr>"

definition emptyCreationDb :: creation_db where
  "emptyCreationDb = \<lparr>cd_profiles = [], cd_tokens = [], cd_idempotency = Map.empty\<rparr>"

theorem token_creation_once_witness:
  "\<exists>db t. create sampleCreation id id id sampleCreate ''k'' emptyCreationDb = (Inr (t, False), db)
     \<and> create sampleCreation id id id sampleCreate ''k'' db = (Inr (t, True), db)"
proof -
  have c: "toLowerCase (ct_creatorWalletAddress sampleCreate) = ''0xa''" by code_simp
  obtain db1 where d1: "reserve 7 ''0xa'' ''k'' ''n'' emptyCreationDb = Inr db1" by (simp add: reserve_def emptyCreationDb_def)
  have run1: "creationRun db1 [(''0xa'', ''k'', ''n'')] []"
    using run_reserve [OF run_empty d1] by (simp add: emptyCreationDb_def)
  have tokens: "cd_tokens db1 = []" using reserve_Inr(3) [OF d1] by (simp add: emptyCreationDb_def)
  obtain row where row: "cd_idempotency db1 (TOKEN_SCOPE, ''0xa'', ''k'') = Some row" using reserve_Inr(2) [OF d1] by (auto simp: inFlight_def)
  define t where "t = newToken sampleCreation sampleCreate ''0xa'' (''ipfs://m'', ''https://g/m'')"
  obtain db2 where tx: "createTokenTx sampleCreation sampleCreate ''0xa'' ''k'' (''ipfs://m'', ''https://g/m'') db1 = Inr (db2, ''t1'')"
    using tokens row by (simp add: createTokenTx_def Let_def sampleCreation_def)
  have t: "cd_tokens db2 = [t]" using createTokenTx_Inr(3) [OF tx] tokens by (simp add: t_def)
  have id: "ctk_id t = ''t1''" by (simp add: t_def newToken_def sampleCreation_def)
  have first: "create sampleCreation id id id sampleCreate ''k'' emptyCreationDb = (Inr (t, False), db2)"
    using d1 tx t id c unfolding create_def Let_def c
    by (simp add: replayCreated_def emptyCreationDb_def) (simp add: sampleCreation_def sampleCreate_def findCreated_def)
  have run2: "creationRun db2 [] [(''0xa'', ''k'', ''n'', ''t1'')]"
    using run_commit [OF run1 _ _ tx, of "''n''"] by (simp add: sampleCreation_def)
  obtain t' where "create sampleCreation id id id sampleCreate ''k'' db2 = (Inr (t', True), db2)" "ctk_id t' = ''t1''"
    using token_creation_once [OF run2, of sampleCreate "''k''" "''n''" "''t1''" sampleCreation id id id] c
    by (auto simp: sampleCreation_def sampleCreate_def)
  moreover from this have "t' = t" using t id
    by (auto simp: create_def Let_def replayCreated_def findCreated_def split: option.splits sum.splits if_splits prod.splits
        dest!: bindR_eq_Inr_iff [THEN iffD1])
  ultimately show ?thesis using first by blast
qed

section \<open>Findings\<close>

text \<open>Of two requests that both looked the key up before either reserved it, the second ends in the raw constraint error:
  the reservation is outside the block that turns it into a replay.\<close>

lemma concurrent_reservation_unhandled:
  assumes "replayCreated db (toLowerCase (ct_creatorWalletAddress input)) key (ce_hash env input) = Inr None"
    and "cd_idempotency (before db) (TOKEN_SCOPE, toLowerCase (ct_creatorWalletAddress input), key) = Some row"
  shows "create env before uploading after input key db = (Inl (PrismaError ''P2002''), before db)"
  using assms by (simp add: create_def Let_def reserve_def)

text \<open>A transaction that fails to commit leaves its reservation: every retry with the key is refused as in progress.\<close>

lemma failed_commit_blocks_key:
  assumes "replayCreated db (toLowerCase (ct_creatorWalletAddress input)) key (ce_hash env input) = Inr None"
    and "ce_upload env input = Inr m" "ce_newId env \<notin> ctk_id ` set (cd_tokens db)" "ce_commit env = Some (PrismaError ''P2034'')"
    and "create env id id id input key db = (r, db')" "ce_hash env' = ce_hash env"
  shows "r = Inl (PrismaError ''P2034'')
    \<and> create env' before uploading after input key db' = (Inl (DomainException 409 ''REQUEST_IN_PROGRESS''), db')"
proof -
  let ?c = "toLowerCase (ct_creatorWalletAddress input)"
  have "cd_idempotency db (TOKEN_SCOPE, ?c, key) = None"
    using assms(1) by (auto simp: replayCreated_def bindR_eq_Inr_iff split: option.splits if_splits)
  then have "r = Inl (PrismaError ''P2034'') \<and> db' = db\<lparr>cd_idempotency := (cd_idempotency db)((TOKEN_SCOPE, ?c, key) \<mapsto>
      \<lparr>idm_requestHash = ce_hash env input, idm_state = IN_PROGRESS, idm_responseStatus = None, idm_resourceId = None,
       idm_expiresAt = ce_now env + IDEMPOTENCY_RETENTION_MS\<rparr>)\<rparr>"
    using assms(1-5) by (auto simp: create_def Let_def reserve_def createTokenTx_def)
  then show ?thesis using assms(6) by (simp add: create_def Let_def replayCreated_def)
qed

end
