(* ===== verification/Profiles.thy ===== *)
theory Profiles
  imports Cache
begin

text \<open>
  Model of \<open>src/src/modules/profiles/profiles.service.ts\<close> and \<open>src/src/modules/tokens/featured-tokens.service.ts\<close>. Both read through the
  domain cache, modelled by a timed store per kind of key; \<open>up\<close> says whether Redis answers, \<open>u\<close> is the jitter. A field of a
  profile update is absent (\<open>None\<close>), null (\<open>Some None\<close>) or a text.
\<close>

section \<open>Profiles\<close>

record profile_row =
  pf_walletAddress :: string
  pf_username :: "string option"
  pf_usernameFolded :: "string option"
  pf_bio :: "string option"
  pf_imageUri :: "string option"
  pf_createdAt :: int

record profile_view =
  pw_walletAddress :: string
  pw_username :: "string option"
  pw_bio :: "string option"
  pw_imageUri :: "string option"
  pw_createdAt :: int

record profile_input =
  pi_username :: "string option option"
  pi_bio :: "string option option"
  pi_imageUri :: "string option option"

definition normalizeWallet :: "string \<Rightarrow> string result" where
  "normalizeWallet wallet = (let normalized = toLowerCase wallet in
     if isNonzeroAddress normalized then Inr normalized else Inl (DomainException 400 ''INVALID_WALLET_ADDRESS''))"

definition profileKey :: "string \<Rightarrow> string" where
  "profileKey wallet = ''profiles:'' @ wallet"

definition PROFILE_TTL :: int where "PROFILE_TTL = 60"
definition FEATURED_TTL :: int where "FEATURED_TTL = 10"

definition presentProfile :: "profile_row \<Rightarrow> profile_view" where
  "presentProfile p = \<lparr>pw_walletAddress = pf_walletAddress p, pw_username = pf_username p, pw_bio = pf_bio p,
     pw_imageUri = pf_imageUri p, pw_createdAt = pf_createdAt p\<rparr>"

definition profileOf :: "profile_row list \<Rightarrow> string \<Rightarrow> profile_row option" where
  "profileOf rows wallet = List.find (\<lambda>p. pf_walletAddress p = wallet) rows"

text \<open>\<open>find\<close>: \<open>rows\<close> is the table at the query, \<open>st'\<close> the cache when the answer is stored.\<close>

definition findProfile :: "bool \<Rightarrow> int \<Rightarrow> rat \<Rightarrow> string \<Rightarrow> profile_row list \<Rightarrow> (profile_view timed \<Rightarrow> profile_view timed) \<Rightarrow> profile_view timed
    \<Rightarrow> profile_view result \<times> profile_view timed" where
  "findProfile up now u walletAddress rows meanwhile st = (case normalizeWallet walletAddress of
     Inl e \<Rightarrow> (Inl e, st)
   | Inr wallet \<Rightarrow> (case timedGet up st now (profileKey wallet) of
       Some v \<Rightarrow> (Inr v, st)
     | None \<Rightarrow> (case profileOf rows wallet of
         None \<Rightarrow> (Inl (NotFoundException ''PROFILE_NOT_FOUND''), st)
       | Some p \<Rightarrow> (Inr (presentProfile p),
           timedSet up (meanwhile st) now u (profileKey wallet) (presentProfile p) PROFILE_TTL))))"

definition foldedOf :: "string option \<Rightarrow> string option" where
  "foldedOf username = (case username of Some n \<Rightarrow> if n = [] then None else Some (toLowerCase n) | None \<Rightarrow> None)"

definition applyUpdate :: "profile_input \<Rightarrow> profile_row \<Rightarrow> profile_row" where
  "applyUpdate input p =
     (let p1 = (case pi_username input of Some n \<Rightarrow> p\<lparr>pf_username := n, pf_usernameFolded := foldedOf n\<rparr> | None \<Rightarrow> p);
          p2 = (case pi_bio input of Some b \<Rightarrow> p1\<lparr>pf_bio := b\<rparr> | None \<Rightarrow> p1)
      in (case pi_imageUri input of Some i \<Rightarrow> p2\<lparr>pf_imageUri := i\<rparr> | None \<Rightarrow> p2))"

definition freshProfile :: "string \<Rightarrow> int \<Rightarrow> profile_row" where
  "freshProfile wallet now = \<lparr>pf_walletAddress = wallet, pf_username = None, pf_usernameFolded = None, pf_bio = None, pf_imageUri = None,
     pf_createdAt = now\<rparr>"

text \<open>The two unique indexes of the table; nulls never clash.\<close>

definition nameClash :: "profile_row \<Rightarrow> profile_row \<Rightarrow> bool" where
  "nameClash p q \<longleftrightarrow> pf_walletAddress p \<noteq> pf_walletAddress q
     \<and> ((pf_username p \<noteq> None \<and> pf_username p = pf_username q) \<or> (pf_usernameFolded p \<noteq> None \<and> pf_usernameFolded p = pf_usernameFolded q))"

definition upsertProfileRow :: "string \<Rightarrow> int \<Rightarrow> profile_input \<Rightarrow> profile_row list \<Rightarrow> (profile_row list \<times> profile_row) result" where
  "upsertProfileRow wallet now input rows =
     (let p = (case profileOf rows wallet of Some q \<Rightarrow> applyUpdate input q | None \<Rightarrow> applyUpdate input (freshProfile wallet now)) in
      if list_ex (nameClash p) rows then Inl (PrismaError ''P2002'')
      else case profileOf rows wallet of
        Some _ \<Rightarrow> Inr (map (\<lambda>q. if pf_walletAddress q = wallet then p else q) rows, p)
      | None \<Rightarrow> Inr (rows @ [p], p))"

definition updateProfile :: "bool \<Rightarrow> int \<Rightarrow> string \<Rightarrow> profile_input \<Rightarrow> profile_row list \<times> profile_view timed
    \<Rightarrow> profile_view result \<times> profile_row list \<times> profile_view timed" where
  "updateProfile up now walletAddress input s = (case s of (rows, st) \<Rightarrow>
     (case normalizeWallet walletAddress of
        Inl e \<Rightarrow> (Inl e, rows, st)
      | Inr wallet \<Rightarrow> (case upsertProfileRow wallet now input rows of
          Inl e \<Rightarrow> (Inl (if e = PrismaError ''P2002'' then DomainException 409 ''USERNAME_TAKEN'' else e), rows, st)
        | Inr (rows', p) \<Rightarrow> (Inr (presentProfile p), rows', timedDelete up st (profileKey wallet)))))"

section \<open>Created launches and revenue streams\<close>

record creator_pool =
  cp_chainId :: int
  cp_poolId :: string
  cp_token :: string
  cp_creator :: string
  cp_status :: string
  cp_launchTime :: int
  cp_revenueNftOwner :: "string option"

record creator_token =
  cn_chainId :: int
  cn_token :: string
  cn_name :: string
  cn_symbol :: string
  cn_imageUri :: "string option"
  cn_claimedCreatorWallet :: "string option"
  cn_launchCreatorWallet :: "string option"

record created_launch =
  cl_poolId :: string
  cl_token :: string
  cl_name :: "string option"
  cl_symbol :: "string option"
  cl_status :: string
  cl_launchTime :: int
  cl_imageUri :: "string option"

definition createdBy :: "string \<Rightarrow> creator_pool \<times> creator_token option \<Rightarrow> bool" where
  "createdBy wallet r = (case r of (p, t) \<Rightarrow> cp_creator p = wallet \<or> (case t of
     Some t \<Rightarrow> cn_claimedCreatorWallet t = Some wallet \<or> cn_launchCreatorWallet t = Some wallet | None \<Rightarrow> False))"

definition creatorTokens :: "int \<Rightarrow> string \<Rightarrow> int option \<Rightarrow> bool \<Rightarrow> int option \<Rightarrow> int option \<Rightarrow> (creator_pool \<times> creator_token option) list
    \<Rightarrow> (created_launch list \<times> page_meta) result" where
  "creatorTokens fallback walletAddress chainQuery oldest pageQuery limitQuery pools = bindR (normalizeWallet walletAddress) (\<lambda>wallet.
     let chainId = resolveChainId fallback chainQuery;
         page = max (case pageQuery of Some p \<Rightarrow> p | None \<Rightarrow> 1) 1;
         limit = min (max (case limitQuery of Some l \<Rightarrow> l | None \<Rightarrow> 20) 1) 100;
         rows = filter (\<lambda>r. cp_chainId (fst r) = chainId \<and> createdBy wallet r) pools;
         ordered = sort_key (\<lambda>r. if oldest then cp_launchTime (fst r) else - cp_launchTime (fst r)) rows
     in Inr (map (\<lambda>(p, t). \<lparr>cl_poolId = cp_poolId p, cl_token = cp_token p, cl_name = map_option cn_name t, cl_symbol = map_option cn_symbol t,
           cl_status = cp_status p, cl_launchTime = cp_launchTime p, cl_imageUri = Option.bind t cn_imageUri\<rparr>) (pageRows page limit ordered),
         pageMeta page limit (int (length rows))))"

record revenue_stream =
  rs_poolId :: string
  rs_status :: string
  rs_token :: string
  rs_name :: string
  rs_symbol :: string
  rs_creatorRevenueTotal :: string
  rs_creatorPathRevenueTotal :: string
  rs_launchTime :: int

text \<open>The inner join with the tokens, the left join with the statistics (two totals per chain and pool).\<close>

definition revenueStreams :: "int \<Rightarrow> string \<Rightarrow> int option \<Rightarrow> creator_pool list \<Rightarrow> creator_token list \<Rightarrow> (int \<times> string \<rightharpoonup> int \<times> int)
    \<Rightarrow> revenue_stream list result" where
  "revenueStreams fallback walletAddress chainQuery pools tokens totals = bindR (normalizeWallet walletAddress) (\<lambda>wallet.
     let chainId = resolveChainId fallback chainQuery;
         held = filter (\<lambda>p. cp_chainId p = chainId \<and> cp_revenueNftOwner p = Some wallet) pools;
         joined = concat (map (\<lambda>p. map (\<lambda>t. (p, t)) (filter (\<lambda>t. cn_chainId t = cp_chainId p \<and> cn_token t = cp_token p) tokens)) held)
     in Inr (map (\<lambda>(p, t). let s = (case totals (cp_chainId p, cp_poolId p) of Some s \<Rightarrow> s | None \<Rightarrow> (0, 0)) in
           \<lparr>rs_poolId = cp_poolId p, rs_status = cp_status p, rs_token = cp_token p, rs_name = cn_name t, rs_symbol = cn_symbol t,
            rs_creatorRevenueTotal = toString (fst s), rs_creatorPathRevenueTotal = toString (snd s), rs_launchTime = cp_launchTime p\<rparr>)
         (sort_key (\<lambda>(p, t). - cp_launchTime p) joined)))"

section \<open>Featured tokens\<close>

record featured_row =
  ft_chainId :: int
  ft_poolId :: string
  ft_token :: string
  ft_creator :: string
  ft_status :: string
  ft_name :: string
  ft_symbol :: string
  ft_dailyVolumeEth :: int
  ft_totalVolumeEth :: int

record featured_view =
  fv_poolId :: string
  fv_token :: string
  fv_creator :: string
  fv_status :: string
  fv_name :: string
  fv_symbol :: string
  fv_dailyVolumeEth :: string
  fv_totalVolumeEth :: string

definition presentFeatured :: "featured_row \<Rightarrow> featured_view" where
  "presentFeatured r = \<lparr>fv_poolId = ft_poolId r, fv_token = ft_token r, fv_creator = ft_creator r, fv_status = ft_status r, fv_name = ft_name r,
     fv_symbol = ft_symbol r, fv_dailyVolumeEth = toString (ft_dailyVolumeEth r), fv_totalVolumeEth = toString (ft_totalVolumeEth r)\<rparr>"

definition featuredKey :: "int \<Rightarrow> string" where
  "featuredKey chainId = ''tokens:featured:'' @ toString chainId"

text \<open>\<open>watermark\<close> is the block time of the last committed block, \<open>board\<close> the view; times of the cache are seconds, of blocks milliseconds.\<close>

definition featured :: "bool \<Rightarrow> int \<Rightarrow> int \<Rightarrow> rat \<Rightarrow> (int \<rightharpoonup> int) \<Rightarrow> featured_row list \<Rightarrow> int \<Rightarrow> featured_view list timed
    \<Rightarrow> featured_view list \<times> featured_view list timed" where
  "featured up staleAfterMs nowMs u watermark board chainId st =
     (let now = nowMs div 1000 in
      case timedGet up st now (featuredKey chainId) of
        Some rows \<Rightarrow> (rows, st)
      | None \<Rightarrow> (case watermark chainId of
          None \<Rightarrow> ([], st)
        | Some blockTime \<Rightarrow>
            if nowMs - blockTime > staleAfterMs then ([], st)
            else
              let rows = map presentFeatured (take 3 (sort_key (\<lambda>r. - ft_dailyVolumeEth r) (filter (\<lambda>r. ft_chainId r = chainId) board))) in
              (rows, timedSet up st now u (featuredKey chainId) rows FEATURED_TTL)))"

section \<open>Names are unique\<close>

text \<open>Updates, and the bare profiles that comments and token creations add.\<close>

inductive profileRun :: "profile_row list \<Rightarrow> bool" where
  profiles_empty: "profileRun []"
| profiles_update: "profileRun rows \<Longrightarrow> upsertProfileRow wallet now input rows = Inr (rows', p) \<Longrightarrow> profileRun rows'"
| profiles_bare: "profileRun rows \<Longrightarrow> profileOf rows wallet = None \<Longrightarrow> profileRun (rows @ [freshProfile wallet now])"

definition profilesOk :: "profile_row list \<Rightarrow> bool" where
  "profilesOk rows \<longleftrightarrow> distinct (map pf_walletAddress rows) \<and> (\<forall>p\<in>set rows. pf_usernameFolded p = foldedOf (pf_username p))
     \<and> (\<forall>p\<in>set rows. \<forall>q\<in>set rows. \<not> nameClash p q)"

lemma nameClash_sym: "nameClash p q = nameClash q p"
  unfolding nameClash_def by metis

lemma applyUpdate_facts:
  "pf_walletAddress (applyUpdate input p) = pf_walletAddress p"
  "pf_usernameFolded p = foldedOf (pf_username p) \<Longrightarrow> pf_usernameFolded (applyUpdate input p) = foldedOf (pf_username (applyUpdate input p))"
  by (auto simp: applyUpdate_def Let_def split: option.split)

lemma profileOf_None: "profileOf rows w = None \<longleftrightarrow> w \<notin> pf_walletAddress ` set rows"
  by (auto simp: profileOf_def find_None_iff)

lemma profileOf_Some: "profileOf rows w = Some p \<Longrightarrow> p \<in> set rows \<and> pf_walletAddress p = w"
  by (auto simp: profileOf_def find_Some_iff)

lemma profileOf_in:
  assumes "distinct (map pf_walletAddress rows)" "p \<in> set rows"
  shows "profileOf rows (pf_walletAddress p) = Some p"
proof -
  obtain q where "profileOf rows (pf_walletAddress p) = Some q" using assms(2) profileOf_None by (metis image_eqI not_None_eq)
  then show ?thesis using profileOf_Some assms by (fastforce simp: distinct_map inj_on_def)
qed

lemma upsertProfileRow_Inr:
  assumes "upsertProfileRow w now input rows = Inr (rows', p)"
  shows "pf_walletAddress p = w" "\<forall>q\<in>set rows. \<not> nameClash p q"
    "set rows' \<subseteq> insert p {q \<in> set rows. pf_walletAddress q \<noteq> w}"
    "distinct (map pf_walletAddress rows) \<Longrightarrow> distinct (map pf_walletAddress rows')" "p \<in> set rows'"
    "\<forall>q\<in>set rows. pf_usernameFolded q = foldedOf (pf_username q) \<Longrightarrow> pf_usernameFolded p = foldedOf (pf_username p)"
proof -
  let ?p = "case profileOf rows w of Some q \<Rightarrow> applyUpdate input q | None \<Rightarrow> applyUpdate input (freshProfile w now)"
  have nc: "\<not> list_ex (nameClash ?p) rows"
    and r: "(case profileOf rows w of Some _ \<Rightarrow> (map (\<lambda>q. if pf_walletAddress q = w then ?p else q) rows, ?p) | None \<Rightarrow> (rows @ [?p], ?p)) = (rows', p)"
    using assms by (auto simp: upsertProfileRow_def Let_def split: if_splits option.splits)
  have p: "p = ?p" using r by (auto split: option.splits)
  show w: "pf_walletAddress p = w"
    unfolding p using profileOf_Some by (auto simp: applyUpdate_facts freshProfile_def split: option.split)
  show "\<forall>q\<in>set rows. \<not> nameClash p q" using nc unfolding p by (auto simp: list_ex_iff)
  show "set rows' \<subseteq> insert p {q \<in> set rows. pf_walletAddress q \<noteq> w}"
    using r profileOf_None [of rows w] unfolding p [symmetric] by (auto split: option.splits)
  show "p \<in> set rows'" using r profileOf_Some [of rows w] unfolding p [symmetric] by (auto split: option.splits)
  show "distinct (map pf_walletAddress rows')" if d: "distinct (map pf_walletAddress rows)"
  proof (cases "profileOf rows w")
    case None
    then show ?thesis using r d w profileOf_None [of rows w] unfolding p [symmetric] by auto
  next
    case (Some q)
    then have "rows' = map (\<lambda>q. if pf_walletAddress q = w then p else q) rows" using r unfolding p [symmetric] by simp
    then have "map pf_walletAddress rows' = map pf_walletAddress rows" using w by simp
    then show ?thesis using d by simp
  qed
  show "pf_usernameFolded p = foldedOf (pf_username p)" if "\<forall>q\<in>set rows. pf_usernameFolded q = foldedOf (pf_username q)"
  proof (cases "profileOf rows w")
    case None
    have "pf_usernameFolded (freshProfile w now) = foldedOf (pf_username (freshProfile w now))" by (simp add: freshProfile_def foldedOf_def)
    then show ?thesis unfolding p using None applyUpdate_facts(2) by simp
  next
    case (Some q)
    then show ?thesis unfolding p using that profileOf_Some [OF Some] applyUpdate_facts(2) by simp
  qed
qed

lemma upsertProfileRow_ok:
  assumes "profilesOk rows" "upsertProfileRow w now input rows = Inr (rows', p)"
  shows "profilesOk rows'"
  unfolding profilesOk_def
proof (intro conjI ballI)
  note f = upsertProfileRow_Inr [OF assms(2)]
  show "distinct (map pf_walletAddress rows')" using f(4) assms(1) by (simp add: profilesOk_def)
  fix a assume a: "a \<in> set rows'"
  then have a': "a = p \<or> a \<in> set rows" using f(3) by blast
  then show "pf_usernameFolded a = foldedOf (pf_username a)" using f(6) assms(1) by (auto simp: profilesOk_def)
  fix b assume "b \<in> set rows'"
  then have "b = p \<or> b \<in> set rows" using f(3) by blast
  moreover have "\<not> nameClash p p" by (simp add: nameClash_def)
  ultimately show "\<not> nameClash a b" using a' f(2) assms(1) nameClash_sym by (auto simp: profilesOk_def)
qed

lemma profileRun_ok: "profileRun rows \<Longrightarrow> profilesOk rows"
proof (induction rule: profileRun.induct)
  case (profiles_bare rows wallet now)
  have "\<not> nameClash (freshProfile wallet now) q" for q by (simp add: nameClash_def freshProfile_def)
  moreover from this have "\<not> nameClash q (freshProfile wallet now)" for q using nameClash_sym by metis
  moreover have "pf_walletAddress (freshProfile wallet now) = wallet" "pf_usernameFolded (freshProfile wallet now) = foldedOf (pf_username (freshProfile wallet now))"
    by (simp_all add: freshProfile_def foldedOf_def)
  ultimately show ?case using profiles_bare by (auto simp: profilesOk_def profileOf_None)
qed (simp add: profilesOk_def, rule upsertProfileRow_ok)

section \<open>Properties\<close>

text \<open>C29. User names are unique ignoring case, whatever sequence of updates and implicit profiles the table has seen: two
  profiles with non-empty names that differ at most in case are the same profile. A name another wallet holds is refused, and
  a successful update is what the next uninterrupted read returns.\<close>

theorem usernames_unique:
  assumes "profileRun rows"
  shows "(\<forall>p\<in>set rows. \<forall>q\<in>set rows. \<forall>m n. pf_username p = Some m \<and> pf_username q = Some n \<and> m \<noteq> [] \<and> toLowerCase m = toLowerCase n \<longrightarrow> p = q)
    \<and> (\<forall>wallet v rows' st'. normalizeWallet walletAddress = Inr wallet \<and> updateProfile True now walletAddress input (rows, st) = (Inr v, rows', st')
        \<longrightarrow> fst (findProfile True now' u walletAddress rows' meanwhile st') = Inr v)
    \<and> (\<forall>q\<in>set rows. \<forall>n m. pi_username input = Some (Some n) \<and> n \<noteq> [] \<and> pf_username q = Some m \<and> toLowerCase m = toLowerCase n
        \<and> normalizeWallet walletAddress \<noteq> Inr (pf_walletAddress q) \<longrightarrow> (\<exists>e. fst (updateProfile True now walletAddress input (rows, st)) = Inl e))"
proof (intro conjI ballI allI impI)
  note ok = profileRun_ok [OF assms]
  fix p q m n assume pq: "p \<in> set rows" "q \<in> set rows"
    and n: "pf_username p = Some m \<and> pf_username q = Some n \<and> m \<noteq> [] \<and> toLowerCase m = toLowerCase n"
  have "n \<noteq> []" using n by (auto simp: toLowerCase_def)
  then have "pf_usernameFolded p = pf_usernameFolded q" "pf_usernameFolded p \<noteq> None" using n ok pq by (auto simp: profilesOk_def foldedOf_def)
  then have "pf_walletAddress p = pf_walletAddress q" using ok pq unfolding profilesOk_def nameClash_def by metis
  then show "p = q" using ok pq by (auto simp: profilesOk_def distinct_map inj_on_def)
next
  note ok = profileRun_ok [OF assms]
  fix wallet v rows' st'
  assume a: "normalizeWallet walletAddress = Inr wallet \<and> updateProfile True now walletAddress input (rows, st) = (Inr v, rows', st')"
  then obtain p where u: "upsertProfileRow wallet now input rows = Inr (rows', p)" and v: "v = presentProfile p"
    "st' = timedDelete True st (profileKey wallet)"
    by (auto simp: updateProfile_def split: sum.splits prod.splits)
  have "profileOf rows' wallet = Some p"
    using profileOf_in [of rows' p] upsertProfileRow_Inr(1,5) [OF u] upsertProfileRow_ok [OF ok u] by (auto simp: profilesOk_def)
  then show "fst (findProfile True now' u walletAddress rows' meanwhile st') = Inr v"
    using a v by (simp add: findProfile_def timedGet_def timedDelete_def)
next
  note ok = profileRun_ok [OF assms]
  fix q n m assume q: "q \<in> set rows" and n: "pi_username input = Some (Some n) \<and> n \<noteq> [] \<and> pf_username q = Some m \<and> toLowerCase m = toLowerCase n
    \<and> normalizeWallet walletAddress \<noteq> Inr (pf_walletAddress q)"
  show "\<exists>e. fst (updateProfile True now walletAddress input (rows, st)) = Inl e"
  proof (cases "normalizeWallet walletAddress")
    case (Inr wallet)
    have "m \<noteq> []" using n by (auto simp: toLowerCase_def)
    then have f: "pf_usernameFolded q = Some (toLowerCase n)" using ok q n by (auto simp: profilesOk_def foldedOf_def)
    have "pf_usernameFolded (applyUpdate input x) = Some (toLowerCase n)" for x
      using n by (simp add: applyUpdate_def Let_def foldedOf_def split: option.split)
    moreover have "wallet \<noteq> pf_walletAddress q" using n Inr by auto
    ultimately have "nameClash (case profileOf rows wallet of Some x \<Rightarrow> applyUpdate input x | None \<Rightarrow> applyUpdate input (freshProfile wallet now)) q"
      using f profileOf_Some [of rows wallet] by (auto simp: nameClash_def applyUpdate_facts freshProfile_def split: option.split)
    then have "upsertProfileRow wallet now input rows = Inl (PrismaError ''P2002'')"
      using q by (auto simp: upsertProfileRow_def Let_def list_ex_iff)
    then show ?thesis using Inr by (simp add: updateProfile_def)
  qed (simp add: updateProfile_def)
qed

definition sampleRename :: profile_input where
  "sampleRename = \<lparr>pi_username = Some (Some ''Ann''), pi_bio = None, pi_imageUri = None\<rparr>"

theorem usernames_unique_witness:
  "\<exists>rows p e. upsertProfileRow ''0xa'' 0 sampleRename [] = Inr (rows, p)
     \<and> fst (updateProfile True 1 (''0x'' @ replicate 40 CHR ''1'') sampleRename (rows, Map.empty)) = Inl e"
proof -
  let ?p = "\<lparr>pf_walletAddress = ''0xa'', pf_username = Some ''Ann'', pf_usernameFolded = Some ''ann'', pf_bio = None, pf_imageUri = None, pf_createdAt = 0\<rparr>"
  have u: "upsertProfileRow ''0xa'' 0 sampleRename [] = Inr ([?p], ?p)" by code_simp
  have n: "normalizeWallet (''0x'' @ replicate 40 CHR ''1'') \<noteq> Inr (pf_walletAddress ?p)" by code_simp
  have "profileRun [?p]" using profiles_update [OF profiles_empty u] .
  from usernames_unique [OF this, of "''0x'' @ replicate 40 CHR ''1''" 1 sampleRename Map.empty] n u show ?thesis
    by (fastforce simp: sampleRename_def)
qed

section \<open>Findings\<close>

text \<open>A read that started before an update stores the old profile after the update deleted the key.\<close>

lemma stale_profile_cached:
  assumes "normalizeWallet walletAddress = Inr wallet" "profileOf rows wallet = Some p" "timedGet True st now (profileKey wallet) = None"
    and "0 \<le> u" "u < 1"
  shows "fst (findProfile True now u' walletAddress rows' m (snd (findProfile True now u walletAddress rows
      (\<lambda>st. snd (snd (updateProfile True now walletAddress input (rows, st)))) st))) = Inr (presentProfile p)"
proof -
  have "0 < subtractiveJitter PROFILE_TTL u" using subtractiveJitter_bounds [OF assms(4,5), of PROFILE_TTL] by (simp add: PROFILE_TTL_def)
  then show ?thesis using assms(1-3) by (simp add: findProfile_def timedSet_def timedGet_def)
qed

text \<open>A cached answer is returned before the age of the indexed data is looked at.\<close>

lemma featured_when_stale:
  assumes "timedGet up st (nowMs div 1000) (featuredKey chainId) = Some rows"
  shows "fst (featured up staleAfterMs nowMs u watermark board chainId st) = rows"
  using assms by (simp add: featured_def Let_def)

text \<open>Uncached answers come from an indexer that is not stale.\<close>

lemma featured_live:
  assumes "timedGet up st (nowMs div 1000) (featuredKey chainId) = None" "fst (featured up staleAfterMs nowMs u watermark board chainId st) \<noteq> []"
  shows "\<exists>t. watermark chainId = Some t \<and> nowMs - t \<le> staleAfterMs"
  using assms by (auto simp: featured_def Let_def split: option.splits if_splits)

end
