(* ===== verification/Requests.thy ===== *)
theory Requests
  imports Launch
begin

text \<open>
  Model of the edge of the API: the canonical IPFS URI (\<open>src/src/common/validation/ipfs-uri.ts\<close>), the bodies of token creation and
  profile update with their transformations (\<open>create-token.dto.ts\<close>, \<open>update-profile.dto.ts\<close>), the logo upload
  (\<open>token-images.service.ts\<close>), the readiness probe, and the filter that turns every exception into a problem document. Unicode
  normalisation, CID parsing, the URI component codecs, \<open>URL\<close> and the URL validator are fields of \<open>body_env\<close>.
\<close>

record body_env =
  rq_nfc :: "string \<Rightarrow> string"
  rq_cid :: "string \<Rightarrow> string result"
  rq_decode :: "string \<Rightarrow> string result"
  rq_encode :: "string \<Rightarrow> string"
  rq_url :: "string \<Rightarrow> (string \<times> string) result"
  rq_isUrl :: "string \<Rightarrow> bool"

section \<open>IPFS URIs\<close>

fun mapR :: "('a \<Rightarrow> 'b result) \<Rightarrow> 'a list \<Rightarrow> 'b list result" where
  "mapR f [] = Inr []"
| "mapR f (x # xs) = bindR (f x) (\<lambda>y. bindR (mapR f xs) (\<lambda>ys. Inr (y # ys)))"

definition canonicalIpfsUri :: "body_env \<Rightarrow> string \<Rightarrow> string result" where
  "canonicalIpfsUri env value =
     (if \<not> startsWith ''ipfs://'' value then Inl (JsError ''URI must use ipfs://'')
      else if list_ex (\<lambda>c. c = CHR ''?'' \<or> c = CHR ''#'') value then Inl (JsError ''IPFS URI cannot contain query or fragment'')
      else
        let remainder = drop 7 value in
        if remainder = [] \<or> CHR ''@'' \<in> set remainder then Inl (JsError ''Invalid IPFS URI'')
        else
          let parts = splitChar CHR ''/'' remainder; cidText = hd parts; pathParts = tl parts in
          if cidText = [] then Inl (JsError ''IPFS URI must contain a CID'')
          else
            bindR (rq_cid env cidText) (\<lambda>cid.
            bindR (mapR (\<lambda>part. bindR (rq_decode env part) (\<lambda>d. Inr (rq_encode env d))) pathParts) (\<lambda>encoded.
              let path = joinWith ''/'' encoded in
              Inr (if path \<noteq> [] then ''ipfs://'' @ cid @ ''/'' @ path else ''ipfs://'' @ cid))))"

section \<open>Bodies\<close>

text \<open>A transformation applies to texts only and may throw a plain error; the validators run after all transformations.\<close>

definition transformText :: "(string \<Rightarrow> string result) \<Rightarrow> json option \<Rightarrow> json option result" where
  "transformText f v = (case v of Some (StrJ s) \<Rightarrow> bindR (f s) (\<lambda>t. Inr (Some (StrJ t))) | _ \<Rightarrow> Inr v)"

definition isText :: "(string \<Rightarrow> bool) \<Rightarrow> json option \<Rightarrow> bool" where
  "isText ok v = (case v of Some (StrJ s) \<Rightarrow> ok s | _ \<Rightarrow> False)"

definition isOptionalText :: "(string \<Rightarrow> bool) \<Rightarrow> json option \<Rightarrow> bool" where
  "isOptionalText ok v \<longleftrightarrow> v = None \<or> v = Some NullJ \<or> isText ok v"

definition textOf :: "json option \<Rightarrow> string" where
  "textOf v = (case v of Some (StrJ s) \<Rightarrow> s | _ \<Rightarrow> [])"

definition normalizeCreator :: "string \<Rightarrow> string result" where
  "normalizeCreator value = (let normalized = toLowerCase value in
     if isNonzeroAddress normalized then Inr normalized else Inl (JsError ''creatorWalletAddress must be a nonzero EVM address''))"

definition normalizeName :: "body_env \<Rightarrow> string \<Rightarrow> string result" where
  "normalizeName env value = (let normalized = collapseWhitespace (rq_nfc env value) in
     if length normalized < 1 \<or> length normalized > 80 then Inl (JsError ''name must contain 1 to 80 code points'') else Inr normalized)"

definition normalizeSymbol :: "body_env \<Rightarrow> string \<Rightarrow> string result" where
  "normalizeSymbol env value = Inr (rq_nfc env value)"

definition normalizeDescription :: "body_env \<Rightarrow> string \<Rightarrow> string result" where
  "normalizeDescription env value = (let normalized = collapseWhitespace (rq_nfc env value); words = countWords normalized in
     if words < 5 \<or> words > 100 then Inl (JsError ''description must contain 5 to 100 words'') else Inr normalized)"

text \<open>A blank link becomes absent.\<close>

definition normalizeSocialUrl :: "body_env \<Rightarrow> json option \<Rightarrow> json option result" where
  "normalizeSocialUrl env v = (case v of
     Some (StrJ s) \<Rightarrow>
       if trim s = [] then Inr None
       else bindR (rq_url env (trim s)) (\<lambda>(protocol, shown).
         if protocol \<noteq> ''https:'' then Inl (JsError ''Social URLs must use HTTPS'') else Inr (Some (StrJ shown)))
   | _ \<Rightarrow> Inr v)"

definition SOCIALS :: "string list" where
  "SOCIALS = [''website'', ''x'', ''telegram'', ''discord'']"

fun socialFields :: "body_env \<Rightarrow> json \<Rightarrow> string list \<Rightarrow> (string \<times> json) list result" where
  "socialFields env m [] = Inr []"
| "socialFields env m (k # ks) = bindR (normalizeSocialUrl env (jsonField m k)) (\<lambda>v.
     bindR (socialFields env m ks) (\<lambda>rest. Inr (case v of Some x \<Rightarrow> (k, x) # rest | None \<Rightarrow> rest)))"

definition transformSocials :: "body_env \<Rightarrow> json option \<Rightarrow> json option result" where
  "transformSocials env v = (case v of
     Some (ObjJ ms) \<Rightarrow> bindR (socialFields env (ObjJ ms) SOCIALS) (\<lambda>fs. Inr (Some (ObjJ (fs @ filter (\<lambda>(k, _). k \<notin> set SOCIALS) ms))))
   | _ \<Rightarrow> Inr v)"

definition socialsValid :: "body_env \<Rightarrow> json option \<Rightarrow> bool" where
  "socialsValid env v = (case v of
     None \<Rightarrow> True | Some NullJ \<Rightarrow> True
   | Some (ObjJ ms) \<Rightarrow> list_all (\<lambda>(k, x). k \<in> set SOCIALS \<and> isOptionalText (\<lambda>s. rq_isUrl env s \<and> length s \<le> 512) (Some x)) ms
   | _ \<Rightarrow> False)"

definition isSymbol :: "string \<Rightarrow> bool" where
  "isSymbol s \<longleftrightarrow> 1 \<le> length s \<and> length s \<le> 12 \<and> list_all (\<lambda>c. isDigit c \<or> (65 \<le> (of_char c :: nat) \<and> (of_char c :: nat) \<le> 90)) s"

record create_dto =
  td_creatorWalletAddress :: string
  td_name :: string
  td_symbol :: string
  td_description :: string
  td_imageUri :: string
  td_socials :: "json option"

definition badRequest :: "'a result" where
  "badRequest = Inl (HttpException 400 ''Bad Request'')"

definition knownFields :: "string list \<Rightarrow> json \<Rightarrow> bool" where
  "knownFields names body = (case body of ObjJ ms \<Rightarrow> list_all (\<lambda>(k, _). k \<in> set names) ms | _ \<Rightarrow> False)"

definition createTokenDto :: "body_env \<Rightarrow> json \<Rightarrow> create_dto result" where
  "createTokenDto env body =
     bindR (transformText normalizeCreator (jsonField body ''creatorWalletAddress'')) (\<lambda>creator.
     bindR (transformText (normalizeName env) (jsonField body ''name'')) (\<lambda>name.
     bindR (transformText (normalizeSymbol env) (jsonField body ''symbol'')) (\<lambda>symbol.
     bindR (transformText (normalizeDescription env) (jsonField body ''description'')) (\<lambda>description.
     bindR (transformText (canonicalIpfsUri env) (jsonField body ''imageUri'')) (\<lambda>imageUri.
     bindR (transformSocials env (jsonField body ''socials'')) (\<lambda>socials.
     if knownFields [''creatorWalletAddress'', ''name'', ''symbol'', ''description'', ''imageUri'', ''socials''] body
       \<and> isText (\<lambda>_. True) creator \<and> isText (\<lambda>s. s \<noteq> [] \<and> length s \<le> 320) name \<and> isText isSymbol symbol
       \<and> isText (\<lambda>s. length s \<le> 8000) description \<and> isText (\<lambda>_. True) imageUri \<and> socialsValid env socials
     then Inr \<lparr>td_creatorWalletAddress = textOf creator, td_name = textOf name, td_symbol = textOf symbol,
       td_description = textOf description, td_imageUri = textOf imageUri, td_socials = socials\<rparr>
     else badRequest))))))"

definition isUsername :: "string \<Rightarrow> bool" where
  "isUsername s \<longleftrightarrow> 3 \<le> length s \<and> length s \<le> 32 \<and> list_all (\<lambda>c. isDigit c \<or> c = CHR ''_''
     \<or> (65 \<le> (of_char c :: nat) \<and> (of_char c :: nat) \<le> 90) \<or> (97 \<le> (of_char c :: nat) \<and> (of_char c :: nat) \<le> 122)) s"

definition normalizeBio :: "body_env \<Rightarrow> string \<Rightarrow> string result" where
  "normalizeBio env value = (if length (rq_nfc env value) > 300 then Inl (JsError ''bio must contain at most 300 code points'')
     else Inr (rq_nfc env value))"

text \<open>Absent, null or a text.\<close>

definition nullable :: "json option \<Rightarrow> string option option" where
  "nullable v = (case v of None \<Rightarrow> None | Some (StrJ s) \<Rightarrow> Some (Some s) | Some _ \<Rightarrow> Some None)"

definition updateProfileDto :: "body_env \<Rightarrow> json \<Rightarrow> (string option option \<times> string option option \<times> string option option) result" where
  "updateProfileDto env body =
     bindR (transformText (\<lambda>s. Inr (rq_nfc env s)) (jsonField body ''username'')) (\<lambda>username.
     bindR (transformText (normalizeBio env) (jsonField body ''bio'')) (\<lambda>bio.
     bindR (transformText (canonicalIpfsUri env) (jsonField body ''imageUri'')) (\<lambda>imageUri.
     if knownFields [''username'', ''bio'', ''imageUri''] body \<and> isOptionalText isUsername username
       \<and> isOptionalText (\<lambda>s. length s \<le> 1200) bio \<and> isOptionalText (\<lambda>_. True) imageUri
     then Inr (nullable username, nullable bio, nullable imageUri) else badRequest)))"

section \<open>Logo upload\<close>

definition LOGO_MAX_BYTES :: rat where "LOGO_MAX_BYTES = 43 / 10 * 1024 * 1024"

definition EXTENSIONS :: "string \<rightharpoonup> string" where
  "EXTENSIONS = [''image/png'' \<mapsto> ''png'', ''image/jpeg'' \<mapsto> ''jpg'', ''image/webp'' \<mapsto> ''webp'', ''image/gif'' \<mapsto> ''gif'']"

definition LOGO_CONTENT_TYPES :: "string list" where
  "LOGO_CONTENT_TYPES = [''image/png'', ''image/jpeg'', ''image/webp'', ''image/gif'']"

text \<open>Decoding as \<open>ascii\<close> drops the high bit of every byte.\<close>

definition asciiText :: "nat list \<Rightarrow> string" where
  "asciiText bytes = map (\<lambda>b. char_of (b mod 128)) bytes"

definition hasImageMagic :: "nat list \<Rightarrow> string \<Rightarrow> bool" where
  "hasImageMagic bytes contentType =
     (if length bytes < 12 then False
      else if contentType = ''image/png'' then take 8 bytes = [0x89, 0x50, 0x4e, 0x47, 0x0d, 0x0a, 0x1a, 0x0a]
      else if contentType = ''image/jpeg'' then take 3 bytes = [0xff, 0xd8, 0xff]
      else if contentType = ''image/gif'' then asciiText (take 6 bytes) = ''GIF87a'' \<or> asciiText (take 6 bytes) = ''GIF89a''
      else if contentType = ''image/webp'' then asciiText (take 4 bytes) = ''RIFF'' \<and> asciiText (take 4 (drop 8 bytes)) = ''WEBP''
      else False)"

definition isFileChar :: "char \<Rightarrow> bool" where
  "isFileChar c \<longleftrightarrow> isDigit c \<or> c \<in> {CHR ''.'', CHR ''_'', CHR ''-''}
     \<or> (65 \<le> (of_char c :: nat) \<and> (of_char c :: nat) \<le> 90) \<or> (97 \<le> (of_char c :: nat) \<and> (of_char c :: nat) \<le> 122)"

definition safeName :: "string \<Rightarrow> string" where
  "safeName filename = (let s = take 64 (map (\<lambda>c. if isFileChar c then c else CHR ''_'') filename) in if s = [] then ''logo'' else s)"

definition storedName :: "int \<Rightarrow> string \<Rightarrow> string \<Rightarrow> string" where
  "storedName now filename contentType =
     toString now @ ''-'' @ safeName filename @ ''.'' @ (case EXTENSIONS contentType of Some e \<Rightarrow> e | None \<Rightarrow> ''img'')"

definition tooLarge :: "nat list \<Rightarrow> bool" where
  "tooLarge bytes \<longleftrightarrow> rat_of_nat (length bytes) > LOGO_MAX_BYTES"

text \<open>\<open>pin\<close> is the storage: the stored name, type and bytes give the URI and the gateway address, or an error.\<close>

definition uploadImage :: "(string \<Rightarrow> nat list) \<Rightarrow> (string \<Rightarrow> string \<Rightarrow> nat list \<Rightarrow> (string \<times> string) result) \<Rightarrow> int \<Rightarrow> string \<Rightarrow> string \<Rightarrow> string
    \<Rightarrow> (string \<times> string \<times> string) result" where
  "uploadImage decode64 pin now filename contentType contentBase64 =
     (if contentType \<notin> set LOGO_CONTENT_TYPES then Inl (DomainException 400 ''UNSUPPORTED_IMAGE_TYPE'')
      else
        let bytes = decode64 contentBase64 in
        if bytes = [] then Inl (DomainException 400 ''INVALID_IMAGE_DATA'')
        else if tooLarge bytes then Inl (DomainException 400 ''IMAGE_TOO_LARGE'')
        else if \<not> hasImageMagic bytes contentType then Inl (DomainException 400 ''INVALID_IMAGE_DATA'')
        else
          case pin (storedName now filename contentType) contentType bytes of
            Inr (ipfsUri, gatewayUrl) \<Rightarrow> Inr (ipfsUri, gatewayUrl, gatewayUrl)
          | Inl _ \<Rightarrow> Inl (DomainException 503 ''IMAGE_UPLOAD_FAILED''))"

text \<open>What the Pinata client makes of an answer: the HTTP status, and the hash of a successful body.\<close>

definition dropSlashes :: "string \<Rightarrow> string" where
  "dropSlashes s = rev (dropWhile (\<lambda>c. c = CHR ''/'') (rev s))"

definition pinataDescribe :: "body_env \<Rightarrow> string option \<Rightarrow> string \<Rightarrow> (string \<times> string) result" where
  "pinataDescribe env gateway cid = bindR (canonicalIpfsUri env (''ipfs://'' @ cid)) (\<lambda>ipfsUri.
     Inr (ipfsUri, dropSlashes (case gateway of Some g \<Rightarrow> g | None \<Rightarrow> ''https://gateway.pinata.cloud/ipfs'') @ ''/'' @ drop 7 ipfsUri))"

definition pinataPin :: "body_env \<Rightarrow> string option \<Rightarrow> string option \<Rightarrow> (int \<times> json) result \<Rightarrow> (string \<times> string) result" where
  "pinataPin env jwt gateway answer = (case jwt of
     None \<Rightarrow> Inl (JsError ''PINATA_JWT is required'')
   | Some token \<Rightarrow>
       if token = [] then Inl (JsError ''PINATA_JWT is required'')
       else bindR answer (\<lambda>(status, body).
         if \<not> (200 \<le> status \<and> status \<le> 299) then Inl (JsError ''Pinata failed'')
         else (case jsonField body ''IpfsHash'' of
           Some (StrJ h) \<Rightarrow> if h = [] then Inl (JsError ''Pinata did not return an IpfsHash'') else pinataDescribe env gateway h
         | _ \<Rightarrow> Inl (JsError ''Pinata did not return an IpfsHash''))))"

section \<open>Problem documents\<close>

text \<open>What the filter distinguishes: domain exceptions, Nest's HTTP exceptions with their response, and anything else.\<close>

datatype thrown = DomainThrown int string string "json option" | HttpThrown int json | OtherThrown

record problem =
  pd_type :: string
  pd_title :: string
  pd_status :: int
  pd_detail :: "string option"
  pd_instance :: string
  pd_code :: string
  pd_requestId :: string
  pd_errors :: "json option"
  pd_checks :: "json option"

record problem_details =
  pdt_code :: string
  pdt_detail :: "string option"
  pdt_errors :: "json option"
  pdt_checks :: "json option"

definition thrownStatus :: "thrown \<Rightarrow> int" where
  "thrownStatus t = (case t of DomainThrown s _ _ _ \<Rightarrow> s | HttpThrown s _ \<Rightarrow> s | OtherThrown \<Rightarrow> 500)"

definition thrownResponse :: "thrown \<Rightarrow> json option" where
  "thrownResponse t = (case t of
     DomainThrown _ code message errors \<Rightarrow> Some (ObjJ ([(''code'', StrJ code), (''message'', StrJ message)]
       @ (case errors of Some e \<Rightarrow> [(''errors'', e)] | None \<Rightarrow> [])))
   | HttpThrown _ r \<Rightarrow> Some r
   | OtherThrown \<Rightarrow> None)"

definition nullishValue :: "json option \<Rightarrow> json option" where
  "nullishValue v = (if v = Some NullJ then None else v)"

definition arrayMessage :: "json option \<Rightarrow> json option" where
  "arrayMessage m = (case m of Some (ArrJ xs) \<Rightarrow> Some (ArrJ xs) | _ \<Rightarrow> None)"

definition textMessage :: "json option \<Rightarrow> string option" where
  "textMessage m = (case m of Some (StrJ s) \<Rightarrow> Some s | _ \<Rightarrow> None)"

definition extractDetails :: "json option \<Rightarrow> problem_details" where
  "extractDetails response = (case response of
     Some (StrJ s) \<Rightarrow> \<lparr>pdt_code = ''HTTP_ERROR'', pdt_detail = Some s, pdt_errors = None, pdt_checks = None\<rparr>
   | Some (ObjJ ms) \<Rightarrow>
       (let message = jsonField (ObjJ ms) ''message'' in
        case jsonField (ObjJ ms) ''code'' of
          Some (StrJ code) \<Rightarrow> \<lparr>pdt_code = code, pdt_detail = textMessage message,
            pdt_errors = (case nullishValue (jsonField (ObjJ ms) ''errors'') of Some e \<Rightarrow> Some e | None \<Rightarrow> arrayMessage message),
            pdt_checks = jsonField (ObjJ ms) ''checks''\<rparr>
        | _ \<Rightarrow>
            if message \<noteq> None then \<lparr>pdt_code = ''VALIDATION_FAILED'',
              pdt_detail = Some (case textMessage message of Some s \<Rightarrow> s | None \<Rightarrow> ''Request validation failed''),
              pdt_errors = arrayMessage message, pdt_checks = None\<rparr>
            else \<lparr>pdt_code = ''INTERNAL_ERROR'', pdt_detail = Some ''An unexpected error occurred'', pdt_errors = None, pdt_checks = None\<rparr>)
   | _ \<Rightarrow> \<lparr>pdt_code = ''INTERNAL_ERROR'', pdt_detail = Some ''An unexpected error occurred'', pdt_errors = None, pdt_checks = None\<rparr>)"

definition problemTitle :: "(int \<Rightarrow> string option) \<Rightarrow> int \<Rightarrow> string" where
  "problemTitle statusName status = (case statusName status of
     Some n \<Rightarrow> toLowerCase (map (\<lambda>c. if c = CHR ''_'' then CHR '' '' else c) n) | None \<Rightarrow> ''error'')"

definition catch :: "(int \<Rightarrow> string option) \<Rightarrow> string \<Rightarrow> string \<Rightarrow> string \<Rightarrow> thrown \<Rightarrow> problem" where
  "catch statusName requestIdOf uuid url t =
     (let status = thrownStatus t; details = extractDetails (thrownResponse t) in
      \<lparr>pd_type = ''https://api.spawn.local/problems/'' @ toLowerCase (pdt_code details), pd_title = problemTitle statusName status,
       pd_status = status, pd_detail = pdt_detail details, pd_instance = url, pd_code = pdt_code details,
       pd_requestId = (if requestIdOf = [] then uuid else requestIdOf), pd_errors = pdt_errors details, pd_checks = pdt_checks details\<rparr>)"

text \<open>How the exceptions of the development reach the filter; \<open>explain\<close> is their message.\<close>

definition thrownOf :: "(exn \<Rightarrow> string) \<Rightarrow> exn \<Rightarrow> thrown" where
  "thrownOf explain e = (case e of
     DomainException s c \<Rightarrow> DomainThrown s c (explain e) None
   | NotFoundException c \<Rightarrow> HttpThrown 404 (ObjJ [(''code'', StrJ c), (''message'', StrJ (explain e))])
   | ConflictException c \<Rightarrow> HttpThrown 409 (ObjJ [(''code'', StrJ c), (''message'', StrJ (explain e))])
   | HttpException s m \<Rightarrow> HttpThrown s (ObjJ [(''message'', ArrJ [StrJ (explain e)]), (''error'', StrJ m), (''statusCode'', NumJ (of_int s))])
   | _ \<Rightarrow> OtherThrown)"

section \<open>Readiness\<close>

definition readiness :: "bool \<Rightarrow> bool \<Rightarrow> (string \<times> bool) list + json" where
  "readiness database redis =
     (let unavailable = (\<lambda>checks. ObjJ [(''code'', StrJ ''DEPENDENCY_UNAVAILABLE''), (''message'', StrJ ''A required dependency is unavailable''),
            (''checks'', ObjJ (map (\<lambda>(k, b). (k, StrJ (if b then ''up'' else ''down''))) checks))])
      in if \<not> database then Inr (unavailable [(''database'', False), (''redis'', False)])
         else if \<not> redis then Inr (unavailable [(''database'', True), (''redis'', False)])
         else Inl [(''database'', True), (''redis'', True)])"

section \<open>The RPC proxy\<close>

definition proxyTarget :: "(string \<Rightarrow> string option) \<Rightarrow> int \<Rightarrow> string list \<Rightarrow> string result" where
  "proxyTarget environ chainId chainRpcUrls =
     (let perChain = map_option (\<lambda>raw. filter (\<lambda>u. u \<noteq> []) (map trim (splitChar CHR '','' raw))) (environ (''RPC_URLS_'' @ toString chainId));
          target = (case perChain of Some (u # _) \<Rightarrow> Some u | _ \<Rightarrow> (case chainRpcUrls of u # _ \<Rightarrow> Some u | [] \<Rightarrow> None))
      in case target of Some u \<Rightarrow> if u = [] then Inl (JsError ''No chain RPC URL configured'') else Inr u
         | None \<Rightarrow> Inl (JsError ''No chain RPC URL configured''))"

text \<open>The answer of the node is passed on; a node that cannot be reached is a 503.\<close>

definition proxy :: "(int \<times> string) result \<Rightarrow> int \<times> string + string" where
  "proxy upstream = (case upstream of Inr (status, body) \<Rightarrow> Inl (status, body) | Inl _ \<Rightarrow> Inr ''RPC_UNAVAILABLE'')"

section \<open>Canonical URIs\<close>

lemma splitChar_nil [simp]: "splitChar d s \<noteq> []"
  by (induction s) (auto split: list.splits)

lemma splitChar_joinWith: "xs \<noteq> [] \<Longrightarrow> \<forall>x\<in>set xs. d \<notin> set x \<Longrightarrow> splitChar d (joinWith [d] xs) = xs"
proof (induction xs)
  case (Cons x xs)
  then show ?case by (cases xs) (simp_all add: splitChar_plain splitChar_append)
qed simp

lemma set_joinWith: "set (joinWith sep xs) \<subseteq> set sep \<union> \<Union> (set ` set xs)"
  by (induction sep xs rule: joinWith.induct) auto

text \<open>What the code relies on of the CID library and of the component codecs: a canonical CID is its own canonical form, decoding
  undoes encoding, and neither produces a reserved character.\<close>

definition plainText :: "string \<Rightarrow> bool" where
  "plainText s \<longleftrightarrow> set s \<inter> {CHR ''/'', CHR ''?'', CHR ''#'', CHR ''@''} = {}"

definition uriLaws :: "body_env \<Rightarrow> bool" where
  "uriLaws env \<longleftrightarrow> (\<forall>t c. rq_cid env t = Inr c \<longrightarrow> rq_cid env c = Inr c \<and> c \<noteq> [] \<and> plainText c)
     \<and> (\<forall>s. rq_decode env (rq_encode env s) = Inr s \<and> plainText (rq_encode env s))"

lemma mapR_encoded:
  assumes "uriLaws env" "mapR (\<lambda>part. bindR (rq_decode env part) (\<lambda>d. Inr (rq_encode env d))) parts = Inr encoded"
  shows "mapR (\<lambda>part. bindR (rq_decode env part) (\<lambda>d. Inr (rq_encode env d))) encoded = Inr encoded" "\<forall>x\<in>set encoded. plainText x"
  using assms(2)
proof (induction parts arbitrary: encoded)
  case (Cons p parts)
  {
    case 1
    then show ?case using Cons.IH(1) assms(1) by (auto simp: bindR_eq_Inr_iff uriLaws_def)
  next
    case 2
    then show ?case using Cons.IH(2) assms(1) by (auto simp: bindR_eq_Inr_iff uriLaws_def)
  }
qed simp_all

lemma canonicalIpfsUri_Inr:
  assumes "canonicalIpfsUri env value = Inr v"
  obtains cid encoded where "rq_cid env (hd (splitChar CHR ''/'' (drop 7 value))) = Inr cid"
    "mapR (\<lambda>part. bindR (rq_decode env part) (\<lambda>d. Inr (rq_encode env d))) (tl (splitChar CHR ''/'' (drop 7 value))) = Inr encoded"
    "v = ''ipfs://'' @ cid @ (if joinWith ''/'' encoded = [] then [] else CHR ''/'' # joinWith ''/'' encoded)"
  using assms by (auto simp: canonicalIpfsUri_def Let_def bindR_eq_Inr_iff split: if_splits)

lemma canonicalIpfsUri_intro:
  assumes "cid \<noteq> []" "plainText cid" "rq_cid env cid = Inr cid"
    and "rest = [] \<and> encoded = [] \<or> rest = CHR ''/'' # joinWith ''/'' encoded \<and> encoded \<noteq> []" "\<forall>x\<in>set encoded. plainText x"
    and "mapR (\<lambda>part. bindR (rq_decode env part) (\<lambda>d. Inr (rq_encode env d))) encoded = Inr encoded"
  shows "canonicalIpfsUri env (''ipfs://'' @ cid @ rest)
    = Inr (''ipfs://'' @ cid @ (if joinWith ''/'' encoded = [] then [] else CHR ''/'' # joinWith ''/'' encoded))"
proof -
  have c: "CHR ''/'' \<notin> set cid" "CHR ''@'' \<notin> set cid" "CHR ''?'' \<notin> set cid" "CHR ''#'' \<notin> set cid" using assms(2) by (auto simp: plainText_def)
  have e: "\<forall>x\<in>set encoded. CHR ''/'' \<notin> set x" using assms(5) by (auto simp: plainText_def)
  have split: "splitChar CHR ''/'' (cid @ rest) = cid # encoded"
    using assms(4) c(1) e splitChar_plain [OF c(1)] splitChar_append [OF c(1)] splitChar_joinWith [OF _ e] by auto
  have r: "set rest \<inter> {CHR ''?'', CHR ''#'', CHR ''@''} = {}"
    using assms(4,5) set_joinWith [of "''/''" encoded] by (auto simp: plainText_def)
  then have "\<not> list_ex (\<lambda>x. x = CHR ''?'' \<or> x = CHR ''#'') (''ipfs://'' @ cid @ rest)" "CHR ''@'' \<notin> set (cid @ rest)"
    using c by (auto simp: list_ex_iff)
  then show ?thesis using assms(1,3,6) split by (simp add: canonicalIpfsUri_def startsWith_def Let_def)
qed

section \<open>Properties\<close>

text \<open>C40. Canonical IPFS URIs are stable: a URI the service has canonicalised, of an image, of pinned metadata or of a pinned file,
  is accepted again and canonicalises to itself, given that canonical CIDs and encoded components do.\<close>

theorem canonical_uri_stable:
  assumes "uriLaws env" "canonicalIpfsUri env value = Inr v"
  shows "canonicalIpfsUri env v = Inr v"
proof -
  obtain cid encoded where c: "rq_cid env (hd (splitChar CHR ''/'' (drop 7 value))) = Inr cid"
    and m: "mapR (\<lambda>part. bindR (rq_decode env part) (\<lambda>d. Inr (rq_encode env d))) (tl (splitChar CHR ''/'' (drop 7 value))) = Inr encoded"
    and v: "v = ''ipfs://'' @ cid @ (if joinWith ''/'' encoded = [] then [] else CHR ''/'' # joinWith ''/'' encoded)"
    using canonicalIpfsUri_Inr [OF assms(2)] by blast
  have cid: "cid \<noteq> []" "plainText cid" "rq_cid env cid = Inr cid" using assms(1) c by (auto simp: uriLaws_def)
  note e = mapR_encoded [OF assms(1) m]
  show ?thesis
  proof (cases "joinWith ''/'' encoded = []")
    case True
    then show ?thesis using canonicalIpfsUri_intro [OF cid, of "[]" "[]"] by (simp add: v)
  next
    case False
    then have "encoded \<noteq> []" by auto
    then show ?thesis using canonicalIpfsUri_intro [OF cid _ e(2,1), of "CHR ''/'' # joinWith ''/'' encoded"] False by (simp add: v)
  qed
qed

text \<open>An environment with these laws: every plain text is a CID, components are written in hexadecimal.\<close>

definition hexEncode :: "string \<Rightarrow> string" where
  "hexEncode s = concat (map (\<lambda>c. [hexDigit (of_char c div 16), hexDigit (of_char c mod 16)]) s)"

fun hexDecode :: "string \<Rightarrow> string result" where
  "hexDecode [] = Inr []"
| "hexDecode (a # b # r) = (case (hexValue a, hexValue b) of
     (Some x, Some y) \<Rightarrow> bindR (hexDecode r) (\<lambda>t. Inr (char_of (x * 16 + y) # t))
   | _ \<Rightarrow> Inl (JsError ''URI malformed''))"
| "hexDecode _ = Inl (JsError ''URI malformed'')"

definition sampleRequests :: body_env where
  "sampleRequests = \<lparr>rq_nfc = id, rq_cid = (\<lambda>t. if t \<noteq> [] \<and> plainText t then Inr t else Inl (JsError ''cid'')), rq_decode = hexDecode,
     rq_encode = hexEncode, rq_url = (\<lambda>s. Inr (''https:'', s)), rq_isUrl = (\<lambda>_. True)\<rparr>"

lemma hexDecode_hexEncode: "hexDecode (hexEncode s) = Inr s"
proof (induction s)
  case (Cons c s)
  have "(of_char c :: nat) < 256" by (rule nat_of_char_less_256)
  then have "(of_char c :: nat) div 16 < 16" "(of_char c :: nat) mod 16 < 16" by linarith+
  then show ?case using Cons by (simp add: hexEncode_def)
qed (simp add: hexEncode_def)

lemma hexDigit_plain: "n < 16 \<Longrightarrow> hexDigit n \<notin> {CHR ''/'', CHR ''?'', CHR ''#'', CHR ''@''}"
  using hexValue_hexDigit [of n] by (auto simp: hexValue_def)

lemma sampleRequests_laws: "uriLaws sampleRequests"
proof -
  have "plainText (hexEncode s)" for s
  proof (induction s)
    case (Cons c s)
    have "(of_char c :: nat) < 256" by (rule nat_of_char_less_256)
    then have "(of_char c :: nat) div 16 < 16" "(of_char c :: nat) mod 16 < 16" by linarith+
    then show ?case using Cons hexDigit_plain by (auto simp: hexEncode_def plainText_def)
  qed (simp add: hexEncode_def plainText_def)
  then show ?thesis by (auto simp: uriLaws_def sampleRequests_def hexDecode_hexEncode split: if_splits)
qed

theorem canonical_uri_stable_witness:
  "canonicalIpfsUri sampleRequests ''ipfs://Qm/61'' = Inr ''ipfs://Qm/61''"
proof -
  have "canonicalIpfsUri sampleRequests ''ipfs://Qm/61'' = Inr ''ipfs://Qm/61''" by code_simp
  from canonical_uri_stable [OF sampleRequests_laws this] show ?thesis .
qed

text \<open>A logo is stored only under these conditions: its type is one of the four supported, it has between 12 and 4508876
  bytes, it starts with the signature of its type (for GIF and WebP up to the high bits of the bytes), and the name it is
  stored under ends in the extension of its type and otherwise has only letters, digits, dots, dashes and underscores.\<close>

lemma stored_logo_valid:
  assumes "uploadImage decode64 pin now filename contentType contentBase64 = Inr answer"
  shows "12 \<le> length (decode64 contentBase64) \<and> length (decode64 contentBase64) \<le> 4508876
    \<and> (contentType = ''image/png'' \<and> take 8 (decode64 contentBase64) = [137, 80, 78, 71, 13, 10, 26, 10]
       \<or> contentType = ''image/jpeg'' \<and> take 3 (decode64 contentBase64) = [255, 216, 255]
       \<or> contentType = ''image/gif'' \<and> asciiText (take 6 (decode64 contentBase64)) \<in> {''GIF87a'', ''GIF89a''}
       \<or> contentType = ''image/webp'' \<and> asciiText (take 4 (decode64 contentBase64)) = ''RIFF'' \<and> asciiText (take 4 (drop 8 (decode64 contentBase64))) = ''WEBP'')
    \<and> (\<exists>ext uri gateway. EXTENSIONS contentType = Some ext \<and> list_all isFileChar (safeName filename) \<and> length (safeName filename) \<le> 64
        \<and> pin (toString now @ ''-'' @ safeName filename @ ''.'' @ ext) contentType (decode64 contentBase64) = Inr (uri, gateway)
        \<and> answer = (uri, gateway, gateway))"
proof -
  let ?b = "decode64 contentBase64"
  have t: "contentType \<in> set LOGO_CONTENT_TYPES" "\<not> tooLarge ?b" "hasImageMagic ?b contentType"
    and p: "\<exists>uri gateway. pin (storedName now filename contentType) contentType ?b = Inr (uri, gateway) \<and> answer = (uri, gateway, gateway)"
    using assms by (auto simp: uploadImage_def Let_def split: if_splits sum.splits prod.splits)
  have l: "length ?b \<le> 4508876"
  proof -
    have "rat_of_nat (length ?b) \<le> 22544384 / 5" using t(2) by (simp add: tooLarge_def LOGO_MAX_BYTES_def)
    then have "rat_of_nat (length ?b * 5) \<le> rat_of_nat 22544384" by simp
    then have "length ?b * 5 \<le> 22544384" by (simp only: of_nat_le_iff)
    then show ?thesis by simp
  qed
  have m: "12 \<le> length ?b" using t(3) by (auto simp: hasImageMagic_def split: if_splits)
  obtain ext where ext: "EXTENSIONS contentType = Some ext" using t(1) by (auto simp: LOGO_CONTENT_TYPES_def EXTENSIONS_def)
  have underscore: "isFileChar CHR ''_''" by (simp add: isFileChar_def)
  have "list_all isFileChar ''logo''" by code_simp
  then have s: "list_all isFileChar (safeName filename)" "length (safeName filename) \<le> 64"
    using underscore by (auto simp: safeName_def Let_def list_all_iff dest!: in_set_takeD)
  show ?thesis using l m s ext p t(1,3) by (auto simp: storedName_def hasImageMagic_def LOGO_CONTENT_TYPES_def split: if_splits)
qed

section \<open>Error behaviour\<close>

text \<open>Domain errors keep their status, code and message; an exception of any other kind is a 500 whose document says nothing of it.\<close>

lemma problem_of_exception:
  "(case e of
      DomainException s c \<Rightarrow> pd_status p = s \<and> pd_code p = c \<and> pd_detail p = Some (explain e)
    | NotFoundException c \<Rightarrow> pd_status p = 404 \<and> pd_code p = c \<and> pd_detail p = Some (explain e)
    | ConflictException c \<Rightarrow> pd_status p = 409 \<and> pd_code p = c \<and> pd_detail p = Some (explain e)
    | HttpException s m \<Rightarrow> pd_status p = s \<and> pd_code p = ''VALIDATION_FAILED''
    | _ \<Rightarrow> pd_status p = 500 \<and> pd_code p = ''INTERNAL_ERROR'' \<and> pd_detail p = Some ''An unexpected error occurred'' \<and> pd_errors p = None)"
  if "p = catch statusName rid uuid url (thrownOf explain e)"
  using that by (cases e) (simp_all add: catch_def Let_def thrownOf_def thrownStatus_def thrownResponse_def extractDetails_def jsonField_def
      textMessage_def nullishValue_def arrayMessage_def)

text \<open>A body is accepted only with a valid wallet, a name of 1 to 80 characters, a symbol of 1 to 12 capitals and digits, and a
  description of 5 to 100 words.\<close>

lemma transformed_text:
  assumes "transformText f v = Inr w" "isText ok w"
  shows "\<exists>s. f s = Inr (textOf w) \<and> ok (textOf w)"
  using assms by (auto simp: transformText_def isText_def textOf_def bindR_eq_Inr_iff split: option.splits json.splits)

lemma create_body_valid:
  assumes "createTokenDto env body = Inr d"
  shows "isNonzeroAddress (td_creatorWalletAddress d) \<and> 1 \<le> length (td_name d) \<and> length (td_name d) \<le> 80 \<and> isSymbol (td_symbol d)
    \<and> 5 \<le> countWords (td_description d) \<and> countWords (td_description d) \<le> 100"
  using assms unfolding createTokenDto_def
proof (elim bindR_InrE)
  let ?f = "jsonField body"
  fix creator name symbol description imageUri socials
  assume t: "transformText normalizeCreator (?f ''creatorWalletAddress'') = Inr creator" "transformText (normalizeName env) (?f ''name'') = Inr name"
      "transformText (normalizeSymbol env) (?f ''symbol'') = Inr symbol" "transformText (normalizeDescription env) (?f ''description'') = Inr description"
    and d: "(if knownFields [''creatorWalletAddress'', ''name'', ''symbol'', ''description'', ''imageUri'', ''socials''] body
       \<and> isText (\<lambda>_. True) creator \<and> isText (\<lambda>s. s \<noteq> [] \<and> length s \<le> 320) name \<and> isText isSymbol symbol
       \<and> isText (\<lambda>s. length s \<le> 8000) description \<and> isText (\<lambda>_. True) imageUri \<and> socialsValid env socials
     then Inr \<lparr>td_creatorWalletAddress = textOf creator, td_name = textOf name, td_symbol = textOf symbol,
       td_description = textOf description, td_imageUri = textOf imageUri, td_socials = socials\<rparr>
     else badRequest) = Inr d"
  have v: "isText (\<lambda>_. True) creator" "isText (\<lambda>s. s \<noteq> [] \<and> length s \<le> 320) name" "isText isSymbol symbol" "isText (\<lambda>s. length s \<le> 8000) description"
    and f: "td_creatorWalletAddress d = textOf creator" "td_name d = textOf name" "td_symbol d = textOf symbol" "td_description d = textOf description"
    using d by (auto simp: badRequest_def split: if_splits)
  obtain c n dd where "normalizeCreator c = Inr (textOf creator)" "normalizeName env n = Inr (textOf name)"
      "normalizeDescription env dd = Inr (textOf description)"
    using transformed_text [OF t(1) v(1)] transformed_text [OF t(2) v(2)] transformed_text [OF t(4) v(4)] by blast
  moreover have "isSymbol (textOf symbol)" using transformed_text [OF t(3) v(3)] by blast
  ultimately show ?thesis unfolding f
    by (auto simp: normalizeCreator_def normalizeName_def normalizeDescription_def Let_def not_less Suc_le_eq split: if_splits)
qed

text \<open>A name that is too long is reported as an internal error: the transformation throws a plain error.\<close>

lemma long_name_is_internal_error:
  assumes "jsonField body ''creatorWalletAddress'' = Some (StrJ w)" "isNonzeroAddress (toLowerCase w)" "jsonField body ''name'' = Some (StrJ n)"
    and "length (collapseWhitespace (rq_nfc env n)) > 80"
  shows "\<exists>e. createTokenDto env body = Inl e \<and> pd_status (catch statusName rid uuid url (thrownOf explain e)) = 500"
  using assms by (simp add: createTokenDto_def transformText_def normalizeCreator_def normalizeName_def Let_def catch_def thrownOf_def thrownStatus_def)

text \<open>The signature of a GIF is compared after dropping the high bit of every byte.\<close>

lemma gif_signature_high_bits: "hasImageMagic ([199, 201, 198, 184, 183, 225] @ replicate 6 0) ''image/gif''"
  by code_simp

end
