(* ===== verification/ReadCache.thy ===== *)
theory ReadCache
  imports ProtocolInfo Profiles TokenQuery
begin

text \<open>
  The reads of \<open>src/src/modules/tokens/token-query.service.ts\<close> and of the holders in \<open>src/src/modules/trading/trading.service.ts\<close> behind the
  domain cache: the keys they use, the values they store, and the detail of a token, which is cached, writes an image back and asks
  for a page of trades. The tables are a record of what one read sees. The interface \<open>read_cache\<close> says what a cached read relies on, namely that a
  key names its query as far as the answer goes; the list, the board, the trades and the holders keep it, the detail does not.
\<close>

section \<open>The text of a flat object\<close>

text \<open>\<open>JSON.stringify\<close> of an object whose defined members are texts, booleans and integers.\<close>

definition scalarText :: "json \<Rightarrow> string" where
  "scalarText v = (case v of StrJ s \<Rightarrow> quote s | BoolJ b \<Rightarrow> if b then ''true'' else ''false'' | NumJ q \<Rightarrow> toString \<lfloor>q\<rfloor> | _ \<Rightarrow> ''null'')"

definition stringify :: "(string \<times> json option) list \<Rightarrow> string" where
  "stringify ms = printObject (List.map_filter (\<lambda>(k, v). map_option (\<lambda>x. (k, scalarText x)) v) ms)"

definition isScalar :: "json \<Rightarrow> bool" where
  "isScalar v = (case v of StrJ _ \<Rightarrow> True | BoolJ _ \<Rightarrow> True | NumJ q \<Rightarrow> of_int \<lfloor>q\<rfloor> = q | _ \<Rightarrow> False)"

lemma scalarText_parses:
  assumes "isScalar v" "endsNumber t"
  shows "jsonValue (Suc n) (scalarText v @ t) = Some (v, t)"
proof (cases v)
  case (NumJ q)
  obtain i where q: "q = of_int i" using assms(1) NumJ by (auto simp: isScalar_def)
  show ?thesis
  proof (cases "i < 0")
    case True
    then have "numberBody (decDigits (nat (- i)) @ t) = Some (of_int (- i), t)"
      using numberBody_decDigits [OF assms(2), of "nat (- i)"] by simp
    then show ?thesis using True NumJ q by (simp add: scalarText_def toString_def skipWs_Cons literal_def startsWith_def)
  next
    case False
    then show ?thesis using jsonValue_number [OF assms(2), of n "nat i"] NumJ q by (simp add: scalarText_def toString_def)
  qed
next
  case (BoolJ b)
  then show ?thesis by (simp add: scalarText_def skipWs_Cons literal_def startsWith_def)
next
  case (StrJ s)
  then show ?thesis by (simp add: scalarText_def jsonValue_quote del: jsonValue.simps)
qed (use assms in \<open>simp_all add: isScalar_def\<close>)

lemma joinWith_Cons: "xs \<noteq> [] \<Longrightarrow> joinWith sep (x # xs) = x @ sep @ joinWith sep xs"
  by (cases xs) simp_all

lemma members_parse:
  assumes "ms \<noteq> []" "\<forall>(k, v)\<in>set ms. isScalar v" "length ms < n"
  shows "jsonMembers n (joinWith '','' (map (\<lambda>(k, v). quote k @ '':'' @ scalarText v) ms) @ ''}'' @ t) = Some (ms, t)"
  using assms
proof (induction ms arbitrary: n)
  case (Cons m ms)
  obtain k v where m: "m = (k, v)" by force
  obtain n' where n: "n = Suc (Suc n')" using Cons.prems(3) by (cases n; cases "n - 1") auto
  have v: "isScalar v" using Cons.prems(2) m by auto
  show ?case
  proof (cases "ms = []")
    case True
    have "jsonValue (Suc n') (scalarText v @ ''}'' @ t) = Some (v, ''}'' @ t)"
      by (rule scalarText_parses [OF v]) (simp add: endsNumber_def)
    from jsonMembers_one [OF this, of k] show ?thesis using True m n by simp
  next
    case False
    let ?r = "joinWith '','' (map (\<lambda>(k, v). quote k @ '':'' @ scalarText v) ms) @ ''}'' @ t"
    have "jsonValue (Suc n') (scalarText v @ '','' @ ?r) = Some (v, '','' @ ?r)"
      by (rule scalarText_parses [OF v]) (simp add: endsNumber_def)
    from jsonMembers_one [OF this, of k]
    have "jsonMembers n (quote k @ '':'' @ scalarText v @ '','' @ ?r) = consTo (k, v) (jsonMembers (Suc n') ?r)"
      using n by simp
    also have "\<dots> = Some (m # ms, t)" using Cons.IH [of "Suc n'"] False Cons.prems m n by (auto simp: consTo_def)
    finally show ?thesis using False m by (simp add: joinWith_Cons)
  qed
qed simp

definition definedMembers :: "(string \<times> json option) list \<Rightarrow> (string \<times> json) list" where
  "definedMembers ms = List.map_filter (\<lambda>(k, v). map_option (Pair k) v) ms"

lemma stringify_definedMembers: "stringify ms = ''{'' @ joinWith '','' (map (\<lambda>(k, v). quote k @ '':'' @ scalarText v) (definedMembers ms)) @ ''}''"
proof -
  have "List.map_filter (\<lambda>(k, v). map_option (\<lambda>x. (k, scalarText x)) v) ms = map (\<lambda>(k, v). (k, scalarText v)) (definedMembers ms)"
    by (induction ms) (auto simp: definedMembers_def List.map_filter_def)
  then show ?thesis by (simp add: stringify_def printObject_def o_def case_prod_unfold)
qed

text \<open>Two flat objects print alike only if their defined members agree.\<close>

lemma stringify_inject:
  assumes "stringify ms = stringify ms'" "\<forall>(k, v)\<in>set (definedMembers ms). isScalar v" "\<forall>(k, v)\<in>set (definedMembers ms'). isScalar v"
    and "definedMembers ms \<noteq> []" "definedMembers ms' \<noteq> []"
  shows "definedMembers ms = definedMembers ms'"
proof -
  let ?t = "\<lambda>ms. joinWith '','' (map (\<lambda>(k, v). quote k @ '':'' @ scalarText v) (definedMembers ms)) @ ''}''"
  define n where "n = Suc (length (definedMembers ms) + length (definedMembers ms'))"
  have n: "length (definedMembers ms) < n" "length (definedMembers ms') < n" by (simp_all add: n_def)
  note members_parse [OF assms(4,2) n(1), of "[]"] members_parse [OF assms(5,3) n(2), of "[]"]
  moreover have "?t ms = ?t ms'" using assms(1) by (simp add: stringify_definedMembers)
  ultimately show ?thesis by (metis append_Nil2 option.inject prod.inject)
qed

section \<open>Reading through the cache\<close>

text \<open>The shape of every cached read: an answer of the cache, or else a computation whose value is stored at \<open>later\<close>. While it runs,
  other requests turn the cache into \<open>meanwhile st\<close>; an exception stores nothing.\<close>

definition cachedRead :: "bool \<Rightarrow> int \<Rightarrow> 'v result \<Rightarrow> ('v timed \<Rightarrow> 'v timed) \<Rightarrow> bool \<Rightarrow> int \<Rightarrow> rat \<Rightarrow> string \<Rightarrow> int \<Rightarrow> 'v timed
    \<Rightarrow> 'v result \<times> 'v timed" where
  "cachedRead up now computed meanwhile up' later u key ttl st = (case timedGet up st now key of
     Some v \<Rightarrow> (Inr v, st)
   | None \<Rightarrow> (case computed of
       Inl e \<Rightarrow> (Inl e, meanwhile st)
     | Inr v \<Rightarrow> (Inr v, timedSet up' (meanwhile st) later u key v ttl)))"

text \<open>A store that some reads of one kind share. \<open>W r\<close> are the tables at the second \<open>r\<close>; a read sees them at \<open>r\<close> and stores its
  value at \<open>t\<close>, at most \<open>L\<close> seconds later, in whatever order with others; Redis may drop entries.\<close>

inductive cacheRun :: "('q \<Rightarrow> string) \<Rightarrow> int \<Rightarrow> ('w \<Rightarrow> 'q \<Rightarrow> 'v result) \<Rightarrow> (int \<Rightarrow> 'w) \<Rightarrow> int \<Rightarrow> int \<Rightarrow> 'v timed \<Rightarrow> bool"
  for key ttl load W L where
  cache_start: "cacheRun key ttl load W L clock Map.empty"
| cache_store: "cacheRun key ttl load W L clock st \<Longrightarrow> clock \<le> t \<Longrightarrow> r \<le> t \<Longrightarrow> t \<le> r + L \<Longrightarrow> load (W r) q = Inr v \<Longrightarrow> 0 \<le> u \<Longrightarrow> u < 1
    \<Longrightarrow> cacheRun key ttl load W L t (timedSet up st t u (key q) v ttl)"
| cache_drop: "cacheRun key ttl load W L clock st \<Longrightarrow> clock \<le> t \<Longrightarrow> cacheRun key ttl load W L t (timedDelete up st k)"

text \<open>The interface: a key names its query, as far as the answer goes.\<close>

locale read_cache =
  fixes key :: "'q \<Rightarrow> string" and ttl :: int and load :: "'w \<Rightarrow> 'q \<Rightarrow> 'v result"
  assumes key_names: "key q = key q' \<Longrightarrow> load w q = load w q'" and ttl_pos: "1 \<le> ttl"
begin

lemma run_tracked:
  assumes "cacheRun key ttl load W L clock st" "st (key q) = Some (v, e)"
  shows "\<exists>t r. t \<le> clock \<and> e \<le> t + ttl \<and> r \<le> t \<and> t \<le> r + L \<and> load (W r) q = Inr v"
  using assms
proof (induction arbitrary: e rule: cacheRun.induct)
  case (cache_store clock st t r q' w u up)
  show ?case
  proof (cases "up \<and> key q' = key q")
    case True
    then have "e = t + subtractiveJitter ttl u" "w = v" using cache_store.prems by (auto simp: timedSet_def)
    moreover have "load (W r) q = Inr v" using key_names [of q' q] True cache_store.hyps(5) calculation(2) by simp
    ultimately show ?thesis using subtractiveJitter_bounds [OF cache_store.hyps(6,7) ttl_pos] cache_store.hyps by auto
  next
    case False
    then have "st (key q) = Some (v, e)" using cache_store.prems by (auto simp: timedSet_def split: if_splits)
    from cache_store.IH [OF this] show ?thesis using cache_store.hyps(2) by (meson order_trans)
  qed
next
  case (cache_drop clock st t up k)
  then have "st (key q) = Some (v, e)" by (auto simp: timedDelete_def split: if_splits)
  from cache_drop.IH [OF this] show ?case using cache_drop.hyps(2) by (meson order_trans)
qed simp

lemma read_fresh:
  assumes "cacheRun key ttl load W L clock st" "clock \<le> now"
    and "cachedRead up now (load w q) meanwhile up' later u (key q) ttl st = (Inr v, st')"
  shows "load w q = Inr v \<or> (\<exists>r. now - (ttl + L) < r \<and> r \<le> now \<and> load (W r) q = Inr v)"
proof (cases "timedGet up st now (key q)")
  case None
  then show ?thesis using assms(3) by (auto simp: cachedRead_def split: sum.splits)
next
  case (Some x)
  then obtain e where "st (key q) = Some (x, e)" "now < e" by (auto simp: timedGet_def split: if_splits option.splits)
  moreover have "x = v" using Some assms(3) by (simp add: cachedRead_def)
  ultimately obtain t r where "t \<le> clock" "e \<le> t + ttl" "r \<le> t" "t \<le> r + L" "load (W r) q = Inr v" "now < e"
    using run_tracked [OF assms(1), of q v e] by auto
  then have "now - (ttl + L) < r \<and> r \<le> now" using assms(2) by linarith
  then show ?thesis using \<open>load (W r) q = Inr v\<close> by blast
qed

text \<open>A read is a step of the run.\<close>

lemma read_run:
  assumes "cacheRun key ttl load W L c0 st" "cacheRun key ttl load W L c1 (meanwhile st)" "c0 \<le> later" "c1 \<le> later"
    and "r \<le> later" "later \<le> r + L" "0 \<le> u" "u < 1"
    and "cachedRead up now (load (W r) q) meanwhile up' later u (key q) ttl st = (a, st')"
  shows "\<exists>clock\<le>later. cacheRun key ttl load W L clock st'"
  using assms(1,2,3,4,9) cache_store [OF assms(2,4,5,6) _ assms(7,8), of q _ up']
  by (auto simp: cachedRead_def split: option.splits sum.splits)

end

section \<open>The tables of the reads\<close>

record token_record =
  dt_id :: string
  dt_chainId :: int
  dt_token :: "string option"
  dt_name :: string
  dt_symbol :: string
  dt_uri :: string
  dt_description :: "string option"
  dt_imageUri :: "string option"
  dt_socials :: "jsv option"

record detail_pool = pool_record +
  dp_creator :: string
  dp_launchTime :: string
  dp_launchBlock :: int
  dp_configHash :: string
  dp_payoutPlan :: int
  dp_devBuyShareWad :: int
  dp_revenueNftOwner :: "string option"

record full_stats = pool_stats +
  fs_buyVolumeEth :: int
  fs_sellVolumeEth :: int
  fs_buyVolumeTokens :: int
  fs_sellVolumeTokens :: int
  fs_swapCount :: int
  fs_creatorRevenueTotal :: int
  fs_creatorRevenueCurve :: int
  fs_creatorRevenueSwapFees :: int
  fs_protocolRevenueTotal :: int
  fs_protocolRevenueCurve :: int
  fs_protocolRevenueSwapFees :: int
  fs_protocolRevenueHarvest :: int
  fs_creatorPathRevenueTotal :: int
  fs_pluginRevenueTotal :: int
  fs_potFundedTotal :: int
  fs_tipsTotal :: int
  fs_bandsDeployed :: int
  fs_harvestCount :: int
  fs_harvestQuoteTotal :: int
  fs_swapFeeBurnedTokens :: int
  fs_lastSwapBlock :: int

record pot_record =
  pt_balance :: int
  pt_fundedTotal :: int
  pt_serviceFeeTotal :: int

text \<open>What the reads see of the database and the chain at one instant; tables with a primary key are maps. \<open>rw_sink\<close> answers the
  raw query on the token table of the indexer, \<open>rw_logs\<close> is \<open>getLogs\<close> for the transfers of a token from a block on.\<close>

record read_world =
  rw_now :: int
  rw_view :: "metrics list"
  rw_harvests :: "harvest_payout list"
  rw_tokens :: "token_record list"
  rw_launchImages :: "image_row list"
  rw_pools :: "detail_pool list"
  rw_swaps :: "swap_fact list"
  rw_poolTokens :: "string \<rightharpoonup> string"
  rw_names :: "int \<times> string \<rightharpoonup> string \<times> string"
  rw_stats :: "int \<times> string \<rightharpoonup> full_stats"
  rw_pots :: "int \<times> string \<rightharpoonup> pot_record"
  rw_bands :: "(int \<times> string \<times> bool) list"
  rw_launchRecords :: "string \<rightharpoonup> string \<times> string \<times> string option"
  rw_sink :: "string \<Rightarrow> (string \<times> string \<times> string) list"
  rw_holders :: "(string \<times> string \<times> int) list"
  rw_logs :: "string \<Rightarrow> int \<Rightarrow> transfer_log list result"

definition tokenImages :: "read_world \<Rightarrow> image_row list" where
  "tokenImages w = map (\<lambda>t. \<lparr>ir_chainId = dt_chainId t, ir_token = dt_token t, ir_imageUri = dt_imageUri t, ir_createdAt = 0\<rparr>) (rw_tokens w)"

section \<open>The token list and the board\<close>

definition CACHE_TTL_trades :: int where [model_defs]: "CACHE_TTL_trades = 2"
definition CACHE_TTL_tokenDetail :: int where [model_defs]: "CACHE_TTL_tokenDetail = 5"
definition CACHE_TTL_tokenList :: int where [model_defs]: "CACHE_TTL_tokenList = 10"

text \<open>The query object as the framework builds it: its members in the order of their declarations, the undeclared ones left out of
  the text; \<open>skip\<close> is an accessor of the class and no member.\<close>

record list_params =
  lp_page :: int
  lp_limit :: int
  lp_q :: "string option"
  lp_creator :: "string option"
  lp_graduated :: "bool option"
  lp_sort :: list_sort
  lp_near :: "bool option"
  lp_paid :: "bool option"
  lp_chainId :: int

fun listSortName :: "list_sort \<Rightarrow> string" where
  "listSortName SortNewest = ''newest''"
| "listSortName SortOldest = ''oldest''"
| "listSortName SortMarketCap = ''market_cap''"
| "listSortName SortVolume = ''volume''"
| "listSortName SortGraduated = ''graduated''"
| "listSortName SortMilestones = ''milestones''"
| "listSortName SortNextPayout = ''next_payout''"

definition numMember :: "int \<Rightarrow> json option" where
  "numMember i = Some (NumJ (of_int i))"

definition listMembers :: "list_params \<Rightarrow> (string \<times> json option) list" where
  "listMembers p = [(''page'', numMember (lp_page p)), (''limit'', numMember (lp_limit p)), (''q'', map_option StrJ (lp_q p)),
     (''creator'', map_option StrJ (lp_creator p)), (''phase'', map_option (\<lambda>g. StrJ (if g then ''graduated'' else ''bonding'')) (lp_graduated p)),
     (''sort'', Some (StrJ (listSortName (lp_sort p)))), (''near'', map_option BoolJ (lp_near p)), (''paid'', map_option BoolJ (lp_paid p)),
     (''chainId'', numMember (lp_chainId p))]"

definition listKey :: "list_params \<Rightarrow> string" where
  "listKey p = ''tokens:list:'' @ stringify (listMembers p)"

definition listQueryOf :: "list_params \<Rightarrow> list_query" where
  "listQueryOf p = \<lparr>lq_chainId = lp_chainId p, lq_q = lp_q p, lq_creator = lp_creator p, lq_graduated = lp_graduated p, lq_sort = lp_sort p,
     lq_near = (lp_near p = Some True), lq_paid = (lp_paid p = Some True), lq_page = lp_page p, lq_limit = lp_limit p\<rparr>"

definition listLoad :: "read_world \<Rightarrow> list_params \<Rightarrow> (token_card list \<times> page_meta) result" where
  "listLoad w p = listTokens (rw_view w) (rw_harvests w) (tokenImages w) (rw_launchImages w) (listQueryOf p)"

definition list_read :: "bool \<Rightarrow> int \<Rightarrow> read_world \<Rightarrow> _ \<Rightarrow> bool \<Rightarrow> int \<Rightarrow> rat \<Rightarrow> list_params \<Rightarrow> (token_card list \<times> page_meta) timed
    \<Rightarrow> (token_card list \<times> page_meta) result \<times> (token_card list \<times> page_meta) timed" where
  "list_read up now w meanwhile up' later u p st = cachedRead up now (listLoad w p) meanwhile up' later u (listKey p) CACHE_TTL_tokenList st"

definition boardKey :: "int \<Rightarrow> int option \<Rightarrow> string" where
  "boardKey fallback q = ''milestones:board:'' @ toString (resolveChainId fallback q)"

definition boardLoad :: "int \<Rightarrow> read_world \<Rightarrow> int option \<Rightarrow> board result" where
  "boardLoad fallback w q = milestoneBoard (rw_view w) (rw_harvests w) (rw_poolTokens w) (rw_names w) (tokenImages w) (rw_launchImages w) (rw_now w) fallback q"

definition board_read :: "bool \<Rightarrow> int \<Rightarrow> read_world \<Rightarrow> _ \<Rightarrow> bool \<Rightarrow> int \<Rightarrow> rat \<Rightarrow> int \<Rightarrow> int option \<Rightarrow> board timed \<Rightarrow> board result \<times> board timed" where
  "board_read up now w meanwhile up' later u fallback q st =
     cachedRead up now (boardLoad fallback w q) meanwhile up' later u (boardKey fallback q) CACHE_TTL_tokenList st"

section \<open>Trades\<close>

text \<open>A query comes from the trades endpoint or, with other members, from the detail of a token.\<close>

datatype trades_call = FromEndpoint | FromDetail

fun tradeSortName :: "trade_sort \<Rightarrow> string" where
  "tradeSortName TradeNewest = ''newest''"
| "tradeSortName TradeOldest = ''oldest''"
| "tradeSortName TradeAmount = ''amount''"

definition tradeMembers :: "trades_call \<Rightarrow> trade_query \<Rightarrow> (string \<times> json option) list" where
  "tradeMembers call q = (case call of
     FromEndpoint \<Rightarrow> [(''page'', numMember (tq_page q)), (''limit'', numMember (tq_limit q)),
       (''side'', map_option (\<lambda>d. StrJ (if d = BUY then ''BUY'' else ''SELL'')) (tq_side q)),
       (''sort'', Some (StrJ (tradeSortName (tq_sort q)))), (''chainId'', numMember (tq_chainId q))]
   | FromDetail \<Rightarrow> [(''chainId'', numMember (tq_chainId q)), (''sort'', Some (StrJ (tradeSortName (tq_sort q)))),
       (''page'', numMember (tq_page q)), (''limit'', numMember (tq_limit q)), (''skip'', numMember ((tq_page q - 1) * tq_limit q))])"

definition tradesKey :: "trades_call \<times> string \<times> trade_query \<Rightarrow> string" where
  "tradesKey = (\<lambda>(call, tokenRef, q). ''tokens:trades:'' @ toLowerCase tokenRef @ '':'' @ stringify (tradeMembers call q))"

text \<open>The detail asks without a side.\<close>

definition tradesLoad :: "read_world \<Rightarrow> trades_call \<times> string \<times> trade_query \<Rightarrow> (trade_view list \<times> page_meta) result" where
  "tradesLoad w = (\<lambda>(call, tokenRef, q). trades (rw_pools w) (rw_swaps w) tokenRef
     (case call of FromEndpoint \<Rightarrow> q | FromDetail \<Rightarrow> q\<lparr>tq_side := None\<rparr>))"

definition trades_read :: "bool \<Rightarrow> int \<Rightarrow> read_world \<Rightarrow> _ \<Rightarrow> bool \<Rightarrow> int \<Rightarrow> rat \<Rightarrow> trades_call \<times> string \<times> trade_query
    \<Rightarrow> (trade_view list \<times> page_meta) timed \<Rightarrow> (trade_view list \<times> page_meta) result \<times> (trade_view list \<times> page_meta) timed" where
  "trades_read up now w meanwhile up' later u q st = cachedRead up now (tradesLoad w q) meanwhile up' later u (tradesKey q) CACHE_TTL_trades st"

section \<open>Holders\<close>

datatype holders_view =
    HoldersUnavailable string int
  | HoldersView string int nat "holder_view list" int bool

text \<open>The launch facts of a pool: chain, pool, token and launch block.\<close>

type_synonym launch_facts = "int \<times> string \<times> string \<times> int"

definition holdersKey :: "launch_facts \<Rightarrow> string" where
  "holdersKey = (\<lambda>(chainId, poolId, token, block). ''holders:'' @ toString chainId @ '':'' @ poolId)"

definition holdersLoad :: "read_world \<Rightarrow> launch_facts \<Rightarrow> holders_view result" where
  "holdersLoad w = (\<lambda>(chainId, poolId, token, block).
     (let positive = filter (\<lambda>(_, b). b > 0) (map snd (filter (\<lambda>(t, _, _). t = toLowerCase token) (rw_holders w))) in
      case holdersIndexed (take 10 (sort_key (\<lambda>e. - snd e) positive)) (length positive) of
        Some (c, best) \<Rightarrow> Inr (HoldersView poolId chainId c best (rw_now w) True)
      | None \<Rightarrow> bindR (rw_logs w token block) (\<lambda>logs. Inr (case holdersFromLogs logs of
           None \<Rightarrow> HoldersUnavailable poolId chainId
         | Some (c, best) \<Rightarrow> HoldersView poolId chainId c best (rw_now w) False))))"

definition poolFacts :: "detail_pool \<Rightarrow> launch_facts" where
  "poolFacts p = (pl_chainId (pr_pool p), pl_poolId (pr_pool p), pl_token (pr_pool p), dp_launchBlock p)"

text \<open>\<open>poolOrThrow\<close> with the whole row.\<close>

definition poolRow :: "detail_pool list \<Rightarrow> string \<Rightarrow> int \<Rightarrow> detail_pool result" where
  "poolRow pools tokenRef chainId =
     (let norm = toLowerCase tokenRef; isPoolId = startsWith ''0x'' norm \<and> length norm = 66 in
      case find (\<lambda>p. pl_chainId (pr_pool p) = chainId \<and> (if isPoolId then pl_poolId (pr_pool p) = norm else pl_token (pr_pool p) = norm)) pools of
        None \<Rightarrow> Inl (NotFoundException ''TOKEN_NOT_FOUND'') | Some p \<Rightarrow> Inr p)"

definition holders_read :: "bool \<Rightarrow> int \<Rightarrow> read_world \<Rightarrow> _ \<Rightarrow> bool \<Rightarrow> int \<Rightarrow> rat \<Rightarrow> int \<Rightarrow> string \<Rightarrow> holders_view timed
    \<Rightarrow> holders_view result \<times> holders_view timed" where
  "holders_read up now w meanwhile up' later u fallback tokenRef st =
     (case poolRow (rw_pools w) tokenRef (resolveChainId fallback None) of
        Inl e \<Rightarrow> (Inl e, st)
      | Inr p \<Rightarrow> cachedRead up now (holdersLoad w (poolFacts p)) meanwhile up' later u (holdersKey (poolFacts p)) 60 st)"

section \<open>The token detail\<close>

definition optText :: "string option \<Rightarrow> jsv" where
  "optText v = (case v of Some t \<Rightarrow> JStr t | None \<Rightarrow> JNull)"

definition tokenRecordOf :: "read_world \<Rightarrow> pool \<Rightarrow> token_record option" where
  "tokenRecordOf w p = find (\<lambda>t. dt_chainId t = pl_chainId p \<and> dt_token t = Some (pl_token p)) (rw_tokens w)"

text \<open>\<open>sinkToken\<close>: name, symbol and URI of the indexer, the first row.\<close>

definition sinkToken :: "read_world \<Rightarrow> string \<Rightarrow> (string \<times> string \<times> string) option" where
  "sinkToken w token = (case rw_sink w (toLowerCase token) of [] \<Rightarrow> None | r # _ \<Rightarrow> Some r)"

text \<open>The image of the row, or one found by the address; the second component is what is written back to the row.\<close>

definition detailImage :: "read_world \<Rightarrow> int \<Rightarrow> pool \<Rightarrow> token_record option \<Rightarrow> string option \<times> (string \<times> string) option" where
  "detailImage w chainId p row =
     (case Option.bind row dt_imageUri of
        Some (c # cs) \<Rightarrow> (Some (c # cs), None)
      | _ \<Rightarrow> let image = map_of (imageMap (tokenImages w) (rw_launchImages w) chainId [toLowerCase (pl_token p)]) (toLowerCase (pl_token p)) in
          (image, case (image, row) of (Some (c # cs), Some t) \<Rightarrow> Some (dt_id t, c # cs) | _ \<Rightarrow> None))"

definition writeImage :: "string \<times> string \<Rightarrow> token_record list \<Rightarrow> token_record list" where
  "writeImage = (\<lambda>(i, image). map (\<lambda>t. if dt_id t = i then t\<lparr>dt_imageUri := Some image\<rparr> else t))"

definition statsFields :: "full_stats \<Rightarrow> (string \<times> jsv) list" where
  "statsFields s = [(''buyVolumeEth'', JStr (toString (fs_buyVolumeEth s))), (''sellVolumeEth'', JStr (toString (fs_sellVolumeEth s))),
     (''buyVolumeTokens'', JStr (toString (fs_buyVolumeTokens s))), (''sellVolumeTokens'', JStr (toString (fs_sellVolumeTokens s))),
     (''swapCount'', JStr (toString (fs_swapCount s))), (''lastPriceSqrtX96'', JStr (toString (ps_lastPriceSqrtX96 s))),
     (''athSqrtX96'', JStr (toString (ps_athSqrtX96 s))), (''creatorRevenueTotal'', JStr (toString (fs_creatorRevenueTotal s))),
     (''creatorRevenueCurve'', JStr (toString (fs_creatorRevenueCurve s))), (''creatorRevenueSwapFees'', JStr (toString (fs_creatorRevenueSwapFees s))),
     (''protocolRevenueTotal'', JStr (toString (fs_protocolRevenueTotal s))), (''protocolRevenueCurve'', JStr (toString (fs_protocolRevenueCurve s))),
     (''protocolRevenueSwapFees'', JStr (toString (fs_protocolRevenueSwapFees s))), (''protocolRevenueHarvest'', JStr (toString (fs_protocolRevenueHarvest s))),
     (''creatorPathRevenueTotal'', JStr (toString (fs_creatorPathRevenueTotal s))), (''pluginRevenueTotal'', JStr (toString (fs_pluginRevenueTotal s))),
     (''potFundedTotal'', JStr (toString (fs_potFundedTotal s))), (''tipsTotal'', JStr (toString (fs_tipsTotal s))),
     (''bandsDeployed'', JNum (fs_bandsDeployed s)), (''harvestCount'', JNum (fs_harvestCount s)),
     (''harvestQuoteTotal'', JStr (toString (fs_harvestQuoteTotal s))), (''swapFeeBurnedTokens'', JStr (toString (fs_swapFeeBurnedTokens s))),
     (''burnedTotal'', JStr (toString (ps_burnedTotal s))), (''lastSwapBlock'', JStr (toString (fs_lastSwapBlock s)))]"

definition potFields :: "pot_record option \<Rightarrow> (string \<times> jsv) list" where
  "potFields p = (let v = (\<lambda>f. JStr (case p of Some r \<Rightarrow> toString (f r) | None \<Rightarrow> ''0'')) in
     [(''balance'', v pt_balance), (''fundedTotal'', v pt_fundedTotal), (''serviceFeeTotal'', v pt_serviceFeeTotal)])"

definition bandCount :: "read_world \<Rightarrow> int \<Rightarrow> string \<Rightarrow> bool \<Rightarrow> int" where
  "bandCount w chainId poolId completed = int (length (filter (\<lambda>b. b = (chainId, poolId, completed)) (rw_bands w)))"

record token_detail =
  td_fields :: "(string \<times> jsv) list"
  td_trades :: "trade_view list \<times> page_meta"

definition detailFields :: "read_world \<Rightarrow> int \<Rightarrow> detail_pool \<Rightarrow> (string \<times> jsv) list" where
  "detailFields w chainId dp =
     (let p = pr_pool dp; row = tokenRecordOf w p;
          chainToken = (case row of Some t \<Rightarrow> Some (dt_name t, dt_symbol t, dt_uri t) | None \<Rightarrow> sinkToken w (pl_token p));
          stats = rw_stats w (chainId, pl_poolId p) in
      [(''poolId'', JStr (pl_poolId p)), (''chainId'', JNum (pl_chainId p)),
       (''status'', JStr (case pl_status p of Bonding \<Rightarrow> ''bonding'' | Graduated \<Rightarrow> ''graduated'')),
       (''token'', JStr (pl_token p)), (''creator'', JStr (dp_creator dp)), (''name'', optText (map_option fst chainToken)),
       (''symbol'', optText (map_option (fst \<circ> snd) chainToken)), (''description'', optText (Option.bind row dt_description)),
       (''imageUri'', optText (fst (detailImage w chainId p row))), (''uri'', optText (map_option (snd \<circ> snd) chainToken)),
       (''socials'', (case Option.bind row dt_socials of Some s \<Rightarrow> s | None \<Rightarrow> JNull)), (''launchTime'', JDate (dp_launchTime dp)),
       (''totalSupply'', JStr (toString (pl_totalSupply p))),
       (''circulatingSupply'', JStr (toString (pl_totalSupply p - (case stats of Some s \<Rightarrow> ps_burnedTotal s | None \<Rightarrow> 0)))),
       (''configHash'', JStr (dp_configHash dp)), (''payoutPlan'', JStr (toString (dp_payoutPlan dp))),
       (''devBuyShareWad'', JStr (shareFixed (dp_devBuyShareWad dp))), (''openingLevel'', JNum (pl_openingLevel p)),
       (''farLevel'', JNum (pl_farLevel p)), (''graduationLevel'', (case pl_graduationLevel p of Some l \<Rightarrow> JNum l | None \<Rightarrow> JNull)),
       (''wallLiquidity'', optText (map_option toString (pl_wallLiquidity p))), (''revenueNftOwner'', optText (dp_revenueNftOwner dp)),
       (''priceEth'', optText (Option.bind stats (\<lambda>s. sqrtToEthString (ps_lastPriceSqrtX96 s)))),
       (''launchRecord'', (case Option.bind (pr_tokenDbId dp) (rw_launchRecords w) of
          Some (i, state, tx) \<Rightarrow> JObj [(''id'', JStr i), (''state'', JStr state), (''transactionHash'', optText tx)] | None \<Rightarrow> JNull)),
       (''stats'', (case stats of Some s \<Rightarrow> JObj (statsFields s) | None \<Rightarrow> JNull)),
       (''pot'', JObj (potFields (rw_pots w (chainId, pl_poolId p)))),
       (''milestones'', JObj [(''live'', JNum (bandCount w chainId (pl_poolId p) False)), (''completed'', JNum (bandCount w chainId (pl_poolId p) True))])])"

definition detailKey :: "string \<Rightarrow> int \<Rightarrow> int \<Rightarrow> string" where
  "detailKey tokenRef tradePage tradeLimit = ''tokens:detail:'' @ toLowerCase tokenRef @ '':'' @ toString tradePage @ '':'' @ toString tradeLimit"

text \<open>The caches and the table the read changes; \<open>updates\<close> says whether the write of the image succeeds, its failure is swallowed.
  \<open>wm\<close> is the time of the last indexed block of the queried chain when the answer leaves.\<close>

record detail_state =
  ds_details :: "token_detail timed"
  ds_trades :: "(trade_view list \<times> page_meta) timed"
  ds_tokens :: "token_record list"

definition freshDetail :: "int \<Rightarrow> int \<Rightarrow> int option \<Rightarrow> token_detail \<Rightarrow> token_detail" where
  "freshDetail staleAfterMs nowMs wm d = d\<lparr>td_fields := withFreshness staleAfterMs nowMs wm (td_fields d)\<rparr>"

definition detail :: "bool \<Rightarrow> int \<Rightarrow> read_world \<Rightarrow> bool \<Rightarrow> int \<Rightarrow> rat \<Rightarrow> int \<Rightarrow> int \<Rightarrow> int option \<Rightarrow> string \<Rightarrow> int \<Rightarrow> int \<Rightarrow> int \<Rightarrow> detail_state
    \<Rightarrow> token_detail result \<times> detail_state" where
  "detail up now w updates later u staleAfterMs nowMs wm tokenRef chainId tradePage tradeLimit st =
     (let key = detailKey tokenRef tradePage tradeLimit in
      case timedGet up (ds_details st) now key of
        Some d \<Rightarrow> (Inr (freshDetail staleAfterMs nowMs wm d), st)
      | None \<Rightarrow> (case findPool (rw_pools w) tokenRef chainId of
          Inl e \<Rightarrow> (Inl e, st)
        | Inr dp \<Rightarrow>
            (let p = pr_pool dp;
                 st1 = (case snd (detailImage w chainId p (tokenRecordOf w p)) of
                    Some upd \<Rightarrow> if updates then st\<lparr>ds_tokens := writeImage upd (ds_tokens st)\<rparr> else st
                  | None \<Rightarrow> st);
                 (page, ts) = trades_read up now w id up later u (FromDetail, pl_poolId p,
                    \<lparr>tq_chainId = chainId, tq_side = None, tq_sort = TradeNewest, tq_page = tradePage, tq_limit = tradeLimit\<rparr>) (ds_trades st1);
                 st2 = st1\<lparr>ds_trades := ts\<rparr>
             in case page of
                  Inl e \<Rightarrow> (Inl e, st2)
                | Inr t \<Rightarrow> (let d = \<lparr>td_fields = detailFields w chainId dp, td_trades = t\<rparr> in
                    (Inr (freshDetail staleAfterMs nowMs wm d),
                     st2\<lparr>ds_details := timedSet up (ds_details st2) later u key d CACHE_TTL_tokenDetail\<rparr>)))))"

section \<open>Keys name their queries\<close>

lemma map_of_definedMembers:
  assumes "distinct (map fst ms)"
  shows "map_of (definedMembers ms) k = Option.bind (map_of ms k) id"
  using assms
proof (induction ms)
  case (Cons m ms)
  obtain a v where m: "m = (a, v)" by force
  have "map_of ms a = None" using Cons.prems m by (auto simp: map_of_eq_None_iff)
  then show ?case using Cons m by (cases v) (auto simp: definedMembers_def List.map_filter_simps)
qed (simp add: definedMembers_def List.map_filter_simps)

lemma member_eq:
  assumes "definedMembers ms = definedMembers ms'" "distinct (map fst ms)" "distinct (map fst ms')"
  shows "Option.bind (map_of ms k) id = Option.bind (map_of ms' k) id"
  using assms map_of_definedMembers [of ms k] map_of_definedMembers [of ms' k] by simp

lemma isScalar_simps [simp]: "isScalar (NumJ (of_int i))" "isScalar (StrJ t)" "isScalar (BoolJ b)"
  by (simp_all add: isScalar_def)

lemma map_option_scalar [simp]:
  "map_option StrJ x = map_option StrJ y \<longleftrightarrow> x = y" "map_option BoolJ a = map_option BoolJ b \<longleftrightarrow> a = b"
  by (cases x; cases y; simp) (cases a; cases b; simp)

lemma listSortName_inject: "listSortName a = listSortName b \<Longrightarrow> a = b"
  by (cases a; cases b) simp_all

lemma tradeSortName_inject: "tradeSortName a = tradeSortName b \<Longrightarrow> a = b"
  by (cases a; cases b) simp_all

lemma listMembers_ok: "\<forall>(k, v)\<in>set (definedMembers (listMembers p)). isScalar v" "definedMembers (listMembers p) \<noteq> []"
  by (auto simp: definedMembers_def List.map_filter_simps listMembers_def numMember_def split: option.splits)

lemma tradeMembers_ok: "\<forall>(k, v)\<in>set (definedMembers (tradeMembers c q)). isScalar v" "definedMembers (tradeMembers c q) \<noteq> []"
  by (auto simp: definedMembers_def List.map_filter_simps tradeMembers_def numMember_def simp del: of_int_diff of_int_mult
      split: option.splits trades_call.splits)

lemma listKey_inject: "listKey p = listKey p' \<Longrightarrow> p = p'"
proof -
  assume "listKey p = listKey p'"
  then have m: "definedMembers (listMembers p) = definedMembers (listMembers p')"
    by (intro stringify_inject listMembers_ok) (simp add: listKey_def)
  have d: "distinct (map fst (listMembers q))" for q by (simp add: listMembers_def)
  note e = member_eq [OF m d d]
  have "lp_page p = lp_page p'" "lp_limit p = lp_limit p'" "lp_chainId p = lp_chainId p'"
    using e [of "''page''"] e [of "''limit''"] e [of "''chainId''"] by (simp_all add: listMembers_def numMember_def)
  moreover have "lp_q p = lp_q p'" "lp_creator p = lp_creator p'" "lp_near p = lp_near p'" "lp_paid p = lp_paid p'"
    using e [of "''q''"] e [of "''creator''"] e [of "''near''"] e [of "''paid''"] 
    by (simp_all add: listMembers_def)
  moreover have "lp_graduated p = lp_graduated p'"
    using e [of "''phase''"] by (cases "lp_graduated p"; cases "lp_graduated p'") (auto simp: listMembers_def split: if_splits)
  moreover have "lp_sort p = lp_sort p'" using e [of "''sort''"] listSortName_inject by (simp add: listMembers_def)
  ultimately show ?thesis by (cases p; cases p') simp
qed

text \<open>The text of a trade query has one opening brace, its first character, so that the reference before it can be told apart whatever
  it contains.\<close>

lemma last_brace:
  assumes "a @ CHR ''{'' # x = b @ CHR ''{'' # y" "CHR ''{'' \<notin> set x" "CHR ''{'' \<notin> set y"
  shows "a = b \<and> x = y"
proof -
  have t: "takeWhile (\<lambda>c. c \<noteq> CHR ''{'') (rev v @ CHR ''{'' # rest) = rev v" if "CHR ''{'' \<notin> set v" for v rest
    using that by (subst takeWhile_append2) auto
  have "rev x @ CHR ''{'' # rev a = rev y @ CHR ''{'' # rev b" using arg_cong [OF assms(1), of rev] by simp
  then have "rev x = rev y" using t [OF assms(2), of "rev a"] t [OF assms(3), of "rev b"] by simp
  then show ?thesis using assms(1) by simp
qed

lemma brace_digits: "CHR ''{'' \<notin> set (toString i)"
  using toString_chars [of i] by (auto simp: list_all_iff isDigit_def)

lemma tradeMembers_text: "\<exists>x. stringify (tradeMembers c q) = CHR ''{'' # x \<and> CHR ''{'' \<notin> set x"
proof -
  have n: "CHR ''{'' \<notin> set (scalarText (NumJ (of_int i)))" for i using brace_digits [of i] by (simp add: scalarText_def)
  have s: "CHR ''{'' \<notin> set (quote (tradeSortName o1))" "CHR ''{'' \<notin> set (quote ''BUY'')" "CHR ''{'' \<notin> set (quote ''SELL'')"
    "CHR ''{'' \<notin> set (quote ''page'')" "CHR ''{'' \<notin> set (quote ''limit'')" "CHR ''{'' \<notin> set (quote ''side'')" "CHR ''{'' \<notin> set (quote ''sort'')"
    "CHR ''{'' \<notin> set (quote ''chainId'')" "CHR ''{'' \<notin> set (quote ''skip'')" for o1
    by (cases o1; simp add: quote_def escapeChar_def)+
  show ?thesis unfolding stringify_definedMembers using s n
    by (cases c; cases "tq_side q")
      (simp_all add: definedMembers_def List.map_filter_simps tradeMembers_def numMember_def scalarText_def [of "StrJ _"] del: of_int_diff of_int_mult)
qed

lemma tradesKey_inject:
  assumes "tradesKey (c, r, q) = tradesKey (c', r', q')"
  shows "c = c' \<and> toLowerCase r = toLowerCase r' \<and> (case c of FromEndpoint \<Rightarrow> q = q' | FromDetail \<Rightarrow> q\<lparr>tq_side := None\<rparr> = q'\<lparr>tq_side := None\<rparr>)"
proof -
  obtain x y where x: "stringify (tradeMembers c q) = CHR ''{'' # x" "CHR ''{'' \<notin> set x"
    and y: "stringify (tradeMembers c' q') = CHR ''{'' # y" "CHR ''{'' \<notin> set y" using tradeMembers_text by metis
  have "(toLowerCase r @ '':'') @ CHR ''{'' # x = (toLowerCase r' @ '':'') @ CHR ''{'' # y"
    using assms x(1) y(1) by (simp add: tradesKey_def)
  from last_brace [OF this x(2) y(2)] have r: "toLowerCase r = toLowerCase r'" and "x = y" by simp_all
  then have m: "definedMembers (tradeMembers c q) = definedMembers (tradeMembers c' q')"
    using x(1) y(1) by (intro stringify_inject tradeMembers_ok) simp
  have c: "c = c'"
    using m by (cases c; cases c') (simp_all add: definedMembers_def List.map_filter_simps tradeMembers_def numMember_def)
  have d: "distinct (map fst (tradeMembers k v))" for k v by (simp add: tradeMembers_def split: trades_call.split)
  note e = member_eq [OF m d d]
  have "tq_page q = tq_page q'" "tq_limit q = tq_limit q'" "tq_chainId q = tq_chainId q'" "tq_sort q = tq_sort q'"
    using e [of "''page''"] e [of "''limit''"] e [of "''chainId''"] e [of "''sort''"] tradeSortName_inject c
    by (cases c; simp add: tradeMembers_def numMember_def)+
  moreover have "tq_side q = tq_side q'" if "c = FromEndpoint"
    using e [of "''side''"] that c by (cases "tq_side q"; cases "tq_side q'") (auto simp: tradeMembers_def split: if_splits, (metis side.exhaust)+)
  ultimately show ?thesis using c r by (cases q; cases q'; cases c) simp_all
qed

section \<open>The cached reads keep the interface\<close>

lemma trades_lower: "toLowerCase r = toLowerCase r' \<Longrightarrow> trades pools swaps r q = trades pools swaps r' q"
  by (simp add: trades_def findPool_def)

lemma tradesLoad_names:
  assumes "tradesKey q = tradesKey q'"
  shows "tradesLoad w q = tradesLoad w q'"
proof -
  obtain c r t c' r' t' where q: "q = (c, r, t)" "q' = (c', r', t')" by (metis prod_cases3)
  have k: "c = c' \<and> toLowerCase r = toLowerCase r' \<and> (case c of FromEndpoint \<Rightarrow> t = t' | FromDetail \<Rightarrow> t\<lparr>tq_side := None\<rparr> = t'\<lparr>tq_side := None\<rparr>)"
    using tradesKey_inject assms unfolding q by blast
  then show ?thesis using trades_lower [of r r'] unfolding q by (cases c) (auto simp: tradesLoad_def)
qed

lemma boardLoad_names: "boardKey fallback q = boardKey fallback q' \<Longrightarrow> boardLoad fallback w q = boardLoad fallback w q'"
  by (simp add: boardKey_def boardLoad_def milestoneBoard_def)

interpretation listReads: read_cache listKey CACHE_TTL_tokenList listLoad
  by unfold_locales (auto dest: listKey_inject simp: CACHE_TTL_tokenList_def)

interpretation boardReads: read_cache "boardKey fallback" CACHE_TTL_tokenList "boardLoad fallback" for fallback
  by unfold_locales (auto intro: boardLoad_names simp: CACHE_TTL_tokenList_def)

interpretation tradeReads: read_cache tradesKey CACHE_TTL_trades tradesLoad
  by unfold_locales (auto intro: tradesLoad_names simp: CACHE_TTL_trades_def)

text \<open>The launch facts of a pool never change: \<open>facts\<close> gives token and launch block of a chain and pool.\<close>

definition factsAt :: "(int \<times> string \<Rightarrow> string \<times> int) \<Rightarrow> int \<times> string \<Rightarrow> launch_facts" where
  "factsAt facts = (\<lambda>(c, p). (c, p, facts (c, p)))"

lemma holdersKey_names: "holdersKey (factsAt facts q) = holdersKey (factsAt facts q') \<Longrightarrow> q = q'"
  using poolKey_inject [of "fst q" "snd q" "fst q'" "snd q'"]
  by (cases q; cases q') (simp add: holdersKey_def factsAt_def poolKey_def case_prod_unfold)

interpretation holderReads: read_cache "\<lambda>q. holdersKey (factsAt facts q)" 60 "\<lambda>w q. holdersLoad w (factsAt facts q)" for facts
  by unfold_locales (auto dest: holdersKey_names)

lemma poolRow_mem: "poolRow pools tokenRef c = Inr p \<Longrightarrow> p \<in> set pools \<and> pl_chainId (pr_pool p) = c"
  by (auto simp: poolRow_def Let_def find_Some_iff split: option.splits)

lemma holders_read_fresh:
  assumes "cacheRun (\<lambda>q. holdersKey (factsAt facts q)) 60 (\<lambda>w q. holdersLoad w (factsAt facts q)) W L clock st" "clock \<le> now"
    and "\<forall>p\<in>set (rw_pools w). poolFacts p = factsAt facts (pl_chainId (pr_pool p), pl_poolId (pr_pool p))"
    and "holders_read up now w meanwhile up' later u fallback tokenRef st = (Inr v, st')"
  shows "\<exists>p\<in>set (rw_pools w). pl_chainId (pr_pool p) = fallback \<and> freshWithin W (60 + L) now w (\<lambda>x. holdersLoad x (poolFacts p) = Inr v)"
proof -
  obtain p where p: "poolRow (rw_pools w) tokenRef fallback = Inr p"
    and r: "cachedRead up now (holdersLoad w (poolFacts p)) meanwhile up' later u (holdersKey (poolFacts p)) 60 st = (Inr v, st')"
    using assms(4) by (auto simp: holders_read_def resolveChainId_def split: sum.splits)
  have m: "p \<in> set (rw_pools w)" "pl_chainId (pr_pool p) = fallback" using poolRow_mem [OF p] by simp_all
  then have f: "poolFacts p = factsAt facts (pl_chainId (pr_pool p), pl_poolId (pr_pool p))" using assms(3) by blast
  from holderReads.read_fresh [OF assms(1,2) r [unfolded f]] show ?thesis
    using m unfolding f [symmetric] freshWithin_def by blast
qed

section \<open>Properties\<close>

text \<open>C23. Cached lists are fresh: however requests interleave and Redis drops entries, the token list, the milestone board, a page of
  trades and the holders of a token are those the database gives to this very request, or gave to the same query (same chain,
  filters, order and page) within the time to live plus the longest read; no query is answered with the value of another.\<close>

theorem cached_reads_fresh:
  assumes "clock \<le> now" and "\<forall>p\<in>set (rw_pools w). poolFacts p = factsAt facts (pl_chainId (pr_pool p), pl_poolId (pr_pool p))"
  shows "(cacheRun listKey CACHE_TTL_tokenList listLoad W L clock st1 \<and> list_read up now w m1 up' later u p st1 = (Inr cards, st1')
      \<longrightarrow> freshWithin W (10 + L) now w (\<lambda>x. listLoad x p = Inr cards))
    \<and> (cacheRun (boardKey fallback) CACHE_TTL_tokenList (boardLoad fallback) W L clock st2
        \<and> board_read up now w m2 up' later u fallback q st2 = (Inr board, st2')
      \<longrightarrow> freshWithin W (10 + L) now w (\<lambda>x. boardLoad fallback x q = Inr board))
    \<and> (cacheRun tradesKey CACHE_TTL_trades tradesLoad W L clock st3 \<and> trades_read up now w m3 up' later u t st3 = (Inr page, st3')
      \<longrightarrow> freshWithin W (2 + L) now w (\<lambda>x. tradesLoad x t = Inr page))
    \<and> (cacheRun (\<lambda>q. holdersKey (factsAt facts q)) 60 (\<lambda>w q. holdersLoad w (factsAt facts q)) W L clock st4
        \<and> holders_read up now w m4 up' later u fallback tokenRef st4 = (Inr v, st4')
      \<longrightarrow> (\<exists>p\<in>set (rw_pools w). pl_chainId (pr_pool p) = fallback \<and> freshWithin W (60 + L) now w (\<lambda>x. holdersLoad x (poolFacts p) = Inr v)))"
proof (intro conjI impI; elim conjE)
  assume "cacheRun listKey CACHE_TTL_tokenList listLoad W L clock st1" "list_read up now w m1 up' later u p st1 = (Inr cards, st1')"
  from listReads.read_fresh [OF this(1) assms(1) this(2) [unfolded list_read_def]]
  show "freshWithin W (10 + L) now w (\<lambda>x. listLoad x p = Inr cards)" by (simp add: freshWithin_def CACHE_TTL_tokenList_def)
next
  assume "cacheRun (boardKey fallback) CACHE_TTL_tokenList (boardLoad fallback) W L clock st2"
    "board_read up now w m2 up' later u fallback q st2 = (Inr board, st2')"
  from boardReads.read_fresh [OF this(1) assms(1) this(2) [unfolded board_read_def]]
  show "freshWithin W (10 + L) now w (\<lambda>x. boardLoad fallback x q = Inr board)" by (simp add: freshWithin_def CACHE_TTL_tokenList_def)
next
  assume "cacheRun tradesKey CACHE_TTL_trades tradesLoad W L clock st3" "trades_read up now w m3 up' later u t st3 = (Inr page, st3')"
  from tradeReads.read_fresh [OF this(1) assms(1) this(2) [unfolded trades_read_def]]
  show "freshWithin W (2 + L) now w (\<lambda>x. tradesLoad x t = Inr page)" by (simp add: freshWithin_def CACHE_TTL_trades_def)
qed (rule holders_read_fresh [OF _ assms])

definition emptyWorld :: read_world where
  "emptyWorld = \<lparr>rw_now = 0, rw_view = [], rw_harvests = [], rw_tokens = [], rw_launchImages = [], rw_pools = [], rw_swaps = [],
     rw_poolTokens = Map.empty, rw_names = Map.empty, rw_stats = Map.empty, rw_pots = Map.empty, rw_bands = [], rw_launchRecords = Map.empty,
     rw_sink = (\<lambda>_. []), rw_holders = [], rw_logs = (\<lambda>_ _. Inr [])\<rparr>"

definition samplePayout :: harvest_payout where
  "samplePayout = \<lparr>hp_chainId = 8453, hp_poolId = ''p'', hp_milestoneIndex = 0, hp_netQuote = 7, hp_timestamp = 0, hp_logIndex = 0\<rparr>"

text \<open>A board stored at second 100 is answered at 105, after its only payout has left the table, and it is the board of the tables
  at second 98.\<close>

theorem cached_reads_fresh_witness:
  "\<exists>r. 105 - (10 + 3) < r \<and> r \<le> (105 :: int)
    \<and> map_option bo_distributedEthWei (case boardLoad 8453 (if r \<le> 98 then emptyWorld\<lparr>rw_harvests := [samplePayout]\<rparr> else emptyWorld) None of
         Inr b \<Rightarrow> Some b | Inl _ \<Rightarrow> None) = Some ''7''"
proof -
  let ?W = "\<lambda>r :: int. if r \<le> 98 then emptyWorld\<lparr>rw_harvests := [samplePayout]\<rparr> else emptyWorld"
  define b where "b = \<lparr>bo_distributedEthWei = ''7'', bo_payouts = 1, bo_payouts24h = 1, bo_leaders = [], bo_nextUp = [], bo_events = []\<rparr>"
  define st where "st = timedSet True Map.empty 100 (1 / 2) (boardKey 8453 None) b CACHE_TTL_tokenList"
  have l: "boardLoad 8453 (emptyWorld\<lparr>rw_harvests := [samplePayout]\<rparr>) None = Inr b"
    unfolding b_def by code_simp
  have "cacheRun (boardKey 8453) CACHE_TTL_tokenList (boardLoad 8453) ?W 3 100 st"
    unfolding st_def by (rule cache_store [OF cache_start, where r = 98 and clock = 0]) (simp_all add: l)
  moreover have rows: "\<forall>p\<in>set (rw_pools emptyWorld). poolFacts p = factsAt (\<lambda>_. ([], 0)) (pl_chainId (pr_pool p), pl_poolId (pr_pool p))"
    by (simp add: emptyWorld_def)
  moreover have "board_read True 105 emptyWorld id True 105 0 8453 None st = (Inr b, st)"
    by (simp add: board_read_def cachedRead_def st_def timedGet_def timedSet_def subtractiveJitter_def CACHE_TTL_tokenList_def)
  ultimately have "freshWithin ?W (10 + 3) 105 emptyWorld (\<lambda>x. boardLoad 8453 x None = Inr b)"
    using cached_reads_fresh [of 100 105 emptyWorld, OF _ rows, THEN conjunct2, THEN conjunct1, THEN mp, OF _ conjI, rotated] by fastforce
  moreover have "boardLoad 8453 emptyWorld None \<noteq> Inr b"
    unfolding b_def by code_simp
  ultimately obtain r where "105 - (10 + 3) < r" "r \<le> 105" "boardLoad 8453 (?W r) None = Inr b" unfolding freshWithin_def by blast
  then show ?thesis by (intro exI [of _ r]) (simp add: b_def)
qed

section \<open>The detail\<close>

text \<open>The key of the detail lacks the chain: while a detail is cached, a request for any other chain is answered with it.\<close>

lemma detail_crosses_chains:
  assumes "timedGet True (ds_details st) now (detailKey tokenRef page limit) = None"
    and "detail True now w updates later u staleAfterMs nowMs wm tokenRef c page limit st = (Inr d, st')"
    and "now' < later + subtractiveJitter CACHE_TTL_tokenDetail u"
  shows "\<exists>d0. d = freshDetail staleAfterMs nowMs wm d0
    \<and> fst (detail True now' w' updates' later' u' staleAfterMs' nowMs' wm' tokenRef c' page limit st') = Inr (freshDetail staleAfterMs' nowMs' wm' d0)"
proof -
  obtain d0 where d: "d = freshDetail staleAfterMs nowMs wm d0"
    "ds_details st' (detailKey tokenRef page limit) = Some (d0, later + subtractiveJitter CACHE_TTL_tokenDetail u)"
    using assms(1,2) by (auto simp: detail_def Let_def timedSet_def split: sum.splits prod.splits)
  then have "timedGet True (ds_details st') now' (detailKey tokenRef page limit) = Some d0" using assms(3) by (simp add: timedGet_def)
  then show ?thesis using d(1) by (auto simp: detail_def)
qed

text \<open>The read writes an image to a row that has none and never replaces one.\<close>

lemma detail_keeps_images:
  assumes "ds_tokens st = rw_tokens w" "distinct (map dt_id (rw_tokens w))" "t \<in> set (rw_tokens w)" "dt_imageUri t = Some (c # cs)"
    and "detail up now w updates later u staleAfterMs nowMs wm tokenRef chainId page limit st = (answer, st')"
  shows "t \<in> set (ds_tokens st')"
proof -
  consider "ds_tokens st' = rw_tokens w"
    | dp :: detail_pool and upd where "ds_tokens st' = writeImage upd (rw_tokens w)" "snd (detailImage w chainId (pr_pool dp) (tokenRecordOf w (pr_pool dp))) = Some upd"
    using assms(1,5) by (auto simp: detail_def Let_def split: option.splits sum.splits prod.splits if_splits)
  then show ?thesis
  proof cases
    case 1
    then show ?thesis using assms(3) by simp
  next
    case (2 dp upd)
    then obtain row image where row: "tokenRecordOf w (pr_pool dp) = Some row" "upd = (dt_id row, image)"
        "\<nexists>c cs. dt_imageUri row = Some (c # cs)"
      by (auto simp: detailImage_def Let_def split: option.splits list.splits)
    have "row \<in> set (rw_tokens w)" using row(1) by (auto simp: tokenRecordOf_def find_Some_iff)
    then have "dt_id t \<noteq> dt_id row" using assms(2-4) row(3) by (metis distinct_map inj_onD)
    then show ?thesis using 2(1) row(2) assms(3) by (force simp: writeImage_def)
  qed
qed

end
