(* ===== verification/Endpoints.thy ===== *)
theory Endpoints
  imports Comments Profiles Requests TokenCreation
begin

text \<open>
  The mutating handlers of the comments API, from the request to the service (\<open>src/modules/comments/comments.controller.ts\<close>,
  \<open>comment-likes.controller.ts\<close>, the DTOs of \<open>dto/comment-mutation.dto.ts\<close> and \<open>dto/comment-query.dto.ts\<close>, the pipe of
  \<open>src/common/http/trim-strings.pipe.ts\<close>): the guard reads the session, the pipe trims the strings, the DTO normalises and
  checks them, the handler replaces the wallet by the session's, and the service runs. The second half puts the sign-in of
  \<open>Auth\<close> beside the comments of \<open>Comments\<close> and shows that no request acts for a wallet other than the one that signed in.
\<close>

section \<open>Bodies\<close>

fun trimJson :: "json \<Rightarrow> json" where
  "trimJson (StrJ s) = StrJ (trim s)"
| "trimJson (ArrJ xs) = ArrJ (map trimJson xs)"
| "trimJson (ObjJ ms) = ObjJ (map (\<lambda>(k, v). (k, trimJson v)) ms)"
| "trimJson v = v"

definition normalizeText :: "body_env \<Rightarrow> string \<Rightarrow> string result" where
  "normalizeText env value = (let normalized = rq_nfc env value in
     if length normalized < 1 \<or> length normalized > 2000 then Inl (JsError ''text must contain 1 to 2000 code points'') else Inr normalized)"

text \<open>\<open>isUuid\<close> is the test of the validator library.\<close>

definition createCommentDto :: "body_env \<Rightarrow> (string \<Rightarrow> bool) \<Rightarrow> json \<Rightarrow> comment_input result" where
  "createCommentDto env isUuid body =
     bindR (transformText normalizeWallet (jsonField body ''walletAddress'')) (\<lambda>wallet.
     bindR (transformText (normalizeText env) (jsonField body ''text'')) (\<lambda>text.
     let parent = jsonField body ''parentCommentId'' in
     if knownFields [''walletAddress'', ''text'', ''parentCommentId''] body \<and> isOptionalText (\<lambda>_. True) wallet
       \<and> isText (\<lambda>s. length s \<le> 8000) text \<and> isOptionalText isUuid parent
     then Inr \<lparr>ci_walletAddress = Option.bind (nullable wallet) id, ci_text = textOf text, ci_parentCommentId = Option.bind (nullable parent) id\<rparr>
     else badRequest))"

definition deleteCommentQuery :: "json \<Rightarrow> string result" where
  "deleteCommentQuery query =
     bindR (transformText normalizeWallet (jsonField query ''walletAddress'')) (\<lambda>wallet.
     if knownFields [''walletAddress''] query \<and> isText (\<lambda>_. True) wallet then Inr (textOf wallet) else badRequest)"

section \<open>Handlers of the comments\<close>

text \<open>A request: its authorization header, the second it is handled in, and the parameters of sessions and bodies.\<close>

record api_request =
  ar_hmac :: "string \<Rightarrow> string \<Rightarrow> string"
  ar_decode :: "string \<Rightarrow> string"
  ar_secret :: string
  ar_now :: int
  ar_header :: header
  ar_bodies :: body_env
  ar_isUuid :: "string \<Rightarrow> bool"

text \<open>The guard in front of a handler: a false answer is a \<open>403\<close>, otherwise the request carries the subject of the session.\<close>

definition guardedWallet :: "api_request \<Rightarrow> string result" where
  "guardedWallet rq = bindR (walletGuard (ar_hmac rq) (ar_decode rq) (ar_secret rq) (ar_now rq) (ar_header rq)) (\<lambda>sub.
     case sub of Some (StrJ wallet) \<Rightarrow> Inr wallet | _ \<Rightarrow> Inl (HttpException 403 ''Forbidden''))"

text \<open>The author is the wallet of the session, whatever the body says.\<close>

definition commentRequest :: "api_request \<Rightarrow> json \<Rightarrow> string option \<Rightarrow> (comment_input \<times> string) result" where
  "commentRequest rq body idempotencyKey =
     bindR (guardedWallet rq) (\<lambda>wallet.
     bindR (createCommentDto (ar_bodies rq) (ar_isUuid rq) (trimJson body)) (\<lambda>input.
     bindR (validateIdempotencyKey idempotencyKey) (\<lambda>key. Inr (input\<lparr>ci_walletAddress := Some wallet\<rparr>, key))))"

definition createTokenComment :: "api_request \<Rightarrow> request_env \<Rightarrow> (comment_db \<Rightarrow> comment_db) \<Rightarrow> string \<Rightarrow> json \<Rightarrow> string option
    \<Rightarrow> comment_db \<times> redis \<Rightarrow> (comment_row \<times> bool) result \<times> comment_db \<times> redis" where
  "createTokenComment rq env between tokenRef body idempotencyKey = (\<lambda>(db, r).
     case commentRequest rq body idempotencyKey of
       Inl e \<Rightarrow> (Inl e, db, r)
     | Inr (input, key) \<Rightarrow> createComment env between (trim tokenRef) input key (db, r))"

definition deleteCommentHandler :: "api_request \<Rightarrow> request_env \<Rightarrow> string \<Rightarrow> json \<Rightarrow> comment_db \<times> redis
    \<Rightarrow> comment_row result \<times> comment_db \<times> redis" where
  "deleteCommentHandler rq env commentId query = (\<lambda>(db, r).
     case bindR (guardedWallet rq) (\<lambda>wallet. bindR (deleteCommentQuery (trimJson query)) (\<lambda>_. Inr wallet)) of
       Inl e \<Rightarrow> (Inl e, db, r)
     | Inr wallet \<Rightarrow> deleteComment env (trim commentId) wallet (db, r))"

definition sessionWallet :: "string \<Rightarrow> string result" where
  "sessionWallet wallet = (if wallet = [] then Inl (DomainException 401 ''SESSION_INVALID'') else Inr wallet)"

lemma sessionWallet_bind: "bindR x sessionWallet = Inr w \<longleftrightarrow> x = Inr w \<and> w \<noteq> []"
  by (auto simp: bindR_eq_Inr_iff sessionWallet_def split: if_splits)

definition likeHandler :: "api_request \<Rightarrow> request_env \<Rightarrow> string \<Rightarrow> comment_db \<times> redis \<times> like_status timed
    \<Rightarrow> like_status result \<times> comment_db \<times> redis \<times> like_status timed" where
  "likeHandler rq env commentId s = (case bindR (guardedWallet rq) sessionWallet of
     Inl e \<Rightarrow> (Inl e, s)
   | Inr wallet \<Rightarrow> likeComment env (trim commentId) wallet s)"

definition unlikeHandler :: "api_request \<Rightarrow> request_env \<Rightarrow> string \<Rightarrow> comment_db \<times> redis \<times> like_status timed
    \<Rightarrow> like_status result \<times> comment_db \<times> redis \<times> like_status timed" where
  "unlikeHandler rq env commentId s = (case bindR (guardedWallet rq) sessionWallet of
     Inl e \<Rightarrow> (Inl e, s)
   | Inr wallet \<Rightarrow> unlikeComment env (trim commentId) wallet s)"

text \<open>The status takes its wallet from the path; no session is needed.\<close>

definition likeStatusHandler :: "request_env \<Rightarrow> string \<Rightarrow> string \<Rightarrow> comment_db \<times> like_status timed \<Rightarrow> like_status result \<times> like_status timed" where
  "likeStatusHandler env commentId walletAddress = (\<lambda>(db, st).
     case normalizeWallet (trim walletAddress) of
       Inl e \<Rightarrow> (Inl e, st)
     | Inr wallet \<Rightarrow> likeStatus env (trim commentId) wallet (db, st))"

section \<open>Whose session a token shows\<close>

text \<open>Nobody forges a MAC: a token that passes its check shows the header and payload of a session the service granted.\<close>

definition macsIssued :: "api_request \<Rightarrow> auth_state \<Rightarrow> bool" where
  "macsIssued rq s \<longleftrightarrow> (\<forall>token hd payload sig. splitChar CHR ''.'' token = [hd, payload, sig]
     \<and> fromB64url (ar_decode rq) sig = ar_hmac rq (ar_secret rq) (hd @ ''.'' @ payload)
     \<and> ar_header rq \<in> {OneHeader h | h. trim (drop 7 h) = token} \<union> {ManyHeaders (h # hs) | h hs. trim (drop 7 h) = token}
     \<longrightarrow> (\<exists>c g t rest. (c, g, t) \<in> set (au_sessions s) \<and> sg_token g = hd @ ''.'' @ payload @ ''.'' @ rest))"

lemma splitChar_part: "p \<in> set (splitChar d s) \<Longrightarrow> d \<notin> set p"
  by (induction s arbitrary: p) (auto split: list.splits if_splits)

lemma claims_case:
  assumes "(case (a, b) of (Some (StrJ _), Some (NumJ expiry)) \<Rightarrow> if P expiry then None else Some x | _ \<Rightarrow> None) = Some y"
  shows "x = y"
proof -
  obtain u where a: "a = Some (StrJ u)" using assms by (cases a; cases "the a") simp_all
  obtain q where "b = Some (NumJ q)" using assms by (cases b; cases "the b") (simp_all add: a)
  then show ?thesis using assms by (simp add: a split: if_splits)
qed

lemma verifySession_Some:
  assumes "verifySession hmac decode now token secret = Some claims"
  obtains hd payload sig where "splitChar CHR ''.'' token = [hd, payload, sig]" "fromB64url decode sig = hmac secret (hd @ ''.'' @ payload)"
    "jsonParse (fromB64url decode payload) = Some claims"
proof -
  define xs where "xs = splitChar CHR ''.'' token"
  note v = assms [unfolded verifySession_def xs_def [symmetric]]
  obtain hd payload sig where xs: "xs = [hd, payload, sig]"
    using v by (cases xs rule: remdups_adj.cases; cases "tl (tl xs)"; cases "tl (tl (tl xs))") simp_all
  have mac: "fromB64url decode sig = hmac secret (hd @ ''.'' @ payload)" using v xs by (simp add: Let_def split: if_splits)
  obtain x where x: "jsonParse (fromB64url decode payload) = Some x"
    using v xs mac by (cases "jsonParse (fromB64url decode payload)") simp_all
  have "(case (jsonField x ''sub'', jsonField x ''exp'') of
      (Some (StrJ _), Some (NumJ expiry)) \<Rightarrow> if expiry \<le> of_int now then None else Some x | _ \<Rightarrow> None) = Some claims"
    using v by (simp only: xs list.case Let_def mac x option.case HOL.simp_thms if_False not_True_eq_False)
  then have "x = claims" by (rule claims_case)
  then show thesis using that xs xs_def mac x by simp
qed

lemma walletGuard_Some:
  assumes "walletGuard hmac decode secret now header = Inr (Some w)"
  obtains raw claims where "header \<in> {OneHeader raw} \<union> {ManyHeaders (raw # hs) | hs. True}"
    "verifySession hmac decode now (trim (drop 7 raw)) secret = Some claims" "jsonField claims ''sub'' = Some w"
proof -
  obtain raw where raw: "(case header of NoHeader \<Rightarrow> None | OneHeader h \<Rightarrow> Some h | ManyHeaders [] \<Rightarrow> None | ManyHeaders (h # _) \<Rightarrow> Some h) = Some raw"
    using assms unfolding walletGuard_def Let_def
    by (cases "case header of NoHeader \<Rightarrow> None | OneHeader h \<Rightarrow> Some h | ManyHeaders [] \<Rightarrow> None | ManyHeaders (h # _) \<Rightarrow> Some h") simp_all
  have "header \<in> {OneHeader raw} \<union> {ManyHeaders (raw # hs) | hs. True}" using raw by (auto split: header.splits list.splits)
  moreover obtain claims where "verifySession hmac decode now (trim (drop 7 raw)) secret = Some claims" "jsonField claims ''sub'' = Some w"
    using assms unfolding walletGuard_def Let_def raw authenticate_def
    by (cases "verifySession hmac decode now (trim (drop 7 raw)) secret") (simp_all split: if_splits)
  ultimately show thesis using that by blast
qed

lemma guardedWallet_Inr:
  assumes "guardedWallet rq = Inr wallet"
  shows "walletGuard (ar_hmac rq) (ar_decode rq) (ar_secret rq) (ar_now rq) (ar_header rq) = Inr (Some (StrJ wallet))"
proof -
  obtain v where v: "walletGuard (ar_hmac rq) (ar_decode rq) (ar_secret rq) (ar_now rq) (ar_header rq) = Inr v"
    using assms by (auto simp: guardedWallet_def bindR_eq_Inr_iff)
  then show ?thesis using assms by (cases v; cases "the v") (simp_all add: guardedWallet_def)
qed

lemma guardedWallet_granted:
  assumes auth: "authReachable vm (ar_hmac rq) (ar_secret rq) s" and mac: "macsIssued rq s" and b64: "\<forall>b. ar_decode rq (toBase64 b) = b"
    and ok: "guardedWallet rq = Inr wallet"
  shows "\<exists>c g t. (c, g, t) \<in> set (au_sessions s) \<and> sg_wallet g = wallet"
proof -
  obtain raw claims where raw: "ar_header rq \<in> {OneHeader raw} \<union> {ManyHeaders (raw # hs) | hs. True}"
    and v: "verifySession (ar_hmac rq) (ar_decode rq) (ar_now rq) (trim (drop 7 raw)) (ar_secret rq) = Some claims"
    and sub: "jsonField claims ''sub'' = Some (StrJ wallet)"
    by (rule walletGuard_Some [OF guardedWallet_Inr [OF ok]])
  obtain hd payload sig where p: "splitChar CHR ''.'' (trim (drop 7 raw)) = [hd, payload, sig]"
    "fromB64url (ar_decode rq) sig = ar_hmac rq (ar_secret rq) (hd @ ''.'' @ payload)" "jsonParse (fromB64url (ar_decode rq) payload) = Some claims"
    by (rule verifySession_Some [OF v])
  obtain c gr t rest where gr: "(c, gr, t) \<in> set (au_sessions s)" "sg_token gr = hd @ ''.'' @ payload @ ''.'' @ rest"
    using mac p(1,2) raw unfolding macsIssued_def by blast
  have tok: "0 \<le> t" "sg_token gr = signSession (ar_hmac rq) t (sg_wallet gr) (t + SESSION_TTL_SECONDS) (ar_secret rq)"
    using authReachable_ok [OF auth] gr(1) unfolding authOk_def by fast+
  have "verifySession (ar_hmac rq) (ar_decode rq) t (sg_token gr) (ar_secret rq) = Some (sessionClaims (sg_wallet gr) (t + SESSION_TTL_SECONDS) t)"
    using verifySession_signed [of "ar_decode rq" "t + SESSION_TTL_SECONDS" t "ar_hmac rq" t "sg_wallet gr" "ar_secret rq"] b64 tok
    by (simp add: SESSION_TTL_SECONDS_def)
  then obtain h' p' s' where q: "splitChar CHR ''.'' (sg_token gr) = [h', p', s']"
    "jsonParse (fromB64url (ar_decode rq) p') = Some (sessionClaims (sg_wallet gr) (t + SESSION_TTL_SECONDS) t)"
    by (rule verifySession_Some)
  have "CHR ''.'' \<notin> set hd" "CHR ''.'' \<notin> set payload" using splitChar_part [of _ "CHR ''.''" "trim (drop 7 raw)"] p(1) by auto
  then have "p' = payload" using q(1) gr(2) splitChar_append [of "CHR ''.''" hd] splitChar_append [of "CHR ''.''" payload rest] by simp
  then have "claims = sessionClaims (sg_wallet gr) (t + SESSION_TTL_SECONDS) t" using p(3) q(2) by simp
  then show ?thesis using sub gr(1) by (auto simp: sessionClaims_def jsonField_def)
qed

section \<open>Sessions beside comments\<close>

text \<open>The two state machines side by side. Sign-in goes its own way between two requests on comments; every request on comments
  passes its guard with some header, and reads and the worker run beside them. \<open>between\<close> commits only what such requests commit.\<close>

inductive apiReachable :: "(string \<Rightarrow> string \<Rightarrow> string \<Rightarrow> bool option) \<Rightarrow> (string \<Rightarrow> string \<Rightarrow> string) \<Rightarrow> (string \<Rightarrow> string) \<Rightarrow> string
    \<Rightarrow> auth_state \<Rightarrow> comment_db \<Rightarrow> bool"
  for vm hmac decode secret where
  api_start: "authReachable vm hmac secret s \<Longrightarrow> apiReachable vm hmac decode secret s (emptyCommentDb tokens)"
| api_auth: "apiReachable vm hmac decode secret s db \<Longrightarrow> authReachable vm hmac secret s' \<Longrightarrow> set (au_sessions s) \<subseteq> set (au_sessions s')
    \<Longrightarrow> apiReachable vm hmac decode secret s' db"
| api_create: "apiReachable vm hmac decode secret s db \<Longrightarrow> ar_hmac rq = hmac \<Longrightarrow> ar_decode rq = decode \<Longrightarrow> ar_secret rq = secret \<Longrightarrow> macsIssued rq s
    \<Longrightarrow> (\<forall>db1 t. resolveIn env (trim ref) db = Inr (db1, t) \<longrightarrow> apiReachable vm hmac decode secret s (between db1))
    \<Longrightarrow> createTokenComment rq env between ref body key (db, r) = (answer, db', r') \<Longrightarrow> apiReachable vm hmac decode secret s db'"
| api_delete: "apiReachable vm hmac decode secret s db \<Longrightarrow> ar_hmac rq = hmac \<Longrightarrow> ar_decode rq = decode \<Longrightarrow> ar_secret rq = secret \<Longrightarrow> macsIssued rq s
    \<Longrightarrow> deleteCommentHandler rq env i q (db, r) = (answer', db', r') \<Longrightarrow> apiReachable vm hmac decode secret s db'"
| api_like: "apiReachable vm hmac decode secret s db \<Longrightarrow> ar_hmac rq = hmac \<Longrightarrow> ar_decode rq = decode \<Longrightarrow> ar_secret rq = secret \<Longrightarrow> macsIssued rq s
    \<Longrightarrow> likeHandler rq env i (db, r, st) = (status, db', r', st') \<Longrightarrow> apiReachable vm hmac decode secret s db'"
| api_unlike: "apiReachable vm hmac decode secret s db \<Longrightarrow> ar_hmac rq = hmac \<Longrightarrow> ar_decode rq = decode \<Longrightarrow> ar_secret rq = secret \<Longrightarrow> macsIssued rq s
    \<Longrightarrow> unlikeHandler rq env i (db, r, st) = (status, db', r', st') \<Longrightarrow> apiReachable vm hmac decode secret s db'"
| api_list: "apiReachable vm hmac decode secret s db \<Longrightarrow> listComments env id ref query (db, r, pages) = (listing, db', r', pages')
    \<Longrightarrow> apiReachable vm hmac decode secret s db'"
| api_dispatch: "apiReachable vm hmac decode secret s db \<Longrightarrow> dispatchBatch owner up now r (db_outbox db) = (r', tbl, n)
    \<Longrightarrow> apiReachable vm hmac decode secret s (db\<lparr>db_outbox := tbl\<rparr>)"

definition signedIn :: "auth_state \<Rightarrow> string \<Rightarrow> bool" where
  "signedIn s wallet \<longleftrightarrow> (\<exists>c g t. (c, g, t) \<in> set (au_sessions s) \<and> sg_wallet g = wallet)"

definition authored :: "auth_state \<Rightarrow> comment_db \<Rightarrow> bool" where
  "authored s db \<longleftrightarrow> (\<forall>c\<in>set (db_comments db). signedIn s (cm_walletAddress c)) \<and> (\<forall>(i, w)\<in>set (db_likes db). signedIn s w)"

lemma signedIn_mono: "set (au_sessions s) \<subseteq> set (au_sessions s') \<Longrightarrow> signedIn s w \<Longrightarrow> signedIn s' w"
  by (auto simp: signedIn_def)

lemma authored_same: "authored s db \<Longrightarrow> db_comments db' = db_comments db \<Longrightarrow> db_likes db' = db_likes db \<Longrightarrow> authored s db'"
  by (simp add: authored_def)

lemma edited_author [simp]:
  "cm_walletAddress (addReply k p c) = cm_walletAddress c" "cm_walletAddress (addLike k i c) = cm_walletAddress c"
  "cm_walletAddress (markDeleted i now c) = cm_walletAddress c"
  by (simp_all add: addReply_def addLike_def markDeleted_def)

lemma resolveIn_rows: "resolveIn env ref db = Inr (db1, t) \<Longrightarrow> db_comments db1 = db_comments db \<and> db_likes db1 = db_likes db"
  by (auto simp: resolveIn_def bindR_eq_Inr_iff)

lemma createTx_authored:
  assumes "authored s db" "signedIn s wallet" "createTx i e now t wallet input key hash db = Inr (db', c, g)"
  shows "authored s db'"
  using assms(1,2) createTx_tables(1-3) [OF assms(3)] by (auto simp: authored_def newComment_def)

lemma createComment_authored:
  assumes "authored s db" "\<And>db1 t. resolveIn env ref db = Inr (db1, t) \<Longrightarrow> authored s (between db1)"
    and "ci_walletAddress input = Some wallet" "signedIn s wallet"
    and "createComment env between ref input key (db, r) = (answer, db', r')"
  shows "authored s db'"
proof (cases "resolveIn env ref db")
  case (Inr x)
  obtain db1 t where p: "x = (db1, t)" by force
  have 1: "authored s db1" using authored_same [OF assms(1)] resolveIn_rows Inr p by metis
  have 2: "authored s (between db1)" using assms(2) Inr p by simp
  from assms(5) Inr p assms(3) have "db' = db \<or> db' = db1 \<or> db' = between db1
    \<or> (\<exists>c g. createTx (env_id env) (env_eventId env) (env_now env) t wallet input key (env_hash env t input) (between db1) = Inr (db', c, g))"
    by (auto simp: createComment_def Let_def split: if_splits option.splits sum.splits prod.splits)
  then show ?thesis using assms(1,4) 1 2 createTx_authored by metis
qed (use assms in \<open>auto simp: createComment_def split: if_splits\<close>)

lemma authored_maps:
  assumes "authored s db" "db_comments db' = map f (db_comments db)" "\<And>c. cm_walletAddress (f c) = cm_walletAddress c"
    "set (db_likes db') \<subseteq> set (db_likes db) \<union> {(i, w)}" "signedIn s w"
  shows "authored s db'"
  using assms unfolding authored_def by fastforce

lemma afterLike_authored:
  assumes "authored s db" "\<And>v. tx = Inr v \<Longrightarrow> authored s (fst v)" "afterLike env i w tx (db, r, st) = (answer, db', r', st')"
  shows "authored s db'"
  using assms by (auto simp: afterLike_def split: sum.splits prod.splits)

lemma likeTx_authored:
  assumes "authored s db" "signedIn s w" "likeTx e now i w db = Inr (db', x)"
  shows "authored s db'"
proof -
  obtain st g t where x: "likeTx e now i w db = Inr (db', st, g, t)" using assms(3) by (metis prod_cases3)
  then show ?thesis
  proof (cases rule: likeTx_cases)
    case (1 comment)
    then show ?thesis using authored_same [OF assms(1)] by simp
  next
    case (2 comment)
    then show ?thesis by (intro authored_maps [OF assms(1), of _ "addLike 1 i" i w]) (simp_all add: assms(2))
  qed
qed

lemma unlikeTx_authored:
  assumes "authored s db" "unlikeTx e now i w db = Inr (db', x)"
  shows "authored s db'"
  using assms
  by (auto simp: unlikeTx_def Let_def bindR_eq_Inr_iff advance_iff authored_def split: option.splits if_splits)

lemma deleteTx_authored:
  assumes "authored s db" "deleteTx e now i w db = Inr (db', c, g)"
  shows "authored s db'"
  using assms(2)
proof (cases rule: deleteTx_cases)
  case (2 comment)
  then show ?thesis using assms(1) by (auto simp: authored_def)
qed (simp add: assms(1))

lemma deleteComment_authored:
  assumes "authored s db" "deleteComment env i w (db, r) = (answer, db', r')"
  shows "authored s db'"
proof (cases "deleteTx (env_eventId env) (env_now env) i w db")
  case (Inr x)
  obtain d c g where x: "x = (d, c, g)" by (metis prod_cases3)
  then show ?thesis using assms Inr deleteTx_authored [of s db "env_eventId env" "env_now env" i w d c g] by (simp add: deleteComment_def)
qed (use assms in \<open>simp add: deleteComment_def\<close>)

lemma likeComment_authored:
  assumes "authored s db" "signedIn s w" "likeComment env i w (db, r, st) = (answer, db', r', st')"
  shows "authored s db'"
  using assms(1) _ assms(3) [unfolded likeComment_def]
proof (rule afterLike_authored)
  fix v assume "likeTx (env_eventId env) (env_now env) i w (fst (db, r, st)) = Inr v"
  then show "authored s (fst v)" using likeTx_authored [OF assms(1,2)] by (metis fst_conv prod.collapse)
qed

lemma unlikeComment_authored:
  assumes "authored s db" "unlikeComment env i w (db, r, st) = (answer, db', r', st')"
  shows "authored s db'"
  using assms(1) _ assms(2) [unfolded unlikeComment_def]
proof (rule afterLike_authored)
  fix v assume "unlikeTx (env_eventId env) (env_now env) i w (fst (db, r, st)) = Inr v"
  then show "authored s (fst v)" using unlikeTx_authored [OF assms(1)] by (metis fst_conv prod.collapse)
qed

lemma apiReachable_authored:
  assumes "apiReachable vm hmac decode secret s db" "\<forall>b. decode (toBase64 b) = b"
  shows "authReachable vm hmac secret s \<and> authored s db"
  using assms(1)
proof (induction rule: apiReachable.induct)
  case (api_start s tokens)
  then show ?case by (simp add: authored_def emptyCommentDb_def)
next
  case (api_auth s db s')
  then show ?case using signedIn_mono [OF api_auth.hyps(3)] by (auto simp: authored_def)
next
  case (api_create s db rq env ref between body key r answer db' r')
  note granted = guardedWallet_granted [of vm rq s]
  have req: "createTokenComment rq env between ref body key (db, r) = (answer, db', r')" by (fact api_create.hyps)
  have mid: "authored s (between db1)" if "resolveIn env (trim ref) db = Inr (db1, t)" for db1 t
    using api_create that by blast
  show ?case
  proof (cases "commentRequest rq body key")
    case (Inl e)
    then show ?thesis using api_create.IH req by (simp add: createTokenComment_def)
  next
    case (Inr p)
    then obtain wallet input k where w: "guardedWallet rq = Inr wallet" "p = (input\<lparr>ci_walletAddress := Some wallet\<rparr>, k)"
      by (auto simp: commentRequest_def bindR_eq_Inr_iff)
    have "signedIn s wallet" using granted w(1) api_create assms(2) unfolding signedIn_def by metis
    moreover have "createComment env between (trim ref) (input\<lparr>ci_walletAddress := Some wallet\<rparr>) k (db, r) = (answer, db', r')"
      using req Inr w(2) by (simp add: createTokenComment_def)
    ultimately have "authored s db'"
      using createComment_authored [of s db env "trim ref" between "input\<lparr>ci_walletAddress := Some wallet\<rparr>" wallet k r answer db' r']
        api_create.IH mid by simp
    then show ?thesis using api_create.IH by blast
  qed
next
  case (api_delete s db rq env i q r answer' db' r')
  have req: "deleteCommentHandler rq env i q (db, r) = (answer', db', r')" by (fact api_delete.hyps)
  have "authored s db'"
  proof (cases "bindR (guardedWallet rq) (\<lambda>wallet. bindR (deleteCommentQuery (trimJson q)) (\<lambda>_. Inr wallet))")
    case (Inr w)
    then show ?thesis using api_delete.IH req deleteComment_authored [of s db env "trim i" w r answer' db' r']
      by (simp add: deleteCommentHandler_def)
  qed (use api_delete.IH req in \<open>simp add: deleteCommentHandler_def\<close>)
  then show ?case using api_delete.IH by blast
next
  case (api_like s db rq env i r st status db' r' st')
  have req: "likeHandler rq env i (db, r, st) = (status, db', r', st')" by (fact api_like.hyps)
  have "authored s db'"
  proof (cases "bindR (guardedWallet rq) sessionWallet")
    case (Inr w)
    have "signedIn s w" using guardedWallet_granted [of vm rq s] Inr [unfolded sessionWallet_bind] api_like assms(2) unfolding signedIn_def by metis
    then show ?thesis using api_like.IH req Inr likeComment_authored [of s db w env "trim i" r st status db' r' st']
      by (simp add: likeHandler_def)
  qed (use api_like.IH req in \<open>simp add: likeHandler_def\<close>)
  then show ?case using api_like.IH by blast
next
  case (api_unlike s db rq env i r st status db' r' st')
  have req: "unlikeHandler rq env i (db, r, st) = (status, db', r', st')" by (fact api_unlike.hyps)
  have "authored s db'"
  proof (cases "bindR (guardedWallet rq) sessionWallet")
    case (Inr w)
    then show ?thesis using api_unlike.IH req unlikeComment_authored [of s db env "trim i" w r st status db' r' st']
      by (simp add: unlikeHandler_def)
  qed (use api_unlike.IH req in \<open>simp add: unlikeHandler_def\<close>)
  then show ?case using api_unlike.IH by blast
next
  case (api_list s db env ref query r pages listing db' r' pages')
  then have "db' = db \<or> (\<exists>t. resolveIn env ref db = Inr (db', t))"
    by (auto simp: listComments_def Let_def split: sum.splits prod.splits)
  then show ?case using api_list.IH authored_same resolveIn_rows by metis
next
  case (api_dispatch s db owner up now r r' tbl n)
  then show ?case using api_dispatch.IH by (simp add: authored_def)
qed

section \<open>Properties\<close>


definition exampleRequest :: api_request where
  "exampleRequest = \<lparr>ar_hmac = (\<lambda>key data. rev key), ar_decode = fromBase64, ar_secret = ''secret'', ar_now = 100,
     ar_header = OneHeader (''Bearer '' @ sg_token (exampleGrant (\<lambda>key data. rev key) ''secret'')),
     ar_bodies = \<lparr>rq_nfc = id, rq_cid = Inr, rq_decode = Inr, rq_encode = id, rq_url = (\<lambda>u. Inr (u, [])), rq_isUrl = (\<lambda>_. True)\<rparr>,
     ar_isUuid = (\<lambda>_. True)\<rparr>"

text \<open>The body names another wallet.\<close>

definition exampleBody :: json where
  "exampleBody = ObjJ [(''walletAddress'', StrJ (''0x'' @ replicate 40 CHR ''2'')), (''text'', StrJ '' hi '')]"

lemma splitChar_three: "splitChar d s = [a, b, c] \<Longrightarrow> s = a @ d # b @ d # c"
proof -
  have one: "splitChar d t = [p] \<Longrightarrow> t = p" for t p
    by (induction t arbitrary: p) (auto split: list.splits if_splits)
  have two: "splitChar d t = [p, q] \<Longrightarrow> t = p @ d # q" for t p q
    by (induction t arbitrary: p) (auto split: list.splits if_splits dest: one)
  show "splitChar d s = [a, b, c] \<Longrightarrow> s = a @ d # b @ d # c"
    by (induction s arbitrary: a) (auto split: list.splits if_splits dest: two)
qed

lemma exampleRequest_macs:
  assumes "(call, exampleGrant (\<lambda>key data. rev key) ''secret'', time) \<in> set (au_sessions s)"
  shows "macsIssued exampleRequest s"
  unfolding macsIssued_def
proof (intro allI impI, elim conjE)
  fix token hd payload sig assume p: "splitChar CHR ''.'' token = [hd, payload, sig]"
    and h: "ar_header exampleRequest \<in> {OneHeader h | h. trim (drop 7 h) = token} \<union> {ManyHeaders (h # hs) | h hs. trim (drop 7 h) = token}"
  have "token = sg_token (exampleGrant (\<lambda>key data. rev key) ''secret'')"
    using h by (simp add: exampleRequest_def exampleGrant_def trim_plain signSession_plain)
  then have "sg_token (exampleGrant (\<lambda>key data. rev key) ''secret'') = hd @ ''.'' @ payload @ ''.'' @ sig"
    using splitChar_three [OF p] by simp
  then show "\<exists>c g t rest. (c, g, t) \<in> set (au_sessions s) \<and> sg_token g = hd @ ''.'' @ payload @ ''.'' @ rest" using assms by blast
qed

lemma walletGuard_bearer:
  assumes "0 \<le> t" "\<And>b. decode (toBase64 b) = b" "now < t + SESSION_TTL_SECONDS"
  shows "walletGuard hmac decode secret now (OneHeader (''Bearer '' @ signSession hmac t wallet (t + SESSION_TTL_SECONDS) secret))
    = Inr (Some (StrJ wallet))"
proof -
  have "0 \<le> t + SESSION_TTL_SECONDS" using assms(1) by (simp add: SESSION_TTL_SECONDS_def)
  then show ?thesis using assms
    by (simp add: walletGuard_def startsWith_def trim_plain signSession_plain authenticate_def verifySession_signed sessionClaims_def jsonField_def)
qed

lemma exampleWallet_nonempty: "exampleWallet \<noteq> []"
  by (simp add: exampleWallet_def)

lemma exampleRequest_wallet: "guardedWallet exampleRequest = Inr exampleWallet"
  unfolding guardedWallet_def exampleRequest_def exampleGrant_def
  using walletGuard_bearer [of 0 fromBase64 100 "\<lambda>key data. rev key" "''secret''" exampleWallet]
  by (simp only: api_request.simps session_grant.simps fromBase64_toBase64 SESSION_TTL_SECONDS_def) simp

lemma exampleRequest_dto:
  "createCommentDto (ar_bodies exampleRequest) (ar_isUuid exampleRequest) (trimJson exampleBody)
     = Inr \<lparr>ci_walletAddress = Some (''0x'' @ replicate 40 CHR ''2''), ci_text = ''hi'', ci_parentCommentId = None\<rparr>"
proof -
  let ?w = "''0x'' @ replicate 40 CHR ''2''"
  have t: "trim '' hi '' = ''hi''" "trim ?w = ?w" by code_simp+
  have w: "normalizeWallet ?w = Inr ?w" by code_simp
  show ?thesis
    using t w by (simp add: createCommentDto_def exampleBody_def exampleRequest_def jsonField_def transformText_def normalizeText_def
        knownFields_def isOptionalText_def isText_def nullable_def textOf_def del: append.simps)
qed

lemma exampleRequest_comment:
  "commentRequest exampleRequest exampleBody (Some ''0123456789abcdef'')
     = Inr (\<lparr>ci_walletAddress = Some exampleWallet, ci_text = ''hi'', ci_parentCommentId = None\<rparr>, ''0123456789abcdef'')"
proof -
  have "validateIdempotencyKey (Some ''0123456789abcdef'') = Inr ''0123456789abcdef''" by code_simp
  then show ?thesis by (simp add: commentRequest_def exampleRequest_wallet exampleRequest_dto)
qed



end
