(* ===== verification/Queries.thy ===== *)
theory Queries
  imports Endpoints Candles Launch ReadCache
begin

text \<open>
  The read side of the HTTP API, from the query string to the answer: the query classes (\<open>dto/*-query.dto.ts\<close> of tokens, trading, launch,
  comments and profiles, \<open>src/common/pagination/pagination.dto.ts\<close>) as the framework transforms and validates them, and the handlers of
  \<open>tokens.controller.ts\<close>, \<open>trading.controller.ts\<close>, \<open>launch.controller.ts\<close>, \<open>comments.controller.ts\<close>, \<open>comment-replies.controller.ts\<close>
  and \<open>profiles.controller.ts\<close> over the services. \<open>Number\<close> and the date test of the validator are parameters. A member that no class
  declares is refused; the accessor \<open>skip\<close> counts as undeclared. Walking the pages of the trades shows everything once, through the
  cache, and no answer has more rows than the classes allow.
\<close>

section \<open>Members of a query\<close>

text \<open>A query string is an object of texts and lists of texts. \<open>qe_number\<close> is \<open>Number\<close> (\<open>None\<close>: \<open>NaN\<close> or infinite), \<open>qe_defaultChain\<close> the
  variable \<open>DEFAULT_CHAIN_ID\<close>, \<open>qe_date\<close> the time of a strict ISO 8601 text in milliseconds.\<close>

record query_env =
  qe_number :: "string \<Rightarrow> rat option"
  qe_defaultChain :: "string option"
  qe_date :: "string \<Rightarrow> int option"

text \<open>\<open>@Type(() => Number)\<close> on a member with a default; a list becomes a list of numbers, which no test accepts.\<close>

definition numberMember :: "query_env \<Rightarrow> rat option \<Rightarrow> json \<Rightarrow> string \<Rightarrow> rat option" where
  "numberMember env d query k = (case jsonField query k of None \<Rightarrow> d | Some (StrJ s) \<Rightarrow> qe_number env s | Some _ \<Rightarrow> None)"

definition optionalNumber :: "query_env \<Rightarrow> json \<Rightarrow> string \<Rightarrow> rat option option" where
  "optionalNumber env query k = (case jsonField query k of None \<Rightarrow> None | Some _ \<Rightarrow> Some (numberMember env None query k))"

text \<open>\<open>@IsInt() @Min(1) @Max(hi)\<close>.\<close>

definition isPositiveInt :: "int option \<Rightarrow> rat option \<Rightarrow> bool" where
  "isPositiveInt hi v = (case v of None \<Rightarrow> False | Some x \<Rightarrow> of_int \<lfloor>x\<rfloor> = x \<and> 1 \<le> x \<and> (case hi of None \<Rightarrow> True | Some h \<Rightarrow> x \<le> of_int h))"

definition isOptionalPositiveInt :: "int option \<Rightarrow> rat option option \<Rightarrow> bool" where
  "isOptionalPositiveInt hi v = (case v of None \<Rightarrow> True | Some w \<Rightarrow> isPositiveInt hi w)"

definition intOf :: "rat option \<Rightarrow> int" where
  "intOf v = (case v of Some x \<Rightarrow> \<lfloor>x\<rfloor> | None \<Rightarrow> 0)"

definition defaultChain :: "query_env \<Rightarrow> rat option" where
  "defaultChain env = (case qe_defaultChain env of None \<Rightarrow> Some 8453 | Some s \<Rightarrow> qe_number env s)"

text \<open>\<open>@IsIn\<close> over the names of a table, and what the name stands for.\<close>

definition named :: "(string \<times> 'a) list \<Rightarrow> 'a option \<Rightarrow> json \<Rightarrow> string \<Rightarrow> 'a option" where
  "named table d query k = (case jsonField query k of None \<Rightarrow> d | Some (StrJ s) \<Rightarrow> map_of table s | Some _ \<Rightarrow> None)"

definition optionalNamed :: "(string \<times> 'a) list \<Rightarrow> json \<Rightarrow> string \<Rightarrow> 'a option option" where
  "optionalNamed table query k = (case jsonField query k of None \<Rightarrow> Some None | Some (StrJ s) \<Rightarrow> map_option Some (map_of table s) | Some _ \<Rightarrow> None)"

definition flagMember :: "json \<Rightarrow> string \<Rightarrow> bool option" where
  "flagMember query k = map_option (\<lambda>v. v = StrJ ''1'' \<or> v = StrJ ''true'') (jsonField query k)"

definition isHexAddress :: "(char \<Rightarrow> bool) \<Rightarrow> string \<Rightarrow> bool" where
  "isHexAddress hex s \<longleftrightarrow> startsWith ''0x'' s \<and> length s = 42 \<and> list_all hex (drop 2 s)"

section \<open>The query classes\<close>

definition paginationDto :: "query_env \<Rightarrow> string list \<Rightarrow> rat \<Rightarrow> json \<Rightarrow> (int \<times> int) result" where
  "paginationDto env others limitDefault query =
     (let page = numberMember env (Some 1) query ''page''; limit = numberMember env (Some limitDefault) query ''limit'' in
      if knownFields ([''page'', ''limit''] @ others) query \<and> isPositiveInt None page \<and> isPositiveInt (Some 100) limit
      then Inr (intOf page, intOf limit) else badRequest)"

definition chainMember :: "query_env \<Rightarrow> json \<Rightarrow> int result" where
  "chainMember env query = (let chainId = numberMember env (defaultChain env) query ''chainId'' in
     if isPositiveInt None chainId then Inr (intOf chainId) else badRequest)"

definition LIST_SORTS :: "(string \<times> list_sort) list" where
  "LIST_SORTS = [(''newest'', SortNewest), (''oldest'', SortOldest), (''market_cap'', SortMarketCap), (''volume'', SortVolume),
     (''graduated'', SortGraduated), (''milestones'', SortMilestones), (''next_payout'', SortNextPayout)]"

definition tokenListQueryDto :: "query_env \<Rightarrow> json \<Rightarrow> list_params result" where
  "tokenListQueryDto env query =
     bindR (paginationDto env [''q'', ''creator'', ''phase'', ''sort'', ''near'', ''paid'', ''chainId''] 20 query) (\<lambda>(page, limit).
     bindR (chainMember env query) (\<lambda>chainId.
     let q = jsonField query ''q''; creator = jsonField query ''creator'' in
     case (optionalNamed [(''bonding'', False), (''graduated'', True)] query ''phase'', named LIST_SORTS (Some SortNewest) query ''sort'') of
       (Some phase, Some srt) \<Rightarrow>
         if isOptionalText (\<lambda>_. True) q \<and> isOptionalText (isHexAddress isHexLower) creator
         then Inr \<lparr>lp_page = page, lp_limit = limit, lp_q = Option.bind (nullable q) id, lp_creator = Option.bind (nullable creator) id,
           lp_graduated = phase, lp_sort = srt, lp_near = flagMember query ''near'', lp_paid = flagMember query ''paid'', lp_chainId = chainId\<rparr>
         else badRequest
     | _ \<Rightarrow> badRequest))"

definition featuredTokensQueryDto :: "query_env \<Rightarrow> json \<Rightarrow> int result" where
  "featuredTokensQueryDto env query = (if knownFields [''chainId''] query then chainMember env query else badRequest)"

definition tokenDetailQueryDto :: "query_env \<Rightarrow> json \<Rightarrow> (int \<times> int \<times> int) result" where
  "tokenDetailQueryDto env query =
     (let page = numberMember env (Some 1) query ''tradePage''; limit = numberMember env (Some 20) query ''tradeLimit'' in
      bindR (chainMember env query) (\<lambda>chainId.
      if knownFields [''tradePage'', ''tradeLimit'', ''chainId''] query \<and> isPositiveInt None page \<and> isPositiveInt (Some 100) limit
      then Inr (intOf page, intOf limit, chainId) else badRequest))"

definition TRADE_SORTS :: "(string \<times> trade_sort) list" where
  "TRADE_SORTS = [(''newest'', TradeNewest), (''oldest'', TradeOldest), (''amount'', TradeAmount)]"

definition SIDES :: "(string \<times> side) list" where
  "SIDES = [(''BUY'', BUY), (''SELL'', SELL)]"

definition tokenTradesQueryDto :: "query_env \<Rightarrow> json \<Rightarrow> trade_query result" where
  "tokenTradesQueryDto env query =
     bindR (paginationDto env [''side'', ''sort'', ''chainId''] 20 query) (\<lambda>(page, limit).
     bindR (chainMember env query) (\<lambda>chainId.
     case (optionalNamed SIDES query ''side'', named TRADE_SORTS (Some TradeNewest) query ''sort'') of
       (Some sd, Some srt) \<Rightarrow> Inr \<lparr>tq_chainId = chainId, tq_side = sd, tq_sort = srt, tq_page = page, tq_limit = limit\<rparr>
     | _ \<Rightarrow> badRequest))"

definition API_CANDLE_INTERVALS :: "(string \<times> interval) list" where
  "API_CANDLE_INTERVALS = [(''1m'', M1), (''5m'', M5), (''15m'', M15), (''1h'', H1), (''4h'', H4), (''1d'', D1)]"

text \<open>An optional date: \<open>None\<close> when it is present and no strict date.\<close>

definition dateMember :: "query_env \<Rightarrow> json \<Rightarrow> string \<Rightarrow> int option option" where
  "dateMember env query k = (case jsonField query k of
     None \<Rightarrow> Some None | Some (StrJ s) \<Rightarrow> map_option Some (qe_date env s) | Some _ \<Rightarrow> None)"

definition tokenCandlesQueryDto :: "query_env \<Rightarrow> json \<Rightarrow> candle_query result" where
  "tokenCandlesQueryDto env query =
     bindR (chainMember env query) (\<lambda>chainId.
     let limit = numberMember env (Some 500) query ''limit'' in
     case (named API_CANDLE_INTERVALS (Some H1) query ''interval'', dateMember env query ''from'', dateMember env query ''to'') of
       (Some i, Some f, Some t) \<Rightarrow>
         if knownFields [''interval'', ''from'', ''to'', ''limit'', ''chainId''] query \<and> isPositiveInt (Some 1000) limit
         then Inr \<lparr>kq_chainId = chainId, kq_interval = i, kq_from = f, kq_to = t, kq_limit = intOf limit\<rparr> else badRequest
     | _ \<Rightarrow> badRequest)"

definition tokenMilestonesQueryDto :: "query_env \<Rightarrow> json \<Rightarrow> (int \<times> int \<times> int) result" where
  "tokenMilestonesQueryDto env query =
     bindR (paginationDto env [''chainId''] 50 query) (\<lambda>(page, limit). bindR (chainMember env query) (\<lambda>chainId. Inr (page, limit, chainId)))"

definition REVENUE_EVENT_KINDS :: "string list" where
  "REVENUE_EVENT_KINDS = [''creatorAccruals'', ''protocolAccruals'', ''creatorPathAccruals'', ''claims'', ''payoutTips'', ''pluginPayouts'',
     ''potFundings'', ''potRedemptions'', ''feeCollections'', ''feeRoutings'', ''tokenBurns'', ''graduates'']"

definition tokenRevenueQueryDto :: "query_env \<Rightarrow> json \<Rightarrow> (int \<times> int \<times> string option \<times> int) result" where
  "tokenRevenueQueryDto env query =
     bindR (paginationDto env [''kind'', ''chainId''] 25 query) (\<lambda>(page, limit).
     bindR (chainMember env query) (\<lambda>chainId.
     let kind = jsonField query ''kind'' in
     if isOptionalText (\<lambda>k. k \<in> set REVENUE_EVENT_KINDS) kind then Inr (page, limit, Option.bind (nullable kind) id, chainId) else badRequest))"

text \<open>A chain that may be absent.\<close>

definition optionalChain :: "query_env \<Rightarrow> json \<Rightarrow> int option result" where
  "optionalChain env query = (let chainId = optionalNumber env query ''chainId'' in
     if isOptionalPositiveInt None chainId then Inr (map_option intOf chainId) else badRequest)"

text \<open>\<open>/^\d+$/\<close>.\<close>

definition isDecimal :: "string \<Rightarrow> bool" where
  "isDecimal s \<longleftrightarrow> s \<noteq> [] \<and> list_all isDigit s"

definition quoteQueryDto :: "query_env \<Rightarrow> json \<Rightarrow> (side \<times> string \<times> int option) result" where
  "quoteQueryDto env query =
     bindR (optionalChain env query) (\<lambda>chainId.
     let amount = jsonField query ''amount'' in
     case named SIDES None query ''side'' of
       Some sd \<Rightarrow> if knownFields [''side'', ''amount'', ''chainId''] query \<and> isText isDecimal amount
         then Inr (sd, textOf amount, chainId) else badRequest
     | None \<Rightarrow> badRequest)"

definition depthQueryDto :: "query_env \<Rightarrow> json \<Rightarrow> (int option \<times> int option) result" where
  "depthQueryDto env query =
     bindR (optionalChain env query) (\<lambda>chainId.
     let buckets = optionalNumber env query ''buckets'' in
     if knownFields [''buckets'', ''chainId''] query \<and> isOptionalPositiveInt None buckets then Inr (map_option intOf buckets, chainId) else badRequest)"

definition priceQueryDto :: "query_env \<Rightarrow> json \<Rightarrow> int option result" where
  "priceQueryDto env query = (if knownFields [''chainId''] query then optionalChain env query else badRequest)"

definition walletTradesQueryDto :: "query_env \<Rightarrow> json \<Rightarrow> (int \<times> int option \<times> int option) result" where
  "walletTradesQueryDto env query =
     bindR (optionalChain env query) (\<lambda>chainId.
     let page = numberMember env (Some 1) query ''page''; limit = optionalNumber env query ''limit'' in
     if knownFields [''page'', ''limit'', ''chainId''] query \<and> isPositiveInt None page \<and> isOptionalPositiveInt (Some 100) limit
     then Inr (intOf page, map_option intOf limit, chainId) else badRequest)"

text \<open>The state by its name; \<open>sort\<close> is accepted and read by nobody.\<close>

definition launchRecordsQueryDto :: "query_env \<Rightarrow> json \<Rightarrow> (string option \<times> string option \<times> int option \<times> int option \<times> int option) result" where
  "launchRecordsQueryDto env query =
     bindR (optionalChain env query) (\<lambda>chainId.
     let creator = jsonField query ''creator''; state = jsonField query ''state'';
         page = optionalNumber env query ''page''; limit = optionalNumber env query ''limit'' in
     if knownFields [''creator'', ''state'', ''chainId'', ''page'', ''limit'', ''sort''] query \<and> isOptionalText (isHexAddress isHex) creator
       \<and> isOptionalText (\<lambda>s. s \<in> fst ` set LAUNCH_RECORD_STATES) state \<and> isOptionalPositiveInt None page \<and> isOptionalPositiveInt None limit
       \<and> isOptionalText (\<lambda>_. True) (jsonField query ''sort'')
     then Inr (Option.bind (nullable creator) id, Option.bind (nullable state) id, chainId, map_option intOf page, map_option intOf limit)
     else badRequest)"

definition COMMENT_SORTS :: "(string \<times> comment_sort) list" where
  "COMMENT_SORTS = [(''newest'', Newest), (''oldest'', Oldest), (''top'', Top)]"

definition commentsQueryDto :: "query_env \<Rightarrow> json \<Rightarrow> comment_query result" where
  "commentsQueryDto env query =
     bindR (paginationDto env [''sort''] 20 query) (\<lambda>(page, limit).
     case named COMMENT_SORTS (Some Newest) query ''sort'' of
       Some srt \<Rightarrow> Inr \<lparr>cq_page = page, cq_limit = limit, cq_sort = Some srt\<rparr> | None \<Rightarrow> badRequest)"

definition commentRepliesQueryDto :: "query_env \<Rightarrow> json \<Rightarrow> comment_query result" where
  "commentRepliesQueryDto env query =
     bindR (paginationDto env [] 20 query) (\<lambda>(page, limit). Inr \<lparr>cq_page = page, cq_limit = limit, cq_sort = None\<rparr>)"

definition profileTokensQueryDto :: "query_env \<Rightarrow> json \<Rightarrow> (int \<times> int \<times> bool \<times> int) result" where
  "profileTokensQueryDto env query =
     bindR (paginationDto env [''sort'', ''chainId''] 20 query) (\<lambda>(page, limit).
     bindR (chainMember env query) (\<lambda>chainId.
     case named [(''newest'', False), (''oldest'', True)] (Some False) query ''sort'' of
       Some oldest \<Rightarrow> Inr (page, limit, oldest, chainId) | None \<Rightarrow> badRequest))"

section \<open>The read handlers\<close>

definition getTokens :: "query_env \<Rightarrow> bool \<Rightarrow> int \<Rightarrow> read_world \<Rightarrow> _ \<Rightarrow> bool \<Rightarrow> int \<Rightarrow> rat \<Rightarrow> json \<Rightarrow> (token_card list \<times> page_meta) timed
    \<Rightarrow> (token_card list \<times> page_meta) result \<times> (token_card list \<times> page_meta) timed" where
  "getTokens env up now w meanwhile up' later u query st = (case tokenListQueryDto env (trimJson query) of
     Inl e \<Rightarrow> (Inl e, st) | Inr p \<Rightarrow> list_read up now w meanwhile up' later u p st)"

definition getMilestoneBoard :: "query_env \<Rightarrow> bool \<Rightarrow> int \<Rightarrow> read_world \<Rightarrow> _ \<Rightarrow> bool \<Rightarrow> int \<Rightarrow> rat \<Rightarrow> int \<Rightarrow> json \<Rightarrow> board timed
    \<Rightarrow> board result \<times> board timed" where
  "getMilestoneBoard env up now w meanwhile up' later u fallback query st = (case featuredTokensQueryDto env (trimJson query) of
     Inl e \<Rightarrow> (Inl e, st) | Inr chainId \<Rightarrow> board_read up now w meanwhile up' later u fallback (Some chainId) st)"

definition getFeatured :: "query_env \<Rightarrow> bool \<Rightarrow> int \<Rightarrow> int \<Rightarrow> rat \<Rightarrow> (int \<rightharpoonup> int) \<Rightarrow> featured_row list \<Rightarrow> json \<Rightarrow> featured_view list timed
    \<Rightarrow> featured_view list result \<times> featured_view list timed" where
  "getFeatured env up staleAfterMs nowMs u blockTimes board query st = (case featuredTokensQueryDto env (trimJson query) of
     Inl e \<Rightarrow> (Inl e, st) | Inr chainId \<Rightarrow> (let (rows, st') = featured up staleAfterMs nowMs u blockTimes board chainId st in (Inr rows, st')))"

definition getTrades :: "query_env \<Rightarrow> bool \<Rightarrow> int \<Rightarrow> read_world \<Rightarrow> _ \<Rightarrow> bool \<Rightarrow> int \<Rightarrow> rat \<Rightarrow> string \<Rightarrow> json \<Rightarrow> (trade_view list \<times> page_meta) timed
    \<Rightarrow> (trade_view list \<times> page_meta) result \<times> (trade_view list \<times> page_meta) timed" where
  "getTrades env up now w meanwhile up' later u tokenRef query st = (case tokenTradesQueryDto env (trimJson query) of
     Inl e \<Rightarrow> (Inl e, st) | Inr q \<Rightarrow> trades_read up now w meanwhile up' later u (FromEndpoint, trim tokenRef, q) st)"

definition getDetail :: "query_env \<Rightarrow> bool \<Rightarrow> int \<Rightarrow> read_world \<Rightarrow> bool \<Rightarrow> int \<Rightarrow> rat \<Rightarrow> int \<Rightarrow> int \<Rightarrow> int option \<Rightarrow> string \<Rightarrow> json \<Rightarrow> detail_state
    \<Rightarrow> token_detail result \<times> detail_state" where
  "getDetail env up now w updates later u staleAfterMs nowMs wm tokenRef query st = (case tokenDetailQueryDto env (trimJson query) of
     Inl e \<Rightarrow> (Inl e, st)
   | Inr (page, limit, chainId) \<Rightarrow> detail up now w updates later u staleAfterMs nowMs wm (trim tokenRef) chainId page limit st)"

definition getCandles :: "query_env \<Rightarrow> 'a pool_record_scheme list \<Rightarrow> minute_row list \<Rightarrow> string \<Rightarrow> json \<Rightarrow> candle_view list result" where
  "getCandles env pools tbl tokenRef query = bindR (tokenCandlesQueryDto env (trimJson query)) (\<lambda>q.
     candles (bindR (findPool pools (trim tokenRef) (kq_chainId q)) (\<lambda>p. Inr (pr_pool p))) tbl q)"

definition getMilestones :: "query_env \<Rightarrow> pool_record list \<Rightarrow> band_record list \<Rightarrow> (int \<times> string \<times> int) list \<Rightarrow> string \<Rightarrow> json
    \<Rightarrow> (milestone_row list \<times> page_meta) result" where
  "getMilestones env pools bands skips tokenRef query = bindR (tokenMilestonesQueryDto env (trimJson query)) (\<lambda>(page, limit, chainId).
     milestones pools bands skips (trim tokenRef) chainId page limit)"

definition getRevenue :: "query_env \<Rightarrow> pool_record list \<Rightarrow> (string \<Rightarrow> fact_row list) \<Rightarrow> string \<Rightarrow> json \<Rightarrow> (fact_row list \<times> page_meta) result" where
  "getRevenue env pools tables tokenRef query = bindR (tokenRevenueQueryDto env (trimJson query)) (\<lambda>(page, limit, kind, chainId).
     revenue pools tables (trim tokenRef) chainId kind page limit)"

definition getPrice :: "query_env \<Rightarrow> int \<Rightarrow> pool list \<Rightarrow> pool_stats list \<Rightarrow> (int \<Rightarrow> string \<Rightarrow> int option result) \<Rightarrow> string \<Rightarrow> json \<Rightarrow> price_view result" where
  "getPrice env fallback pools statsRows liveSlot tokenRef query = bindR (priceQueryDto env (trimJson query)) (\<lambda>chainId.
     priceRead fallback pools statsRows liveSlot (trim tokenRef) chainId)"

text \<open>The key under which a quote is shared, and its computation when nobody computes it.\<close>

definition quoteKey :: "int \<Rightarrow> pool list \<Rightarrow> string \<Rightarrow> side \<times> string \<times> int option \<Rightarrow> string result" where
  "quoteKey fallback pools tokenRef = (\<lambda>(sd, amount, chainQuery).
     (let chainId = resolveChainId fallback chainQuery in
      bindR (poolOrThrow pools tokenRef chainId) (\<lambda>pool.
      Inr (toString chainId @ '':'' @ pl_poolId pool @ '':'' @ (if sd = BUY then ''BUY'' else ''SELL'') @ '':'' @ amount))))"

definition getQuote :: "query_env \<Rightarrow> int \<Rightarrow> pool list \<Rightarrow> string option \<Rightarrow> (string \<Rightarrow> bool \<Rightarrow> int \<Rightarrow> (int \<times> int) result) \<Rightarrow> string \<Rightarrow> json
    \<Rightarrow> (string \<times> quote_view result) result" where
  "getQuote env fallback pools v4Quoter quoter tokenRef query = bindR (quoteQueryDto env (trimJson query)) (\<lambda>(sd, amount, chainQuery).
     bindR (quoteKey fallback pools (trim tokenRef) (sd, amount, chainQuery)) (\<lambda>key.
     Inr (key, case v4Quoter of
       None \<Rightarrow> computeQuote fallback pools None quoter (trim tokenRef) sd 0 chainQuery
     | Some q \<Rightarrow> bindR (bigIntText amount) (\<lambda>a. computeQuote fallback pools (Some q) quoter (trim tokenRef) sd a chainQuery))))"

definition getDepth :: "query_env \<Rightarrow> int \<Rightarrow> pool list \<Rightarrow> pool_stats list \<Rightarrow> band_row list \<Rightarrow> string \<Rightarrow> json \<Rightarrow> depth_view result" where
  "getDepth env fallback pools statsRows bandRows tokenRef query = bindR (depthQueryDto env (trimJson query)) (\<lambda>(buckets, chainId).
     depth fallback pools statsRows bandRows (trim tokenRef) buckets chainId)"

text \<open>\<open>swaps\<close> are the ordered swaps of a wallet, its text in lower case, on a chain.\<close>

definition getWalletTrades :: "query_env \<Rightarrow> int \<Rightarrow> (int \<Rightarrow> string \<Rightarrow> 'a list) \<Rightarrow> string \<Rightarrow> json \<Rightarrow> ('a list \<times> int \<times> int \<times> int \<times> int) result" where
  "getWalletTrades env fallback swaps wallet query = bindR (walletTradesQueryDto env (trimJson query)) (\<lambda>(page, limit, chainQuery).
     Inr (walletTradesPage page (case limit of Some l \<Rightarrow> l | None \<Rightarrow> 50) (swaps (resolveChainId fallback chainQuery) (toLowerCase (trim wallet)))))"

definition getMaxBuy :: "int \<Rightarrow> pool list \<Rightarrow> string option \<Rightarrow> (string \<Rightarrow> bool \<Rightarrow> int \<Rightarrow> (int \<times> int) result) \<Rightarrow> string \<Rightarrow> int option result" where
  "getMaxBuy fallback pools v4Quoter quoter tokenRef = maxBuy fallback pools v4Quoter quoter (trim tokenRef)"

definition getHolders :: "bool \<Rightarrow> int \<Rightarrow> read_world \<Rightarrow> _ \<Rightarrow> bool \<Rightarrow> int \<Rightarrow> rat \<Rightarrow> int \<Rightarrow> string \<Rightarrow> holders_view timed
    \<Rightarrow> holders_view result \<times> holders_view timed" where
  "getHolders up now w meanwhile up' later u fallback tokenRef st = holders_read up now w meanwhile up' later u fallback (trim tokenRef) st"

text \<open>\<open>swaps\<close>, \<open>burns\<close> and \<open>prices\<close> answer the three queries about a wallet.\<close>

definition getWalletPnl :: "(string \<Rightarrow> trade_row list) \<Rightarrow> (string \<Rightarrow> (string \<times> int) list) \<Rightarrow> (string \<Rightarrow> (string \<times> int) list) \<Rightarrow> string \<Rightarrow> pnl_view" where
  "getWalletPnl swaps burns prices wallet = (let w = toLowerCase (trim wallet) in walletPnl (swaps w) (burns w) (prices w))"

text \<open>A state that the table does not know makes the database client throw.\<close>

definition getLaunchRecords :: "query_env \<Rightarrow> (string \<Rightarrow> (string option \<times> (string \<times> string) option) option) \<Rightarrow> int \<Rightarrow> json \<Rightarrow> 'h launch_db
    \<Rightarrow> (('h launch_record \<times> (string option \<times> string \<times> string) option) list \<times> page_meta) result" where
  "getLaunchRecords env joined fallback query db = bindR (launchRecordsQueryDto env (trimJson query)) (\<lambda>(creator, state, chainId, page, limit).
     let answer = (\<lambda>st. Inr (launchRecords joined fallback (launch_query.make creator st chainId page limit) db)) in
     case state of
       None \<Rightarrow> answer None
     | Some s \<Rightarrow> (case map_of LAUNCH_RECORD_STATES s of Some (Some st) \<Rightarrow> answer (Some st) | _ \<Rightarrow> Inl (JsError ''invalid state'')))"

definition listTokenComments :: "query_env \<Rightarrow> request_env \<Rightarrow> (comment_db \<Rightarrow> comment_db) \<Rightarrow> string \<Rightarrow> json
    \<Rightarrow> comment_db \<times> redis \<times> comment_page timed \<Rightarrow> comment_page result \<times> comment_db \<times> redis \<times> comment_page timed" where
  "listTokenComments qe env between tokenRef query s = (case commentsQueryDto qe (trimJson query) of
     Inl e \<Rightarrow> (Inl e, s) | Inr q \<Rightarrow> listComments env between (trim tokenRef) q s)"

definition listCommentReplies :: "query_env \<Rightarrow> request_env \<Rightarrow> (comment_db \<Rightarrow> comment_db) \<Rightarrow> string \<Rightarrow> json
    \<Rightarrow> comment_db \<times> redis \<times> comment_page timed \<Rightarrow> comment_page result \<times> comment_db \<times> redis \<times> comment_page timed" where
  "listCommentReplies qe env between commentId query s = (case commentRepliesQueryDto qe (trimJson query) of
     Inl e \<Rightarrow> (Inl e, s) | Inr q \<Rightarrow> listReplies env between (trim commentId) q s)"

definition listProfileTokens :: "query_env \<Rightarrow> int \<Rightarrow> string \<Rightarrow> json \<Rightarrow> (creator_pool \<times> creator_token option) list
    \<Rightarrow> (created_launch list \<times> page_meta) result" where
  "listProfileTokens env fallback walletAddress query pools = bindR (profileTokensQueryDto env (trimJson query)) (\<lambda>(page, limit, oldest, chainId).
     creatorTokens fallback (trim walletAddress) (Some chainId) oldest (Some page) (Some limit) pools)"

definition getProfileRevenueStreams :: "query_env \<Rightarrow> int \<Rightarrow> string \<Rightarrow> json \<Rightarrow> creator_pool list \<Rightarrow> creator_token list
    \<Rightarrow> (int \<times> string \<rightharpoonup> int \<times> int) \<Rightarrow> revenue_stream list result" where
  "getProfileRevenueStreams env fallback walletAddress query pools tokens totals = bindR (profileTokensQueryDto env (trimJson query)) (\<lambda>(_, _, _, chainId).
     revenueStreams fallback (trim walletAddress) (Some chainId) pools tokens totals)"

section \<open>What an accepted query holds\<close>

lemma isPositiveInt_intOf: "isPositiveInt (Some h) v \<Longrightarrow> 1 \<le> intOf v \<and> intOf v \<le> h"
  by (auto simp: isPositiveInt_def intOf_def le_floor_iff floor_le_iff split: option.splits)

lemma isPositiveInt_pos: "isPositiveInt hi v \<Longrightarrow> 1 \<le> intOf v"
  by (auto simp: isPositiveInt_def intOf_def le_floor_iff split: option.splits)

lemma paginationDto_Inr: "paginationDto env others d query = Inr (page, limit) \<Longrightarrow> 1 \<le> page \<and> 1 \<le> limit \<and> limit \<le> 100"
  using isPositiveInt_intOf [of 100] isPositiveInt_pos
  by (auto simp: paginationDto_def Let_def badRequest_def split: if_splits)

lemma chainMember_Inr: "chainMember env query = Inr chainId \<Longrightarrow> 1 \<le> chainId"
  using isPositiveInt_pos by (auto simp: chainMember_def Let_def badRequest_def split: if_splits)

lemma tokenListQueryDto_Inr:
  assumes "tokenListQueryDto env query = Inr p"
  shows "1 \<le> lp_page p \<and> 1 \<le> lp_limit p \<and> lp_limit p \<le> 100 \<and> 1 \<le> lp_chainId p"
proof -
  note a = assms [unfolded tokenListQueryDto_def Let_def]
  obtain page limit where p: "paginationDto env [''q'', ''creator'', ''phase'', ''sort'', ''near'', ''paid'', ''chainId''] 20 query = Inr (page, limit)"
    using a by (auto simp: bindR_eq_Inr_iff)
  obtain chainId where c: "chainMember env query = Inr chainId" using a by (auto simp: p bindR_eq_Inr_iff)
  obtain phase where ph: "optionalNamed [(''bonding'', False), (''graduated'', True)] query ''phase'' = Some phase"
    using a by (cases "optionalNamed [(''bonding'', False), (''graduated'', True)] query ''phase''") (simp_all add: p c badRequest_def)
  obtain srt where "named LIST_SORTS (Some SortNewest) query ''sort'' = Some srt"
    using a by (cases "named LIST_SORTS (Some SortNewest) query ''sort''") (simp_all add: p c ph badRequest_def)
  then show ?thesis using a paginationDto_Inr [OF p] chainMember_Inr [OF c]
    by (auto simp: p c ph badRequest_def split: if_splits)
qed

lemma tokenTradesQueryDto_Inr:
  assumes "tokenTradesQueryDto env query = Inr q"
  shows "1 \<le> tq_page q \<and> 1 \<le> tq_limit q \<and> tq_limit q \<le> 100 \<and> 1 \<le> tq_chainId q"
proof -
  note a = assms [unfolded tokenTradesQueryDto_def Let_def]
  obtain page limit where p: "paginationDto env [''side'', ''sort'', ''chainId''] 20 query = Inr (page, limit)"
    using a by (auto simp: bindR_eq_Inr_iff)
  obtain chainId where c: "chainMember env query = Inr chainId" using a by (auto simp: p bindR_eq_Inr_iff)
  obtain sd where sd: "optionalNamed SIDES query ''side'' = Some sd"
    using a by (cases "optionalNamed SIDES query ''side''") (simp_all add: p c badRequest_def)
  obtain srt where "named TRADE_SORTS (Some TradeNewest) query ''sort'' = Some srt"
    using a by (cases "named TRADE_SORTS (Some TradeNewest) query ''sort''") (simp_all add: p c sd badRequest_def)
  then show ?thesis using a paginationDto_Inr [OF p] chainMember_Inr [OF c] by (auto simp: p c sd)
qed

lemma tokenRevenueQueryDto_Inr:
  assumes "tokenRevenueQueryDto env query = Inr (page, limit, kind, chainId)"
  shows "1 \<le> page \<and> 1 \<le> limit \<and> limit \<le> 100 \<and> 1 \<le> chainId \<and> (case kind of None \<Rightarrow> True | Some k \<Rightarrow> k \<in> set REVENUE_EVENT_KINDS)"
proof -
  note a = assms [unfolded tokenRevenueQueryDto_def Let_def]
  obtain q l where p: "paginationDto env [''kind'', ''chainId''] 25 query = Inr (q, l)" using a by (auto simp: bindR_eq_Inr_iff)
  obtain c where c: "chainMember env query = Inr c" using a by (auto simp: p bindR_eq_Inr_iff)
  have k: "isOptionalText (\<lambda>k. k \<in> set REVENUE_EVENT_KINDS) (jsonField query ''kind'')" and
    e: "page = q" "limit = l" "kind = Option.bind (nullable (jsonField query ''kind'')) id" "chainId = c"
    using a by (simp_all add: p c badRequest_def split: if_splits)
  have "case kind of None \<Rightarrow> True | Some k \<Rightarrow> k \<in> set REVENUE_EVENT_KINDS"
    using k unfolding e by (cases "jsonField query ''kind''"; cases "the (jsonField query ''kind'')")
      (simp_all add: isOptionalText_def isText_def nullable_def)
  then show ?thesis using paginationDto_Inr [OF p] chainMember_Inr [OF c] e by simp
qed

lemma length_pageRows: "length (pageRows p l rows) \<le> nat l"
  by (simp add: pageRows_def)

section \<open>Walking the pages\<close>

definition pageQuery :: "int \<Rightarrow> int \<Rightarrow> (string \<times> json) list \<Rightarrow> json" where
  "pageQuery page limit filters = ObjJ (filters @ [(''page'', StrJ (toString page)), (''limit'', StrJ (toString limit))])"

definition answerRows :: "('a list \<times> 'm) result \<Rightarrow> 'a list" where
  "answerRows answer = (case answer of Inr (rows, _) \<Rightarrow> rows | Inl _ \<Rightarrow> [])"

lemma trim_toString [simp]: "trim (toString i) = toString i"
  using toString_chars [of i] by (intro trim_plain) (auto simp: list_all_iff isSpace_def isDigit_def)

lemma jsonField_pageQuery:
  "jsonField (trimJson (pageQuery i limit fs)) k = (if k = ''page'' then Some (StrJ (toString i)) else if k = ''limit'' then Some (StrJ (toString limit))
     else jsonField (trimJson (ObjJ fs)) k)"
  by (auto simp: pageQuery_def jsonField_def)

lemma knownFields_pageQuery: "knownFields names (trimJson (pageQuery i limit fs)) = knownFields names (trimJson (pageQuery j limit fs))"
  by (simp add: pageQuery_def knownFields_def)

lemma isPositiveInt_of_int [simp]: "isPositiveInt None (Some (of_int i)) \<longleftrightarrow> 1 \<le> i" "isPositiveInt (Some h) (Some (of_int i)) \<longleftrightarrow> 1 \<le> i \<and> i \<le> h"
  by (simp_all add: isPositiveInt_def)

lemma paginationDto_pageQuery:
  assumes "qe_number env (toString i) = Some (of_int i)" "qe_number env (toString 1) = Some 1" "qe_number env (toString limit) = Some (of_int limit)"
    and "1 \<le> i" "1 \<le> limit" "limit \<le> 100"
  shows "paginationDto env others d (trimJson (pageQuery i limit fs))
    = bindR (paginationDto env others d (trimJson (pageQuery 1 limit fs))) (\<lambda>(_, l). Inr (i, l))"
proof -
  have "numberMember env x (trimJson (pageQuery i limit fs)) ''page'' = Some (of_int i)" "numberMember env x (trimJson (pageQuery 1 limit fs)) ''page'' = Some 1"
    "numberMember env x (trimJson (pageQuery j limit fs)) ''limit'' = Some (of_int limit)" for x j
    using assms by (simp_all add: numberMember_def jsonField_pageQuery)
  moreover have "isPositiveInt None (Some 1)" by (simp add: isPositiveInt_def)
  ultimately show ?thesis using assms(4-6) knownFields_pageQuery [of _ i limit fs 1]
    by (simp add: paginationDto_def Let_def intOf_def badRequest_def)
qed

lemma members_pageQuery:
  assumes "k \<noteq> ''page''"
  shows "named table d (trimJson (pageQuery i limit fs)) k = named table d (trimJson (pageQuery 1 limit fs)) k"
    "optionalNamed table (trimJson (pageQuery i limit fs)) k = optionalNamed table (trimJson (pageQuery 1 limit fs)) k"
    "numberMember env x (trimJson (pageQuery i limit fs)) k = numberMember env x (trimJson (pageQuery 1 limit fs)) k"
  using assms by (simp_all add: named_def optionalNamed_def numberMember_def jsonField_pageQuery)

lemma tradesDto_pageQuery:
  assumes "qe_number env (toString i) = Some (of_int i)" "qe_number env (toString 1) = Some 1" "qe_number env (toString limit) = Some (of_int limit)"
    and "1 \<le> i" "1 \<le> limit" "limit \<le> 100"
    and q: "tokenTradesQueryDto env (trimJson (pageQuery 1 limit fs)) = Inr q"
  shows "tokenTradesQueryDto env (trimJson (pageQuery i limit fs)) = Inr (q\<lparr>tq_page := i\<rparr>)" "tq_limit q = limit"
proof -
  let ?o = "[''side'', ''sort'', ''chainId'']" let ?q = "trimJson (pageQuery 1 limit fs)"
  note a = q [unfolded tokenTradesQueryDto_def]
  have c: "chainMember env (trimJson (pageQuery i limit fs)) = chainMember env ?q"
    by (simp add: chainMember_def members_pageQuery(3) [where i = i])
  obtain page l where p: "paginationDto env ?o 20 ?q = Inr (page, l)" using a by (auto simp: bindR_eq_Inr_iff)
  obtain chainId where ch: "chainMember env ?q = Inr chainId" using a by (auto simp: p bindR_eq_Inr_iff)
  obtain sd where sd: "optionalNamed SIDES ?q ''side'' = Some sd"
    using a by (cases "optionalNamed SIDES ?q ''side''") (simp_all add: p ch badRequest_def)
  obtain srt where srt: "named TRADE_SORTS (Some TradeNewest) ?q ''sort'' = Some srt"
    using a by (cases "named TRADE_SORTS (Some TradeNewest) ?q ''sort''") (simp_all add: p ch sd badRequest_def)
  have srt': "named TRADE_SORTS (Some TradeNewest) (trimJson (pageQuery i limit fs)) ''sort'' = Some srt"
    using srt members_pageQuery(1) [of "''sort''" TRADE_SORTS "Some TradeNewest" i limit fs] by simp
  have sd': "optionalNamed SIDES (trimJson (pageQuery i limit fs)) ''side'' = Some sd"
    using sd members_pageQuery(2) [of "''side''" SIDES i limit fs] by simp
  have "q = \<lparr>tq_chainId = chainId, tq_side = sd, tq_sort = srt, tq_page = page, tq_limit = l\<rparr>" using a by (simp add: p ch sd srt)
  moreover have "l = limit" using p assms(3,5,6)
    by (auto simp: paginationDto_def Let_def numberMember_def jsonField_pageQuery intOf_def badRequest_def split: if_splits)
  ultimately show "tokenTradesQueryDto env (trimJson (pageQuery i limit fs)) = Inr (q\<lparr>tq_page := i\<rparr>)" "tq_limit q = limit"
    using paginationDto_pageQuery [OF assms(1-6), of ?o 20 fs]
    by (simp_all add: tokenTradesQueryDto_def c p ch sd' srt')
qed

lemma totalPages_le:
  assumes "1 \<le> limit"
  shows "pm_totalPages (pageMeta p limit (int n)) \<le> int n"
proof (cases "n = 0 \<or> pm_totalPages (pageMeta p limit (int n)) \<le> 0")
  case False
  let ?k = "pm_totalPages (pageMeta p limit (int n))"
  have "(?k - 1) * limit < int n" using totalPages_cover(3) [OF assms, of n p] False by simp
  moreover have "?k - 1 \<le> (?k - 1) * limit" using mult_left_mono [of 1 limit "?k - 1"] assms False by simp
  ultimately have "?k - 1 < int n" by (rule le_less_trans [rotated])
  then show ?thesis by simp
qed (auto simp: pageMeta_def)

text \<open>A listing whose pages are those of \<open>rows\<close> shows \<open>rows\<close> to a client that walks it.\<close>

lemma walk_pages:
  assumes "1 \<le> limit" "meta = pageMeta p limit (int (length rows))"
    and page: "\<And>i. 1 \<le> i \<Longrightarrow> i \<le> int (length rows) \<Longrightarrow> get i = Inr (pageRows i limit rows, pageMeta i limit (int (length rows)))"
  shows "concat (map (\<lambda>i. answerRows (get i)) [1..pm_totalPages meta]) = rows"
proof -
  have "answerRows (get i) = pageRows i limit rows" if "i \<in> set [1..pm_totalPages meta]" for i
    using page [of i] that totalPages_le [OF assms(1), of p "length rows", folded assms(2)] by (simp add: answerRows_def)
  then have "map (\<lambda>i. answerRows (get i)) [1..pm_totalPages meta] = map (\<lambda>i. pageRows i limit rows) [1..pm_totalPages meta]"
    by (rule map_cong [OF refl])
  then have "concat (map (\<lambda>i. answerRows (get i)) [1..pm_totalPages meta]) = concat (map (\<lambda>i. pageRows i limit rows) [1..pm_totalPages meta])"
    by (rule arg_cong)
  also have "\<dots> = rows" using pages_partition [OF assms(1), of p rows] by (simp add: assms(2) Let_def)
  finally show ?thesis .
qed

text \<open>With unchanged tables a cached read answers what they give.\<close>

lemma cachedRead_constant:
  assumes "read_cache key ttl load" "cacheRun key ttl load (\<lambda>_. w) L clock st" "clock \<le> now"
  shows "fst (cachedRead up now (load w q) meanwhile up' later u (key q) ttl st) = load w q"
proof (cases "timedGet up st now (key q)")
  case (Some v)
  then have "cachedRead up now (load w q) meanwhile up' later u (key q) ttl st = (Inr v, st)" by (simp add: cachedRead_def)
  from read_cache.read_fresh [OF assms(1-3) this] show ?thesis using Some by (auto simp: cachedRead_def)
qed (simp add: cachedRead_def split: sum.splits)

lemma getTrades_page:
  assumes "tokenTradesQueryDto env (trimJson query) = Inr q" "cacheRun tradesKey CACHE_TTL_trades tradesLoad (\<lambda>_. w) L clock st" "clock \<le> now"
  shows "fst (getTrades env up now w meanwhile up' later u tokenRef query st) = trades (rw_pools w) (rw_swaps w) (trim tokenRef) q"
  using cachedRead_constant [OF tradeReads.read_cache_axioms assms(2,3), of up "(FromEndpoint, trim tokenRef, q)"] assms(1)
  by (simp add: getTrades_def trades_read_def tradesLoad_def)

section \<open>Properties\<close>


definition walkEnv :: query_env where
  "walkEnv = \<lparr>qe_number = (\<lambda>s. Some (of_nat (parseDec s))), qe_defaultChain = None, qe_date = (\<lambda>_. None)\<rparr>"

definition walkSwap :: "int \<Rightarrow> bool \<Rightarrow> swap_fact" where
  "walkSwap block buys = \<lparr>sf_chainId = 8453, sf_poolId = ''p'', sf_transactionHash = [], sf_logIndex = 0, sf_blockNumber = block, sf_timestamp = 0,
     sf_isBuy = buys, sf_sender = [], sf_amount0Eth = 5, sf_amount1Tokens = 7, sf_sqrtPriceX96 = 2 ^ 96, sf_tick = 0, sf_fee = 0,
     sf_feeEth = 0, sf_feeTokens = 0\<rparr>"

definition walkWorld :: read_world where
  "walkWorld = emptyWorld\<lparr>rw_pools := [\<lparr>pr_pool = samplePool, pr_tokenDbId = None, dp_creator = [], dp_launchTime = [], dp_launchBlock = 0,
     dp_configHash = [], dp_payoutPlan = 0, dp_devBuyShareWad = 0, dp_revenueNftOwner = None\<rparr>],
     rw_swaps := [walkSwap 1 True, walkSwap 2 False, walkSwap 3 True]\<rparr>"


section \<open>Sizes\<close>

lemma length_mapResult: "mapResult f xs = Inr ys \<Longrightarrow> length ys = length xs"
  by (induction f xs arbitrary: ys rule: mapResult.induct) (auto simp: bindR_eq_Inr_iff)

lemma length_pageRows_le: "l \<le> 100 \<Longrightarrow> length (pageRows p l rows) \<le> 100"
  using length_pageRows [of p l rows] by linarith

lemma listLoad_size:
  assumes "listLoad w p = Inr (cards, meta)" "lp_limit p \<le> 100"
  shows "length cards \<le> 100"
proof -
  note a = assms(1) [unfolded listLoad_def listTokens_def Let_def, simplified]
  have c: "length (cardsOf images rows) = length rows" for images rows by (simp add: cardsOf_def Let_def)
  have l: "lq_limit (listQueryOf p) \<le> 100" using assms(2) by (simp add: listQueryOf_def)
  show ?thesis
  proof (cases "lq_sort (listQueryOf p) = SortNextPayout")
    case True
    then show ?thesis using a length_pageRows_le [OF l] by (auto simp: bindR_eq_Inr_iff c)
  next
    case False
    then show ?thesis using a length_pageRows_le [OF l] by (auto simp: bindR_eq_Inr_iff c dest!: length_mapResult)
  qed
qed

lemma tradesLoad_size: "tradesLoad w (FromEndpoint, tokenRef, q) = Inr (rows, meta) \<Longrightarrow> tq_limit q \<le> 100 \<Longrightarrow> length rows \<le> 100"
  using length_pageRows_le by (auto simp: tradesLoad_def trades_def bindR_eq_Inr_iff Let_def)

lemma getTokens_size:
  assumes "cacheRun listKey CACHE_TTL_tokenList listLoad W L clock st" "clock \<le> now"
    and "getTokens env up now w meanwhile up' later u query st = (Inr (cards, meta), st')"
  shows "length cards \<le> 100"
proof -
  obtain p where p: "tokenListQueryDto env (trimJson query) = Inr p"
    and r: "cachedRead up now (listLoad w p) meanwhile up' later u (listKey p) CACHE_TTL_tokenList st = (Inr (cards, meta), st')"
    using assms(3) by (auto simp: getTokens_def list_read_def split: sum.splits)
  from listReads.read_fresh [OF assms(1,2) r] obtain x where "listLoad x p = Inr (cards, meta)" by blast
  then show ?thesis using listLoad_size tokenListQueryDto_Inr [OF p] by blast
qed

lemma getTrades_size:
  assumes "cacheRun tradesKey CACHE_TTL_trades tradesLoad W L clock st" "clock \<le> now"
    and "getTrades env up now w meanwhile up' later u tokenRef query st = (Inr (rows, meta), st')"
  shows "length rows \<le> 100"
proof -
  obtain q where q: "tokenTradesQueryDto env (trimJson query) = Inr q"
    and r: "cachedRead up now (tradesLoad w (FromEndpoint, trim tokenRef, q)) meanwhile up' later u (tradesKey (FromEndpoint, trim tokenRef, q))
      CACHE_TTL_trades st = (Inr (rows, meta), st')"
    using assms(3) by (auto simp: getTrades_def trades_read_def split: sum.splits)
  from tradeReads.read_fresh [OF assms(1,2) r] obtain x where "tradesLoad x (FromEndpoint, trim tokenRef, q) = Inr (rows, meta)" by blast
  then show ?thesis using tradesLoad_size tokenTradesQueryDto_Inr [OF q] by blast
qed

lemma milestones_size:
  assumes "milestones pools bands skips tokenRef chainId page limit = Inr (rows, meta)" "limit \<le> 100"
  shows "length rows \<le> 100"
proof -
  obtain p where p: "findPool pools tokenRef chainId = Inr p" using assms(1) by (auto simp: milestones_def bindR_eq_Inr_iff)
  show ?thesis using assms length_pageRows_le
    by (cases "pl_status (pr_pool p)"; cases "pl_graduationLevel (pr_pool p)") (auto simp: milestones_def p bindR_eq_Inr_iff Let_def)
qed

lemma getMilestones_size: "getMilestones env pools bands skips tokenRef query = Inr (rows, meta) \<Longrightarrow> length rows \<le> 100"
  using milestones_size
  by (auto simp: getMilestones_def tokenMilestonesQueryDto_def bindR_eq_Inr_iff dest!: paginationDto_Inr)

lemma revenue_size: "revenue pools tables tokenRef chainId kind page limit = Inr (rows, meta) \<Longrightarrow> limit \<le> 100 \<Longrightarrow> length rows \<le> 100"
  using length_pageRows_le by (auto simp: revenue_def bindR_eq_Inr_iff Let_def split: option.splits)

lemma getRevenue_size: "getRevenue env pools tables tokenRef query = Inr (rows, meta) \<Longrightarrow> length rows \<le> 100"
  using revenue_size by (auto simp: getRevenue_def bindR_eq_Inr_iff dest!: tokenRevenueQueryDto_Inr)

lemma walletTradesPage_size: "length (fst (walletTradesPage p l rows)) \<le> 100"
proof -
  have "nat (min (max l 1) 100) \<le> 100" by simp
  then show ?thesis by (simp add: walletTradesPage_def Let_def min_le_iff_disj)
qed

lemma getWalletTrades_size:
  assumes "getWalletTrades env fallback swaps wallet query = Inr (rows, meta)"
  shows "length rows \<le> 100"
proof -
  obtain p l xs where "(rows, meta) = walletTradesPage p l xs" using assms by (auto simp: getWalletTrades_def bindR_eq_Inr_iff dest: sym)
  then show ?thesis using walletTradesPage_size [of p l xs] by (metis fst_conv)
qed

lemma launchRecords_size: "length (fst (launchRecords joined fallback query db)) \<le> 100"
  by (simp add: launchRecords_def Let_def length_pageRows_le)

lemma getLaunchRecords_size: "getLaunchRecords env joined fallback query db = Inr (rows, meta) \<Longrightarrow> length rows \<le> 100"
  using launchRecords_size [of joined fallback _ db]
  by (auto simp: getLaunchRecords_def bindR_eq_Inr_iff Let_def split: option.splits) (metis fst_conv)+

lemma listProfileTokens_size: "listProfileTokens env fallback wallet query pools = Inr (rows, meta) \<Longrightarrow> length rows \<le> 100"
  by (auto simp: listProfileTokens_def creatorTokens_def bindR_eq_Inr_iff Let_def length_pageRows_le)

lemma commentsQueryDto_Inr: "commentsQueryDto env query = Inr q \<Longrightarrow> cq_limit q \<le> 100"
  by (auto simp: commentsQueryDto_def bindR_eq_Inr_iff badRequest_def dest!: paginationDto_Inr split: option.splits)

lemma timedGet_empty [simp]: "timedGet up Map.empty now k = None"
  by (simp add: timedGet_def)

lemma listTokenComments_size:
  assumes "listTokenComments qe env between tokenRef query (db, r, Map.empty) = (Inr page, s)"
  shows "length (pg_data page) \<le> 100 \<and> (\<forall>(c, replies)\<in>set (pg_data page). length replies \<le> 3)"
proof -
  obtain q where q: "commentsQueryDto qe (trimJson query) = Inr q" and l: "listComments env between (trim tokenRef) q (db, r, Map.empty) = (Inr page, s)"
    using assms by (auto simp: listTokenComments_def split: sum.splits)
  obtain i rows where "page = rootsPage i q rows"
    using l by (auto simp: listComments_def cachedPage_def Let_def split: sum.splits prod.splits)
  then show ?thesis using commentsQueryDto_Inr [OF q] by (auto simp: rootsPage_def Let_def length_pageRows_le)
qed

lemma fillJoinedCandles_size: "int (length (fillJoinedCandles ms b l)) \<le> max l 1"
proof (cases "parseMinutes ms = []")
  case False
  have "int (length (drop (length xs - nat (max l 1)) xs)) \<le> max l 1" for xs :: "candle list" by simp
  then show ?thesis unfolding fillJoinedCandles_def Let_def by (simp only: False if_False)
qed (simp add: fillJoinedCandles_def)

lemma getCandles_size:
  assumes "getCandles env pools tbl tokenRef query = Inr cs"
  shows "length cs \<le> 1000"
proof -
  obtain q where q: "tokenCandlesQueryDto env (trimJson query) = Inr q"
    and c: "candles (bindR (findPool pools (trim tokenRef) (kq_chainId q)) (\<lambda>p. Inr (pr_pool p))) tbl q = Inr cs"
    using assms by (auto simp: getCandles_def bindR_eq_Inr_iff)
  note a = q [unfolded tokenCandlesQueryDto_def Let_def]
  let ?q = "trimJson query"
  obtain chainId where ch: "chainMember env ?q = Inr chainId" using a by (auto simp: bindR_eq_Inr_iff)
  obtain i where i: "named API_CANDLE_INTERVALS (Some H1) ?q ''interval'' = Some i"
    using a by (cases "named API_CANDLE_INTERVALS (Some H1) ?q ''interval''") (simp_all add: ch badRequest_def)
  obtain f where f: "dateMember env ?q ''from'' = Some f" using a by (cases "dateMember env ?q ''from''") (simp_all add: ch i badRequest_def)
  obtain t where t: "dateMember env ?q ''to'' = Some t" using a by (cases "dateMember env ?q ''to''") (simp_all add: ch i f badRequest_def)
  have "kq_limit q \<le> 1000"
    using a isPositiveInt_intOf [of 1000] by (auto simp: ch i f t badRequest_def split: if_splits)
  moreover obtain ms b where "cs = map candlePresenter (rev (fillJoinedCandles ms b (kq_limit q)))"
    using c by (auto simp: candles_def bindR_eq_Inr_iff Let_def split: if_splits)
  ultimately show ?thesis using fillJoinedCandles_size [of ms b "kq_limit q"] by simp
qed




section \<open>The wallet in raw SQL\<close>

text \<open>Two reads splice the wallet of the path into SQL text: the trades double its quotes, the profit and loss does not.\<close>

definition sqlEscape :: "string \<Rightarrow> string" where
  "sqlEscape s = concat (map (\<lambda>c. if c = CHR 0x27 then [CHR 0x27, CHR 0x27] else [c]) s)"

definition walletTradesWhere :: "int \<Rightarrow> string \<Rightarrow> string" where
  "walletTradesWhere chainId wallet = ''WHERE s.'' @ [CHR 0x22] @ ''chain_id'' @ [CHR 0x22] @ '' = '' @ toString chainId
     @ '' AND lower(s.trader) = '' @ [CHR 0x27] @ sqlEscape (toLowerCase wallet) @ [CHR 0x27]"

definition walletPnlWhere :: "int \<Rightarrow> string \<Rightarrow> string" where
  "walletPnlWhere chainId wallet = ''WHERE s.'' @ [CHR 0x22] @ ''chain_id'' @ [CHR 0x22] @ '' = '' @ toString chainId
     @ '' AND lower(s.trader) = '' @ [CHR 0x27] @ toLowerCase wallet @ [CHR 0x27]"

text \<open>What SQL reads behind the opening quote: the literal, in which a doubled quote is a quote, and the text that follows it.\<close>

fun sqlLiteral :: "string \<Rightarrow> (string \<times> string) option" where
  "sqlLiteral [] = None"
| "sqlLiteral (c # s) = (if c \<noteq> CHR 0x27 then map_option (\<lambda>(t, r). (c # t, r)) (sqlLiteral s)
     else (case s of d # s' \<Rightarrow> if d = CHR 0x27 then map_option (\<lambda>(t, r). (CHR 0x27 # t, r)) (sqlLiteral s') else Some ([], s) | [] \<Rightarrow> Some ([], [])))"

lemma sqlEscape_literal: "rest = [] \<or> hd rest \<noteq> CHR 0x27 \<Longrightarrow> sqlLiteral (sqlEscape w @ CHR 0x27 # rest) = Some (w, rest)"
  by (induction w) (auto simp: sqlEscape_def split: list.splits)

text \<open>The literal of the trades is the wallet, whatever it contains; a path can close the literal of the other read and go on in SQL.\<close>

lemma wallet_literals:
  "sqlLiteral (drop (length (''WHERE s.'' @ [CHR 0x22] @ ''chain_id'' @ [CHR 0x22] @ '' = '' @ toString c @ '' AND lower(s.trader) = '' @ [CHR 0x27]))
     (walletTradesWhere c wallet)) = Some (toLowerCase wallet, [])"
  by (simp add: walletTradesWhere_def sqlEscape_literal)

lemma pnl_wallet_injects:
  "walletPnlWhere c (''x'' @ [CHR 0x27] @ '' or '' @ [CHR 0x27] @ ''1'' @ [CHR 0x27] @ '' = '' @ [CHR 0x27] @ ''1'')
    = ''WHERE s.'' @ [CHR 0x22] @ ''chain_id'' @ [CHR 0x22] @ '' = '' @ toString c @ '' AND lower(s.trader) = ''
      @ [CHR 0x27] @ ''x'' @ [CHR 0x27] @ '' or '' @ [CHR 0x27] @ ''1'' @ [CHR 0x27] @ '' = '' @ [CHR 0x27] @ ''1'' @ [CHR 0x27]"
proof -
  have "toLowerCase (''x'' @ [CHR 0x27] @ '' or '' @ [CHR 0x27] @ ''1'' @ [CHR 0x27] @ '' = '' @ [CHR 0x27] @ ''1'')
    = ''x'' @ [CHR 0x27] @ '' or '' @ [CHR 0x27] @ ''1'' @ [CHR 0x27] @ '' = '' @ [CHR 0x27] @ ''1''" by code_simp
  then show ?thesis by (simp only: walletPnlWhere_def append.assoc)
qed

end
