(* ===== verification/Handlers.thy ===== *)
theory Handlers
  imports Queries
begin

text \<open>
  The handlers that change state outside the comments, from the body to the service: sign-in (\<open>src/modules/auth/auth.module.ts\<close>), token
  registration and logo upload (\<open>tokens.controller.ts\<close>, \<open>token-images.controller.ts\<close>, \<open>dto/upload-image.dto.ts\<close>), profiles
  (\<open>profiles.controller.ts\<close>) and launches (\<open>launch.controller.ts\<close>, \<open>dto/launch.dto.ts\<close>). The numbers of an accepted launch or quote always
  parse, and a wallet that signs the message it was issued gets its session.
\<close>

section \<open>Sign-in\<close>

definition lowerText :: "json option \<Rightarrow> json option" where
  "lowerText v = (case v of Some (StrJ s) \<Rightarrow> Some (StrJ (toLowerCase s)) | _ \<Rightarrow> v)"

definition nonceDto :: "json \<Rightarrow> string result" where
  "nonceDto body = (let wallet = lowerText (jsonField body ''walletAddress'') in
     if knownFields [''walletAddress''] body \<and> isText (isHexAddress isHex) wallet then Inr (textOf wallet) else badRequest)"

text \<open>Wallet, nonce, signature and message.\<close>

definition verifyDto :: "json \<Rightarrow> (string \<times> string \<times> string \<times> string) result" where
  "verifyDto body =
     (let wallet = lowerText (jsonField body ''walletAddress''); nonce = jsonField body ''nonce'';
          signature = jsonField body ''signature''; message = jsonField body ''message'' in
      if knownFields [''walletAddress'', ''nonce'', ''signature'', ''message''] body \<and> isText (isHexAddress isHex) wallet
        \<and> isText (\<lambda>_. True) nonce \<and> isText (\<lambda>_. True) signature \<and> isText (\<lambda>_. True) message
      then Inr (textOf wallet, textOf nonce, textOf signature, textOf message) else badRequest)"

definition postNonce :: "bool \<Rightarrow> int \<Rightarrow> rat \<Rightarrow> string \<Rightarrow> string \<Rightarrow> json \<Rightarrow> string timed \<Rightarrow> (string \<times> string) result \<times> string timed" where
  "postNonce up now u nonce issuedAt body st = (case nonceDto (trimJson body) of
     Inl e \<Rightarrow> (Inl e, st) | Inr wallet \<Rightarrow> issueNonce up now u nonce issuedAt wallet st)"

text \<open>\<open>/^[\s\S]{20,2000}$/u\<close> counts code points.\<close>

definition postVerify :: "(string \<Rightarrow> string \<Rightarrow> string \<Rightarrow> bool option) \<Rightarrow> (string \<Rightarrow> string \<Rightarrow> string) \<Rightarrow> string \<Rightarrow> bool \<Rightarrow> int \<Rightarrow> json \<Rightarrow> string timed
    \<Rightarrow> session_grant result \<times> string timed" where
  "postVerify vm hmac secret up now body st = (case verifyDto (trimJson body) of
     Inl e \<Rightarrow> (Inl e, st)
   | Inr (wallet, nonce, signature, message) \<Rightarrow>
       if length message < 20 \<or> length message > 2000 then (Inl (DomainException 400 ''INVALID_MESSAGE''), st)
       else verify vm hmac secret up now wallet nonce signature message st)"

section \<open>Token registration, logos and profiles\<close>

text \<open>An answer with its headers \<open>Idempotency-Replayed\<close> and \<open>Location\<close>.\<close>

record 'v reply =
  rp_value :: 'v
  rp_replayed :: bool
  rp_location :: "string option"

text \<open>\<open>stored\<close> is the column text of a JSON value; an absent and a null member leave the column empty.\<close>

definition storedJson :: "(json \<Rightarrow> string) \<Rightarrow> json option \<Rightarrow> string option" where
  "storedJson stored v = (case v of None \<Rightarrow> None | Some NullJ \<Rightarrow> None | Some x \<Rightarrow> Some (stored x))"

definition creationInput :: "(json \<Rightarrow> string) \<Rightarrow> create_dto \<Rightarrow> create_input" where
  "creationInput stored dto = \<lparr>ct_creatorWalletAddress = td_creatorWalletAddress dto, ct_name = td_name dto, ct_symbol = td_symbol dto,
     ct_description = td_description dto, ct_imageUri = td_imageUri dto, ct_socials = storedJson stored (td_socials dto)\<rparr>"

definition postToken :: "body_env \<Rightarrow> (json \<Rightarrow> string) \<Rightarrow> creation_env \<Rightarrow> (creation_db \<Rightarrow> creation_db) \<Rightarrow> (creation_db \<Rightarrow> creation_db)
    \<Rightarrow> (creation_db \<Rightarrow> creation_db) \<Rightarrow> json \<Rightarrow> string option \<Rightarrow> creation_db \<Rightarrow> created_token reply result \<times> creation_db" where
  "postToken benv stored env before uploading after body key db =
     (case bindR (createTokenDto benv (trimJson body)) (\<lambda>dto. bindR (validateIdempotencyKey key) (\<lambda>k. Inr (dto, k))) of
        Inl e \<Rightarrow> (Inl e, db)
      | Inr (dto, k) \<Rightarrow> (case create env before uploading after (creationInput stored dto) k db of
          (Inl e, db') \<Rightarrow> (Inl e, db')
        | (Inr (t, replayed), db') \<Rightarrow>
            (Inr \<lparr>rp_value = t, rp_replayed = replayed, rp_location = Some (''/api/v1/tokens/'' @ ctk_id t)\<rparr>, db')))"

text \<open>\<open>/^[A-Za-z0-9+\/]+={0,2}$/\<close>.\<close>

definition isBase64 :: "string \<Rightarrow> bool" where
  "isBase64 s = (let body = takeWhile (\<lambda>c. c \<noteq> CHR ''='') s; pad = dropWhile (\<lambda>c. c \<noteq> CHR ''='') s in
     body \<noteq> [] \<and> list_all (\<lambda>c. c \<in> b64Alphabet) body \<and> list_all (\<lambda>c. c = CHR ''='') pad \<and> length pad \<le> 2)"

definition uploadImageDto :: "json \<Rightarrow> (string \<times> string \<times> string) result" where
  "uploadImageDto body =
     (let filename = jsonField body ''filename''; contentType = jsonField body ''contentType''; contents = jsonField body ''contentBase64'' in
      if knownFields [''filename'', ''contentType'', ''contentBase64''] body \<and> isText (\<lambda>s. length s \<le> 128) filename
        \<and> isText (\<lambda>s. s \<in> set LOGO_CONTENT_TYPES) contentType \<and> isText (\<lambda>s. length s \<le> 8000000 \<and> isBase64 s) contents
      then Inr (textOf filename, textOf contentType, textOf contents) else badRequest)"

definition postImage :: "(string \<Rightarrow> nat list) \<Rightarrow> (string \<Rightarrow> string \<Rightarrow> nat list \<Rightarrow> (string \<times> string) result) \<Rightarrow> int \<Rightarrow> json
    \<Rightarrow> (string \<times> string \<times> string) result" where
  "postImage decode64 pin now body = bindR (uploadImageDto (trimJson body)) (\<lambda>(filename, contentType, contents).
     uploadImage decode64 pin now filename contentType contents)"

text \<open>The wallet of the path: no session is asked for.\<close>

definition putProfile :: "body_env \<Rightarrow> bool \<Rightarrow> int \<Rightarrow> string \<Rightarrow> json \<Rightarrow> profile_row list \<times> profile_view timed
    \<Rightarrow> profile_view result \<times> profile_row list \<times> profile_view timed" where
  "putProfile benv up now walletAddress body s = (case updateProfileDto benv (trimJson body) of
     Inl e \<Rightarrow> (Inl e, s)
   | Inr (username, bio, imageUri) \<Rightarrow>
       updateProfile up now (trim walletAddress) \<lparr>pi_username = username, pi_bio = bio, pi_imageUri = imageUri\<rparr> s)"

definition getProfile :: "bool \<Rightarrow> int \<Rightarrow> rat \<Rightarrow> string \<Rightarrow> profile_row list \<Rightarrow> (profile_view timed \<Rightarrow> profile_view timed) \<Rightarrow> profile_view timed
    \<Rightarrow> profile_view result \<times> profile_view timed" where
  "getProfile up now u walletAddress rows meanwhile st = findProfile up now u (trim walletAddress) rows meanwhile st"

section \<open>Launching\<close>

text \<open>\<open>/^https:\/\/[^\s]+$/\<close>.\<close>

definition isHttps :: "string \<Rightarrow> bool" where
  "isHttps s \<longleftrightarrow> startsWith ''https://'' s \<and> drop 8 s \<noteq> [] \<and> list_all (\<lambda>c. \<not> isSpace c) (drop 8 s)"

text \<open>\<open>@ValidateNested\<close> enters lists.\<close>

fun tokenSocialsDto :: "json \<Rightarrow> bool" where
  "tokenSocialsDto NullJ \<longleftrightarrow> True"
| "tokenSocialsDto (ObjJ ms) \<longleftrightarrow> list_all (\<lambda>(k, x). k \<in> set SOCIALS \<and> isOptionalText isHttps (Some x)) ms"
| "tokenSocialsDto (ArrJ xs) \<longleftrightarrow> list_all tokenSocialsDto xs"
| "tokenSocialsDto _ \<longleftrightarrow> False"

text \<open>\<open>/^\d+(\.\d+)?$/\<close>.\<close>

definition isDecimalFraction :: "string \<Rightarrow> bool" where
  "isDecimalFraction s = (case splitChar CHR ''.'' s of [w] \<Rightarrow> isDecimal w | [w, f] \<Rightarrow> isDecimal w \<and> isDecimal f | _ \<Rightarrow> False)"

text \<open>\<open>/^ipfs:\/\/[a-zA-Z0-9]+/\<close>.\<close>

definition isIpfsUri :: "string \<Rightarrow> bool" where
  "isIpfsUri s \<longleftrightarrow> startsWith ''ipfs://'' s \<and> drop 7 s \<noteq> []
     \<and> (let c = hd (drop 7 s) in isDigit c \<or> (65 \<le> (of_char c :: nat) \<and> (of_char c :: nat) \<le> 90) \<or> (97 \<le> (of_char c :: nat) \<and> (of_char c :: nat) \<le> 122))"

definition prepareLaunchDto :: "(json \<Rightarrow> string) \<Rightarrow> json \<Rightarrow> launch_input result" where
  "prepareLaunchDto stored body =
     (let field = jsonField body in
      case field ''deadline'' of
        Some (NumJ d) \<Rightarrow>
          if knownFields [''creatorWalletAddress'', ''name'', ''symbol'', ''description'', ''imageUri'', ''socials'', ''totalSupply'',
              ''devBuyShareWad'', ''payoutPlan'', ''deadline''] body
            \<and> isText (isHexAddress isHex) (field ''creatorWalletAddress'') \<and> isText (\<lambda>s. 1 \<le> length s \<and> length s \<le> 80) (field ''name'')
            \<and> isText isSymbol (field ''symbol'') \<and> isText (\<lambda>s. 1 \<le> length s \<and> length s \<le> 8000) (field ''description'')
            \<and> isText isIpfsUri (field ''imageUri'') \<and> (case field ''socials'' of None \<Rightarrow> True | Some v \<Rightarrow> tokenSocialsDto v) \<and> isText isDecimal (field ''totalSupply'')
            \<and> isText isDecimalFraction (field ''devBuyShareWad'') \<and> isText isDecimal (field ''payoutPlan'')
            \<and> of_int \<lfloor>d\<rfloor> = d \<and> 0 \<le> d
          then Inr \<lparr>li_creatorWalletAddress = textOf (field ''creatorWalletAddress''), li_name = textOf (field ''name''),
            li_symbol = textOf (field ''symbol''), li_description = textOf (field ''description''), li_imageUri = textOf (field ''imageUri''),
            li_socials = storedJson stored (field ''socials''), li_totalSupply = textOf (field ''totalSupply''),
            li_devBuyShareWad = textOf (field ''devBuyShareWad''), li_payoutPlan = textOf (field ''payoutPlan''), li_deadline = \<lfloor>d\<rfloor>\<rparr>
          else badRequest
      | _ \<Rightarrow> badRequest)"

definition postPrepare :: "'h viem \<Rightarrow> (json \<Rightarrow> string) \<Rightarrow> prepare_env \<Rightarrow> json \<Rightarrow> 'h launch_db \<Rightarrow> ('h prepare_response \<times> 'h launch_db) result" where
  "postPrepare V stored env body db = bindR (prepareLaunchDto stored (trimJson body)) (\<lambda>input. prepare V env input db)"

definition relayLaunchDto :: "json \<Rightarrow> string result" where
  "relayLaunchDto body = (let launchId = jsonField body ''launchId'' in
     if knownFields [''launchId''] body \<and> isText (\<lambda>s. s \<noteq> []) launchId then Inr (textOf launchId) else badRequest)"

definition postRelay :: "'h viem \<Rightarrow> relay_env \<Rightarrow> ('h launch_db \<Rightarrow> 'h launch_db) \<Rightarrow> ('h launch_db \<Rightarrow> 'h launch_db) \<Rightarrow> json \<Rightarrow> string option \<Rightarrow> 'h launch_db
    \<Rightarrow> 'h relay_response reply result \<times> 'h launch_db \<times> (launch_config_input \<times> string \<times> int) option" where
  "postRelay V env reserved meanwhile body key db =
     (case bindR (relayLaunchDto (trimJson body)) (\<lambda>i. bindR (validateIdempotencyKey key) (\<lambda>k. Inr (i, k))) of
        Inl e \<Rightarrow> (Inl e, db, None)
      | Inr (i, k) \<Rightarrow> (case relay V env reserved meanwhile i k db of
          (Inl e, db', sent) \<Rightarrow> (Inl e, db', sent)
        | (Inr (r, replayed), db', sent) \<Rightarrow> (Inr \<lparr>rp_value = r, rp_replayed = replayed, rp_location = None\<rparr>, db', sent)))"

definition getLaunchRecord :: "(string \<Rightarrow> (string option \<times> (string \<times> string) option) option) \<Rightarrow> string \<Rightarrow> 'h launch_db
    \<Rightarrow> ('h launch_record \<times> (string option \<times> string \<times> string) option) result" where
  "getLaunchRecord joined launchId db = launchRecordOf joined (trim launchId) db"

section \<open>Accepted numbers\<close>

lemma bigIntText_decimal: "isDecimal s \<Longrightarrow> \<exists>n \<ge> 0. bigIntText s = Inr n"
  using bigIntText_digits [of s] by (simp add: isDecimal_def list_all_iff)

lemma parseWad_decimal:
  assumes "isDecimalFraction s"
  shows "\<exists>n \<ge> 0. parseWad s = Inr n"
proof -
  define parts where "parts = splitChar CHR ''.'' s"
  have p: "parts \<noteq> []" "isDecimal (hd parts)" "list_all isDigit (case parts of _ # f # _ \<Rightarrow> f | _ \<Rightarrow> [])"
    using assms unfolding isDecimalFraction_def parts_def [symmetric]
    by (cases parts rule: remdups_adj.cases; cases "tl (tl parts)"; auto simp: isDecimal_def)+
  have z: "list_all isDigit (take 18 (f @ replicate 18 CHR ''0''))" if "list_all isDigit f" for f
    using that by (auto simp: list_all_iff isDigit_def dest!: in_set_takeD)
  have "isDecimal (hd parts @ take 18 ((case parts of _ # f # _ \<Rightarrow> f | _ \<Rightarrow> []) @ replicate 18 CHR ''0''))"
    using p(2) z [OF p(3)] by (simp add: isDecimal_def)
  from bigIntText_decimal [OF this] show ?thesis by (simp add: parseWad_def parts_def Let_def)
qed

lemma isText_textOf: "isText P v \<Longrightarrow> P (textOf v)"
  by (auto simp: isText_def textOf_def split: option.splits json.splits)

text \<open>The numbers of an accepted launch always parse.\<close>

lemma prepareLaunchDto_numbers:
  assumes "prepareLaunchDto stored body = Inr input"
  shows "\<exists>supply \<ge> 0. bigIntText (li_totalSupply input) = Inr supply" "\<exists>share \<ge> 0. parseWad (li_devBuyShareWad input) = Inr share"
    "\<exists>plan \<ge> 0. bigIntText (li_payoutPlan input) = Inr plan" "0 \<le> li_deadline input"
proof -
  note a = assms [unfolded prepareLaunchDto_def Let_def]
  obtain d where d: "jsonField body ''deadline'' = Some (NumJ d)"
    using a by (cases "jsonField body ''deadline''"; cases "the (jsonField body ''deadline'')") (simp_all add: badRequest_def)
  have v: "isText isDecimal (jsonField body ''totalSupply'')" "isText isDecimalFraction (jsonField body ''devBuyShareWad'')"
      "isText isDecimal (jsonField body ''payoutPlan'')" "0 \<le> d"
    and i: "li_totalSupply input = textOf (jsonField body ''totalSupply'')" "li_devBuyShareWad input = textOf (jsonField body ''devBuyShareWad'')"
      "li_payoutPlan input = textOf (jsonField body ''payoutPlan'')" "li_deadline input = \<lfloor>d\<rfloor>"
    using a by (auto simp: d badRequest_def split: if_splits)
  show "\<exists>supply \<ge> 0. bigIntText (li_totalSupply input) = Inr supply" "\<exists>share \<ge> 0. parseWad (li_devBuyShareWad input) = Inr share"
    "\<exists>plan \<ge> 0. bigIntText (li_payoutPlan input) = Inr plan" "0 \<le> li_deadline input"
    using isText_textOf [OF v(1)] isText_textOf [OF v(2)] isText_textOf [OF v(3)] bigIntText_decimal parseWad_decimal v(4) i by simp_all
qed

lemma quoteQueryDto_amount:
  assumes "quoteQueryDto env query = Inr (sd, amount, chainId)"
  shows "\<exists>a \<ge> 0. bigIntText amount = Inr a"
proof -
  note a = assms [unfolded quoteQueryDto_def Let_def]
  obtain c where c: "optionalChain env query = Inr c" using a by (auto simp: bindR_eq_Inr_iff)
  obtain s where s: "named SIDES None query ''side'' = Some s" using a by (cases "named SIDES None query ''side''") (simp_all add: c badRequest_def)
  have "isText isDecimal (jsonField query ''amount'')" "amount = textOf (jsonField query ''amount'')"
    using a by (simp_all add: c s badRequest_def split: if_splits)
  then show ?thesis using isText_textOf [of isDecimal "jsonField query ''amount''"] bigIntText_decimal by simp
qed


text \<open>So an accepted launch of the wrong supply, or with a share above the cap, is refused by name and never by an exception of a parser.\<close>

lemma postPrepare_refuses:
  assumes "pe_books env (pe_chainId env) = Some hook" "prepareLaunchDto stored (trimJson body) = Inr input"
    and "bigIntText (li_totalSupply input) = Inr supply" "parseWad (li_devBuyShareWad input) = Inr share"
    and "supply \<noteq> FIXED_TOTAL_SUPPLY \<or> share > MAX_DEV_BUY_SHARE_WAD"
  shows "postPrepare V stored env body db
    = Inl (DomainException 400 (if supply \<noteq> FIXED_TOTAL_SUPPLY then ''SUPPLY_NOT_FIXED'' else ''DEV_BUY_ABOVE_CAP''))"
proof -
  obtain plan where "bigIntText (li_payoutPlan input) = Inr plan" using prepareLaunchDto_numbers(3) [OF assms(2)] by blast
  then show ?thesis using assms by (auto simp: postPrepare_def prepare_def Let_def)
qed

section \<open>Signing in over HTTP\<close>

lemma isHexLower_char: "isHexLower c \<Longrightarrow> isHex c \<and> \<not> isSpace c"
  by (auto simp: isHexLower_def isHex_def isSpace_def isDigit_def)

lemma nonzero_isHexAddress: "isNonzeroAddress w \<Longrightarrow> isHexAddress isHex w"
  by (auto simp: isNonzeroAddress_def isHexAddress_def list_all_iff dest: isHexLower_char)

lemma trim_ends:
  assumes "s \<noteq> []" "\<not> isSpace (hd s)" "\<not> isSpace (last s)"
  shows "trim s = s"
  using assms unfolding trim_def by (subst (1 2) dropWhile_eq_self_iff [THEN iffD2]) (auto simp: hd_rev)

lemma trim_nonceMessage: "trim (nonceMessage wallet nonce issuedAt) = nonceMessage wallet nonce issuedAt"
  by (rule trim_ends) (simp_all add: nonceMessage_def isSpace_def)

lemma length_nonceMessage: "length (nonceMessage wallet nonce issuedAt) = 152 + length wallet + length nonce + length issuedAt"
  by (simp add: nonceMessage_def)


definition nonceBody :: "string \<Rightarrow> json" where
  "nonceBody address = ObjJ [(''walletAddress'', StrJ address)]"

definition verifyBody :: "string \<Rightarrow> string \<Rightarrow> string \<Rightarrow> string \<Rightarrow> json" where
  "verifyBody address nonce signature message =
     ObjJ [(''walletAddress'', StrJ address), (''nonce'', StrJ nonce), (''signature'', StrJ signature), (''message'', StrJ message)]"

lemma nonceDto_body: "isNonzeroAddress (toLowerCase (trim address)) \<Longrightarrow> nonceDto (trimJson (nonceBody address)) = Inr (toLowerCase (trim address))"
  by (simp add: nonceDto_def nonceBody_def jsonField_def lowerText_def knownFields_def isText_def textOf_def nonzero_isHexAddress)

lemma verifyDto_body:
  "isNonzeroAddress (toLowerCase (trim address)) \<Longrightarrow> verifyDto (trimJson (verifyBody address nonce signature message))
     = Inr (toLowerCase (trim address), trim nonce, trim signature, trim message)"
  by (simp add: verifyDto_def verifyBody_def jsonField_def lowerText_def knownFields_def isText_def textOf_def nonzero_isHexAddress)

section \<open>Properties\<close>

text \<open>C8. Signing in completes: a wallet that asks for a nonce, in whatever case and surrounded by whatever space it writes its address,
  and within nine minutes sends back the message with a signature over it that verifies, is granted a session in its lower-case address,
  provided Redis answers and has not lost the nonce meanwhile; the guard then attaches this wallet to requests with the token for
  seven days, and the nonce is spent.\<close>

theorem sign_in_completes:
  assumes "isNonzeroAddress (toLowerCase (trim address))" and "isNonce nonce" and "length issuedAt \<le> 1000" and "0 \<le> u" "u < 1"
    and "postNonce True t0 u nonce issuedAt (nonceBody address) st = (answer, st1)"
    and "st2 (nonceKey (toLowerCase (trim address)) nonce) = st1 (nonceKey (toLowerCase (trim address)) nonce)"
    and "0 \<le> t" "t < t0 + 540"
    and "vm (toLowerCase (trim address)) (nonceMessage (toLowerCase (trim address)) nonce issuedAt) (trim signature) = Some True"
    and "\<forall>b. decode (toBase64 b) = b" and "now < t + 604800"
  shows "\<exists>message grant st3. answer = Inr (nonce, message)
    \<and> postVerify vm hmac secret True t (verifyBody address nonce signature message) st2 = (Inr grant, st3)
    \<and> sg_wallet grant = toLowerCase (trim address) \<and> st3 (nonceKey (toLowerCase (trim address)) nonce) = None
    \<and> walletGuard hmac decode secret now (OneHeader (''Bearer '' @ sg_token grant)) = Inr (Some (StrJ (toLowerCase (trim address))))"
proof -
  define w where "w = toLowerCase (trim address)"
  define message where "message = nonceMessage w nonce issuedAt"
  have w: "isNonzeroAddress w" "toLowerCase w = w" using assms(1) by (simp_all add: w_def)
  have issued: "answer = Inr (nonce, message)" "st1 = timedSet True st t0 u (nonceKey w nonce) message NONCE_TTL_SECONDS"
    using assms(6) w nonceDto_body [OF assms(1)] by (simp_all add: postNonce_def issueNonce_def Let_def w_def [symmetric] message_def)
  have "540 \<le> subtractiveJitter NONCE_TTL_SECONDS u"
    using subtractiveJitter_bounds [OF assms(4,5), of NONCE_TTL_SECONDS] by (simp add: NONCE_TTL_SECONDS_def)
  then have look: "timedGet True st2 t (nonceKey w nonce) = Some message"
    using assms(7,9) issued(2) by (simp add: w_def [symmetric] timedGet_def timedSet_def)
  have n: "trim nonce = nonce" using assms(2) isHexLower_char by (intro trim_plain) (auto simp: isNonce_def list_all_iff)
  have m: "trim message = message" by (simp add: message_def trim_nonceMessage)
  have len: "20 \<le> length message" "length message \<le> 2000"
    using assms(2,3) w(1) by (simp_all add: message_def length_nonceMessage isNonce_def isNonzeroAddress_def)
  let ?grant = "\<lparr>sg_token = signSession hmac t w (t + SESSION_TTL_SECONDS) secret, sg_wallet = w, sg_expiresIn = SESSION_TTL_SECONDS\<rparr>"
  have "verifyLookup True t w nonce st2 = Inr message" using w assms(2) look by (simp add: verifyLookup_def Let_def)
  then have "verify vm hmac secret True t w nonce (trim signature) message st2 = (Inr ?grant, timedDelete True st2 (nonceKey w nonce))"
    using w assms(10) by (simp add: verify_def verifyFinish_def Let_def w_def [symmetric] message_def)
  then have "postVerify vm hmac secret True t (verifyBody address nonce signature message) st2 = (Inr ?grant, timedDelete True st2 (nonceKey w nonce))"
    using len verifyDto_body [OF assms(1)] by (simp add: postVerify_def w_def [symmetric] n m)
  moreover have "walletGuard hmac decode secret now (OneHeader (''Bearer '' @ sg_token ?grant)) = Inr (Some (StrJ w))"
    using walletGuard_bearer [of t decode now hmac secret w] assms(8,11,12) by (simp add: SESSION_TTL_SECONDS_def)
  ultimately show ?thesis using issued(1) unfolding w_def [symmetric]
    by (intro exI [of _ message] exI [of _ ?grant] exI [of _ "timedDelete True st2 (nonceKey w nonce)"]) (simp add: timedDelete_def)
qed

definition shoutedAddress :: string where "shoutedAddress = ''0x'' @ replicate 40 CHR ''A'' @ '' ''"
definition quietAddress :: string where "quietAddress = ''0x'' @ replicate 40 CHR ''a''"

lemma quietAddress_ok: "toLowerCase (trim shoutedAddress) = quietAddress" "toLowerCase quietAddress = quietAddress" "isNonzeroAddress quietAddress"
  unfolding shoutedAddress_def quietAddress_def by code_simp+

text \<open>An address in capitals with a space behind it, and a nonce issued at second 0 and answered at 100.\<close>

theorem sign_in_completes_witness:
  "\<exists>grant st3. postVerify (\<lambda>_ _ s. Some (s = ''sig'')) (\<lambda>key data. rev key) ''secret'' True 100
      (verifyBody shoutedAddress exampleNonce ''sig'' (nonceMessage quietAddress exampleNonce ''now''))
      (snd (postNonce True 0 0 exampleNonce ''now'' (nonceBody shoutedAddress) Map.empty)) = (Inr grant, st3)
    \<and> sg_wallet grant = quietAddress"
proof -
  note q = quietAddress_ok
  have n: "isNonce exampleNonce" by (simp add: isNonce_def exampleNonce_def list_all_iff isHexLower_def isDigit_def)
  obtain answer st1 where p: "postNonce True 0 0 exampleNonce ''now'' (nonceBody shoutedAddress) Map.empty = (answer, st1)" by force
  have issued: "answer = Inr (exampleNonce, nonceMessage quietAddress exampleNonce ''now'')"
    using p nonceDto_body [of shoutedAddress] q by (simp add: postNonce_def issueNonce_def Let_def)
  have sig: "trim ''sig'' = ''sig''" by code_simp
  have "\<exists>message grant st3. answer = Inr (exampleNonce, message)
    \<and> postVerify (\<lambda>_ _ s. Some (s = ''sig'')) (\<lambda>key data. rev key) ''secret'' True 100 (verifyBody shoutedAddress exampleNonce ''sig'' message) st1
      = (Inr grant, st3)
    \<and> sg_wallet grant = toLowerCase (trim shoutedAddress) \<and> st3 (nonceKey (toLowerCase (trim shoutedAddress)) exampleNonce) = None
    \<and> walletGuard (\<lambda>key data. rev key) fromBase64 ''secret'' 200 (OneHeader (''Bearer '' @ sg_token grant))
      = Inr (Some (StrJ (toLowerCase (trim shoutedAddress))))"
    by (rule sign_in_completes [where ?st2.0 = st1, OF _ n _ _ _ p refl]) (simp_all add: q sig fromBase64_toBase64)
  then show ?thesis unfolding p snd_conv q issued by auto
qed

end
