(* ===== verification/Spec2Isabelle.thy ===== *)
theory Spec2Isabelle
  imports SwapMath TokenQuery Draining RateLimit Broadcaster ProtocolInfo EventTopics ChainAccess Keepers TokenCreation Profiles Requests ReadCache Handlers
begin

text \<open>
  Verification of the backend of the Spawn launchpad, the TypeScript program under \<open>src/src/\<close>.

  \<^bold>\<open>The program.\<close> Tokens are launched on a bonding curve of an on-chain hook contract, graduate into a ladder of milestone bands
  and pay out. The backend is an API (NestJS), a WebSocket broadcaster and an outbox worker over PostgreSQL, Redis and chain
  nodes; an indexer outside this repository fills the protocol tables. The API computes protocol quantities itself
  (\<open>protocol/\<close>), prepares and relays launches signed by a trusted operator (\<open>modules/launch/\<close>), answers token, trading, protocol and
  keeper reads (\<open>modules/tokens/\<close>, \<open>trading/\<close>, \<open>protocol/\<close>, \<open>keepers/\<close>), keeps comments, likes and profiles, and guards mutations with
  wallet sessions, idempotency keys and rate limits. Mutations write outbox rows; the worker turns them into cache generations
  that invalidate cached listings; database notifications become live ticks and bars of the broadcaster.

  \<^bold>\<open>How code becomes definitions.\<close> \<open>bigint\<close> values and \<open>number\<close> values used as safe integers are \<open>int\<close> (the source has no fixed-width
  arithmetic of its own; its 256-bit bounds are explicit comparisons and are kept as such), decimals are \<open>rat\<close>. A thrown exception is
  \<open>Inl\<close> of a value of \<open>exn\<close>, so every \<open>throw\<close> is a branch. Tables are lists of records and maps, Redis and the in-process
  caches are maps with expiry times, sockets and timers are fields of a state record. A handler that awaits is split there: it takes
  a function on the state (\<open>meanwhile\<close>, \<open>before\<close>, \<open>after\<close>) which stands for whatever other requests commit in between, or
  it becomes two steps of an \<open>inductive\<close> run relation; the invariants are proved over every such interleaving. Code that is not in the repository
  (viem hashing and encoding, HMAC, base64 decoding, signature recovery, chain nodes, metadata storage, raw SQL answers, JavaScript's \<open>Number()\<close>
  on text) is an argument of the definitions, and what a theorem needs of it is a named hypothesis with a concrete instance in its
  witness (for example \<open>collisionFree\<close> and \<open>symbolicViem\<close>).

  \<^bold>\<open>Protocol arithmetic.\<close>
  \<^item> \<open>TickMath\<close>, \<open>TickLog\<close>: \<open>protocol/tick-math.ts\<close>. The tick of a price is the greatest tick not above it, ticks and prices
    round trip, and the price function is strictly increasing within its bounds; the locale \<open>price_axis\<close> states what the other
    components use of the pair of functions and is interpreted on them.
  \<^item> \<open>ProtocolMath\<close>, \<open>Geometry\<close>, \<open>SwapMath\<close>: \<open>protocol/protocol-math.ts\<close>. Integer square root, rounding division, valuations
    and the opening level; curve positions and ladder bands (closed form against step-by-step schedule, disjointness, partition of the
    supply); the pre-launch quote, which answers for every purchase the curve covers.
  \<^item> \<open>LaunchSignature\<close>: the EIP-712 hashes of the same file; equal digests mean equal configurations.
  \<^item> \<open>Decimal\<close>, \<open>Json\<close>, \<open>Common\<close>: decimal text, JSON values and the helpers of \<open>common/\<close>.

  \<^bold>\<open>Launches and deployments.\<close>
  \<^item> \<open>Deployment\<close>, \<open>ChainAccess\<close>: \<open>infrastructure/blockchain/\<close> (manifest schema, address books, registry with its reloads, chain
    clients and contract handles). A registered book is well typed and belongs to its chain.
  \<^item> \<open>ProtocolRead\<close>: \<open>protocol-read.service.ts\<close>. The five caches are interpretations of the locale \<open>timed_cache\<close>; a cached
    answer is one the chain gave for the same chain and pool within the time to live plus the longest read.
  \<^item> \<open>EventTopics\<close>: the table of events and its indexes; decoding a log is unambiguous.
  \<^item> \<open>Launch\<close>: \<open>launch-prepare\<close>, \<open>launch-relay\<close> and \<open>launch-query.service.ts\<close>. \<open>launchReachable\<close> closes the database under preparations, relays,
    receipts and confirmations; what the operator signs is what was prepared, and the payout plan check has its every outcome stated.
    The theorem below joins it with the registry.
  \<^item> \<open>TokenCreation\<close>: \<open>token-creation.service.ts\<close>; a key creates at most one token and its replays name that token, under every
    interleaving at the awaits.

  \<^bold>\<open>Reads.\<close>
  \<^item> \<open>Trading\<close>, \<open>Ledger\<close>: \<open>trading.service.ts\<close> and \<open>price.ts\<close> (price, quote, maximum buy, depth; profit ledger, holders, the coalescing
    quote cache). The search for the maximum buy runs its six doublings and twelve halvings, the bounds of the source, and is accurate within them.
  \<^item> \<open>Candles\<close>, \<open>TokenQuery\<close>: \<open>token-query.service.ts\<close> (candles, lists, cards, milestones, trades, revenue). Consecutive candles join;
    the ranking by next payout is sorted and complete.
  \<^item> \<open>ReadCache\<close>: the cached reads of \<open>token-query.service.ts\<close> and of the holders, and the detail of a token. The locale \<open>read_cache\<close> (a key
    names its query) is interpreted on the list, the board, the trades and the holders, whose answers are fresh; the key of the detail
    breaks it, and a lemma shows the answer that crosses chains.
  \<^item> \<open>ProtocolInfo\<close>, \<open>Keepers\<close>: \<open>protocol.service.ts\<close> and \<open>keepers.service.ts\<close>; an offered keeper job is backed by the tables.

  \<^bold>\<open>Community data and its caches.\<close>
  \<^item> \<open>Cache\<close>, \<open>Outbox\<close>: \<open>redis-domain-cache.ts\<close> and \<open>outbox-dispatcher.ts\<close>. The generation of a domain is the maximum of the applied
    ones (locale \<open>generation_store\<close>); a dispatched batch has its outcome for every row.
  \<^item> \<open>CommentStore\<close>, \<open>Comments\<close>, \<open>Draining\<close>: \<open>modules/comments/\<close>. Counters equal what they count; creation is idempotent; a cached listing is
    the listing of its generation (locale \<open>versioned_source\<close>, interpreted on the comment store); with dispatching rounds the outbox drains
    and the generations catch up.
  \<^item> \<open>Profiles\<close>: \<open>profiles.service.ts\<close> and \<open>featured-tokens.service.ts\<close>; user names stay unique.

  \<^bold>\<open>Edge of the API.\<close>
  \<^item> \<open>Auth\<close>, \<open>RateLimit\<close>: \<open>infrastructure/auth/\<close> and \<open>infrastructure/rate-limit/\<close>; a session is issued only for a signature over an
    issued and unused nonce, and the limiter refines fixed windows.
  \<^item> \<open>Environment\<close>: the schema of \<open>config/\<close>. \<open>Requests\<close>: canonical IPFS URIs, the creation body, logo uploads, problem documents,
    readiness and the RPC proxy.
  \<^item> \<open>Endpoints\<close>: the guard, pipe, bodies and mutating handlers of \<open>modules/comments/\<close>; the two state machines of \<open>Auth\<close> and \<open>Comments\<close> side by
    side, in which nobody acts for a wallet that did not sign in.
  \<^item> \<open>Queries\<close>: the query classes and the read handlers of tokens, trading, launches, comments and profiles; a client that walks the pages sees
    everything once, and answers are bounded. \<open>Handlers\<close>: sign-in, token registration, logos, profiles and launches from the body on.
  \<^item> \<open>Broadcaster\<close>: \<open>trading/broadcaster.ts\<close>; the bar of a pool aggregates exactly the trades since it opened.

  \<^bold>\<open>Termination.\<close> Every definition is total. Loops are structural or carry a measure (\<open>isqrtLoop\<close>, \<open>devBuyLoop\<close>, \<open>candleLoop\<close>); no
  theorem rests on a bound the source does not have, and \<open>Draining\<close> states explicitly how many rounds are enough.

  \<^bold>\<open>Not modelled.\<close> The controllers of protocol information and keepers declare no query class and pass their query on to services that
  are modelled on every value; dependency-injection modules hold no logic; process bootstraps, connection handling and logging are I/O;
  the metadata storage adapters only call external services, whose answer the launch and creation models take as an argument;
  \<open>request-hash.ts\<close> is SHA-256 of a canonical text and a parameter; contract ABIs are generated data; the scripts move files and rows
  around the modelled manifest schema. Query classes are modelled on their declared members; how the validator library treats a
  query named like an accessor of a class (\<open>skip\<close>) is left out. SQL text is modelled by what the query means on the tables, except
  where the source builds it from unchecked text (\<open>CommentStore\<close>, \<open>ProtocolInfo\<close>, \<open>Queries\<close>), where the text itself is kept.
\<close>

section \<open>Launches and the registry of deployments\<close>

text \<open>The hook of a chain, as the launch services ask the registry for it.\<close>

definition registryHooks :: "(string \<Rightarrow> string option) \<Rightarrow> (json \<Rightarrow> rat option) \<Rightarrow> (int \<times> json) list list \<Rightarrow> int \<Rightarrow> string option" where
  "registryHooks environ number loads chainId =
     (let books = fold (loadAll environ number) loads Map.empty in
      if \<not> hasChain books chainId then None
      else case bookOf books chainId of Inr b \<Rightarrow> Some (ab_hook b) | Inl _ \<Rightarrow> None)"

lemma registryHooks_eq: "registryHooks environ number loads chainId = map_option ab_hook (fold (loadAll environ number) loads Map.empty chainId)"
  by (simp add: registryHooks_def Let_def hasChain_def bookOf_def split: option.split)

lemma registryHooks_Some:
  assumes "registryHooks environ number loads chainId = Some hook"
  obtains b where "fold (loadAll environ number) loads Map.empty chainId = Some b" "hook = ab_hook b" "ab_chainId b = chainId" "addressOk hook"
    "\<forall>raw. environ ''SPAWN_HOOK_ADDRESS'' = Some raw \<longrightarrow> trim raw \<noteq> [] \<longrightarrow> hook = toLowerCase (trim raw)"
proof -
  obtain b where b: "fold (loadAll environ number) loads Map.empty chainId = Some b" "hook = ab_hook b"
    using assms unfolding registryHooks_eq by (auto simp: map_option_eq_Some)
  moreover have "addressOk (ab_hook b)" if "bookOk b" using that by (simp add: bookOk_def bookAddresses_def)
  ultimately show ?thesis using that reloads_ok [of environ number loads] unfolding registryOk_def by blast
qed


definition sampleHooks :: "int \<Rightarrow> string option" where
  "sampleHooks = registryHooks Map.empty sampleNumber [[(8453, sampleManifest)]]"

lemma sampleHooks_value: "sampleHooks 8453 = Some (''0x'' @ replicate 40 CHR ''a'')"
  using sample_book by (auto simp: sampleHooks_def registryHooks_eq map_option_eq_Some)

lemma sample_prepared_registry:
  "\<exists>response r keys. prepare symbolicViem (samplePrepare\<lparr>pe_books := sampleHooks\<rparr>) sampleInput \<lparr>ld_records = [], ld_idempotency = Map.empty\<rparr>
     = Inr (response, \<lparr>ld_records = [r], ld_idempotency = keys\<rparr>) \<and> lr_chainId r = 8453"
  by (simp only: prepare_def samplePrepare_def sampleInput_def Let_def sample_texts sample_levels sampleHooks_value validatePayoutPlan_def
      prepare_env.simps launch_input.simps template_view.simps option.case bindR_Inr FIXED_TOTAL_SUPPLY_def MAX_DEV_BUY_SHARE_WAD_def)
    (simp add: launchConfigHash_def launchDigest_def symbolicViem_def upsertLaunch_def findByConfig_def)


section \<open>Token creation as the client sees it\<close>

text \<open>Of two requests with one key that both looked the key up before either reserved it, the loser answers an internal error
  and not the replay or the conflict of the winner.\<close>

lemma concurrent_creation_is_internal_error:
  assumes "replayCreated db (toLowerCase (ct_creatorWalletAddress input)) key (ce_hash env input) = Inr None"
    and "cd_idempotency (before db) (TOKEN_SCOPE, toLowerCase (ct_creatorWalletAddress input), key) = Some row"
  shows "\<exists>e. fst (create env before uploading after input key db) = Inl e
    \<and> pd_status (catch statusName rid uuid url (thrownOf explain e)) = 500"
  using concurrent_reservation_unhandled [of db input key env before row] assms
  by (simp add: catch_def Let_def thrownOf_def thrownStatus_def)

end
